(* ===== verification/Prelude.thy ===== *)
theory Prelude
  imports Main
begin

text \<open>
  Shared ground of the development: the theorem collections the component proofs draw on, the
  interfaces (locales) that more than one component implements, and generic lemmas on lists and
  options.

  \<^item> \<open>reach\<close> and the locale \<open>inv_system\<close>: reachable states of a step relation and invariants.
    The worker dispatcher, the job scheduler and the token session pool interpret it.
  \<^item> \<open>ranked_system\<close>: a step relation with a quantity that can always be driven to zero.
  \<^item> \<open>normal_codec\<close>, \<open>codec\<close> and \<open>canonical_codec\<close>: an encoder with a partial decoder that undoes it; in the
    canonical case no two encodings are accepted for one value. Base64, percent-encoding and
    hexadecimal interpret it.
\<close>

named_theorems opdefs \<open>definitions of the modelled operations, unfolded by the component proofs\<close>
named_theorems state_rules \<open>what an operation does to the fields of a state\<close>

subsection \<open>Step relations and invariants\<close>

inductive reach :: "('s \<Rightarrow> bool) \<Rightarrow> ('s \<Rightarrow> 's \<Rightarrow> bool) \<Rightarrow> 's \<Rightarrow> bool"
  for init :: "'s \<Rightarrow> bool" and step :: "'s \<Rightarrow> 's \<Rightarrow> bool" where
  reach_init: "init s \<Longrightarrow> reach init step s"
| reach_step: "reach init step s \<Longrightarrow> step s t \<Longrightarrow> reach init step t"

locale inv_system =
  fixes init :: "'s \<Rightarrow> bool" and step :: "'s \<Rightarrow> 's \<Rightarrow> bool" and inv :: "'s \<Rightarrow> bool"
  assumes inv_init: "init s \<Longrightarrow> inv s"
    and inv_step: "step s t \<Longrightarrow> inv s \<Longrightarrow> inv t"
begin

lemma inv_reach: "reach init step s \<Longrightarrow> inv s"
  by (induction rule: reach.induct) (auto intro: inv_init inv_step)

lemma inv_steps: "step\<^sup>*\<^sup>* s t \<Longrightarrow> inv s \<Longrightarrow> inv t"
  by (induction rule: rtranclp_induct) (auto intro: inv_step)

end

text \<open>
  A quantity that no step raises and that some step lowers while it is positive: zero is reached.
\<close>

locale ranked_system =
  fixes step :: "'s \<Rightarrow> 's \<Rightarrow> bool" and inv :: "'s \<Rightarrow> bool" and rank :: "'s \<Rightarrow> nat"
  assumes keeps: "step s t \<Longrightarrow> inv s \<Longrightarrow> inv t"
    and progress: "inv s \<Longrightarrow> 0 < rank s \<Longrightarrow> \<exists>t. step s t \<and> rank t < rank s"
    and no_raise: "step s t \<Longrightarrow> inv s \<Longrightarrow> rank t \<le> rank s"
begin

lemma keeps_steps: "step\<^sup>*\<^sup>* s t \<Longrightarrow> inv s \<Longrightarrow> inv t"
  by (induction rule: rtranclp_induct) (auto intro: keeps)

lemma rank_zero_reachable: "inv s \<Longrightarrow> \<exists>t. step\<^sup>*\<^sup>* s t \<and> inv t \<and> rank t = 0"
proof (induction "rank s" arbitrary: s rule: less_induct)
  case less
  show ?case
  proof (cases "rank s = 0")
    case True
    with less.prems show ?thesis by blast
  next
    case False
    then obtain t where t: "step s t" "rank t < rank s"
      using progress less.prems by blast
    then obtain u where "step\<^sup>*\<^sup>* t u" "inv u" "rank u = 0"
      using less.hyps keeps less.prems by blast
    then show ?thesis
      using t(1) by (meson converse_rtranclp_into_rtranclp)
  qed
qed

lemma rank_mono: "step\<^sup>*\<^sup>* s t \<Longrightarrow> inv s \<Longrightarrow> rank t \<le> rank s"
proof (induction rule: rtranclp_induct)
  case (step t u)
  then have "inv t" by (blast intro: keeps_steps)
  with step show ?case by (meson no_raise order_trans)
qed simp

end

subsection \<open>Encoders and decoders\<close>

text \<open>
  \<open>normal_codec\<close>: the decoder accepts more than the encoder writes (optional spaces, unknown
  attributes, other orders), but what it returns is valid and survives re-encoding.
\<close>

locale normal_codec =
  fixes valid :: "'a \<Rightarrow> bool" and encode :: "'a \<Rightarrow> 'b" and decode :: "'b \<Rightarrow> 'a option"
  assumes decode_encode_valid: "valid x \<Longrightarrow> decode (encode x) = Some x"
    and decode_valid: "decode y = Some x \<Longrightarrow> valid x"
begin

lemma renormalise: "decode y = Some x \<Longrightarrow> decode (encode x) = Some x"
  by (rule decode_encode_valid[OF decode_valid])

lemma encode_inj_valid: "valid x \<Longrightarrow> valid y \<Longrightarrow> encode x = encode y \<Longrightarrow> x = y"
  by (metis decode_encode_valid option.inject)

lemma image_valid: "(\<exists>y. decode y = Some x) \<longleftrightarrow> valid x"
  using decode_encode_valid decode_valid by blast

end

locale codec =
  fixes encode :: "'a \<Rightarrow> 'b" and decode :: "'b \<Rightarrow> 'a option"
  assumes decode_encode: "decode (encode x) = Some x"
begin

lemma encode_eq_iff: "encode x = encode y \<longleftrightarrow> x = y"
  by (metis decode_encode option.inject)

end

sublocale codec \<subseteq> normal_codec "\<lambda>_. True" encode decode
  by unfold_locales (simp_all add: decode_encode)

locale canonical_codec = codec +
  assumes encode_decode: "decode y = Some x \<Longrightarrow> encode x = y"
begin

lemma decode_iff: "decode y = Some x \<longleftrightarrow> y = encode x"
  using decode_encode encode_decode by blast

lemma decode_inj: "decode y = Some x \<Longrightarrow> decode z = Some x \<Longrightarrow> y = z"
  by (auto simp: decode_iff)

end

subsection \<open>Generic lemmas\<close>

lemma int_length_remove1: "x \<in> set xs \<Longrightarrow> int (length (remove1 x xs)) = int (length xs) - 1"
  by (induction xs) auto

lemma length_filter_eq_count: "length (filter ((=) x) xs) = count_list xs x"
  by (induction xs) auto

lemma map_of_filter_neq:
  "map_of (filter (\<lambda>p. fst p \<noteq> k) xs) = (map_of xs)(k := None)"
  by (induction xs) auto

end
