(* ===== verification/Workers.thy ===== *)
theory Workers
  imports Prelude
begin

text \<open>
  The task dispatcher of \<^verbatim>\<open>tools/workers/workers.go\<close>. The package keeps its state in globals
  guarded by one mutex; every function that takes the mutex is one definition on the record of
  those globals. A producer parked in \<open>stateChanged.Wait()\<close> is the value \<open>None\<close> (\<open>AddTask\<close>) or
  \<open>Parked\<close> (\<open>nextTask\<close>). A \<open>*workerRun\<close> is its allocation number, its fields are in \<open>runs\<close>.
  The step relation \<open>wstep\<close> interleaves client calls, the dispatcher goroutine of each run and the
  task goroutines at the granularity of the critical sections.
\<close>

subsection \<open>State\<close>

record workerRun =
  done_closed :: bool
  stop_closed :: bool
  stopping :: bool

record 'a workers =
  queue :: "'a list"
  workersLimit :: int
  activeTasks :: int
  activeRun :: "nat option"
  stopSignal :: "nat option"
  flagRunning :: bool
  parallelism :: bool
  runs :: "nat \<Rightarrow> workerRun"
  next_run :: nat
  panicked :: bool

definition fresh_run :: workerRun where
  "fresh_run = \<lparr>done_closed = False, stop_closed = False, stopping = False\<rparr>"

text \<open>Package initialisation; \<open>cpus\<close> is \<open>runtime.NumCPU()\<close>.\<close>

definition workers_init :: "int \<Rightarrow> 'a workers" where
  "workers_init cpus = \<lparr>queue = [], workersLimit = cpus, activeTasks = 0, activeRun = None,
     stopSignal = None, flagRunning = False, parallelism = True, runs = (\<lambda>_. fresh_run),
     next_run = 0, panicked = False\<rparr>"

subsection \<open>Operations\<close>

definition SetWorkersLimit :: "int \<Rightarrow> 'a workers \<Rightarrow> 'a workers" where
  "SetWorkersLimit limit w = w\<lparr>workersLimit := limit\<rparr>"

definition SetParallelism :: "bool \<Rightarrow> 'a workers \<Rightarrow> 'a workers" where
  "SetParallelism parallel w = w\<lparr>parallelism := parallel\<rparr>"

definition AddTask :: "'a \<Rightarrow> 'a workers \<Rightarrow> 'a workers option" where
  "AddTask task w =
     (if workersLimit w \<le> int (length (queue w)) then None
      else Some (w\<lparr>queue := queue w @ [task]\<rparr>))"

text \<open>Closing a closed channel panics.\<close>

definition close_stop :: "nat \<Rightarrow> 'a workers \<Rightarrow> 'a workers" where
  "close_stop r w = (if stop_closed (runs w r) then w\<lparr>panicked := True\<rparr>
     else w\<lparr>runs := (runs w)(r := (runs w r)\<lparr>stop_closed := True\<rparr>)\<rparr>)"

definition close_done :: "nat \<Rightarrow> 'a workers \<Rightarrow> 'a workers" where
  "close_done r w = (if done_closed (runs w r) then w\<lparr>panicked := True\<rparr>
     else w\<lparr>runs := (runs w)(r := (runs w r)\<lparr>done_closed := True\<rparr>)\<rparr>)"

definition signalStop :: "'a workers \<Rightarrow> nat option \<times> 'a workers" where
  "signalStop w =
     (case activeRun w of
        None \<Rightarrow> (None, w\<lparr>flagRunning := False, stopSignal := None\<rparr>)
      | Some r \<Rightarrow>
          (Some r,
           if stopping (runs w r) then w
           else close_stop r (w\<lparr>runs := (runs w)(r := (runs w r)\<lparr>stopping := True\<rparr>)\<rparr>)))"

definition RunWorkers :: "'a workers \<Rightarrow> nat option \<times> 'a workers" where
  \<comment> \<open>the first component is the run whose \<open>dispatch\<close> goroutine the call started\<close>
  "RunWorkers w =
     (if activeRun w \<noteq> None then (None, w)
      else let r = next_run w in
        (Some r, w\<lparr>runs := (runs w)(r := fresh_run), next_run := Suc r, activeRun := Some r,
                   stopSignal := Some r, flagRunning := True\<rparr>))"

datatype 'a next_task = Parked | Stopped | Handed 'a

definition nextTask :: "nat \<Rightarrow> 'a workers \<Rightarrow> 'a next_task \<times> 'a workers" where
  "nextTask r w =
     (if \<not> stopping (runs w r) \<and> (queue w = [] \<or> workersLimit w \<le> activeTasks w) then (Parked, w)
      else if stopping (runs w r) then (Stopped, w)
      else (Handed (hd (queue w)),
            w\<lparr>queue := tl (queue w), activeTasks := activeTasks w + 1\<rparr>))"

definition releaseExecutionSlot :: "'a workers \<Rightarrow> 'a workers" where
  "releaseExecutionSlot w = w\<lparr>activeTasks := activeTasks w - 1\<rparr>"

text \<open>\<open>finishRun\<close> is its critical section followed by the close of \<open>run.done\<close> outside the lock.\<close>

definition finishRun_locked :: "nat \<Rightarrow> 'a workers \<Rightarrow> 'a workers" where
  "finishRun_locked r w =
     (if activeRun w = Some r
      then w\<lparr>activeRun := None, stopSignal := None, flagRunning := False\<rparr> else w)"

definition finishRun :: "nat \<Rightarrow> 'a workers \<Rightarrow> 'a workers" where
  "finishRun r w = close_done r (finishRun_locked r w)"

lemmas worker_ops [opdefs] =
  SetWorkersLimit_def SetParallelism_def AddTask_def close_stop_def close_done_def signalStop_def
  RunWorkers_def nextTask_def releaseExecutionSlot_def finishRun_locked_def fresh_run_def

subsection \<open>Threads\<close>

text \<open>
  Program counter of a \<open>dispatch\<close> goroutine: about to call \<open>nextTask\<close>; holding a task before the
  test of \<open>parallelism\<close>; executing a task itself; returned from the loop, before the locked part
  of the deferred \<open>finishRun\<close>; before the close of \<open>run.done\<close>; ended. \<open>DNone\<close>: not started.
\<close>

datatype 'a dispatch_pc = DNone | DLoop | DTask 'a | DSeq 'a | DExit | DClosing | DDone

text \<open>
  Program counter of a client: outside the package; inside \<open>AddTask\<close>; in \<open>StopWorkers\<close> waiting on
  \<open>run.done\<close> (the flag: called by \<open>RestartWorkers\<close>); in \<open>RestartWorkers\<close> before \<open>RunWorkers\<close>.
\<close>

datatype 'a client_pc = CIdle | CAdd 'a | CStopWait nat bool | CRestart

record 'a wsys =
  glob :: "'a workers"
  dpc :: "nat \<Rightarrow> 'a dispatch_pc"
  clients :: "nat \<Rightarrow> 'a client_pc"
  spawned :: "'a list" \<comment> \<open>tasks in their own \<open>executeTask\<close> goroutine\<close>
  added :: "'a list" \<comment> \<open>history: tasks accepted by \<open>AddTask\<close>, in order\<close>
  started :: "'a list" \<comment> \<open>history: tasks handed out by \<open>nextTask\<close>, in order\<close>

definition wsys_init :: "'a wsys \<Rightarrow> bool" where
  "wsys_init s \<longleftrightarrow> (\<exists>cpus. s = \<lparr>glob = workers_init cpus, dpc = (\<lambda>_. DNone),
     clients = (\<lambda>_. CIdle), spawned = [], added = [], started = []\<rparr>)"

definition start_dispatch :: "nat option \<Rightarrow> (nat \<Rightarrow> 'a dispatch_pc) \<Rightarrow> nat \<Rightarrow> 'a dispatch_pc" where
  "start_dispatch r pcs = (case r of None \<Rightarrow> pcs | Some i \<Rightarrow> pcs(i := DLoop))"

inductive wstep :: "'a wsys \<Rightarrow> 'a wsys \<Rightarrow> bool" where
  set_limit: "wstep s (s\<lparr>glob := SetWorkersLimit n (glob s)\<rparr>)"
| set_parallelism: "wstep s (s\<lparr>glob := SetParallelism b (glob s)\<rparr>)"
| add_call: "clients s c = CIdle \<Longrightarrow> wstep s (s\<lparr>clients := (clients s)(c := CAdd t)\<rparr>)"
| add_done: "clients s c = CAdd t \<Longrightarrow> AddTask t (glob s) = Some w \<Longrightarrow>
    wstep s (s\<lparr>glob := w, clients := (clients s)(c := CIdle), added := added s @ [t]\<rparr>)"
| stop_call: "clients s c = CIdle \<Longrightarrow> signalStop (glob s) = (Some r, w) \<Longrightarrow>
    wstep s (s\<lparr>glob := w, clients := (clients s)(c := CStopWait r b)\<rparr>)"
| stop_none: "clients s c = CIdle \<Longrightarrow> signalStop (glob s) = (None, w) \<Longrightarrow>
    wstep s (s\<lparr>glob := w, clients := (clients s)(c := (if b then CRestart else CIdle))\<rparr>)"
| stop_return: "clients s c = CStopWait r b \<Longrightarrow> done_closed (runs (glob s) r) \<Longrightarrow>
    wstep s (s\<lparr>clients := (clients s)(c := (if b then CRestart else CIdle))\<rparr>)"
| run_call: "clients s c \<in> {CIdle, CRestart} \<Longrightarrow> RunWorkers (glob s) = (r, w) \<Longrightarrow>
    wstep s (s\<lparr>glob := w, clients := (clients s)(c := CIdle), dpc := start_dispatch r (dpc s)\<rparr>)"
| take_task: "dpc s r = DLoop \<Longrightarrow> nextTask r (glob s) = (Handed t, w) \<Longrightarrow>
    wstep s (s\<lparr>glob := w, dpc := (dpc s)(r := DTask t), started := started s @ [t]\<rparr>)"
| take_stopped: "dpc s r = DLoop \<Longrightarrow> nextTask r (glob s) = (Stopped, w) \<Longrightarrow>
    wstep s (s\<lparr>glob := w, dpc := (dpc s)(r := DExit)\<rparr>)"
| run_parallel: "dpc s r = DTask t \<Longrightarrow> parallelism (glob s) \<Longrightarrow>
    wstep s (s\<lparr>dpc := (dpc s)(r := DLoop), spawned := t # spawned s\<rparr>)"
| run_sequential: "dpc s r = DTask t \<Longrightarrow> \<not> parallelism (glob s) \<Longrightarrow>
    wstep s (s\<lparr>dpc := (dpc s)(r := DSeq t)\<rparr>)"
| sequential_done: "dpc s r = DSeq t \<Longrightarrow>
    wstep s (s\<lparr>glob := releaseExecutionSlot (glob s), dpc := (dpc s)(r := DLoop)\<rparr>)"
| parallel_done: "t \<in> set (spawned s) \<Longrightarrow>
    wstep s (s\<lparr>glob := releaseExecutionSlot (glob s), spawned := remove1 t (spawned s)\<rparr>)"
| finish_locked: "dpc s r = DExit \<Longrightarrow>
    wstep s (s\<lparr>glob := finishRun_locked r (glob s), dpc := (dpc s)(r := DClosing)\<rparr>)"
| finish_close: "dpc s r = DClosing \<Longrightarrow>
    wstep s (s\<lparr>glob := close_done r (glob s), dpc := (dpc s)(r := DDone)\<rparr>)"


subsection \<open>Invariant\<close>

text \<open>A dispatcher is live until \<open>finishRun\<close> has cleared the globals.\<close>

fun live :: "'a dispatch_pc \<Rightarrow> bool" where
  "live DNone = False"
| "live DClosing = False"
| "live DDone = False"
| "live _ = True"

fun holds_slot :: "'a dispatch_pc \<Rightarrow> bool" where
  "holds_slot (DTask _) = True"
| "holds_slot (DSeq _) = True"
| "holds_slot _ = False"

fun leaving :: "'a dispatch_pc \<Rightarrow> bool" where
  "leaving DExit = True"
| "leaving DClosing = True"
| "leaving DDone = True"
| "leaving _ = False"

fun waits_on :: "'a client_pc \<Rightarrow> nat option" where
  "waits_on (CStopWait r _) = Some r"
| "waits_on _ = None"

text \<open>Slots held by the dispatcher itself: at most one, by the run that is active.\<close>

definition dispatcher_slots :: "'a wsys \<Rightarrow> int" where
  "dispatcher_slots s = (case activeRun (glob s) of None \<Rightarrow> 0
     | Some r \<Rightarrow> (if holds_slot (dpc s r) then 1 else 0))"

definition runs_inv :: "'a wsys \<Rightarrow> bool" where
  "runs_inv s \<longleftrightarrow>
     (\<forall>r. live (dpc s r) \<longleftrightarrow> activeRun (glob s) = Some r)
   \<and> (\<forall>r. r < next_run (glob s) \<longleftrightarrow> dpc s r \<noteq> DNone)
   \<and> flagRunning (glob s) = (activeRun (glob s) \<noteq> None)
   \<and> stopSignal (glob s) = activeRun (glob s)"

definition chan_inv :: "'a wsys \<Rightarrow> bool" where
  "chan_inv s \<longleftrightarrow> \<not> panicked (glob s)
   \<and> (\<forall>r. done_closed (runs (glob s) r) \<longleftrightarrow> dpc s r = DDone)
   \<and> (\<forall>r. stop_closed (runs (glob s) r) \<longleftrightarrow> stopping (runs (glob s) r))
   \<and> (\<forall>r. leaving (dpc s r) \<longrightarrow> stopping (runs (glob s) r))
   \<and> (\<forall>c r. waits_on (clients s c) = Some r \<longrightarrow> stopping (runs (glob s) r) \<and> dpc s r \<noteq> DNone)"

definition tasks_inv :: "'a wsys \<Rightarrow> bool" where
  "tasks_inv s \<longleftrightarrow> added s = started s @ queue (glob s)
   \<and> activeTasks (glob s) = int (length (spawned s)) + dispatcher_slots s"

definition workers_inv :: "'a wsys \<Rightarrow> bool" where
  "workers_inv s \<longleftrightarrow> runs_inv s \<and> chan_inv s \<and> tasks_inv s"

lemmas wstep_splits = if_splits option.splits

lemma signalStop_frame:
  assumes "signalStop w = (r, w')"
  shows "queue w' = queue w" and "activeTasks w' = activeTasks w"
    and "activeRun w' = activeRun w" and "next_run w' = next_run w"
    and "workersLimit w' = workersLimit w" and "r = activeRun w"
  using assms by (auto simp: signalStop_def close_stop_def split: wstep_splits)

lemma next_run_dpc [simp]: "runs_inv s \<Longrightarrow> dpc s (next_run (glob s)) = DNone"
  by (metis less_irrefl runs_inv_def)

lemma dpc_activeRun:
  assumes "runs_inv s"
  shows "dpc s r = DLoop \<Longrightarrow> activeRun (glob s) = Some r"
    and "dpc s r = DTask x \<Longrightarrow> activeRun (glob s) = Some r"
    and "dpc s r = DSeq x \<Longrightarrow> activeRun (glob s) = Some r"
    and "dpc s r = DExit \<Longrightarrow> activeRun (glob s) = Some r"
    and "dpc s r = DClosing \<Longrightarrow> activeRun (glob s) \<noteq> Some r"
    and "dpc s r = DDone \<Longrightarrow> activeRun (glob s) \<noteq> Some r"
    and "activeRun (glob s) = Some r \<Longrightarrow> live (dpc s r)"
  using assms unfolding runs_inv_def by (metis live.simps)+

lemma runs_inv_step: "wstep s t \<Longrightarrow> runs_inv s \<Longrightarrow> runs_inv t"
proof (induction rule: wstep.induct)
  case (finish_close s r)
  then have "activeRun (glob s) \<noteq> Some r" by (simp add: dpc_activeRun)
  with finish_close show ?case
    by (auto simp: runs_inv_def close_done_def)
qed (auto simp: runs_inv_def opdefs start_dispatch_def Let_def less_Suc_eq split: wstep_splits)

lemma chan_inv_step: "wstep s t \<Longrightarrow> runs_inv s \<Longrightarrow> chan_inv s \<Longrightarrow> chan_inv t"
proof (induction rule: wstep.induct)
  case (stop_call s c r w b)
  then have "live (dpc s r)" by (auto simp: signalStop_def dpc_activeRun(7) split: option.splits)
  with stop_call show ?case
    by (auto simp: chan_inv_def opdefs split: wstep_splits)
next
  case (run_call s c r w)
  then have "waits_on (clients s c) \<noteq> Some (next_run (glob s))" for c
    unfolding chan_inv_def by (metis next_run_dpc)
  with run_call show ?case
    by (auto simp: chan_inv_def opdefs start_dispatch_def Let_def split: wstep_splits)
qed (auto simp: chan_inv_def opdefs split: wstep_splits)

lemma tasks_inv_step: "wstep s t \<Longrightarrow> runs_inv s \<Longrightarrow> tasks_inv s \<Longrightarrow> tasks_inv t"
proof (induction rule: wstep.induct)
  case (run_call s c r w)
  then show ?case
    by (auto simp: tasks_inv_def dispatcher_slots_def RunWorkers_def start_dispatch_def Let_def
        split: wstep_splits)
next
  case (take_task s r t w)
  then have "activeRun (glob s) = Some r" by (simp add: dpc_activeRun)
  with take_task show ?case
    by (auto simp: tasks_inv_def dispatcher_slots_def nextTask_def neq_Nil_conv split: if_splits)
next
  case (finish_locked s r)
  then have "activeRun (glob s) = Some r" by (simp add: dpc_activeRun)
  with finish_locked show ?case
    by (auto simp: tasks_inv_def dispatcher_slots_def finishRun_locked_def)
next
  case (finish_close s r)
  then have "activeRun (glob s) \<noteq> Some r" by (simp add: dpc_activeRun)
  with finish_close show ?case
    by (auto simp: tasks_inv_def dispatcher_slots_def close_done_def split: option.splits)
next
  case (stop_call s c r w b)
  then show ?case
    by (auto simp: tasks_inv_def dispatcher_slots_def signalStop_frame cong: option.case_cong)
next
  case (parallel_done t s)
  then have "int (length (remove1 t (spawned s))) = int (length (spawned s)) - 1"
    by (simp add: int_length_remove1)
  with parallel_done show ?case
    by (auto simp: tasks_inv_def dispatcher_slots_def releaseExecutionSlot_def
        split: option.splits)
qed (auto simp: tasks_inv_def dispatcher_slots_def opdefs dpc_activeRun split: wstep_splits)

interpretation wk: inv_system wsys_init wstep workers_inv
proof
  show "workers_inv s" if "wsys_init s" for s :: "'a wsys"
    using that by (auto simp: wsys_init_def workers_inv_def runs_inv_def chan_inv_def tasks_inv_def
        dispatcher_slots_def workers_init_def fresh_run_def)
  show "workers_inv t" if "wstep s t" "workers_inv s" for s t :: "'a wsys"
    using that by (simp add: workers_inv_def runs_inv_step chan_inv_step tasks_inv_step)
qed


subsection \<open>Stopping\<close>

text \<open>Distance of a dispatcher from its end once its run is stopping.\<close>

fun stop_rank :: "'a dispatch_pc \<Rightarrow> nat" where
  "stop_rank DNone = 0"
| "stop_rank (DTask _) = 5"
| "stop_rank (DSeq _) = 4"
| "stop_rank DLoop = 3"
| "stop_rank DExit = 2"
| "stop_rank DClosing = 1"
| "stop_rank DDone = 0"

definition stop_inv :: "nat \<Rightarrow> 'a wsys \<Rightarrow> bool" where
  "stop_inv r s \<longleftrightarrow> workers_inv s \<and> stopping (runs (glob s) r) \<and> dpc s r \<noteq> DNone"

lemma nextTask_stopping: "stopping (runs w r) \<Longrightarrow> nextTask r w = (Stopped, w)"
  by (simp add: nextTask_def)

lemma stopping_stable:
  "wstep s t \<Longrightarrow> runs_inv s \<Longrightarrow> dpc s r \<noteq> DNone \<Longrightarrow> stopping (runs (glob s) r) \<Longrightarrow>
   stopping (runs (glob t) r) \<and> dpc t r \<noteq> DNone"
proof (induction rule: wstep.induct)
  case (run_call s c q w)
  then have "r \<noteq> next_run (glob s)" by auto
  with run_call show ?case
    by (auto simp: RunWorkers_def start_dispatch_def Let_def split: wstep_splits)
qed (auto simp: opdefs split: wstep_splits)

lemma stop_rank_step:
  "wstep s t \<Longrightarrow> stop_inv r s \<Longrightarrow> stop_rank (dpc t r) \<le> stop_rank (dpc s r)"
proof (induction rule: wstep.induct)
  case (run_call s c q w)
  then have "r \<noteq> next_run (glob s)" by (auto simp: stop_inv_def workers_inv_def)
  with run_call show ?case
    by (auto simp: RunWorkers_def start_dispatch_def Let_def split: wstep_splits)
next
  case (take_task s q t w)
  then show ?case by (auto simp: stop_inv_def nextTask_stopping)
qed auto

lemma stop_progress:
  assumes "stop_inv r s" and "0 < stop_rank (dpc s r)"
  shows "\<exists>t. wstep s t \<and> stop_rank (dpc t r) < stop_rank (dpc s r)"
proof (cases "dpc s r")
  case DLoop
  then have "wstep s (s\<lparr>glob := glob s, dpc := (dpc s)(r := DExit)\<rparr>)"
    using assms(1) by (intro wstep.take_stopped) (simp_all add: stop_inv_def nextTask_stopping)
  with DLoop show ?thesis by fastforce
next
  case (DTask x)
  then show ?thesis
    by (cases "parallelism (glob s)") (fastforce intro: wstep.run_parallel wstep.run_sequential)+
next
  case (DSeq x)
  then show ?thesis by (fastforce intro: wstep.sequential_done)
next
  case DExit
  then show ?thesis by (fastforce intro: wstep.finish_locked)
next
  case DClosing
  then show ?thesis by (fastforce intro: wstep.finish_close)
qed (use assms in auto)

interpretation wstop: ranked_system wstep "stop_inv r" "\<lambda>s. stop_rank (dpc s r)" for r :: nat
proof
  show "stop_inv r t" if "wstep s t" "stop_inv r s" for s t :: "'a wsys"
    using that wk.inv_step[OF that(1)] stopping_stable[OF that(1)]
    by (auto simp: stop_inv_def workers_inv_def)
qed (use stop_progress stop_rank_step in blast)+

lemma stop_rank_zero: "stop_inv r s \<Longrightarrow> stop_rank (dpc s r) = 0 \<Longrightarrow> done_closed (runs (glob s) r)"
  by (cases "dpc s r") (auto simp: stop_inv_def workers_inv_def chan_inv_def)


subsection \<open>Properties\<close>

text \<open>
  A run for the witnesses: with two processors, one task is added, the workers are started and the
  dispatcher takes the task; then a client calls \<open>StopWorkers\<close>.
\<close>

definition demo_taken :: "nat wsys" where
  "demo_taken = \<lparr>glob = \<lparr>queue = [], workersLimit = 2, activeTasks = 1, activeRun = Some 0,
     stopSignal = Some 0, flagRunning = True, parallelism = True, runs = (\<lambda>_. fresh_run),
     next_run = 1, panicked = False\<rparr>, dpc = (\<lambda>_. DNone)(0 := DTask 7), clients = (\<lambda>_. CIdle),
     spawned = [], added = [7], started = [7]\<rparr>"

definition demo_stopping :: "nat wsys" where
  "demo_stopping = demo_taken\<lparr>glob := snd (signalStop (glob demo_taken)),
     clients := (clients demo_taken)(0 := CStopWait 0 False)\<rparr>"

lemma demo_taken_reach: "reach wsys_init wstep demo_taken"
proof -
  let ?s0 = "\<lparr>glob = workers_init 2, dpc = (\<lambda>_. DNone), clients = (\<lambda>_. CIdle), spawned = [],
    added = [], started = []\<rparr> :: nat wsys"
  let ?s1 = "?s0\<lparr>clients := (clients ?s0)(0 := CAdd 7)\<rparr>"
  let ?s2 = "?s1\<lparr>glob := (glob ?s1)\<lparr>queue := [7]\<rparr>, clients := (clients ?s1)(0 := CIdle),
    added := [7]\<rparr>"
  let ?s3 = "?s2\<lparr>glob := snd (RunWorkers (glob ?s2)), clients := (clients ?s2)(0 := CIdle),
    dpc := start_dispatch (Some 0) (dpc ?s2)\<rparr>"
  have "reach wsys_init wstep ?s0" by (rule reach_init) (auto simp: wsys_init_def)
  moreover have "wstep ?s0 ?s1" by (rule add_call) simp
  moreover have "wstep ?s1 ?s2"
    using add_done[of ?s1 0 7 "(glob ?s1)\<lparr>queue := [7]\<rparr>"] by (simp add: AddTask_def workers_init_def)
  moreover have "wstep ?s2 ?s3"
    using run_call[of ?s2 0 "Some 0" "snd (RunWorkers (glob ?s2))"]
    by (simp add: RunWorkers_def workers_init_def)
  moreover have "wstep ?s3 demo_taken"
    using take_task[of ?s3 0 7 "snd (nextTask 0 (glob ?s3))"]
    by (simp add: demo_taken_def opdefs workers_init_def start_dispatch_def Let_def fun_upd_idem)
  ultimately show ?thesis by (meson reach_step)
qed

lemma demo_stopping_reach: "reach wsys_init wstep demo_stopping"
proof (rule reach_step[OF demo_taken_reach])
  show "wstep demo_taken demo_stopping"
    using stop_call[of demo_taken 0 0 "snd (signalStop (glob demo_taken))" False]
    by (simp add: demo_stopping_def demo_taken_def opdefs)
qed

text \<open>
  C1: in every reachable state of the dispatcher, the goroutines still inside \<open>dispatch\<close> are exactly
  the run recorded in \<open>activeRun\<close>, so two dispatch loops never consume the queue together, however
  the calls of \<open>RunWorkers\<close>, \<open>StopWorkers\<close> and \<open>RestartWorkers\<close> interleave; and no channel is
  closed twice.
\<close>

theorem single_dispatcher:
  assumes "reach wsys_init wstep s"
  shows "(live (dpc s r) \<longleftrightarrow> activeRun (glob s) = Some r) \<and> \<not> panicked (glob s)"
  using wk.inv_reach[OF assms] by (simp add: workers_inv_def runs_inv_def chan_inv_def)

theorem single_dispatcher_witness:
  "reach wsys_init wstep demo_taken \<and> live (dpc demo_taken 0) \<and>
   activeRun (glob demo_taken) = Some 0 \<and> \<not> live (dpc demo_taken 1)"
  using single_dispatcher[OF demo_taken_reach, of 0] single_dispatcher[OF demo_taken_reach, of 1]
    demo_taken_reach
  by (simp add: demo_taken_def)

text \<open>
  C2: tasks leave the queue in the order \<open>AddTask\<close> accepted them and none is lost or duplicated by
  limit changes, stops or restarts: what was handed out followed by what is queued is what was
  added. \<open>activeTasks\<close> counts exactly the tasks that are executing, hence never goes negative.
\<close>

theorem tasks_fifo:
  assumes "reach wsys_init wstep s"
  shows "added s = started s @ queue (glob s)
    \<and> activeTasks (glob s) = int (length (spawned s)) + dispatcher_slots s
    \<and> 0 \<le> activeTasks (glob s)"
  using wk.inv_reach[OF assms]
  by (auto simp: workers_inv_def tasks_inv_def dispatcher_slots_def split: option.splits)

theorem tasks_fifo_witness:
  "reach wsys_init wstep demo_taken \<and> added demo_taken = [7] \<and>
   activeTasks (glob demo_taken) = int (length (spawned demo_taken)) + dispatcher_slots demo_taken"
  using tasks_fifo[OF demo_taken_reach] demo_taken_reach by (simp add: demo_taken_def)

text \<open>
  a step that starts a task leaves no more tasks executing than the limit configured at that
  moment, and it starts exactly the head of the queue.
\<close>

theorem start_within_limit:
  assumes "wstep s t" and "started t \<noteq> started s"
  shows "activeTasks (glob t) \<le> workersLimit (glob t)
    \<and> queue (glob s) \<noteq> [] \<and> started t = started s @ [hd (queue (glob s))]"
  using assms by (induction rule: wstep.induct) (auto simp: nextTask_def split: if_splits)

theorem start_within_limit_witness:
  "\<exists>t. wstep (demo_taken\<lparr>dpc := (dpc demo_taken)(0 := DLoop),
               glob := (glob demo_taken)\<lparr>queue := [8, 9]\<rparr>\<rparr>) t
     \<and> activeTasks (glob t) = 2 \<and> activeTasks (glob t) \<le> workersLimit (glob t) \<and> started t = [7, 8]"
proof -
  let ?s = "demo_taken\<lparr>dpc := (dpc demo_taken)(0 := DLoop), glob := (glob demo_taken)\<lparr>queue := [8, 9]\<rparr>\<rparr>"
  let ?w = "snd (nextTask 0 (glob ?s))"
  let ?t = "?s\<lparr>glob := ?w, dpc := (dpc ?s)(0 := DTask 8), started := started ?s @ [8]\<rparr>"
  have step: "wstep ?s ?t"
    by (rule take_task) (simp_all add: demo_taken_def nextTask_def fresh_run_def)
  have "started ?t \<noteq> started ?s" by simp
  from start_within_limit[OF step this] step show ?thesis
    by (intro exI[of _ ?t]) (simp add: demo_taken_def nextTask_def fresh_run_def)
qed

text \<open>
  once \<open>StopWorkers\<close> has marked the active run as stopping, no step hands out another task
  before that run has finished.
\<close>

theorem stop_no_new_task:
  assumes "reach wsys_init wstep s" and "activeRun (glob s) = Some r"
    and "stopping (runs (glob s) r)" and "wstep s t"
  shows "started t = started s \<and> (activeRun (glob t) = Some r \<longrightarrow> stopping (runs (glob t) r))"
proof -
  have inv: "runs_inv s" using wk.inv_reach[OF assms(1)] by (simp add: workers_inv_def)
  have "started t = started s"
    using assms(4) inv assms(2,3)
    by (induction rule: wstep.induct) (auto simp: nextTask_stopping dest: dpc_activeRun(1))
  moreover have "stopping (runs (glob t) r)"
    using stopping_stable[OF assms(4) inv _ assms(3)] dpc_activeRun(7)[OF inv assms(2)]
    by (cases "dpc s r") auto
  ultimately show ?thesis by blast
qed

theorem stop_no_new_task_witness:
  "activeRun (glob demo_stopping) = Some 0 \<and> stopping (runs (glob demo_stopping) 0) \<and>
   (\<exists>t. wstep demo_stopping t \<and> started t = [7])"
proof -
  have h: "activeRun (glob demo_stopping) = Some 0" "stopping (runs (glob demo_stopping) 0)"
    by (simp_all add: demo_stopping_def demo_taken_def opdefs)
  have "wstep demo_stopping (demo_stopping\<lparr>glob := SetWorkersLimit 5 (glob demo_stopping)\<rparr>)"
    by (rule set_limit)
  from stop_no_new_task[OF demo_stopping_reach h this] this h show ?thesis
    by (intro conjI exI) (auto simp: demo_stopping_def demo_taken_def)
qed



end
