(* ===== verification/Go_Strings.thy ===== *)
theory Go_Strings
  imports Prelude "HOL-Library.Sublist"
begin

text \<open>
  The part of Go's \<open>strings\<close>, \<open>bytes\<close>, \<open>encoding/hex\<close> and \<open>net/url\<close> packages the repository uses.
  A Go string is its bytes, a \<open>char list\<close>; \<open>TrimSpace\<close> works on the UTF-8 encodings of the runes
  \<open>unicode.IsSpace\<close> accepts. Searching and splitting are modelled for one-byte separators, the only
  ones the modelled code passes.
\<close>

subsection \<open>Prefixes, suffixes, searching\<close>

definition HasPrefix :: "string \<Rightarrow> string \<Rightarrow> bool" where
  "HasPrefix s p = prefix p s"

definition HasSuffix :: "string \<Rightarrow> string \<Rightarrow> bool" where
  "HasSuffix s p = suffix p s"

definition TrimPrefix :: "string \<Rightarrow> string \<Rightarrow> string" where
  "TrimPrefix s p = (if HasPrefix s p then drop (length p) s else s)"

text \<open>\<open>strings.Contains\<close>: an occurrence at some offset.\<close>

fun Contains :: "string \<Rightarrow> string \<Rightarrow> bool" where
  "Contains [] p = (p = [])"
| "Contains (c # s) p = (prefix p (c # s) \<or> Contains s p)"

definition ContainsAny :: "string \<Rightarrow> string \<Rightarrow> bool" where
  "ContainsAny s cs = list_ex (\<lambda>c. c \<in> set cs) s"

text \<open>\<open>strings.Cut\<close> at a one-byte separator: the text before it, the text after it, found.\<close>

fun Cut :: "char \<Rightarrow> string \<Rightarrow> string \<times> string \<times> bool" where
  "Cut c [] = ([], [], False)"
| "Cut c (x # s) = (if x = c then ([], s, True)
     else (case Cut c s of (before, after, found) \<Rightarrow> (x # before, after, found)))"

text \<open>\<open>strings.IndexByte\<close>, with \<open>None\<close> for \<open>-1\<close>.\<close>

fun IndexByte :: "string \<Rightarrow> char \<Rightarrow> nat option" where
  "IndexByte [] c = None"
| "IndexByte (x # s) c = (if x = c then Some 0 else map_option Suc (IndexByte s c))"

text \<open>\<open>strings.Split\<close> at a one-byte separator.\<close>

fun Split :: "char \<Rightarrow> string \<Rightarrow> string list" where
  "Split c [] = [[]]"
| "Split c (x # s) = (if x = c then [] # Split c s
     else (case Split c s of [] \<Rightarrow> [[x]] | h # t \<Rightarrow> (x # h) # t))"

fun Join :: "string list \<Rightarrow> string \<Rightarrow> string" where
  "Join [] sep = []"
| "Join [s] sep = s"
| "Join (s # t # ss) sep = s @ sep @ Join (t # ss) sep"

lemma Split_not_Nil [simp]: "Split c s \<noteq> []"
  by (induction s) (auto split: list.splits)

lemma Split_notin: "c \<notin> set s \<Longrightarrow> Split c s = [s]"
  by (induction s) auto

lemma Split_append: "c \<notin> set a \<Longrightarrow> Split c (a @ c # b) = a # Split c b"
  by (induction a) auto

lemma Split_no_sep: "p \<in> set (Split c s) \<Longrightarrow> c \<notin> set p"
  by (induction s arbitrary: p) (auto split: list.splits if_splits)

lemma Join_Split: "Join (Split c s) [c] = s"
proof (induction s)
  case (Cons x s)
  obtain h t where ht: "Split c s = h # t" by (cases "Split c s") auto
  with Cons.IH show ?case by (cases t) auto
qed simp

lemma Split_Join:
  "xs \<noteq> [] \<Longrightarrow> \<forall>x \<in> set xs. c \<notin> set x \<Longrightarrow> Split c (Join xs [c]) = xs"
proof (induction xs "[c]" rule: Join.induct)
  case (3 s t ss)
  then show ?case by (simp add: Split_append)
qed (auto simp: Split_notin)

lemma Cut_append: "c \<notin> set a \<Longrightarrow> Cut c (a @ c # b) = (a, b, True)"
  by (induction a) auto

lemma Cut_notin: "c \<notin> set s \<Longrightarrow> Cut c s = (s, [], False)"
  by (induction s) auto

lemma Cut_cases:
  obtains (found) a b where "Cut c s = (a, b, True)" "s = a @ c # b" "c \<notin> set a"
  | (absent) "Cut c s = (s, [], False)" "c \<notin> set s"
proof (cases "c \<in> set s")
  case True
  then obtain a b where "s = a @ c # b" "c \<notin> set a" by (meson split_list_first)
  then show thesis using found[of a b] by (simp add: Cut_append)
next
  case False
  then show thesis using absent by (simp add: Cut_notin)
qed

lemma IndexByte_None: "IndexByte s c = None \<longleftrightarrow> c \<notin> set s"
  by (induction s) auto

lemma IndexByte_append: "c \<notin> set a \<Longrightarrow> IndexByte (a @ c # b) c = Some (length a)"
  by (induction a) auto

subsection \<open>TrimSpace\<close>

text \<open>The UTF-8 encodings of the runes with Unicode's \<open>White_Space\<close> property.\<close>

definition space_encodings :: "string list" where
  "space_encodings =
     map (\<lambda>n. [char_of n]) [0x09, 0x0A, 0x0B, 0x0C, 0x0D, 0x20 :: nat]
   @ [[CHR 0xC2, CHR 0x85], [CHR 0xC2, CHR 0xA0], [CHR 0xE1, CHR 0x9A, CHR 0x80]]
   @ map (\<lambda>n. [CHR 0xE2, CHR 0x80, char_of n])
       [0x80, 0x81, 0x82, 0x83, 0x84, 0x85, 0x86, 0x87, 0x88, 0x89, 0x8A, 0xA8, 0xA9, 0xAF :: nat]
   @ [[CHR 0xE2, CHR 0x81, CHR 0x9F], [CHR 0xE3, CHR 0x80, CHR 0x80]]"

text \<open>Repeatedly removes a leading member of \<open>ps\<close>.\<close>

function strip_any :: "string list \<Rightarrow> string \<Rightarrow> string" where
  "strip_any ps s = (case find (\<lambda>p. p \<noteq> [] \<and> prefix p s) ps of None \<Rightarrow> s
     | Some p \<Rightarrow> strip_any ps (drop (length p) s))"
  by pat_completeness auto
termination
proof (relation "measure (\<lambda>(ps, s). length s)", goal_cases)
  case (2 ps s p)
  then have "p \<noteq> []" "prefix p s" by (auto simp: find_Some_iff)
  then show ?case by (auto simp: prefix_def)
qed simp

declare strip_any.simps [simp del]

definition TrimSpace :: "string \<Rightarrow> string" where
  "TrimSpace s = rev (strip_any (map rev space_encodings) (rev (strip_any space_encodings s)))"

lemma strip_any_id: "(\<And>p. p \<in> set ps \<Longrightarrow> p \<noteq> [] \<Longrightarrow> \<not> prefix p s) \<Longrightarrow> strip_any ps s = s"
  by (subst strip_any.simps) (auto split: option.splits simp: find_Some_iff in_set_conv_nth)

lemma strip_any_suffix: "suffix (strip_any ps s) s"
proof (induction ps s rule: strip_any.induct)
  case (1 ps s)
  show ?case
  proof (cases "find (\<lambda>p. p \<noteq> [] \<and> prefix p s) ps")
    case None
    then show ?thesis by (subst strip_any.simps) simp
  next
    case (Some p)
    then have "suffix (strip_any ps (drop (length p) s)) (drop (length p) s)" by (rule "1.IH")
    then show ?thesis
      by (subst strip_any.simps) (simp add: Some, meson suffix_drop suffix_order.trans)
  qed
qed

lemma strip_any_clean: "p \<in> set ps \<Longrightarrow> p \<noteq> [] \<Longrightarrow> \<not> prefix p (strip_any ps s)"
proof (induction ps s rule: strip_any.induct)
  case (1 ps s)
  show ?case
  proof (cases "find (\<lambda>p. p \<noteq> [] \<and> prefix p s) ps")
    case None
    then have "\<not> prefix p s" using "1.prems" by (auto simp: find_None_iff)
    with None show ?thesis by (subst strip_any.simps) simp
  next
    case (Some q)
    with "1" show ?thesis by (subst strip_any.simps) simp
  qed
qed

lemma length_TrimSpace: "length (TrimSpace s) \<le> length s"
  unfolding TrimSpace_def using strip_any_suffix suffix_length_le
  by (metis length_rev order_trans)

lemma TrimSpace_no_leading:
  assumes "p \<in> set space_encodings" and "p \<noteq> []"
  shows "\<not> prefix p (TrimSpace s)"
proof
  let ?l = "strip_any space_encodings s"
  assume "prefix p (TrimSpace s)"
  moreover have "prefix (TrimSpace s) ?l"
    unfolding TrimSpace_def by (metis rev_rev_ident strip_any_suffix suffix_to_prefix)
  ultimately have "prefix p ?l" by (rule prefix_order.trans)
  with strip_any_clean[OF assms] show False by blast
qed

lemma TrimSpace_no_trailing:
  assumes "p \<in> set space_encodings" and "p \<noteq> []"
  shows "\<not> suffix p (TrimSpace s)"
  using strip_any_clean[of "rev p" "map rev space_encodings"] assms
  by (auto simp: TrimSpace_def suffix_to_prefix)

lemma TrimSpace_id:
  assumes "\<And>p. p \<in> set space_encodings \<Longrightarrow> p \<noteq> [] \<Longrightarrow> \<not> prefix p s \<and> \<not> suffix p s"
  shows "TrimSpace s = s"
proof -
  have "strip_any space_encodings s = s" using assms by (blast intro: strip_any_id)
  moreover have "strip_any (map rev space_encodings) (rev s) = rev s"
    by (rule strip_any_id) (use assms in \<open>auto simp: suffix_to_prefix\<close>)
  ultimately show ?thesis by (simp add: TrimSpace_def)
qed

lemma TrimSpace_idem [simp]: "TrimSpace (TrimSpace s) = TrimSpace s"
  by (rule TrimSpace_id) (simp add: TrimSpace_no_leading TrimSpace_no_trailing)

lemma TrimSpace_Nil [simp]: "TrimSpace [] = []"
  by (simp add: TrimSpace_id)

text \<open>No encoding of a space starts with a byte between \<open>!\<close> and \<open>~\<close>, nor ends with one.\<close>

definition graphic :: "char \<Rightarrow> bool" where
  "graphic c \<longleftrightarrow> 0x20 < (of_char c :: nat) \<and> (of_char c :: nat) < 0x7F"

lemma space_encodings_ends:
  "p \<in> set space_encodings \<Longrightarrow> p \<noteq> [] \<and> \<not> graphic (hd p) \<and> \<not> graphic (last p)"
  by (auto simp: space_encodings_def graphic_def)

lemma TrimSpace_graphic:
  assumes "s \<noteq> []" and "graphic (hd s)" and "graphic (last s)"
  shows "TrimSpace s = s"
proof (rule TrimSpace_id)
  fix p assume "p \<in> set space_encodings"
  then have "p \<noteq> []" "\<not> graphic (hd p)" "\<not> graphic (last p)" by (auto dest: space_encodings_ends)
  then show "\<not> prefix p s \<and> \<not> suffix p s"
    using assms by (auto simp: prefix_def suffix_def)
qed


subsection \<open>ASCII case\<close>

definition lower_char :: "char \<Rightarrow> char" where
  "lower_char c = (let n = (of_char c :: nat) in if 65 \<le> n \<and> n \<le> 90 then char_of (n + 32) else c)"

definition upper_char :: "char \<Rightarrow> char" where
  "upper_char c = (let n = (of_char c :: nat) in if 97 \<le> n \<and> n \<le> 122 then char_of (n - 32) else c)"

subsection \<open>Hexadecimal and percent-encoding\<close>

definition hex_digit :: "nat \<Rightarrow> char" where
  "hex_digit n = (if n < 10 then char_of (48 + n) else char_of (87 + n))"

definition hex_EncodeToString :: "string \<Rightarrow> string" where
  "hex_EncodeToString s =
     concat (map (\<lambda>c. [hex_digit (of_char c div 16), hex_digit (of_char c mod 16)]) s)"

fun unhex :: "char \<Rightarrow> nat option" where
  "unhex c = (let n = (of_char c :: nat) in
     if 48 \<le> n \<and> n \<le> 57 then Some (n - 48)
     else if 97 \<le> n \<and> n \<le> 102 then Some (n - 87)
     else if 65 \<le> n \<and> n \<le> 70 then Some (n - 55) else None)"

declare unhex.simps [simp del]

text \<open>\<open>hex.DecodeString\<close>: pairs of digits of either case.\<close>

fun hex_DecodeString :: "string \<Rightarrow> string option" where
  "hex_DecodeString [] = Some []"
| "hex_DecodeString [_] = None"
| "hex_DecodeString (a # b # s) =
     (case (unhex a, unhex b) of (Some x, Some y) \<Rightarrow>
        map_option ((#) (char_of (16 * x + y))) (hex_DecodeString s) | _ \<Rightarrow> None)"

text \<open>\<open>url.PathUnescape\<close>: every \<open>%\<close> must be followed by two hexadecimal digits.\<close>

fun PathUnescape :: "string \<Rightarrow> string option" where
  "PathUnescape [] = Some []"
| "PathUnescape (c # s) =
     (if c = CHR ''%'' then
        (case s of a # b # r \<Rightarrow>
           (case (unhex a, unhex b) of (Some x, Some y) \<Rightarrow>
              map_option ((#) (char_of (16 * x + y))) (PathUnescape r) | _ \<Rightarrow> None)
         | _ \<Rightarrow> None)
      else map_option ((#) c) (PathUnescape s))"

lemma less_16_cases:
  assumes "n < (16 :: nat)"
  shows "n \<in> {0, 1, 2, 3, 4, 5, 6, 7, 8, 9, 10, 11, 12, 13, 14, 15}"
  using assms by (auto simp: less_Suc_eq numeral_eq_Suc)

lemma unhex_hex_digit [simp]: "n < 16 \<Longrightarrow> unhex (hex_digit n) = Some n"
  by (drule less_16_cases) (auto simp: unhex.simps hex_digit_def)

lemma unhex_upper_hex_digit [simp]: "n < 16 \<Longrightarrow> unhex (upper_char (hex_digit n)) = Some n"
  by (drule less_16_cases) (auto simp: unhex.simps hex_digit_def upper_char_def)

lemma graphic_upper_hex_digit: "n < 16 \<Longrightarrow> graphic (upper_char (hex_digit n))"
  by (drule less_16_cases) (auto simp: graphic_def hex_digit_def upper_char_def)

lemma byte_split [simp]: "char_of (16 * (of_char c div 16) + of_char c mod 16 :: nat) = c"
  by (simp add: mult_div_mod_eq)

lemma nibbles [simp]: "(of_char c :: nat) div 16 < 16" "(of_char c :: nat) mod 16 < 16"
  using nat_of_char_less_256[of c] by (auto simp: less_mult_imp_div_less)

lemma hex_decode_encode: "hex_DecodeString (hex_EncodeToString s) = Some s"
  by (induction s) (auto simp: hex_EncodeToString_def)

interpretation hex: codec hex_EncodeToString hex_DecodeString
  by unfold_locales (rule hex_decode_encode)

subsection \<open>Decimal numbers\<close>

text \<open>\<open>strconv.FormatUint(n, 10)\<close> and \<open>strconv.Itoa\<close> on numbers that are not negative.\<close>

definition digit :: "nat \<Rightarrow> char" where
  "digit n = char_of (n + 48)"

fun decimal :: "nat \<Rightarrow> string" where
  "decimal n = (if n < 10 then [digit n] else decimal (n div 10) @ [digit (n mod 10)])"

definition is_digit :: "char \<Rightarrow> bool" where
  "is_digit c \<longleftrightarrow> (48 :: nat) \<le> of_char c \<and> (of_char c :: nat) \<le> 57"

definition digits_value :: "string \<Rightarrow> nat" where
  "digits_value s = foldl (\<lambda>v c. 10 * v + (of_char c - 48)) 0 s"

text \<open>\<open>strconv.Atoi\<close>, and \<open>strconv.ParseInt(s, 10, 64)\<close>.\<close>

definition Atoi :: "string \<Rightarrow> int option" where
  "Atoi s =
     (let neg = HasPrefix s ''-''; ds = (if s \<noteq> [] \<and> hd s \<in> set ''+-'' then tl s else s);
          v = (if neg then - int (digits_value ds) else int (digits_value ds))
      in if ds \<noteq> [] \<and> list_all is_digit ds \<and> - (2 ^ 63) \<le> v \<and> v < 2 ^ 63 then Some v else None)"

declare decimal.simps [simp del]

lemma digit_value [simp]: "n < 10 \<Longrightarrow> (of_char (digit n) :: nat) = n + 48"
  by (simp add: digit_def)

lemma decimal_value [simp]: "digits_value (decimal n) = n"
proof (induction n rule: decimal.induct)
  case (1 n)
  then show ?case by (subst decimal.simps) (simp add: digits_value_def)
qed

lemma decimal_inject [simp]: "decimal m = decimal n \<longleftrightarrow> m = n"
  by (metis decimal_value)

lemma decimal_digits: "c \<in> set (decimal n) \<Longrightarrow> is_digit c"
proof (induction n rule: decimal.induct)
  case (1 n)
  then show ?case
    by (subst (asm) (2) decimal.simps) (auto simp: is_digit_def split: if_splits)
qed

lemma decimal_not_Nil [simp]: "decimal n \<noteq> []"
  by (subst decimal.simps) simp

end
