(* ===== verification/Base64.thy ===== *)
theory Base64
  imports Go_Strings
begin

text \<open>
  The part of Go's \<^verbatim>\<open>encoding/base64\<close> the repository uses: \<open>StdEncoding\<close> (padded) and \<open>RawURLEncoding\<close> (not
  padded). The decoder is Go's lenient one: line feeds and carriage returns are skipped anywhere, and the
  unused low bits of a final partial quantum are ignored. Both encodings are interpreted as \<open>codec\<close>s.
\<close>

definition b64_values :: "string \<Rightarrow> char \<Rightarrow> nat option" where
  "b64_values alphabet c = map_of (zip alphabet [0..<64]) c"

definition std_alphabet :: string where
  "std_alphabet = ''ABCDEFGHIJKLMNOPQRSTUVWXYZabcdefghijklmnopqrstuvwxyz0123456789+/''"

definition url_alphabet :: string where
  "url_alphabet = ''ABCDEFGHIJKLMNOPQRSTUVWXYZabcdefghijklmnopqrstuvwxyz0123456789-_''"

abbreviation byte :: "char \<Rightarrow> nat" where "byte c \<equiv> of_char c"

fun b64_encode :: "string \<Rightarrow> bool \<Rightarrow> string \<Rightarrow> string" where
  "b64_encode al padded [] = []"
| "b64_encode al padded [a] =
     [al ! (byte a div 4), al ! (byte a mod 4 * 16)] @ (if padded then ''=='' else '''')"
| "b64_encode al padded [a, b] =
     [al ! (byte a div 4), al ! (byte a mod 4 * 16 + byte b div 16), al ! (byte b mod 16 * 4)]
     @ (if padded then ''='' else '''')"
| "b64_encode al padded (a # b # c # rest) =
     [al ! (byte a div 4), al ! (byte a mod 4 * 16 + byte b div 16), al ! (byte b mod 16 * 4 + byte c div 64),
      al ! (byte c mod 64)] @ b64_encode al padded rest"

fun b64_quantum :: "nat list \<Rightarrow> string" where
  "b64_quantum [p, q] = [char_of (p * 4 + q div 16)]"
| "b64_quantum [p, q, r] = [char_of (p * 4 + q div 16), char_of (q mod 16 * 16 + r div 4)]"
| "b64_quantum [p, q, r, s] =
     [char_of (p * 4 + q div 16), char_of (q mod 16 * 16 + r div 4), char_of (r mod 4 * 64 + s)]"
| "b64_quantum _ = []"

text \<open>Sextets of one quantum, when all its characters are in the alphabet.\<close>

definition b64_sextets :: "string \<Rightarrow> string \<Rightarrow> nat list option" where
  "b64_sextets al cs = (if list_all (\<lambda>c. b64_values al c \<noteq> None) cs
     then Some (map (the \<circ> b64_values al) cs) else None)"

fun b64_quanta :: "string \<Rightarrow> bool \<Rightarrow> string \<Rightarrow> string option" where
  "b64_quanta al padded [] = Some []"
| "b64_quanta al padded [a] = None"
| "b64_quanta al padded [a, b] =
     (if padded then None else map_option b64_quantum (b64_sextets al [a, b]))"
| "b64_quanta al padded [a, b, c] =
     (if padded then None else map_option b64_quantum (b64_sextets al [a, b, c]))"
| "b64_quanta al padded (a # b # c # d # rest) =
     (if padded \<and> c = CHR ''='' \<and> d = CHR ''='' \<and> rest = [] then map_option b64_quantum (b64_sextets al [a, b])
      else if padded \<and> d = CHR ''='' \<and> rest = [] then map_option b64_quantum (b64_sextets al [a, b, c])
      else (case b64_sextets al [a, b, c, d] of None \<Rightarrow> None
            | Some q \<Rightarrow> map_option (\<lambda>t. b64_quantum q @ t) (b64_quanta al padded rest)))"

definition is_newline :: "char \<Rightarrow> bool" where
  "is_newline c \<longleftrightarrow> c = CHR 0x0A \<or> c = CHR 0x0D"

definition b64_decode :: "string \<Rightarrow> bool \<Rightarrow> string \<Rightarrow> string option" where
  "b64_decode al padded s = b64_quanta al padded (filter (\<lambda>c. \<not> is_newline c) s)"

definition std_EncodeToString :: "string \<Rightarrow> string" where
  "std_EncodeToString = b64_encode std_alphabet True"

definition std_DecodeString :: "string \<Rightarrow> string option" where
  "std_DecodeString = b64_decode std_alphabet True"

definition rawurl_EncodeToString :: "string \<Rightarrow> string" where
  "rawurl_EncodeToString = b64_encode url_alphabet False"

definition rawurl_DecodeString :: "string \<Rightarrow> string option" where
  "rawurl_DecodeString = b64_decode url_alphabet False"

subsection \<open>Decoding undoes encoding\<close>

definition b64_alphabet :: "string \<Rightarrow> bool" where
  "b64_alphabet al \<longleftrightarrow> length al = 64 \<and> distinct al \<and> CHR ''='' \<notin> set al \<and> list_all (\<lambda>c. \<not> is_newline c) al"

lemma alphabets: "b64_alphabet std_alphabet" "b64_alphabet url_alphabet"
  by code_simp+

lemma b64_values_nth: "b64_alphabet al \<Longrightarrow> i < 64 \<Longrightarrow> b64_values al (al ! i) = Some i"
  unfolding b64_values_def b64_alphabet_def by (metis length_upt map_of_zip_nth minus_nat.diff_0 nth_upt add_0)

lemma alphabet_nth:
  assumes "b64_alphabet al" "i < 64"
  shows "al ! i \<noteq> CHR ''=''" "\<not> is_newline (al ! i)"
proof -
  have "al ! i \<in> set al" using assms by (simp add: b64_alphabet_def)
  then show "al ! i \<noteq> CHR ''=''" "\<not> is_newline (al ! i)"
    using assms(1) by (auto simp: b64_alphabet_def list_all_iff)
qed

lemma byte_bounds: "byte a div 4 < 64" "byte c mod 64 < 64" "byte a mod 4 * 16 < 64" "byte b mod 16 * 4 < 64"
  "byte a mod 4 * 16 + byte b div 16 < 64" "byte b mod 16 * 4 + byte c div 64 < 64"
proof -
  have "byte x < 256" for x :: char by simp
  from this[of a] this[of b] this[of c] show "byte a div 4 < 64" "byte c mod 64 < 64" "byte a mod 4 * 16 < 64" "byte b mod 16 * 4 < 64"
  "byte a mod 4 * 16 + byte b div 16 < 64" "byte b mod 16 * 4 + byte c div 64 < 64" by linarith+
qed

lemma quantum_bytes:
  "b64_quantum [byte a div 4, byte a mod 4 * 16] = [a]"
  "b64_quantum [byte a div 4, byte a mod 4 * 16 + byte b div 16, byte b mod 16 * 4] = [a, b]"
  "b64_quantum [byte a div 4, byte a mod 4 * 16 + byte b div 16, byte b mod 16 * 4 + byte c div 64, byte c mod 64]
     = [a, b, c]"
proof -
  have l: "byte x < 256" for x :: char by simp
  have 1: "byte a div 4 * 4 + (byte a mod 4 * 16 + byte b div 16) div 16 = byte a" for a b :: char
    using l[of b] by (simp add: div_mult_self3)
  have 2: "(byte a mod 4 * 16 + byte b div 16) mod 16 * 16 + (byte b mod 16 * 4 + byte c div 64) div 4 = byte b"
    for a b c :: char
    using l[of b] less_mult_imp_div_less[of "byte c" 4 64] l[of c] by simp
  have 3: "(byte b mod 16 * 4 + byte c div 64) mod 4 * 64 + byte c mod 64 = byte c" for b c :: char
    using less_mult_imp_div_less[of "byte c" 4 64] l[of c] by simp
  show "b64_quantum [byte a div 4, byte a mod 4 * 16] = [a]" by simp
  show "b64_quantum [byte a div 4, byte a mod 4 * 16 + byte b div 16, byte b mod 16 * 4] = [a, b]"
    using 1[of a b] 2[of a b "CHR 0x00"] by simp
  show "b64_quantum [byte a div 4, byte a mod 4 * 16 + byte b div 16, byte b mod 16 * 4 + byte c div 64, byte c mod 64]
     = [a, b, c]"
    using 1[of a b] 2[of a b c] 3[of b c] by simp
qed

lemma quanta_encode: "b64_alphabet al \<Longrightarrow> b64_quanta al padded (b64_encode al padded s) = Some s"
proof (induction al padded s rule: b64_encode.induct)
  case (4 al padded a b c rest)
  then show ?case
    using quantum_bytes(3)[of a b c]
    by (simp add: b64_sextets_def b64_values_nth byte_bounds alphabet_nth del: b64_quantum.simps)
next
  case (2 al padded a)
  then show ?case
    using quantum_bytes(1)[of a] by (simp add: b64_sextets_def b64_values_nth byte_bounds alphabet_nth del: b64_quantum.simps)
next
  case (3 al padded a b)
  then show ?case
    using quantum_bytes(2)[of a b] by (simp add: b64_sextets_def b64_values_nth byte_bounds alphabet_nth del: b64_quantum.simps)
qed simp

lemma encode_no_newline: "b64_alphabet al \<Longrightarrow> c \<in> set (b64_encode al padded s) \<Longrightarrow> \<not> is_newline c"
  by (induction al padded s rule: b64_encode.induct)
    (auto simp: alphabet_nth byte_bounds is_newline_def[of "CHR ''=''"] split: if_splits)

lemma decode_encode: "b64_alphabet al \<Longrightarrow> b64_decode al padded (b64_encode al padded s) = Some s"
  using quanta_encode[of al padded s] encode_no_newline[of al _ padded s]
  by (simp add: b64_decode_def filter_id_conv)

interpretation std64: codec std_EncodeToString std_DecodeString
  by unfold_locales (simp add: std_EncodeToString_def std_DecodeString_def decode_encode alphabets)

interpretation rawurl64: codec rawurl_EncodeToString rawurl_DecodeString
  by unfold_locales (simp add: rawurl_EncodeToString_def rawurl_DecodeString_def decode_encode alphabets)

end
