(* ===== verification/Utf8.thy ===== *)
theory Utf8
  imports Base64
begin

text \<open>
  Go's view of a string as UTF-8: \<open>utf8.DecodeRuneInString\<close>, \<open>utf8.AppendRune\<close>, \<open>utf8.ValidString\<close>, the runes a
  \<open>range\<close> loop visits and the two classes of \<^verbatim>\<open>unicode\<close> the repository asks for. A byte that starts no
  well-formed sequence is one replacement rune of width one.
\<close>

definition runeError :: nat where "runeError = 0xFFFD"

definition in_range :: "nat \<Rightarrow> nat \<Rightarrow> char \<Rightarrow> bool" where
  "in_range lo hi c \<longleftrightarrow> lo \<le> byte c \<and> byte c \<le> hi"

text \<open>The range of the second byte, by the first one.\<close>

definition second_range :: "nat \<Rightarrow> nat \<times> nat" where
  "second_range b = (if b = 0xE0 then (0xA0, 0xBF) else if b = 0xED then (0x80, 0x9F)
     else if b = 0xF0 then (0x90, 0xBF) else if b = 0xF4 then (0x80, 0x8F) else (0x80, 0xBF))"

text \<open>\<open>utf8.DecodeRuneInString\<close>: the rune and its width.\<close>

definition DecodeRune :: "string \<Rightarrow> nat \<times> nat" where
  "DecodeRune s = (case s of [] \<Rightarrow> (runeError, 0) | a # r \<Rightarrow>
     (let b0 = byte a; (lo, hi) = second_range b0 in
      if b0 < 0x80 then (b0, 1)
      else if 0xC2 \<le> b0 \<and> b0 \<le> 0xDF then
        (case r of b # _ \<Rightarrow> if in_range lo hi b then ((b0 - 0xC0) * 64 + (byte b - 0x80), 2) else (runeError, 1)
         | _ \<Rightarrow> (runeError, 1))
      else if 0xE0 \<le> b0 \<and> b0 \<le> 0xEF then
        (case r of b # c # _ \<Rightarrow>
           if in_range lo hi b \<and> in_range 0x80 0xBF c
           then ((b0 - 0xE0) * 4096 + (byte b - 0x80) * 64 + (byte c - 0x80), 3) else (runeError, 1)
         | _ \<Rightarrow> (runeError, 1))
      else if 0xF0 \<le> b0 \<and> b0 \<le> 0xF4 then
        (case r of b # c # d # _ \<Rightarrow>
           if in_range lo hi b \<and> in_range 0x80 0xBF c \<and> in_range 0x80 0xBF d
           then ((b0 - 0xF0) * 262144 + (byte b - 0x80) * 4096 + (byte c - 0x80) * 64 + (byte d - 0x80), 4)
           else (runeError, 1)
         | _ \<Rightarrow> (runeError, 1))
      else (runeError, 1)))"

definition scalar :: "nat \<Rightarrow> bool" where
  "scalar r \<longleftrightarrow> r < 0xD800 \<or> 0xDFFF < r \<and> r \<le> 0x10FFFF"

text \<open>\<open>utf8.AppendRune\<close>.\<close>

definition rune_bytes :: "nat \<Rightarrow> string" where
  "rune_bytes r0 = (let r = (if scalar r0 then r0 else runeError) in
     if r < 0x80 then [char_of r]
     else if r < 0x800 then [char_of (0xC0 + r div 64), char_of (0x80 + r mod 64)]
     else if r < 0x10000 then
       [char_of (0xE0 + r div 4096), char_of (0x80 + r div 64 mod 64), char_of (0x80 + r mod 64)]
     else [char_of (0xF0 + r div 262144), char_of (0x80 + r div 4096 mod 64), char_of (0x80 + r div 64 mod 64),
           char_of (0x80 + r mod 64)])"

lemma DecodeRune_width: "s \<noteq> [] \<Longrightarrow> 0 < snd (DecodeRune s) \<and> snd (DecodeRune s) \<le> length s"
  by (cases s) (auto simp: DecodeRune_def Let_def split: list.splits prod.splits)

text \<open>The runes of a string, each with the bytes it was read from.\<close>

function rune_pieces :: "string \<Rightarrow> (nat \<times> string) list" where
  "rune_pieces s = (if s = [] then []
     else (let (r, n) = DecodeRune s in (r, take n s) # rune_pieces (drop n s)))"
  by pat_completeness auto
termination
proof (relation "measure length", goal_cases)
  case (2 s p r n)
  then show ?case using DecodeRune_width[of s] by (cases "DecodeRune s") auto
qed simp

declare rune_pieces.simps [simp del]

definition runes :: "string \<Rightarrow> nat list" where
  "runes s = map fst (rune_pieces s)"

definition utf8_Valid :: "string \<Rightarrow> bool" where
  "utf8_Valid s \<longleftrightarrow> list_all (\<lambda>(r, bs). \<not> (r = runeError \<and> length bs = 1)) (rune_pieces s)"

definition runes_string :: "nat list \<Rightarrow> string" where
  "runes_string rs = concat (map rune_bytes rs)"

text \<open>\<open>unicode.IsControl\<close> and \<open>unicode.IsSpace\<close>.\<close>

definition IsControl :: "nat \<Rightarrow> bool" where
  "IsControl r \<longleftrightarrow> r \<le> 0x1F \<or> 0x7F \<le> r \<and> r \<le> 0x9F"

definition IsSpace :: "nat \<Rightarrow> bool" where
  "IsSpace r \<longleftrightarrow> r \<in> {0x09, 0x0A, 0x0B, 0x0C, 0x0D, 0x20, 0x85, 0xA0, 0x1680, 0x2028, 0x2029, 0x202F, 0x205F, 0x3000}
     \<or> 0x2000 \<le> r \<and> r \<le> 0x200A"

subsection \<open>Decoding and encoding runes\<close>

lemma rune_pieces_Nil [simp]: "rune_pieces [] = []"
  by (simp add: rune_pieces.simps)

lemma rune_pieces_step:
  "s \<noteq> [] \<Longrightarrow> DecodeRune s = (r, n) \<Longrightarrow> rune_pieces s = (r, take n s) # rune_pieces (drop n s)"
  by (subst rune_pieces.simps) simp

lemma rune_pieces_concat: "concat (map snd (rune_pieces s)) = s"
proof (induction s rule: rune_pieces.induct)
  case (1 s)
  show ?case
  proof (cases "s = []")
    case False
    obtain r n where d: "DecodeRune s = (r, n)" by fastforce
    show ?thesis using 1[OF False d[symmetric] refl] by (simp add: rune_pieces_step[OF False d])
  qed simp
qed

lemma DecodeRune_ascii: "byte c < 0x80 \<Longrightarrow> DecodeRune (c # s) = (byte c, 1)"
  by (simp add: DecodeRune_def Let_def split: prod.splits)

lemma rune_pieces_ascii: "byte c < 0x80 \<Longrightarrow> rune_pieces (c # s) = (byte c, [c]) # rune_pieces s"
  by (subst rune_pieces_step[OF _ DecodeRune_ascii]) auto

definition ascii_only :: "string \<Rightarrow> bool" where
  "ascii_only s \<longleftrightarrow> list_all (\<lambda>c. byte c < 0x80) s"

lemma utf8_Valid_ascii: "ascii_only s \<Longrightarrow> utf8_Valid s"
  by (induction s) (auto simp: utf8_Valid_def ascii_only_def rune_pieces_ascii runeError_def)

text \<open>Reading back what was written, the four widths.\<close>

lemma base64_digits3: "r = r div 4096 * 4096 + r div 64 mod 64 * 64 + r mod (64 :: nat)"
proof -
  have "r div 4096 = r div 64 div 64" by (simp add: div_mult2_eq[symmetric])
  moreover have "r = r div 64 * 64 + r mod 64" "r div 64 = r div 64 div 64 * 64 + r div 64 mod 64" by simp_all
  ultimately show ?thesis by linarith
qed

lemma base64_digits4: "r = r div 262144 * 262144 + r div 4096 mod 64 * 4096 + r div 64 mod 64 * 64 + r mod (64 :: nat)"
proof -
  have "r div 262144 = r div 4096 div 64" by (simp add: div_mult2_eq[symmetric])
  moreover have "r div 4096 = r div 4096 div 64 * 64 + r div 4096 mod 64" by simp
  ultimately show ?thesis using base64_digits3[of r] by linarith
qed

lemma DecodeRune_rune_bytes:
  assumes "scalar r"
  shows "DecodeRune (rune_bytes r @ s) = (r, length (rune_bytes r))"
proof -
  have m: "of_char (char_of n :: char) = n" if "n < 256" for n :: nat using that by simp
  consider (one) "r < 0x80" | (two) "0x80 \<le> r" "r < 0x800" | (three) "0x800 \<le> r" "r < 0x10000"
    | (four) "0x10000 \<le> r" "r \<le> 0x10FFFF" using assms by (force simp: scalar_def)
  then show ?thesis
  proof cases
    case one
    then show ?thesis using assms by (simp add: rune_bytes_def DecodeRune_def Let_def m)
  next
    case two
    have "r div 64 < 32" "2 \<le> r div 64" using two by linarith+
    then show ?thesis using two assms
      by (simp add: rune_bytes_def DecodeRune_def Let_def m second_range_def in_range_def)
  next
    case three
    define x y z where "x = r div 4096" and "y = r div 64 mod 64" and "z = r mod 64"
    have r: "r = x * 4096 + y * 64 + z" unfolding x_def y_def z_def by (rule base64_digits3)
    have b: "x < 16" "y < 64" "z < 64" using three unfolding x_def y_def z_def by simp_all
    have lo: "x = 0 \<longrightarrow> 32 \<le> y" using three b r by linarith
    have su: "x = 13 \<longrightarrow> y < 32"
    proof (rule ccontr)
      assume "\<not> (x = 13 \<longrightarrow> y < 32)"
      then have "x = 13" "\<not> y < 32" by auto
      then have "0xD800 \<le> r" "r \<le> 0xDFFF" using r b by linarith+
      then show False using assms by (simp add: scalar_def)
    qed
    have "rune_bytes r = [char_of (0xE0 + x), char_of (0x80 + y), char_of (0x80 + z)]"
      using three assms by (simp add: rune_bytes_def Let_def x_def y_def z_def)
    then show ?thesis using b lo su r
      by (auto simp: DecodeRune_def Let_def m second_range_def in_range_def)
  next
    case four
    define x y z w where "x = r div 262144" and "y = r div 4096 mod 64" and "z = r div 64 mod 64" and "w = r mod 64"
    have r: "r = x * 262144 + y * 4096 + z * 64 + w" unfolding x_def y_def z_def w_def by (rule base64_digits4)
    have b: "x < 5" "y < 64" "z < 64" "w < 64" using four unfolding x_def y_def z_def w_def by simp_all
    have lo: "x = 0 \<longrightarrow> 16 \<le> y" using four b r by linarith
    have hi: "x = 4 \<longrightarrow> y < 16" using four b r by linarith
    have "rune_bytes r = [char_of (0xF0 + x), char_of (0x80 + y), char_of (0x80 + z), char_of (0x80 + w)]"
      using four assms by (simp add: rune_bytes_def Let_def x_def y_def z_def w_def)
    then show ?thesis using b lo hi r
      by (auto simp: DecodeRune_def Let_def m second_range_def in_range_def)
  qed
qed

lemma rune_bytes_not_Nil [simp]: "rune_bytes r \<noteq> []"
  by (simp add: rune_bytes_def Let_def)

lemma rune_pieces_rune: "scalar r \<Longrightarrow> rune_pieces (rune_bytes r @ s) = (r, rune_bytes r) # rune_pieces s"
  by (subst rune_pieces_step[OF _ DecodeRune_rune_bytes]) auto

lemma runes_runes_string: "list_all scalar rs \<Longrightarrow> runes (runes_string rs) = rs"
  by (induction rs) (auto simp: runes_def runes_string_def rune_pieces_rune)

lemma runeError_bytes: "length (rune_bytes runeError) = 3"
  by (simp add: rune_bytes_def runeError_def scalar_def)

lemma utf8_Valid_runes_string: "list_all scalar rs \<Longrightarrow> utf8_Valid (runes_string rs)"
  using runeError_bytes by (induction rs) (auto simp: utf8_Valid_def runes_string_def rune_pieces_rune)

text \<open>Writing back what was read.\<close>

lemma digits3_eq:
  assumes "y < 64" "z < (64 :: nat)"
  shows "(x * 4096 + y * 64 + z) div 4096 = x" "(x * 4096 + y * 64 + z) div 64 mod 64 = y" "(x * 4096 + y * 64 + z) mod 64 = z"
proof -
  have e: "x * 4096 + y * 64 + z = (x * 64 + y) * 64 + z" by simp
  have d: "(x * 4096 + y * 64 + z) div 64 = x * 64 + y" unfolding e using assms by simp
  have "(x * 4096 + y * 64 + z) div 4096 = (x * 4096 + y * 64 + z) div 64 div 64" by (simp add: div_mult2_eq[symmetric])
  then show "(x * 4096 + y * 64 + z) div 4096 = x" unfolding d using assms by simp
  show "(x * 4096 + y * 64 + z) div 64 mod 64 = y" unfolding d using assms by simp
  have "((x * 64 + y) * 64 + z) mod 64 = z" using assms by (simp only: mod_mult_self3 mod_less)
  then show "(x * 4096 + y * 64 + z) mod 64 = z" unfolding e .
qed

lemma digits4_eq:
  assumes "y < 64" "z < 64" "w < (64 :: nat)"
  shows "(x * 262144 + y * 4096 + z * 64 + w) div 262144 = x" "(x * 262144 + y * 4096 + z * 64 + w) div 4096 mod 64 = y"
    "(x * 262144 + y * 4096 + z * 64 + w) div 64 mod 64 = z" "(x * 262144 + y * 4096 + z * 64 + w) mod 64 = w"
proof -
  have e: "x * 262144 + y * 4096 + z * 64 + w = (x * 64 + y) * 4096 + z * 64 + w" by simp
  note d = digits3_eq[OF assms(2,3), of "x * 64 + y", folded e]
  have "n div 262144 = n div 4096 div 64" for n :: nat by (simp add: div_mult2_eq[symmetric])
  then show "(x * 262144 + y * 4096 + z * 64 + w) div 262144 = x" using d(1) assms(1) by simp
  show "(x * 262144 + y * 4096 + z * 64 + w) div 4096 mod 64 = y" unfolding d using assms by simp
  show "(x * 262144 + y * 4096 + z * 64 + w) div 64 mod 64 = z" "(x * 262144 + y * 4096 + z * 64 + w) mod 64 = w"
    by (rule d)+
qed

lemma DecodeRune_wide2:
  assumes "DecodeRune (a # t) = (r, n)" "n \<noteq> 1" "0x80 \<le> byte a" "byte a \<le> 0xDF"
  obtains b t' where "t = b # t'" "0xC2 \<le> byte a" "0x80 \<le> byte b" "byte b \<le> 0xBF"
    "r = (byte a - 0xC0) * 64 + (byte b - 0x80)" "n = 2"
  using assms by (cases t) (auto simp: DecodeRune_def Let_def in_range_def second_range_def split: if_splits)

lemma DecodeRune_wide3:
  assumes d: "DecodeRune (a # t) = (r, n)" "n \<noteq> 1" "0xE0 \<le> byte a" "byte a \<le> 0xEF"
  obtains b c t' where "t = b # c # t'" "0x80 \<le> byte b" "byte b \<le> 0xBF"
    "0x80 \<le> byte c" "byte c \<le> 0xBF" "byte a = 0xE0 \<longrightarrow> 0xA0 \<le> byte b" "byte a = 0xED \<longrightarrow> byte b \<le> 0x9F"
    "r = (byte a - 0xE0) * 4096 + (byte b - 0x80) * 64 + (byte c - 0x80)" "n = 3"
proof -
  obtain lo hi where lh: "second_range (byte a) = (lo, hi)" by fastforce
  obtain b c t' where t: "t = b # c # t'" and i: "in_range lo hi b" "in_range 0x80 0xBF c"
    and rn: "r = (byte a - 0xE0) * 4096 + (byte b - 0x80) * 64 + (byte c - 0x80)" "n = 3"
    using d lh by (auto simp: DecodeRune_def Let_def split: list.splits if_splits)
  have "0x80 \<le> byte b \<and> byte b \<le> 0xBF \<and> (byte a = 0xE0 \<longrightarrow> 0xA0 \<le> byte b) \<and> (byte a = 0xED \<longrightarrow> byte b \<le> 0x9F)"
    using i(1) lh d(4) by (auto simp: in_range_def second_range_def split: if_splits)
  then show thesis using that t i(2) rn by (simp add: in_range_def)
qed

lemma DecodeRune_wide4:
  assumes d: "DecodeRune (a # t) = (r, n)" "n \<noteq> 1" "0xF0 \<le> byte a"
  obtains b c e t' where "t = b # c # e # t'" "byte a \<le> 0xF4" "0x80 \<le> byte b" "byte b \<le> 0xBF"
    "0x80 \<le> byte c" "byte c \<le> 0xBF" "0x80 \<le> byte e" "byte e \<le> 0xBF"
    "byte a = 0xF0 \<longrightarrow> 0x90 \<le> byte b" "byte a = 0xF4 \<longrightarrow> byte b \<le> 0x8F"
    "r = (byte a - 0xF0) * 262144 + (byte b - 0x80) * 4096 + (byte c - 0x80) * 64 + (byte e - 0x80)" "n = 4"
proof -
  obtain lo hi where lh: "second_range (byte a) = (lo, hi)" by fastforce
  obtain b c e t' where t: "t = b # c # e # t'" "byte a \<le> 0xF4" and i: "in_range lo hi b" "in_range 0x80 0xBF c" "in_range 0x80 0xBF e"
    and rn: "r = (byte a - 0xF0) * 262144 + (byte b - 0x80) * 4096 + (byte c - 0x80) * 64 + (byte e - 0x80)" "n = 4"
    using d lh by (auto simp: DecodeRune_def Let_def split: list.splits if_splits)
  have "0x80 \<le> byte b \<and> byte b \<le> 0xBF \<and> (byte a = 0xF0 \<longrightarrow> 0x90 \<le> byte b) \<and> (byte a = 0xF4 \<longrightarrow> byte b \<le> 0x8F)"
    using i(1) lh d(3) by (auto simp: in_range_def second_range_def split: if_splits)
  then show thesis using that t i(2,3) rn by (simp add: in_range_def)
qed

lemma DecodeRune_wide1: "DecodeRune s = (r, 1) \<Longrightarrow> s \<noteq> [] \<Longrightarrow> r = runeError \<or> byte (hd s) < 0x80"
  by (cases s) (auto simp: DecodeRune_def Let_def split: list.splits if_splits prod.splits)

lemma rune_bytes_DecodeRune:
  assumes d: "DecodeRune s = (r, n)" and ok: "\<not> (r = runeError \<and> n = 1)" and ne: "s \<noteq> []"
  shows "scalar r \<and> rune_bytes r = take n s"
proof -
  obtain a t where s: "s = a # t" using ne by (cases s) auto
  have a: "byte a < 256" by simp
  have cc: "char_of (byte c) = c" for c by simp
  show ?thesis
  proof (cases "byte a < 0x80")
    case True
    then have "r = byte a" "n = 1" using d s by (simp_all add: DecodeRune_ascii)
    then show ?thesis using True s by (simp add: scalar_def rune_bytes_def)
  next
    case False
    have n: "n \<noteq> 1" using DecodeRune_wide1[of s r] d ok s False by auto
    consider (2) "byte a \<le> 0xDF" | (3) "0xE0 \<le> byte a" "byte a \<le> 0xEF" | (4) "0xF0 \<le> byte a" by linarith
    then show ?thesis
    proof cases
      case 2
      then obtain b t' where two: "t = b # t'" "0xC2 \<le> byte a" "0x80 \<le> byte b" "byte b \<le> 0xBF"
        "r = (byte a - 0xC0) * 64 + (byte b - 0x80)" "n = 2" using DecodeRune_wide2[of a t r n] d s n False by auto
      define x y where "x = byte a - 0xC0" and "y = byte b - 0x80"
      have b: "2 \<le> x" "x < 32" "y < 64" and r: "r = x * 64 + y" and "byte a = 0xC0 + x" "byte b = 0x80 + y"
        using two 2 unfolding x_def y_def by auto
      then have "[char_of (0xC0 + x), char_of (0x80 + y)] = [a, b]" by (metis cc)
      moreover have "\<not> r < 0x80" "r < 0x800" "r div 64 = x" "r mod 64 = y" using b r by auto
      ultimately show ?thesis using two s by (simp add: rune_bytes_def Let_def scalar_def)
    next
      case 3
      then obtain b c t' where three: "t = b # c # t'" "0x80 \<le> byte b" "byte b \<le> 0xBF"
        "0x80 \<le> byte c" "byte c \<le> 0xBF" "byte a = 0xE0 \<longrightarrow> 0xA0 \<le> byte b" "byte a = 0xED \<longrightarrow> byte b \<le> 0x9F"
        "r = (byte a - 0xE0) * 4096 + (byte b - 0x80) * 64 + (byte c - 0x80)" "n = 3"
        using DecodeRune_wide3[of a t r n] d s n by metis
      define x y z where "x = byte a - 0xE0" and "y = byte b - 0x80" and "z = byte c - 0x80"
      have b: "x < 16" "y < 64" "z < 64" "x = 0 \<longrightarrow> 32 \<le> y" "x = 13 \<longrightarrow> y < 32" and r: "r = x * 4096 + y * 64 + z"
        and e: "byte a = 0xE0 + x" "byte b = 0x80 + y" "byte c = 0x80 + z"
        using three 3 unfolding x_def y_def z_def by auto
      have "[char_of (0xE0 + x), char_of (0x80 + y), char_of (0x80 + z)] = [a, b, c]" using e by (metis cc)
      moreover have "r div 4096 = x" "r div 64 mod 64 = y" "r mod 64 = z" unfolding r using b digits3_eq by blast+
      moreover have "0x800 \<le> r" "r < 0x10000" using b r by (cases "x = 0"; auto)+
      moreover have "scalar r"
      proof (cases "x \<le> 13")
        case True
        then show ?thesis using b r by (cases "x = 13") (auto simp: scalar_def)
      next
        case False
        then show ?thesis using b r by (auto simp: scalar_def)
      qed
      ultimately show ?thesis using three(1,9) s by (simp add: rune_bytes_def Let_def)
    next
      case 4
      then obtain b c e t' where four: "t = b # c # e # t'" "byte a \<le> 0xF4" "0x80 \<le> byte b" "byte b \<le> 0xBF"
        "0x80 \<le> byte c" "byte c \<le> 0xBF" "0x80 \<le> byte e" "byte e \<le> 0xBF"
        "byte a = 0xF0 \<longrightarrow> 0x90 \<le> byte b" "byte a = 0xF4 \<longrightarrow> byte b \<le> 0x8F"
        "r = (byte a - 0xF0) * 262144 + (byte b - 0x80) * 4096 + (byte c - 0x80) * 64 + (byte e - 0x80)" "n = 4"
        using DecodeRune_wide4[of a t r n] d s n by metis
      define x y z w where "x = byte a - 0xF0" and "y = byte b - 0x80" and "z = byte c - 0x80" and "w = byte e - 0x80"
      have b: "x < 5" "y < 64" "z < 64" "w < 64" "x = 0 \<longrightarrow> 16 \<le> y" "x = 4 \<longrightarrow> y < 16"
        and r: "r = x * 262144 + y * 4096 + z * 64 + w"
        and e: "byte a = 0xF0 + x" "byte b = 0x80 + y" "byte c = 0x80 + z" "byte e = 0x80 + w"
        using four 4 unfolding x_def y_def z_def w_def by auto
      have "[char_of (0xF0 + x), char_of (0x80 + y), char_of (0x80 + z), char_of (0x80 + w)] = [a, b, c, e]"
        using e by (metis cc)
      moreover have "r div 262144 = x" "r div 4096 mod 64 = y" "r div 64 mod 64 = z" "r mod 64 = w"
        unfolding r using b digits4_eq by blast+
      moreover have "0x10000 \<le> r" using b r by (cases "x = 0") auto
      moreover have "r \<le> 0x10FFFF" using b r by (cases "x = 4") auto
      ultimately show ?thesis using four(1,12) s by (simp add: rune_bytes_def Let_def scalar_def)
    qed
  qed
qed

lemma utf8_Valid_pieces:
  "utf8_Valid s \<Longrightarrow> (r, bs) \<in> set (rune_pieces s) \<Longrightarrow> scalar r \<and> rune_bytes r = bs"
proof (induction s arbitrary: r bs rule: rune_pieces.induct)
  case (1 s)
  show ?case
  proof (cases "s = []")
    case False
    obtain q n where d: "DecodeRune s = (q, n)" by fastforce
    note st = rune_pieces_step[OF False d]
    have n: "n \<le> length s" using DecodeRune_width[OF False] d by simp
    have v: "utf8_Valid (drop n s)" "\<not> (q = runeError \<and> n = 1)"
      using "1.prems"(1) n by (auto simp: utf8_Valid_def st split: if_splits)
    show ?thesis
      using "1.prems"(2) "1.IH"[OF False d[symmetric] refl v(1)] rune_bytes_DecodeRune[OF d v(2) False]
      by (auto simp: st)
  qed (use 1 in simp)
qed

lemma utf8_Valid_runes_string_id: "utf8_Valid s \<Longrightarrow> runes_string (runes s) = s"
proof -
  assume v: "utf8_Valid s"
  have "map (rune_bytes \<circ> fst) (rune_pieces s) = map snd (rune_pieces s)"
    using utf8_Valid_pieces[OF v] by (force intro!: map_cong)
  then show ?thesis using rune_pieces_concat[of s] by (simp only: runes_string_def runes_def map_map)
qed

lemma utf8_Valid_scalars: "utf8_Valid s \<Longrightarrow> list_all scalar (runes s)"
  using utf8_Valid_pieces by (force simp: runes_def list_all_iff)

end
