(* ===== verification/Json.thy ===== *)
theory Json
  imports Utf8
begin

text \<open>
  The part of Go's \<^verbatim>\<open>encoding/json\<close> the repository uses. Writing: \<open>json.Marshal\<close> of strings (with HTML escaping) and of
  structs, and the compaction of a \<open>json.RawMessage\<close>. Reading: the syntax of RFC 8259 as Go's scanner accepts it, with its
  limit of 10000 on the nesting, the unquoting of strings, and the decoding of an object into a struct: a key selects the
  field of that name or else one that differs in case only, unknown keys are skipped or reported, and the first mismatch
  is the error of the call.
\<close>

abbreviation backslash :: char where "backslash \<equiv> CHR 0x5C"
abbreviation dquote :: char where "dquote \<equiv> CHR 0x22"

subsection \<open>Writing\<close>

definition esc_ascii :: "char \<Rightarrow> string" where
  "esc_ascii c =
     (if c = dquote \<or> c = backslash then [backslash, c]
      else if byte c = 0x08 then [backslash, CHR ''b''] else if byte c = 0x0C then [backslash, CHR ''f'']
      else if byte c = 0x0A then [backslash, CHR ''n''] else if byte c = 0x0D then [backslash, CHR ''r'']
      else if byte c = 0x09 then [backslash, CHR ''t'']
      else if byte c < 0x20 \<or> c \<in> set ''<>&'' then
        backslash # ''u00'' @ [hex_digit (byte c div 16), hex_digit (byte c mod 16)]
      else [c])"

fun esc_piece :: "nat \<times> string \<Rightarrow> string" where
  "esc_piece (r, bs) =
     (if r < 0x80 \<and> length bs = 1 then esc_ascii (hd bs)
      else if r = runeError \<and> length bs = 1 then backslash # ''ufffd''
      else if r = 0x2028 then backslash # ''u2028'' else if r = 0x2029 then backslash # ''u2029''
      else bs)"

definition json_escape :: "string \<Rightarrow> string" where
  "json_escape s = concat (map esc_piece (rune_pieces s))"

definition json_quote :: "string \<Rightarrow> string" where
  "json_quote s = dquote # json_escape s @ [dquote]"

text \<open>An object from its names and the texts of its values.\<close>

fun json_fields :: "(string \<times> string) list \<Rightarrow> string" where
  "json_fields [] = []"
| "json_fields [(k, v)] = json_quote k @ '':'' @ v"
| "json_fields ((k, v) # x # xs) = json_quote k @ '':'' @ v @ '','' @ json_fields (x # xs)"

definition json_object :: "(string \<times> string) list \<Rightarrow> string" where
  "json_object xs = ''{'' @ json_fields xs @ ''}''"

definition json_array :: "string list \<Rightarrow> string" where
  "json_array vs = ''['' @ Join vs '','' @ '']''"

definition json_bool :: "bool \<Rightarrow> string" where
  "json_bool b = (if b then ''true'' else ''false'')"

definition json_int :: "int \<Rightarrow> string" where
  "json_int n = (if n < 0 then ''-'' @ decimal (nat (- n)) else decimal (nat n))"

text \<open>The tag option \<open>omitempty\<close>.\<close>

definition omit_when :: "bool \<Rightarrow> string \<times> string \<Rightarrow> (string \<times> string) list" where
  "omit_when is_empty kv = (if is_empty then [] else [kv])"

definition is_ws :: "char \<Rightarrow> bool" where
  "is_ws c \<longleftrightarrow> c = CHR '' '' \<or> c = CHR 0x09 \<or> c = CHR 0x0D \<or> c = CHR 0x0A"

text \<open>
  Compaction of a valid text: white space outside strings goes, \<open><\<close>, \<open>>\<close>, \<open>&\<close> and the two line separators inside
  strings are escaped.
\<close>

fun json_compact :: "bool \<Rightarrow> string \<Rightarrow> string" where
  "json_compact in_str [] = []"
| "json_compact in_str (c # s) =
     (if in_str then
        (if c = backslash then (case s of [] \<Rightarrow> [c] | e # s' \<Rightarrow> c # e # json_compact True s')
         else if c = dquote then c # json_compact False s
         else if c \<in> set ''<>&'' then esc_ascii c @ json_compact True s
         else if prefix (rune_bytes 0x2028) (c # s) then backslash # ''u2028'' @ json_compact True (drop 2 s)
         else if prefix (rune_bytes 0x2029) (c # s) then backslash # ''u2029'' @ json_compact True (drop 2 s)
         else c # json_compact True s)
      else if is_ws c then json_compact False s
      else c # json_compact (c = dquote) s)"

subsection \<open>Strings\<close>

text \<open>The text of a string literal after its opening quote, up to the closing one, and the rest.\<close>

fun scan_string :: "string \<Rightarrow> (string \<times> string) option" where
  "scan_string [] = None"
| "scan_string (c # s) =
     (if c = dquote then Some ([], s)
      else if c = backslash then
        (case s of [] \<Rightarrow> None
         | e # s1 \<Rightarrow>
            if e \<in> {dquote, backslash} \<union> set ''/bfnrt'' then map_option (\<lambda>(raw, q). (c # e # raw, q)) (scan_string s1)
            else if e = CHR ''u'' \<and> 4 \<le> length s1 \<and> list_all (\<lambda>h. unhex h \<noteq> None) (take 4 s1) then
              map_option (\<lambda>(raw, q). (c # e # take 4 s1 @ raw, q)) (scan_string (drop 4 s1))
            else None)
      else if byte c < 0x20 then None
      else map_option (\<lambda>(raw, q). (c # raw, q)) (scan_string s))"

definition hex4 :: "string \<Rightarrow> nat option" where
  "hex4 ds = (if length ds = 4 \<and> list_all (\<lambda>h. unhex h \<noteq> None) ds
     then Some (foldl (\<lambda>v h. 16 * v + the (unhex h)) 0 ds) else None)"

text \<open>\<open>getu4\<close>: a leading \<open>\uXXXX\<close>, its value and the rest.\<close>

definition getu4 :: "string \<Rightarrow> (nat \<times> string) option" where
  "getu4 s = (case s of c # e # r \<Rightarrow>
      if c = backslash \<and> e = CHR ''u'' then map_option (\<lambda>v. (v, drop 4 r)) (hex4 (take 4 r)) else None
    | _ \<Rightarrow> None)"

definition is_surrogate :: "nat \<Rightarrow> bool" where
  "is_surrogate r \<longleftrightarrow> 0xD800 \<le> r \<and> r \<le> 0xDFFF"

text \<open>\<open>utf16.DecodeRune\<close>.\<close>

definition utf16_pair :: "nat \<Rightarrow> nat \<Rightarrow> nat option" where
  "utf16_pair r1 r2 = (if 0xD800 \<le> r1 \<and> r1 < 0xDC00 \<and> 0xDC00 \<le> r2 \<and> r2 \<le> 0xDFFF
     then Some ((r1 - 0xD800) * 1024 + (r2 - 0xDC00) + 0x10000) else None)"

definition unescape_char :: "char \<Rightarrow> char" where
  "unescape_char e = (if e = CHR ''b'' then CHR 0x08 else if e = CHR ''f'' then CHR 0x0C else if e = CHR ''n'' then CHR 0x0A
     else if e = CHR ''r'' then CHR 0x0D else if e = CHR ''t'' then CHR 0x09 else e)"

lemma getu4_length: "getu4 s = Some (v, r) \<Longrightarrow> length s = length r + 6"
  by (auto simp: getu4_def hex4_def split: list.splits if_splits)

function unquote :: "string \<Rightarrow> string" where
  "unquote s = (case s of [] \<Rightarrow> [] | c # r \<Rightarrow>
     if c = backslash then
       (case getu4 s of
          Some (r1, q) \<Rightarrow>
            (if is_surrogate r1 then
               (case getu4 q of
                  Some (r2, q2) \<Rightarrow> (case utf16_pair r1 r2 of Some x \<Rightarrow> rune_bytes x @ unquote q2
                     | None \<Rightarrow> rune_bytes runeError @ unquote q)
                | None \<Rightarrow> rune_bytes runeError @ unquote q)
             else rune_bytes r1 @ unquote q)
        | None \<Rightarrow> (case r of [] \<Rightarrow> [] | e # r' \<Rightarrow> unescape_char e # unquote r'))
     else if byte c < 0x80 then c # unquote r
     else (let (x, n) = DecodeRune s in rune_bytes x @ unquote (drop n s)))"
  by pat_completeness auto
termination
proof (relation "measure length", goal_cases)
  case (8 s c r p x n)
  then show ?case using DecodeRune_width[of "c # r"] by (cases "DecodeRune s") auto
qed (auto dest!: getu4_length)

declare unquote.simps [simp del]

subsection \<open>Values\<close>

text \<open>A member of an object carries the text of its value, which is what a \<open>json.RawMessage\<close> field receives.\<close>

datatype json = JNull | JBool bool | JNumber string | JString string | JArray "json list" | JObject "(string \<times> string \<times> json) list"

definition skip_ws :: "string \<Rightarrow> string" where
  "skip_ws = dropWhile is_ws"

definition scan_int :: "string \<Rightarrow> (string \<times> string) option" where
  "scan_int s = (case s of [] \<Rightarrow> None | c # r \<Rightarrow>
     if c = CHR ''0'' then Some ([c], r) else if is_digit c then Some (takeWhile is_digit s, dropWhile is_digit s) else None)"

definition scan_frac :: "string \<Rightarrow> (string \<times> string) option" where
  "scan_frac s = (case s of c # r \<Rightarrow>
       if c = CHR ''.'' then (if takeWhile is_digit r = [] then None else Some (c # takeWhile is_digit r, dropWhile is_digit r))
       else Some ([], s)
     | [] \<Rightarrow> Some ([], s))"

definition scan_exp :: "string \<Rightarrow> (string \<times> string) option" where
  "scan_exp s = (case s of c # r \<Rightarrow>
       if c = CHR ''e'' \<or> c = CHR ''E'' then
         (let (sg, ds) = (case r of d # r' \<Rightarrow> if d = CHR ''+'' \<or> d = CHR ''-'' then ([d], r') else ([], r) | [] \<Rightarrow> ([], r))
          in if takeWhile is_digit ds = [] then None else Some (c # sg @ takeWhile is_digit ds, dropWhile is_digit ds))
       else Some ([], s)
     | [] \<Rightarrow> Some ([], s))"

definition scan_number :: "string \<Rightarrow> (string \<times> string) option" where
  "scan_number s =
     (let (sg, s1) = (case s of c # r \<Rightarrow> if c = CHR ''-'' then ([c], r) else ([], s) | [] \<Rightarrow> ([], s)) in
      (case scan_int s1 of None \<Rightarrow> None | Some (i, s2) \<Rightarrow>
      (case scan_frac s2 of None \<Rightarrow> None | Some (f, s3) \<Rightarrow>
      (case scan_exp s3 of None \<Rightarrow> None | Some (e, s4) \<Rightarrow> Some (sg @ i @ f @ e, s4)))))"

definition maxNestingDepth :: nat where "maxNestingDepth = 10000"

text \<open>
  A value at the head of the text (no leading white space), and the rest. The first argument is fuel, \<open>parse_fuel\<close>
  below shows that twice the length is enough; the second is the nesting that is left.
\<close>

fun parse_value :: "nat \<Rightarrow> nat \<Rightarrow> string \<Rightarrow> (json \<times> string) option"
  and parse_elements :: "nat \<Rightarrow> nat \<Rightarrow> string \<Rightarrow> (json list \<times> string) option"
  and parse_members :: "nat \<Rightarrow> nat \<Rightarrow> string \<Rightarrow> ((string \<times> string \<times> json) list \<times> string) option" where
  "parse_value 0 d s = None"
| "parse_value (Suc n) d s =
     (case s of [] \<Rightarrow> None | c # r \<Rightarrow>
        if c = CHR ''{'' then
          (if d = 0 then None
           else (case skip_ws r of [] \<Rightarrow> None | c' # r' \<Rightarrow>
             if c' = CHR ''}'' then Some (JObject [], r')
             else map_option (\<lambda>(ms, q). (JObject ms, q)) (parse_members n (d - 1) (c' # r'))))
        else if c = CHR ''['' then
          (if d = 0 then None
           else (case skip_ws r of [] \<Rightarrow> None | c' # r' \<Rightarrow>
             if c' = CHR '']'' then Some (JArray [], r')
             else map_option (\<lambda>(vs, q). (JArray vs, q)) (parse_elements n (d - 1) (c' # r'))))
        else if c = dquote then map_option (\<lambda>(raw, q). (JString (unquote raw), q)) (scan_string r)
        else if prefix ''null'' s then Some (JNull, drop 4 s)
        else if prefix ''true'' s then Some (JBool True, drop 4 s)
        else if prefix ''false'' s then Some (JBool False, drop 5 s)
        else map_option (\<lambda>(t, q). (JNumber t, q)) (scan_number s))"
| "parse_elements 0 d s = None"
| "parse_elements (Suc n) d s =
     (case parse_value n d s of None \<Rightarrow> None | Some (v, q) \<Rightarrow>
      (case skip_ws q of [] \<Rightarrow> None | c # q' \<Rightarrow>
         if c = CHR '','' then map_option (\<lambda>(vs, z). (v # vs, z)) (parse_elements n d (skip_ws q'))
         else if c = CHR '']'' then Some ([v], q') else None))"
| "parse_members 0 d s = None"
| "parse_members (Suc n) d s =
     (case s of [] \<Rightarrow> None | c # r \<Rightarrow>
        if c \<noteq> dquote then None
        else (case scan_string r of None \<Rightarrow> None | Some (k, q) \<Rightarrow>
        (case skip_ws q of [] \<Rightarrow> None | c1 # q1 \<Rightarrow>
          if c1 \<noteq> CHR '':'' then None
          else (case parse_value n d (skip_ws q1) of None \<Rightarrow> None | Some (v, q2) \<Rightarrow>
          (let m = (unquote k, take (length (skip_ws q1) - length q2) (skip_ws q1), v) in
           (case skip_ws q2 of [] \<Rightarrow> None | c3 # q3 \<Rightarrow>
              if c3 = CHR '','' then map_option (\<lambda>(ms, z). (m # ms, z)) (parse_members n d (skip_ws q3))
              else if c3 = CHR ''}'' then Some ([m], q3) else None))))))"

declare parse_value.simps [simp del] parse_elements.simps [simp del] parse_members.simps [simp del]

definition parse_one :: "string \<Rightarrow> (json \<times> string) option" where
  "parse_one s = parse_value (2 * length s + 1) maxNestingDepth s"

text \<open>What \<open>json.Unmarshal\<close> reads: one value with white space around it.\<close>

definition json_parse :: "string \<Rightarrow> json option" where
  "json_parse s = (case parse_one (skip_ws s) of
      Some (v, q) \<Rightarrow> if skip_ws q = [] then Some v else None
    | None \<Rightarrow> None)"

subsection \<open>Structs\<close>

datatype json_error = JSyntax | JType | JUnknownField

text \<open>How \<open>foldName\<close> compares names: by upper case, with the two other runes that fold to ASCII letters.\<close>

definition fold_rune :: "nat \<Rightarrow> nat" where
  "fold_rune r = (if 0x61 \<le> r \<and> r \<le> 0x7A then r - 32 else if r = 0x17F then 0x53 else if r = 0x212A then 0x4B else r)"

definition foldName :: "string \<Rightarrow> nat list" where
  "foldName s = map fold_rune (runes s)"

text \<open>A field of a struct: its name and what decoding a value into it does.\<close>

type_synonym 'r field = "string \<times> (json \<Rightarrow> string \<Rightarrow> 'r \<Rightarrow> json_error option \<times> 'r)"

definition lookup_field :: "'r field list \<Rightarrow> string \<Rightarrow> (json \<Rightarrow> string \<Rightarrow> 'r \<Rightarrow> json_error option \<times> 'r) option" where
  "lookup_field fs k = (case map_of fs k of Some f \<Rightarrow> Some f
     | None \<Rightarrow> map_option snd (find (\<lambda>f. foldName (fst f) = foldName k) fs))"

fun decode_members :: "bool \<Rightarrow> 'r field list \<Rightarrow> (string \<times> string \<times> json) list \<Rightarrow> 'r \<Rightarrow> json_error option \<times> 'r" where
  "decode_members strict fs [] r = (None, r)"
| "decode_members strict fs ((k, raw, v) # ms) r =
     (case lookup_field fs k of
        None \<Rightarrow> (case decode_members strict fs ms r of (e, r') \<Rightarrow> (if strict then Some JUnknownField else e, r'))
      | Some f \<Rightarrow> (case f v raw r of (e1, r1) \<Rightarrow> (case decode_members strict fs ms r1 of (e2, r2) \<Rightarrow>
          (if e1 = None then e2 else e1, r2))))"

definition decode_struct :: "bool \<Rightarrow> 'r field list \<Rightarrow> json \<Rightarrow> 'r \<Rightarrow> json_error option \<times> 'r" where
  "decode_struct strict fs v r = (case v of JObject ms \<Rightarrow> decode_members strict fs ms r
     | JNull \<Rightarrow> (None, r) | _ \<Rightarrow> (Some JType, r))"

definition string_field :: "string \<Rightarrow> (string \<Rightarrow> 'r \<Rightarrow> 'r) \<Rightarrow> 'r field" where
  "string_field name upd = (name, \<lambda>v raw r. case v of JString s \<Rightarrow> (None, upd s r) | JNull \<Rightarrow> (None, r) | _ \<Rightarrow> (Some JType, r))"

definition bool_field :: "string \<Rightarrow> (bool \<Rightarrow> 'r \<Rightarrow> 'r) \<Rightarrow> 'r field" where
  "bool_field name upd = (name, \<lambda>v raw r. case v of JBool b \<Rightarrow> (None, upd b r) | JNull \<Rightarrow> (None, r) | _ \<Rightarrow> (Some JType, r))"

definition int_field :: "string \<Rightarrow> (int \<Rightarrow> 'r \<Rightarrow> 'r) \<Rightarrow> 'r field" where
  "int_field name upd = (name, \<lambda>v raw r. case v of
       JNumber t \<Rightarrow> (case Atoi t of Some n \<Rightarrow> (None, upd n r) | None \<Rightarrow> (Some JType, r))
     | JNull \<Rightarrow> (None, r) | _ \<Rightarrow> (Some JType, r))"

definition raw_field :: "string \<Rightarrow> (string \<Rightarrow> 'r \<Rightarrow> 'r) \<Rightarrow> 'r field" where
  "raw_field name upd = (name, \<lambda>v raw r. (None, upd raw r))"

definition json_Unmarshal :: "'r field list \<Rightarrow> string \<Rightarrow> 'r \<Rightarrow> json_error + 'r" where
  "json_Unmarshal fs s r = (case json_parse s of None \<Rightarrow> Inl JSyntax
     | Some v \<Rightarrow> (case decode_struct False fs v r of (None, r') \<Rightarrow> Inr r' | (Some e, _) \<Rightarrow> Inl e))"

subsection \<open>Enough fuel\<close>

lemma skip_ws_length: "length (skip_ws s) \<le> length s"
  by (simp add: skip_ws_def length_dropWhile_le)

lemma skip_ws_Cons: "skip_ws s = c # r \<Longrightarrow> length r < length s"
  using skip_ws_length[of s] by simp

lemma scan_string_length: "scan_string s = Some (raw, q) \<Longrightarrow> length q < length s"
  by (induction s arbitrary: raw q rule: scan_string.induct) (fastforce split: if_splits list.splits)+

lemma scan_number_length: "scan_number s = Some (t, q) \<Longrightarrow> length q < length s"
proof -
  have d: "length (dropWhile is_digit r) \<le> length r" for r by (rule length_dropWhile_le)
  have i: "length b < length a" if "scan_int a = Some (x, b)" for a b x
    using that d by (auto simp: scan_int_def le_imp_less_Suc split: list.splits if_splits)
  have f: "length b \<le> length a" if "scan_frac a = Some (x, b)" for a b x
    using that d by (auto simp: scan_frac_def le_Suc_eq split: list.splits if_splits)
  have e: "length b \<le> length a" if "scan_exp a = Some (x, b)" for a b x
    using that d by (auto simp: scan_exp_def Let_def le_Suc_eq split: list.splits if_splits prod.splits)
  assume n: "scan_number s = Some (t, q)"
  define p where "p = (case s of c # r \<Rightarrow> if c = CHR ''-'' then ([c], r) else ([], s) | [] \<Rightarrow> ([], s))"
  obtain sg s1 where p: "p = (sg, s1)" by fastforce
  have "length s1 \<le> length s" using p by (auto simp: p_def split: list.splits if_splits)
  moreover obtain x s2 y s3 z where "scan_int s1 = Some (x, s2)" "scan_frac s2 = Some (y, s3)" "scan_exp s3 = Some (z, q)"
    using n p by (auto simp: scan_number_def p_def[symmetric] Let_def split: option.splits)
  ultimately show ?thesis using i f e by (meson less_le_trans le_less_trans)
qed

lemma parse_value_cases:
  assumes "parse_value (Suc n) d s = Some (v, q)"
  obtains (empty) c r c' where "s = c # r" "skip_ws r = c' # q"
  | (members) c r c' r' ms where "s = c # r" "skip_ws r = c' # r'" "parse_members n (d - 1) (c' # r') = Some (ms, q)"
  | (elements) c r c' r' vs where "s = c # r" "skip_ws r = c' # r'" "parse_elements n (d - 1) (c' # r') = Some (vs, q)"
  | (str) c r raw where "s = c # r" "scan_string r = Some (raw, q)"
  | (literal) k where "0 < k" "k \<le> length s" "q = drop k s"
  | (number) t where "scan_number s = Some (t, q)"
proof (cases s)
  case (Cons c r)
  note a = assms[unfolded parse_value.simps Cons list.case]
  consider "c = CHR ''{''" | "c \<noteq> CHR ''{''" "c = CHR ''[''" | "c \<noteq> CHR ''{''" "c \<noteq> CHR ''[''" by blast
  then show thesis
  proof cases
    case 1
    then show thesis using a empty members Cons by (auto split: if_splits list.splits)
  next
    case 2
    then show thesis using a empty elements Cons by (auto split: if_splits list.splits)
  next
    case 3
    then have b: "(if c = dquote then map_option (\<lambda>(raw, q). (JString (unquote raw), q)) (scan_string r)
        else if prefix ''null'' (c # r) then Some (JNull, drop 4 (c # r))
        else if prefix ''true'' (c # r) then Some (JBool True, drop 4 (c # r))
        else if prefix ''false'' (c # r) then Some (JBool False, drop 5 (c # r))
        else map_option (\<lambda>(t, q). (JNumber t, q)) (scan_number (c # r))) = Some (v, q)" using a by (simp only: if_False)
    have p: "length p \<le> length s" if "prefix p (c # r)" for p using that Cons prefix_length_le by blast
    show thesis
    proof (cases "c = dquote")
      case True
      then show thesis using b str[OF Cons] by auto
    next
      case False
      note b = b[unfolded if_not_P[OF False]]
      show thesis
      proof (cases "prefix ''null'' (c # r) \<or> prefix ''true'' (c # r)")
        case True
        then have "q = drop 4 s" "4 \<le> length s" using b p[of "''null''"] p[of "''true''"] Cons by (auto split: if_splits simp del: prefix_code Cons_prefix_Cons)
        then show thesis using literal[of 4] by simp
      next
        case False
        then show thesis
          using b p[of "''false''"] literal[of 5] number Cons
          by (cases "prefix ''false'' (c # r)") (auto simp del: prefix_code Cons_prefix_Cons)
      qed
    qed
  qed
qed (use assms in \<open>simp add: parse_value.simps\<close>)

lemma parse_length:
  "parse_value n d s = Some (v, q) \<Longrightarrow> length q < length s"
  "parse_elements n d s = Some (vs, q) \<Longrightarrow> length q < length s"
  "parse_members n d s = Some (ms, q) \<Longrightarrow> length q < length s"
proof (induction n arbitrary: d s v q vs ms)
  case (Suc n)
  {
    case 1
    then show ?case
    proof (cases rule: parse_value_cases)
      case (members c r c' r' ms)
      then show ?thesis using Suc(3)[of "d - 1" "c' # r'" ms q] skip_ws_Cons[of r c' r'] by simp
    next
      case (elements c r c' r' vs)
      then show ?thesis using Suc(2)[of "d - 1" "c' # r'" vs q] skip_ws_Cons[of r c' r'] by simp
    qed (auto dest: skip_ws_Cons scan_string_length scan_number_length)
  next
    case 2
    then obtain w z c z' where v: "parse_value n d s = Some (w, z)" "skip_ws z = c # z'"
      and r: "q = z' \<or> (\<exists>us. parse_elements n d (skip_ws z') = Some (us, q))"
      by (auto simp: parse_elements.simps split: option.splits list.splits if_splits)
    have "length q \<le> length z'" using r Suc(2)[of d "skip_ws z'" _ q] skip_ws_length[of z'] by fastforce
    then show ?case using Suc(1)[OF v(1)] skip_ws_Cons[OF v(2)] by simp
  next
    case 3
    then obtain c0 r0 k z c1 z1 w z2 c3 z3 where s: "s = c0 # r0" "scan_string r0 = Some (k, z)" "skip_ws z = c1 # z1"
      and v: "parse_value n d (skip_ws z1) = Some (w, z2)" "skip_ws z2 = c3 # z3"
      and r: "q = z3 \<or> (\<exists>us. parse_members n d (skip_ws z3) = Some (us, q))"
      by (auto simp: parse_members.simps Let_def split: option.splits list.splits if_splits)
    have "length q \<le> length z3" using r Suc(3)[of d "skip_ws z3" _ q] skip_ws_length[of z3] by fastforce
    then show ?case
      using Suc(1)[OF v(1)] skip_ws_Cons[OF v(2)] skip_ws_Cons[OF s(3)] scan_string_length[OF s(2)] skip_ws_length[of z1] s(1) by simp
  }
qed (simp_all add: parse_value.simps parse_elements.simps parse_members.simps)

lemma parse_fuel:
  "2 * length s < n \<Longrightarrow> 2 * length s < m \<Longrightarrow> parse_value n d s = parse_value m d s"
  "2 * length s + 1 < n \<Longrightarrow> 2 * length s + 1 < m \<Longrightarrow> parse_elements n d s = parse_elements m d s"
  "2 * length s < n \<Longrightarrow> 2 * length s < m \<Longrightarrow> parse_members n d s = parse_members m d s"
proof (induction n arbitrary: m d s)
  case (Suc n)
  {
    case 1
    then obtain m' where m: "m = Suc m'" by (cases m) auto
    show ?case
    proof (cases s)
      case (Cons c r)
      have ih: "parse_members n (d - 1) (c' # r') = parse_members m' (d - 1) (c' # r')"
        "parse_elements n (d - 1) (c' # r') = parse_elements m' (d - 1) (c' # r')" if "skip_ws r = c' # r'" for c' r'
        by (rule Suc(3) Suc(2); use 1 m Cons skip_ws_Cons[OF that] in simp)+
      show ?thesis
      proof (cases "skip_ws r")
        case Nil
        show ?thesis unfolding m parse_value.simps Cons Nil list.case by (rule refl)
      next
        case w: (Cons c' r')
        show ?thesis unfolding m parse_value.simps Cons w list.case ih[OF w] by (rule refl)
      qed
    qed (simp add: m parse_value.simps)
  next
    case 2
    then obtain m' where m: "m = Suc m'" by (cases m) auto
    have v: "parse_value n d s = parse_value m' d s" by (rule Suc(1)) (use 2 m in simp_all)
    have "parse_elements n d (skip_ws z') = parse_elements m' d (skip_ws z')"
      if "parse_value m' d s = Some (w, z)" "skip_ws z = c # z'" for w z c z'
      using Suc(2)[of "skip_ws z'" m' d] parse_length(1)[OF that(1)] skip_ws_Cons[OF that(2)] skip_ws_length[of z'] 2 m by simp
    then show ?case unfolding m parse_elements.simps v by (auto split: option.splits list.splits)
  next
    case 3
    then obtain m' where m: "m = Suc m'" by (cases m) auto
    show ?case
    proof (cases s)
      case (Cons c0 r0)
      have v: "parse_value n d (skip_ws z1) = parse_value m' d (skip_ws z1)"
        if "scan_string r0 = Some (k, z)" "skip_ws z = c1 # z1" for k z c1 z1
        using Suc(1)[of "skip_ws z1" m' d] scan_string_length[OF that(1)] skip_ws_Cons[OF that(2)] skip_ws_length[of z1] 3 m Cons by simp
      have "parse_members n d (skip_ws z3) = parse_members m' d (skip_ws z3)"
        if "scan_string r0 = Some (k, z)" "skip_ws z = c1 # z1" "parse_value m' d (skip_ws z1) = Some (w, z2)" "skip_ws z2 = c3 # z3"
        for k z c1 z1 w z2 c3 z3
        using Suc(3)[of "skip_ws z3" m' d] scan_string_length[OF that(1)] skip_ws_Cons[OF that(2)] skip_ws_length[of z1]
          parse_length(1)[OF that(3)] skip_ws_Cons[OF that(4)] skip_ws_length[of z3] 3 m Cons by simp
      then show ?thesis unfolding m parse_members.simps Cons list.case using v
        by (auto simp: Let_def split: option.splits list.splits)
    qed (simp add: m parse_members.simps)
  }
qed simp_all

subsection \<open>Reading back what was written\<close>

definition esc_rune :: "nat \<Rightarrow> string" where
  "esc_rune r = esc_piece (r, rune_bytes r)"

lemma json_escape_runes: "utf8_Valid s \<Longrightarrow> json_escape s = concat (map esc_rune (runes s))"
proof -
  assume v: "utf8_Valid s"
  have "map esc_piece (rune_pieces s) = map (esc_rune \<circ> fst) (rune_pieces s)"
    using utf8_Valid_pieces[OF v] by (auto simp: esc_rune_def simp del: esc_piece.simps)
  then show ?thesis by (simp only: json_escape_def runes_def map_map)
qed

lemma rune_bytes_high: "0x80 \<le> r \<Longrightarrow> list_all (\<lambda>c. 0x80 \<le> byte c) (rune_bytes r)"
proof -
  assume "0x80 \<le> r"
  define q where "q = (if scalar r then r else runeError)"
  have q: "0x80 \<le> q" "q \<le> 0x10FFFF" using \<open>0x80 \<le> r\<close> by (auto simp: q_def scalar_def runeError_def)
  have m: "0x80 \<le> n \<Longrightarrow> n < 256 \<Longrightarrow> 0x80 \<le> byte (char_of n)" for n :: nat by simp
  have "q < 0x800 \<Longrightarrow> q div 64 < 32" "q < 0x10000 \<Longrightarrow> q div 4096 < 16" "q div 262144 < 5" using q by linarith+
  then show ?thesis using q m by (auto simp: rune_bytes_def Let_def q_def[symmetric])
qed

lemma scan_string_high:
  "list_all (\<lambda>c. 0x80 \<le> byte c) bs \<Longrightarrow> scan_string (bs @ t) = map_option (\<lambda>(raw, q). (bs @ raw, q)) (scan_string t)"
proof (induction bs)
  case Nil
  then show ?case by (cases "scan_string t") auto
next
  case (Cons c bs)
  then have "c \<noteq> dquote" "c \<noteq> backslash" by auto
  with Cons show ?case by (cases "scan_string t") auto
qed

lemma byte_eqD: "byte c = byte d \<Longrightarrow> c = d"
  by simp

lemma esc_ascii_cases:
  assumes "byte c < 0x80"
  obtains (escape) e where "esc_ascii c = [backslash, e]" "e \<in> {dquote, backslash} \<union> set ''/bfnrt''" "unescape_char e = c"
  | (hex) "esc_ascii c = backslash # CHR ''u'' # [CHR ''0'', CHR ''0'', hex_digit (byte c div 16), hex_digit (byte c mod 16)]"
  | (plain) "esc_ascii c = [c]" "c \<noteq> dquote" "c \<noteq> backslash" "\<not> byte c < 0x20"
proof -
  have "byte c = 0x08 \<Longrightarrow> c = CHR 0x08" "byte c = 0x0C \<Longrightarrow> c = CHR 0x0C" "byte c = 0x0A \<Longrightarrow> c = CHR 0x0A"
    "byte c = 0x0D \<Longrightarrow> c = CHR 0x0D" "byte c = 0x09 \<Longrightarrow> c = CHR 0x09"
    using byte_eqD[of c "CHR 0x08"] byte_eqD[of c "CHR 0x0C"] byte_eqD[of c "CHR 0x0A"] byte_eqD[of c "CHR 0x0D"]
      byte_eqD[of c "CHR 0x09"] by simp_all
  then have special: "byte c \<in> {0x08, 0x0C, 0x0A, 0x0D, 0x09} \<Longrightarrow> c \<in> {CHR 0x08, CHR 0x0C, CHR 0x0A, CHR 0x0D, CHR 0x09}" by blast
  show thesis
  proof (cases "c = dquote \<or> c = backslash")
    case True
    then show thesis using escape[of c] by (auto simp: esc_ascii_def unescape_char_def)
  next
    case q: False
    show thesis
    proof (cases "byte c \<in> {0x08, 0x0C, 0x0A, 0x0D, 0x09}")
      case True
      have "esc_ascii (CHR 0x08) = [backslash, CHR ''b'']" "esc_ascii (CHR 0x0C) = [backslash, CHR ''f'']"
        "esc_ascii (CHR 0x0A) = [backslash, CHR ''n'']" "esc_ascii (CHR 0x0D) = [backslash, CHR ''r'']"
        "esc_ascii (CHR 0x09) = [backslash, CHR ''t'']" by (simp_all add: esc_ascii_def)
      then show thesis using special[OF True] escape[of "CHR ''b''"] escape[of "CHR ''f''"] escape[of "CHR ''n''"]
        escape[of "CHR ''r''"] escape[of "CHR ''t''"] by (auto simp: unescape_char_def)
    next
      case False
      then have "esc_ascii c = (if byte c < 0x20 \<or> c \<in> set ''<>&'' then
        backslash # ''u00'' @ [hex_digit (byte c div 16), hex_digit (byte c mod 16)] else [c])"
        unfolding esc_ascii_def using q by simp
      then show thesis using hex plain q by (cases "byte c < 0x20 \<or> c \<in> set ''<>&''") simp_all
    qed
  qed
qed

lemma scan_string_escaped:
  "scalar r \<Longrightarrow> scan_string (esc_rune r @ t) = map_option (\<lambda>(raw, q). (esc_rune r @ raw, q)) (scan_string t)"
proof (cases "r < 0x80")
  case True
  define c where "c = (char_of r :: char)"
  have c: "byte c < 0x80" "esc_rune r = esc_ascii c" using True by (simp_all add: c_def esc_rune_def rune_bytes_def scalar_def)
  from c(1) show ?thesis
  proof (cases rule: esc_ascii_cases)
    case (escape e)
    then show ?thesis using c by (cases "scan_string t") auto
  next
    case hex
    then show ?thesis using c by (cases "scan_string t") (auto simp: unhex.simps[of "CHR ''0''"])
  next
    case plain
    then show ?thesis using c by (cases "scan_string t") auto
  qed
next
  case False
  assume "scalar r"
  show ?thesis
  proof (cases "r = 0x2028 \<or> r = 0x2029")
    case True
    have u: "unhex (CHR ''2'') \<noteq> None" "unhex (CHR ''0'') \<noteq> None" "unhex (CHR ''8'') \<noteq> None" "unhex (CHR ''9'') \<noteq> None"
      by (simp_all add: unhex.simps)
    show ?thesis using True u by (cases "scan_string t") (auto simp: esc_rune_def runeError_def)
  next
    case n: False
    have "length (rune_bytes r) \<noteq> 1" using False \<open>scalar r\<close> by (simp add: rune_bytes_def Let_def)
    then have "esc_rune r = rune_bytes r" using n by (simp add: esc_rune_def)
    then show ?thesis using scan_string_high[OF rune_bytes_high] False by simp
  qed
qed

lemma scan_string_escape:
  "utf8_Valid s \<Longrightarrow> scan_string (json_escape s @ dquote # t) = Some (json_escape s, t)"
proof -
  have "list_all scalar rs \<Longrightarrow> scan_string (concat (map esc_rune rs) @ dquote # t) = Some (concat (map esc_rune rs), t)" for rs
    by (induction rs) (auto simp: scan_string_escaped)
  then show "utf8_Valid s \<Longrightarrow> ?thesis" by (simp add: json_escape_runes utf8_Valid_scalars)
qed

lemma getu4_eq: "hex4 [a, b, c, d] = Some v \<Longrightarrow> getu4 (backslash # CHR ''u'' # a # b # c # d # t) = Some (v, t)"
  by (simp add: getu4_def)

lemma unquote_u4:
  "hex4 [a, b, c, d] = Some v \<Longrightarrow> \<not> is_surrogate v \<Longrightarrow> unquote (backslash # CHR ''u'' # a # b # c # d # t) = rune_bytes v @ unquote t"
  by (subst unquote.simps) (simp add: getu4_eq)

lemma unquote_escaped: "scalar r \<Longrightarrow> unquote (esc_rune r @ t) = rune_bytes r @ unquote t"
proof (cases "r < 0x80")
  case True
  define c where "c = (char_of r :: char)"
  have c: "byte c = r" "byte c < 0x80" "esc_rune r = esc_ascii c" "rune_bytes r = [c]"
    using True by (simp_all add: c_def esc_rune_def rune_bytes_def scalar_def)
  from c(2) show ?thesis
  proof (cases rule: esc_ascii_cases)
    case (escape e)
    then have "getu4 (backslash # e # t) = None" by (auto simp: getu4_def)
    then show ?thesis using c escape by (subst unquote.simps) simp
  next
    case hex
    have "hex4 [CHR ''0'', CHR ''0'', hex_digit (byte c div 16), hex_digit (byte c mod 16)] = Some r"
      using nibbles[of c] unfolding c(1) by (simp add: hex4_def unhex.simps[of "CHR ''0''"])
    then show ?thesis using c hex True by (simp add: unquote_u4 is_surrogate_def)
  next
    case plain
    then show ?thesis using c by (subst unquote.simps) simp
  qed
next
  case False
  assume r: "scalar r"
  show ?thesis
  proof (cases "r = 0x2028 \<or> r = 0x2029")
    case True
    have "hex4 ''2028'' = Some 0x2028" "hex4 ''2029'' = Some 0x2029" by (simp_all add: hex4_def unhex.simps)
    then show ?thesis using True by (auto simp: esc_rune_def runeError_def unquote_u4 is_surrogate_def)
  next
    case n: False
    have "length (rune_bytes r) \<noteq> 1" using False r by (simp add: rune_bytes_def Let_def)
    then have e: "esc_rune r = rune_bytes r" using n by (simp add: esc_rune_def)
    obtain c bs where cb: "rune_bytes r = c # bs" by (cases "rune_bytes r") auto
    then have "0x80 \<le> byte c" using rune_bytes_high[of r] False by simp
    moreover from this have "c \<noteq> backslash" by auto
    ultimately show ?thesis unfolding e
      using DecodeRune_rune_bytes[OF r, of t] cb by (subst unquote.simps) simp
  qed
qed

lemma unquote_Nil [simp]: "unquote [] = []"
  by (simp add: unquote.simps)

lemma unquote_escape: "utf8_Valid s \<Longrightarrow> unquote (json_escape s) = s"
proof -
  have "list_all scalar rs \<Longrightarrow> unquote (concat (map esc_rune rs)) = runes_string rs" for rs
    by (induction rs) (auto simp: unquote_escaped runes_string_def)
  then show "utf8_Valid s \<Longrightarrow> ?thesis" by (simp add: json_escape_runes utf8_Valid_scalars utf8_Valid_runes_string_id)
qed

subsection \<open>Values\<close>

text \<open>A text is a complete value wherever it stands before a comma, a closing bracket or the end.\<close>

definition delimited :: "string \<Rightarrow> bool" where
  "delimited t \<longleftrightarrow> t = [] \<or> hd t \<in> set '',]}''"

definition reads :: "nat \<Rightarrow> nat \<Rightarrow> string \<Rightarrow> json \<Rightarrow> bool" where
  "reads n d tx v \<longleftrightarrow> tx \<noteq> [] \<and> \<not> is_ws (hd tx) \<and> (\<forall>t m. delimited t \<longrightarrow> n \<le> m \<longrightarrow> parse_value m d (tx @ t) = Some (v, t))"

lemma skip_ws_stop: "\<not> is_ws c \<Longrightarrow> skip_ws (c # s) = c # s"
  by (simp add: skip_ws_def)

lemma skip_ws_delimited: "delimited t \<Longrightarrow> skip_ws t = t"
  by (cases t) (auto simp: delimited_def skip_ws_def is_ws_def)

lemma reads_skip: "reads n d tx v \<Longrightarrow> skip_ws (tx @ t) = tx @ t"
  by (cases tx) (auto simp: reads_def skip_ws_def)

lemma is_ws_punct [simp]: "\<not> is_ws dquote" "\<not> is_ws (CHR ''{'')" "\<not> is_ws (CHR ''['')" "\<not> is_ws (CHR '':'')"
  "\<not> is_ws (CHR '','')" "\<not> is_ws (CHR ''}'')" "\<not> is_ws (CHR '']'')"
  by (simp_all add: is_ws_def)

lemma reads_quote: "utf8_Valid s \<Longrightarrow> reads (Suc 0) d (json_quote s) (JString s)"
  unfolding reads_def
proof (intro conjI allI impI)
  fix t :: string and m :: nat
  assume v: "utf8_Valid s" and "Suc 0 \<le> m"
  then obtain n where m: "m = Suc n" by (cases m) auto
  show "parse_value m d (json_quote s @ t) = Some (JString s, t)"
    using scan_string_escape[OF v, of t] unquote_escape[OF v] by (simp add: m json_quote_def parse_value.simps)
qed (auto simp: json_quote_def)

lemma reads_bool: "reads (Suc 0) d (json_bool b) (JBool b)"
  unfolding reads_def
proof (intro conjI allI impI)
  fix t :: string and m :: nat
  assume "Suc 0 \<le> m"
  then obtain n where m: "m = Suc n" by (cases m) auto
  show "parse_value m d (json_bool b @ t) = Some (JBool b, t)"
    by (cases b) (simp_all add: m json_bool_def parse_value.simps)
qed (auto simp: json_bool_def is_ws_def)

lemma reads_mono: "reads n d tx v \<Longrightarrow> n \<le> m \<Longrightarrow> reads m d tx v"
  by (auto simp: reads_def)

lemma parse_members_fields:
  assumes "xs \<noteq> []" "\<forall>(k, tx, v)\<in>set xs. utf8_Valid k \<and> reads n d tx v"
    and "n + length xs \<le> m"
  shows "parse_members m d (json_fields (map (\<lambda>(k, tx, v). (k, tx)) xs) @ CHR ''}'' # t) = Some (xs, t)"
  using assms
proof (induction xs arbitrary: m)
  case (Cons x xs)
  obtain k tx v where x: "x = (k, tx, v)" by (cases x)
  have k: "utf8_Valid k" and r: "reads n d tx v" using Cons.prems(2) x by auto
  obtain m' where m: "m = Suc m'" "n + length xs \<le> m'" using Cons.prems(3) by (cases m) auto
  note sc = scan_string_escape[OF k] unquote_escape[OF k]
  have v: "parse_value m' d (tx @ u) = Some (v, u)" if "delimited u" for u
    using r m(2) that by (simp add: reads_def)
  show ?case
  proof (cases xs)
    case Nil
    then show ?thesis
      using x m sc v[of "CHR ''}'' # t"] reads_skip[OF r]
      by (simp add: parse_members.simps json_quote_def skip_ws_stop delimited_def)
  next
    case (Cons y ys)
    then obtain k2 tx2 v2 where y: "y = (k2, tx2, v2)" by (cases y)
    let ?tl = "json_fields (map (\<lambda>(k, tx, v). (k, tx)) xs) @ CHR ''}'' # t"
    have ih: "parse_members m' d ?tl = Some (xs, t)" using Cons.IH Cons Cons.prems(2) m by simp
    have hd: "\<exists>u. ?tl = dquote # u" using Cons y by (cases ys) (auto simp: json_quote_def)
    then have w: "skip_ws ?tl = ?tl" by (auto simp: skip_ws_stop)
    have "json_fields (map (\<lambda>(k, tx, v). (k, tx)) (x # xs)) @ CHR ''}'' # t = json_quote k @ '':'' @ tx @ '','' @ ?tl"
      using x y Cons by simp
    then show ?thesis
      using x m sc v[of "CHR '','' # ?tl"] reads_skip[OF r] ih w
      by (simp add: parse_members.simps json_quote_def skip_ws_stop delimited_def)
  qed
qed simp

lemma reads_object:
  assumes "\<forall>(k, tx, v)\<in>set xs. utf8_Valid k \<and> reads n d tx v"
  shows "reads (n + length xs + 1) (Suc d) (json_object (map (\<lambda>(k, tx, v). (k, tx)) xs)) (JObject xs)"
  unfolding reads_def
proof (intro conjI allI impI)
  fix t :: string and m :: nat
  assume "n + length xs + 1 \<le> m"
  then obtain m' where m: "m = Suc m'" "n + length xs \<le> m'" by (cases m) auto
  show "parse_value m (Suc d) (json_object (map (\<lambda>(k, tx, v). (k, tx)) xs) @ t) = Some (JObject xs, t)"
  proof (cases xs)
    case Nil
    then show ?thesis by (simp add: m json_object_def parse_value.simps skip_ws_stop)
  next
    case (Cons x ys)
    obtain k tx v where x: "x = (k, tx, v)" by (cases x)
    let ?tl = "json_fields (map (\<lambda>(k, tx, v). (k, tx)) xs) @ CHR ''}'' # t"
    obtain u where u: "?tl = dquote # u" using Cons x by (cases ys) (auto simp: json_quote_def)
    have "parse_members m' d ?tl = Some (xs, t)" using parse_members_fields[OF _ assms m(2)] Cons by simp
    then show ?thesis using u by (simp add: m json_object_def parse_value.simps skip_ws_stop)
  qed
qed (auto simp: json_object_def)

text \<open>A whole text: the fuel of \<open>json_parse\<close> is enough, because \<open>reads\<close> holds from some fuel on.\<close>

lemma reads_parse:
  assumes "reads n maxNestingDepth tx v"
  shows "parse_one tx = Some (v, [])" "json_parse tx = Some v"
proof -
  have "parse_value (n + (2 * length tx + 1)) maxNestingDepth tx = Some (v, [])"
    using assms unfolding reads_def delimited_def by (metis append_Nil2 le_add1)
  then show p: "parse_one tx = Some (v, [])"
    unfolding parse_one_def using parse_fuel(1)[of tx "n + (2 * length tx + 1)" "2 * length tx + 1"] by simp
  show "json_parse tx = Some v"
    using p reads_skip[OF assms, of "[]"] by (simp add: json_parse_def skip_ws_def)
qed

lemma json_parse_object:
  assumes "\<forall>(k, tx, v)\<in>set xs. utf8_Valid k \<and> reads n 9999 tx v"
  shows "json_parse (json_object (map (\<lambda>(k, tx, v). (k, tx)) xs)) = Some (JObject xs)"
proof -
  have "reads (n + length xs + 1) maxNestingDepth (json_object (map (\<lambda>(k, tx, v). (k, tx)) xs)) (JObject xs)"
    using reads_object[OF assms] by (simp add: maxNestingDepth_def)
  then show ?thesis by (rule reads_parse(2))
qed

text \<open>An object whose members are strings.\<close>

definition string_members :: "(string \<times> string) list \<Rightarrow> (string \<times> string \<times> json) list" where
  "string_members kvs = map (\<lambda>(k, v). (k, json_quote v, JString v)) kvs"

definition string_object :: "(string \<times> string) list \<Rightarrow> string" where
  "string_object kvs = json_object (map (\<lambda>(k, v). (k, json_quote v)) kvs)"

lemma string_object_parse:
  assumes "list_all (\<lambda>(k, v). utf8_Valid k \<and> utf8_Valid v) kvs"
  shows "json_parse (string_object kvs) = Some (JObject (string_members kvs))"
proof -
  have u: "\<forall>(k, tx, v)\<in>set (string_members kvs). utf8_Valid k \<and> reads (Suc 0) 9999 tx v"
    using assms by (auto simp: string_members_def list_all_iff intro!: reads_quote)
  have m: "map (\<lambda>(k, tx, v). (k, tx)) (string_members kvs) = map (\<lambda>(k, v). (k, json_quote v)) kvs"
    by (simp add: string_members_def case_prod_beta comp_def)
  show ?thesis using json_parse_object[OF u] unfolding m string_object_def .
qed

end
