(* ===== verification/Asn1.thy ===== *)
theory Asn1
  imports Utf8
begin

text \<open>
  The part of Go's \<^verbatim>\<open>encoding/asn1\<close> the repository uses: DER of an OCTET STRING and of an OBJECT IDENTIFIER, with the
  strict checks of \<open>parseTagAndLength\<close> and \<open>parseBase128Int\<close>. \<open>None\<close> stands for a syntax or structural error.
\<close>

text \<open>The long form of a length: no leading zeros, no value below 128, no value of \<open>2 ^ 31\<close> or more.\<close>

fun long_length :: "nat \<Rightarrow> nat \<Rightarrow> string \<Rightarrow> (nat \<times> string) option" where
  "long_length 0 v s = (if v < 0x80 then None else Some (v, s))"
| "long_length (Suc n) v s = (case s of [] \<Rightarrow> None | b # r \<Rightarrow>
     if v \<ge> 2 ^ 23 then None
     else if 256 * v + byte b = 0 then None
     else long_length n (256 * v + byte b) r)"

definition parse_length :: "string \<Rightarrow> (nat \<times> string) option" where
  "parse_length s = (case s of [] \<Rightarrow> None | b # r \<Rightarrow>
     if byte b < 0x80 then Some (byte b, r)
     else if byte b = 0x80 then None
     else long_length (byte b - 0x80) 0 r)"

lemma long_length_bounds: "long_length n v s = Some (k, r) \<Longrightarrow> 0x80 \<le> k \<and> length r \<le> length s"
  by (induction n v s rule: long_length.induct) (auto split: if_splits list.splits)

text \<open>A primitive universal element with the given tag: its contents and the rest.\<close>

definition parse_element :: "nat \<Rightarrow> string \<Rightarrow> (string \<times> string) option" where
  "parse_element tag s = (case s of [] \<Rightarrow> None | b # r \<Rightarrow>
     if byte b \<noteq> tag then None
     else (case parse_length r of None \<Rightarrow> None
       | Some (n, q) \<Rightarrow> if length q < n then None else Some (take n q, drop n q)))"

definition unmarshal_octets :: "string \<Rightarrow> (string \<times> string) option" where
  "unmarshal_octets = parse_element 0x04"

text \<open>\<open>parseBase128Int\<close>: the argument counts the bytes read, five at most.\<close>

fun base128 :: "nat \<Rightarrow> nat \<Rightarrow> string \<Rightarrow> (nat \<times> string) option" where
  "base128 k v [] = None"
| "base128 k v (b # r) =
     (if k = 5 then None
      else if k = 0 \<and> byte b = 0x80 then None
      else (let w = v * 128 + byte b mod 128 in
        if byte b < 0x80 then (if w > 2 ^ 31 - 1 then None else Some (w, r)) else base128 (Suc k) w r))"

lemma base128_length: "base128 k v s = Some (w, r) \<Longrightarrow> length r < length s"
  by (induction k v s rule: base128.induct) (auto simp: Let_def split: if_splits)

function arcs :: "string \<Rightarrow> nat list option" where
  "arcs s = (if s = [] then Some [] else (case base128 0 0 s of None \<Rightarrow> None
     | Some (v, r) \<Rightarrow> map_option ((#) v) (arcs r)))"
  by pat_completeness auto
termination by (relation "measure length") (auto dest: base128_length)

declare arcs.simps [simp del]

definition parse_oid :: "string \<Rightarrow> nat list option" where
  "parse_oid s = (case arcs s of Some (v # vs) \<Rightarrow> Some ((if v < 80 then [v div 40, v mod 40] else [2, v - 80]) @ vs) | _ \<Rightarrow> None)"

definition unmarshal_oid :: "string \<Rightarrow> (nat list \<times> string) option" where
  "unmarshal_oid s = (case parse_element 0x06 s of None \<Rightarrow> None
     | Some (body, r) \<Rightarrow> map_option (\<lambda>oid. (oid, r)) (parse_oid body))"

fun base128_digits :: "nat \<Rightarrow> nat list" where
  "base128_digits n = (if n < 128 then [n] else base128_digits (n div 128) @ [n mod 128])"

declare base128_digits.simps [simp del]

text \<open>\<open>appendBase128Int\<close>: every byte but the last has its top bit set.\<close>

definition append_base128 :: "nat \<Rightarrow> string" where
  "append_base128 n = (let ds = base128_digits n in map (\<lambda>d. char_of (d + 128)) (butlast ds) @ [char_of (last ds)])"

text \<open>\<open>asn1.Marshal\<close> of an OBJECT IDENTIFIER whose contents are shorter than 128 bytes.\<close>

definition marshal_oid :: "nat list \<Rightarrow> string option" where
  "marshal_oid oid = (case oid of a # b # rest \<Rightarrow>
       if a > 2 \<or> (a < 2 \<and> b \<ge> 40) then None
       else (let body = concat (map append_base128 ((a * 40 + b) # rest)) in
         Some (CHR 0x06 # char_of (length body) # body))
     | _ \<Rightarrow> None)"

definition marshal_octets_short :: "string \<Rightarrow> string" where
  "marshal_octets_short s = CHR 0x04 # char_of (length s) # s"

lemma unmarshal_octets_short: "length s < 128 \<Longrightarrow> unmarshal_octets (marshal_octets_short s @ r) = Some (s, r)"
  by (simp add: unmarshal_octets_def parse_element_def marshal_octets_short_def parse_length_def)

text \<open>On fewer than 128 bytes only the short form of the length can succeed.\<close>

lemma unmarshal_octets_small:
  assumes "length r < 128"
  shows "unmarshal_octets (CHR 0x04 # b # r) = (if byte b \<le> length r then Some (take (byte b) r, drop (byte b) r) else None)"
proof -
  have "parse_length (b # r) = Some (n, q) \<Longrightarrow> 0x80 \<le> byte b \<Longrightarrow> length q < n" for n q
    using long_length_bounds[of "byte b - 0x80" 0 r n q] assms by (auto simp: parse_length_def split: if_splits)
  moreover have "parse_length (b # r) = Some (byte b, r)" if "byte b < 0x80" using that by (simp add: parse_length_def)
  ultimately show ?thesis
    using assms by (cases "byte b < 0x80") (auto simp: unmarshal_octets_def parse_element_def split: option.splits)
qed

end
