(* ===== verification/Pkcs11_Uri.thy ===== *)
theory Pkcs11_Uri
  imports Go_Strings "HOL-Library.Word"
begin

text \<open>
  RFC 7512 key URIs, \<^verbatim>\<open>encrypt/pkcs11/uri.go\<close>: the parser \<open>parseKeyURI\<close>, the formatter \<open>String\<close>
  and the routing test \<open>isKeyURI\<close>. Error values carry the pieces of the message the code formats.
\<close>

subsection \<open>Data\<close>

type_synonym objectClass = "64 word"

definition uriScheme :: string where
  "uriScheme = ''pkcs11:''"

definition classData :: objectClass where "classData = 0x00000000"
definition classCertificate :: objectClass where "classCertificate = 0x00000001"
definition classPublicKey :: objectClass where "classPublicKey = 0x00000002"
definition classPrivateKey :: objectClass where "classPrivateKey = 0x00000003"
definition classSecretKey :: objectClass where "classSecretKey = 0x00000004"

lemmas class_defs =
  classData_def classCertificate_def classPublicKey_def classPrivateKey_def classSecretKey_def

record keyURI =
  Token :: string
  Object :: string
  ID :: string
  Class :: objectClass
  HasClass :: bool

datatype uri_error =
    UnsupportedType string
  | UnsupportedClass objectClass
  | NotPkcs11Uri string
  | CarriesPin string
  | NoAttributes string
  | MalformedAttribute string
  | BadEscape string
  | NoObjectOrId string

subsection \<open>Operations\<close>

definition isKeyURI :: "string \<Rightarrow> bool" where
  "isKeyURI reference = HasPrefix (TrimSpace reference) uriScheme"

definition classFromType :: "string \<Rightarrow> uri_error + objectClass" where
  "classFromType value =
     (if value = ''private'' then Inr classPrivateKey
      else if value = ''public'' then Inr classPublicKey
      else if value = ''secret-key'' then Inr classSecretKey
      else if value = ''cert'' then Inr classCertificate
      else if value = ''data'' then Inr classData
      else Inl (UnsupportedType value))"

definition typeFromClass :: "objectClass \<Rightarrow> uri_error + string" where
  "typeFromClass class =
     (if class = classPrivateKey then Inr ''private''
      else if class = classPublicKey then Inr ''public''
      else if class = classSecretKey then Inr ''secret-key''
      else if class = classCertificate then Inr ''cert''
      else if class = classData then Inr ''data''
      else Inl (UnsupportedClass class))"

text \<open>The loop of \<open>rejectPinAttributes\<close> over the \<open>&\<close>-separated segments of the query.\<close>

fun reject_pin_segments :: "string list \<Rightarrow> uri_error option" where
  "reject_pin_segments [] = None"
| "reject_pin_segments (segment # rest) =
     (case Cut (CHR ''='') segment of (name, _, _) \<Rightarrow>
        if name = ''pin-value'' \<or> name = ''pin-source'' then Some (CarriesPin name)
        else reject_pin_segments rest)"

definition rejectPinAttributes :: "string \<Rightarrow> uri_error option" where
  "rejectPinAttributes query =
     (if query = [] then None else reject_pin_segments (Split (CHR ''&'') query))"

text \<open>The loop of \<open>parseKeyURI\<close> over the \<open>;\<close>-separated attributes.\<close>

definition set_attribute :: "string \<Rightarrow> string \<Rightarrow> keyURI \<Rightarrow> uri_error + keyURI" where
  "set_attribute name value parsed =
     (if name = ''token'' then Inr (parsed\<lparr>Token := value\<rparr>)
      else if name = ''object'' then Inr (parsed\<lparr>Object := value\<rparr>)
      else if name = ''id'' then Inr (parsed\<lparr>ID := value\<rparr>)
      else if name = ''type'' then
        (case classFromType value of Inl e \<Rightarrow> Inl e
         | Inr class \<Rightarrow> Inr (parsed\<lparr>Class := class, HasClass := True\<rparr>))
      else Inr parsed)"

fun parse_segments :: "string list \<Rightarrow> keyURI \<Rightarrow> uri_error + keyURI" where
  "parse_segments [] parsed = Inr parsed"
| "parse_segments (segment # rest) parsed =
     (if segment = [] then parse_segments rest parsed
      else case Cut (CHR ''='') segment of (name, rawValue, found) \<Rightarrow>
        if \<not> found then Inl (MalformedAttribute segment)
        else (case PathUnescape rawValue of None \<Rightarrow> Inl (BadEscape name)
          | Some value \<Rightarrow> (case set_attribute name value parsed of Inl e \<Rightarrow> Inl e
              | Inr parsed' \<Rightarrow> parse_segments rest parsed')))"

definition emptyKeyURI :: keyURI where
  "emptyKeyURI = \<lparr>Token = [], Object = [], ID = [], Class = 0, HasClass = False\<rparr>"

definition parseKeyURI :: "string \<Rightarrow> uri_error + keyURI" where
  "parseKeyURI reference =
     (let trimmed = TrimSpace reference in
      if \<not> isKeyURI trimmed then Inl (NotPkcs11Uri trimmed)
      else let body0 = TrimPrefix trimmed uriScheme;
               (query, body) = (case IndexByte body0 (CHR ''?'') of
                   Some index \<Rightarrow> (drop (index + 1) body0, take index body0)
                 | None \<Rightarrow> ([], body0))
        in case rejectPinAttributes query of Some e \<Rightarrow> Inl e
         | None \<Rightarrow>
            if body = [] then Inl (NoAttributes trimmed)
            else (case parse_segments (Split (CHR '';'') body) emptyKeyURI of Inl e \<Rightarrow> Inl e
              | Inr parsed \<Rightarrow>
                  if Object parsed = [] \<and> ID parsed = [] then Inl (NoObjectOrId trimmed)
                  else Inr parsed))"

definition unreservedAttributeByte :: "char \<Rightarrow> bool" where
  "unreservedAttributeByte b =
     (let n = (of_char b :: nat) in
      65 \<le> n \<and> n \<le> 90 \<or> 97 \<le> n \<and> n \<le> 122 \<or> 48 \<le> n \<and> n \<le> 57
      \<or> b \<in> set ''-._~''
      \<or> b \<in> set '':[]@!$()*+,'' \<or> b = CHR 0x27)"

definition escape_byte :: "char \<Rightarrow> string" where
  "escape_byte b = (if unreservedAttributeByte b then [b]
     else CHR ''%'' # map upper_char (hex_EncodeToString [b]))"

definition escapeAttribute :: "string \<Rightarrow> string" where
  "escapeAttribute value = concat (map escape_byte value)"

text \<open>
  \<open>String\<close>: \<open>appendAttribute\<close> writes a separating \<open>;\<close> before every attribute but the first, so the
  result is the scheme followed by the attributes joined with \<open>;\<close>.
\<close>

definition format_attribute :: "string \<Rightarrow> string \<Rightarrow> string" where
  "format_attribute name value = name @ ''='' @ escapeAttribute value"

definition type_attribute :: "keyURI \<Rightarrow> string list" where
  "type_attribute u = (if HasClass u then
     (case typeFromClass (Class u) of Inl _ \<Rightarrow> [] | Inr name \<Rightarrow> [format_attribute ''type'' name])
     else [])"

definition uri_attributes :: "keyURI \<Rightarrow> string list" where
  "uri_attributes u =
     (if Token u \<noteq> [] then [format_attribute ''token'' (Token u)] else [])
   @ (if Object u \<noteq> [] then [format_attribute ''object'' (Object u)] else [])
   @ (if ID u \<noteq> [] then [format_attribute ''id'' (ID u)] else [])
   @ type_attribute u"

definition uriString :: "keyURI \<Rightarrow> string" where
  "uriString u = uriScheme @ Join (uri_attributes u) '';''"

definition hexID :: "keyURI \<Rightarrow> string" where
  "hexID u = hex_EncodeToString (ID u)"

subsection \<open>Escaping\<close>

lemma unreserved_not_special:
  "unreservedAttributeByte b \<Longrightarrow> b \<notin> set ''%;=?& ''"
  by (auto simp: unreservedAttributeByte_def)

lemma unreserved_graphic: "unreservedAttributeByte b \<Longrightarrow> graphic b"
  by (auto simp: unreservedAttributeByte_def graphic_def Let_def)

lemma unreserved_hex: "n < 16 \<Longrightarrow> unreservedAttributeByte (upper_char (hex_digit n))"
  by (drule less_16_cases) (auto simp: unreservedAttributeByte_def hex_digit_def upper_char_def)

lemma escape_byte_chars:
  "c \<in> set (escape_byte b) \<Longrightarrow> c = CHR ''%'' \<or> unreservedAttributeByte c"
  by (auto simp: escape_byte_def hex_EncodeToString_def unreserved_hex split: if_splits)

lemma escapeAttribute_chars:
  "c \<in> set (escapeAttribute v) \<Longrightarrow> c = CHR ''%'' \<or> unreservedAttributeByte c"
  by (auto simp: escapeAttribute_def dest: escape_byte_chars)

lemma escapeAttribute_no_sep:
  "CHR '';'' \<notin> set (escapeAttribute v)" "CHR ''='' \<notin> set (escapeAttribute v)"
  "CHR ''?'' \<notin> set (escapeAttribute v)"
  by (auto dest!: escapeAttribute_chars unreserved_not_special)

lemma PathUnescape_escape_byte:
  "PathUnescape (escape_byte b @ r) = map_option ((#) b) (PathUnescape r)"
  using unreserved_not_special[of b]
  by (auto simp: escape_byte_def hex_EncodeToString_def)

lemma PathUnescape_escapeAttribute: "PathUnescape (escapeAttribute v) = Some v"
  by (induction v) (auto simp: escapeAttribute_def PathUnescape_escape_byte)

interpretation esc: codec escapeAttribute PathUnescape
  by unfold_locales (rule PathUnescape_escapeAttribute)

lemma escapeAttribute_Nil_iff [simp]: "escapeAttribute v = [] \<longleftrightarrow> v = []"
  using esc.encode_eq_iff[of v "[]"] by (simp add: escapeAttribute_def)

subsection \<open>Round trip\<close>

definition valid_uri :: "keyURI \<Rightarrow> bool" where
  "valid_uri u \<longleftrightarrow> (Object u \<noteq> [] \<or> ID u \<noteq> [])
     \<and> (if HasClass u then (\<exists>v. classFromType v = Inr (Class u)) else Class u = 0)"

lemma class_type_inverse:
  "classFromType v = Inr c \<Longrightarrow> typeFromClass c = Inr v"
  by (auto simp: classFromType_def typeFromClass_def class_defs split: if_splits)

lemma type_class_inverse:
  "typeFromClass c = Inr v \<Longrightarrow> classFromType v = Inr c"
  by (auto simp: classFromType_def typeFromClass_def split: if_splits)

text \<open>The attributes a formatted URI consists of.\<close>

definition attribute_names :: "string set" where
  "attribute_names = {''token'', ''object'', ''id'', ''type''}"

lemma attribute_name_chars:
  "n \<in> attribute_names \<Longrightarrow>
   n \<noteq> [] \<and> CHR '';'' \<notin> set n \<and> CHR ''='' \<notin> set n \<and> CHR ''?'' \<notin> set n"
  by (auto simp: attribute_names_def)

lemma uri_attributes_form:
  assumes "a \<in> set (uri_attributes u)"
  obtains n v where "n \<in> attribute_names" "v \<noteq> []" "a = format_attribute n v"
proof -
  have "typeFromClass c \<noteq> Inr []" for c by (simp add: typeFromClass_def)
  then have types: "v \<noteq> []" if "typeFromClass c = Inr v" for c v using that by metis
  have "\<exists>n v. n \<in> attribute_names \<and> v \<noteq> [] \<and> a = format_attribute n v"
  proof (cases "a \<in> set (type_attribute u)")
    case True
    then have "HasClass u" by (cases "HasClass u") (simp_all add: type_attribute_def)
    with True have "\<exists>v. typeFromClass (Class u) = Inr v \<and> a = format_attribute ''type'' v"
      by (cases "typeFromClass (Class u)") (simp_all add: type_attribute_def)
    with types show ?thesis unfolding attribute_names_def by blast
  next
    case False
    with assms have "a = format_attribute ''token'' (Token u) \<and> Token u \<noteq> []
        \<or> a = format_attribute ''object'' (Object u) \<and> Object u \<noteq> []
        \<or> a = format_attribute ''id'' (ID u) \<and> ID u \<noteq> []"
      unfolding uri_attributes_def by (simp split: if_split_asm)
    then show ?thesis unfolding attribute_names_def by blast
  qed
  with that show thesis by blast
qed

lemma format_attribute_chars:
  assumes "n \<in> attribute_names"
  shows "CHR '';'' \<notin> set (format_attribute n v)" and "CHR ''?'' \<notin> set (format_attribute n v)"
  using attribute_name_chars[OF assms] by (auto simp: format_attribute_def escapeAttribute_no_sep)

lemma format_attribute_last:
  assumes "v \<noteq> []"
  shows "format_attribute n v \<noteq> [] \<and> graphic (last (format_attribute n v))"
proof -
  have "last (escapeAttribute v) \<in> set (escapeAttribute v)" using assms by simp
  then have "graphic (last (escapeAttribute v))"
    by (auto dest!: escapeAttribute_chars simp: unreserved_graphic) (simp add: graphic_def)
  with assms show ?thesis by (simp add: format_attribute_def)
qed

lemma parse_attribute:
  assumes "n \<in> attribute_names"
  shows "parse_segments (format_attribute n v # rest) p =
    (case set_attribute n v p of Inl e \<Rightarrow> Inl e | Inr p' \<Rightarrow> parse_segments rest p')"
  using attribute_name_chars[OF assms]
  by (simp add: format_attribute_def Cut_append PathUnescape_escapeAttribute)

declare parse_segments.simps(2) [simp del]

lemma parse_named_attribute:
  "parse_segments (format_attribute ''token'' v # rest) p = parse_segments rest (p\<lparr>Token := v\<rparr>)"
  "parse_segments (format_attribute ''object'' v # rest) p = parse_segments rest (p\<lparr>Object := v\<rparr>)"
  "parse_segments (format_attribute ''id'' v # rest) p = parse_segments rest (p\<lparr>ID := v\<rparr>)"
  "classFromType v = Inr c \<Longrightarrow> parse_segments (format_attribute ''type'' v # rest) p =
     parse_segments rest (p\<lparr>Class := c, HasClass := True\<rparr>)"
  by (simp_all add: parse_attribute attribute_names_def set_attribute_def)

lemma parse_uri_attributes:
  assumes "valid_uri u"
  shows "parse_segments (uri_attributes u) emptyKeyURI = Inr u"
proof (cases u)
  case (fields t ob i c h)
  have parse: "parse_segments (uri_attributes u) emptyKeyURI =
      parse_segments (type_attribute u) \<lparr>Token = t, Object = ob, ID = i, Class = 0, HasClass = False\<rparr>"
    by (simp only: fields uri_attributes_def keyURI.select_convs emptyKeyURI_def)
       (simp add: parse_named_attribute)
  show ?thesis
  proof (cases h)
    case True
    then obtain v where "classFromType v = Inr c" using assms fields by (auto simp: valid_uri_def)
    with True show ?thesis
      unfolding parse
      by (simp add: type_attribute_def class_type_inverse parse_named_attribute fields)
  next
    case False
    moreover from this assms fields have "c = 0" by (simp add: valid_uri_def)
    ultimately show ?thesis unfolding parse by (simp add: type_attribute_def fields)
  qed
qed

lemma valid_uri_attributes: "valid_uri u \<Longrightarrow> uri_attributes u \<noteq> []"
  by (auto simp: valid_uri_def uri_attributes_def)

lemma Join_notin: "c \<notin> set sep \<Longrightarrow> \<forall>x \<in> set xs. c \<notin> set x \<Longrightarrow> c \<notin> set (Join xs sep)"
  by (induction xs sep rule: Join.induct) auto

lemma last_Join:
  "xs \<noteq> [] \<Longrightarrow> last xs \<noteq> [] \<Longrightarrow> last (Join xs sep) = last (last xs) \<and> Join xs sep \<noteq> []"
  by (induction xs sep rule: Join.induct) auto

lemma uri_body_no_query: "CHR ''?'' \<notin> set (Join (uri_attributes u) '';'')"
  by (rule Join_notin) (auto elim!: uri_attributes_form simp: format_attribute_chars)

lemma uri_body:
  assumes "valid_uri u"
  shows "Join (uri_attributes u) '';'' \<noteq> [] \<and> graphic (last (Join (uri_attributes u) '';''))
    \<and> Split (CHR '';'') (Join (uri_attributes u) '';'') = uri_attributes u"
proof -
  have ne: "uri_attributes u \<noteq> []" by (rule valid_uri_attributes[OF assms])
  then have "last (uri_attributes u) \<in> set (uri_attributes u)" by simp
  then have "last (uri_attributes u) \<noteq> [] \<and> graphic (last (last (uri_attributes u)))"
    by (rule uri_attributes_form) (simp add: format_attribute_last)
  moreover have "Split (CHR '';'') (Join (uri_attributes u) '';'') = uri_attributes u"
    using ne by (rule Split_Join) (auto elim!: uri_attributes_form simp: format_attribute_chars)
  ultimately show ?thesis using last_Join[OF ne, of "'';''"] by simp
qed

lemma TrimSpace_uriString: "valid_uri u \<Longrightarrow> TrimSpace (uriString u) = uriString u"
  by (rule TrimSpace_graphic) (simp_all add: uriString_def uriScheme_def uri_body graphic_def[of "CHR ''p''"])

lemma parse_uriString:
  assumes "valid_uri u"
  shows "parseKeyURI (uriString u) = Inr u"
proof -
  have "TrimPrefix (uriString u) uriScheme = Join (uri_attributes u) '';''"
    by (simp add: TrimPrefix_def HasPrefix_def uriString_def)
  moreover have "isKeyURI (uriString u)"
    by (simp add: isKeyURI_def TrimSpace_uriString[OF assms]) (simp add: HasPrefix_def uriString_def)
  moreover have "IndexByte (Join (uri_attributes u) '';'') (CHR ''?'') = None"
    by (simp add: IndexByte_None uri_body_no_query)
  ultimately show ?thesis
    using assms uri_body[OF assms] parse_uri_attributes[OF assms]
    by (simp add: parseKeyURI_def TrimSpace_uriString rejectPinAttributes_def Let_def valid_uri_def)
qed


lemma set_attribute_valid_class:
  assumes "set_attribute name v p = Inr p'"
    and "if HasClass p then (\<exists>t. classFromType t = Inr (Class p)) else Class p = 0"
  shows "if HasClass p' then (\<exists>t. classFromType t = Inr (Class p')) else Class p' = 0"
  using assms by (auto simp: set_attribute_def split: if_splits sum.splits)

lemma parse_segments_valid_class:
  "parse_segments ss p = Inr u \<Longrightarrow>
   (if HasClass p then (\<exists>t. classFromType t = Inr (Class p)) else Class p = 0) \<Longrightarrow>
   (if HasClass u then (\<exists>t. classFromType t = Inr (Class u)) else Class u = 0)"
proof (induction ss p rule: parse_segments.induct)
  case (2 segment rest p)
  show ?case
  proof (cases "segment = []")
    case True
    with 2 show ?thesis by (simp add: parse_segments.simps(2))
  next
    case False
    with "2.prems"(1) obtain n r v p' where *: "Cut (CHR ''='') segment = (n, r, True)"
        "PathUnescape r = Some v" "set_attribute n v p = Inr p'" "parse_segments rest p' = Inr u"
      by (auto simp: parse_segments.simps(2) split: prod.splits if_splits option.splits sum.splits)
    from "2.IH"(2)[OF False *(1)[symmetric] refl _ *(2,3,4)] set_attribute_valid_class[OF *(3) "2.prems"(2)]
    show ?thesis by simp
  qed
qed simp

lemma parseKeyURI_cases:
  assumes "parseKeyURI reference = Inr u"
  obtains body where "parse_segments (Split (CHR '';'') body) emptyKeyURI = Inr u"
    "Object u \<noteq> [] \<or> ID u \<noteq> []"
  using assms unfolding parseKeyURI_def Let_def
  by (auto split: if_splits option.splits prod.splits sum.splits)

lemma parseKeyURI_valid: "parseKeyURI reference = Inr u \<Longrightarrow> valid_uri u"
  by (erule parseKeyURI_cases, drule parse_segments_valid_class)
     (auto simp: emptyKeyURI_def valid_uri_def)

definition parseKeyURI_opt :: "string \<Rightarrow> keyURI option" where
  "parseKeyURI_opt r = (case parseKeyURI r of Inr u \<Rightarrow> Some u | Inl _ \<Rightarrow> None)"

interpretation uri: normal_codec valid_uri uriString parseKeyURI_opt
  by unfold_locales
     (auto simp: parseKeyURI_opt_def parse_uriString parseKeyURI_valid split: sum.splits)

lemma reject_pin_segments_iff:
  "reject_pin_segments ss = None \<longleftrightarrow>
   (\<forall>seg \<in> set ss. fst (Cut (CHR ''='') seg) \<notin> {''pin-value'', ''pin-source''})"
  by (induction ss rule: reject_pin_segments.induct) (auto split: prod.splits)

lemma reject_pin_segments_Some: "reject_pin_segments ss = Some e \<Longrightarrow> \<exists>name. e = CarriesPin name"
  by (induction ss rule: reject_pin_segments.induct) (auto split: prod.splits if_splits)

subsection \<open>Properties\<close>

text \<open>
  C10: a key reference survives formatting. Every URI the parser accepts, in whatever order, spacing
  and escaping it was written, is formatted by \<open>String\<close> to a URI that parses back to the same
  token, object label, identifier bytes and class; this is why a \<open>KeyRef\<close> returned by one operation
  is accepted by the next.
\<close>

theorem parse_format_parse:
  assumes "parseKeyURI reference = Inr u"
  shows "parseKeyURI (uriString u) = Inr u"
  using uri.renormalise[of reference u] assms
  by (simp add: parseKeyURI_opt_def split: sum.splits)

theorem parse_format_parse_witness:
  "parseKeyURI '' pkcs11:id=%01%fF;type=private;model=x;object=a%3Bb '' =
     Inr \<lparr>Token = [], Object = ''a;b'', ID = [CHR 0x01, CHR 0xFF], Class = 3, HasClass = True\<rparr>
   \<and> parseKeyURI (uriString \<lparr>Token = [], Object = ''a;b'', ID = [CHR 0x01, CHR 0xFF], Class = 3,
       HasClass = True\<rparr>) =
     Inr \<lparr>Token = [], Object = ''a;b'', ID = [CHR 0x01, CHR 0xFF], Class = 3, HasClass = True\<rparr>"
proof -
  have h: "parseKeyURI '' pkcs11:id=%01%fF;type=private;model=x;object=a%3Bb '' =
     Inr \<lparr>Token = [], Object = ''a;b'', ID = [CHR 0x01, CHR 0xFF], Class = 3, HasClass = True\<rparr>"
    by code_simp
  from parse_format_parse[OF h] h show ?thesis by blast
qed

text \<open>
  \<open>String\<close> loses nothing: on the valid URIs (an object or an identifier is set, and a class only
  if it is one of the five PKCS#11 classes the package names) it is injective, and the URIs the
  parser can return are exactly the valid ones, binary identifiers included.
\<close>

theorem format_faithful:
  "(valid_uri u \<and> valid_uri v \<longrightarrow> (uriString u = uriString v \<longleftrightarrow> u = v))
   \<and> (valid_uri u \<longleftrightarrow> (\<exists>reference. parseKeyURI reference = Inr u))"
proof -
  have "(\<exists>reference. parseKeyURI reference = Inr u) \<longleftrightarrow> (\<exists>y. parseKeyURI_opt y = Some u)"
    unfolding parseKeyURI_opt_def by (metis (no_types, lifting) option.discI option.inject
        sum.case_eq_if sum.collapse(2) sum.disc(2) sum.sel(2))
  then show ?thesis using uri.image_valid[of u] uri.encode_inj_valid[of u v] by auto
qed

theorem format_faithful_witness:
  "valid_uri \<lparr>Token = ''t'', Object = ''k'', ID = [], Class = 0, HasClass = False\<rparr>
   \<and> valid_uri \<lparr>Token = ''t'', Object = ''k'', ID = [CHR 0x00], Class = 0, HasClass = False\<rparr>
   \<and> uriString \<lparr>Token = ''t'', Object = ''k'', ID = [], Class = 0, HasClass = False\<rparr>
      \<noteq> uriString \<lparr>Token = ''t'', Object = ''k'', ID = [CHR 0x00], Class = 0, HasClass = False\<rparr>
   \<and> (\<exists>reference. parseKeyURI reference =
        Inr \<lparr>Token = ''t'', Object = ''k'', ID = [], Class = 0, HasClass = False\<rparr>)"
  using format_faithful[of "\<lparr>Token = ''t'', Object = ''k'', ID = [], Class = 0, HasClass = False\<rparr>"
      "\<lparr>Token = ''t'', Object = ''k'', ID = [CHR 0x00], Class = 0, HasClass = False\<rparr>"]
  by (simp add: valid_uri_def)

text \<open>
  the PIN never travels in a key URI. A reference whose query has a \<open>pin-value\<close> or \<open>pin-source\<close>
  attribute is refused whatever else it contains, and no URI formatted by \<open>String\<close> has a query.
\<close>

theorem pin_rejected:
  assumes "TrimSpace reference = uriScheme @ path @ ''?'' @ query"
    and "CHR ''?'' \<notin> set path"
    and "segment \<in> set (Split (CHR ''&'') query)"
    and "fst (Cut (CHR ''='') segment) \<in> {''pin-value'', ''pin-source''}"
  shows "(\<exists>name. parseKeyURI reference = Inl (CarriesPin name))
    \<and> CHR ''?'' \<notin> set (uriString u)"
proof -
  have "query \<noteq> []" using assms(3,4) by auto
  moreover obtain name where "reject_pin_segments (Split (CHR ''&'') query) = Some (CarriesPin name)"
    using assms(3,4) reject_pin_segments_iff reject_pin_segments_Some
    by (metis (no_types, lifting) not_None_eq)
  ultimately have "rejectPinAttributes query = Some (CarriesPin name)"
    by (simp add: rejectPinAttributes_def)
  moreover have "isKeyURI (uriScheme @ path @ ''?'' @ query)"
    using assms(1) by (metis HasPrefix_def TrimSpace_idem isKeyURI_def prefixI)
  moreover have "TrimPrefix (uriScheme @ path @ ''?'' @ query) uriScheme = path @ CHR ''?'' # query"
    by (simp add: TrimPrefix_def HasPrefix_def)
  ultimately have "parseKeyURI reference = Inl (CarriesPin name)"
    by (simp add: parseKeyURI_def Let_def assms(1) IndexByte_append[OF assms(2)])
  then show ?thesis using uri_body_no_query by (auto simp: uriString_def uriScheme_def)
qed

theorem pin_rejected_witness:
  "parseKeyURI ''pkcs11:object=k?module-name=m&pin-value=1234'' = Inl (CarriesPin ''pin-value'')
   \<and> (\<exists>name. parseKeyURI ''pkcs11:object=k?module-name=m&pin-value=1234'' = Inl (CarriesPin name))
   \<and> CHR ''?'' \<notin> set (uriString emptyKeyURI)"
proof -
  have h: "TrimSpace ''pkcs11:object=k?module-name=m&pin-value=1234'' =
      uriScheme @ ''object=k'' @ ''?'' @ ''module-name=m&pin-value=1234''" by code_simp
  have "''pin-value=1234'' \<in> set (Split (CHR ''&'') ''module-name=m&pin-value=1234'')" by simp
  moreover have "parseKeyURI ''pkcs11:object=k?module-name=m&pin-value=1234'' =
      Inl (CarriesPin ''pin-value'')" by code_simp
  ultimately show ?thesis using pin_rejected[OF h, of "''pin-value=1234''" emptyKeyURI] by simp
qed

end
