(* ===== verification/Pkcs11_Types.thy ===== *)
theory Pkcs11_Types
  imports Pkcs11_Uri Base64
begin

text \<open>
  The vocabulary of \<^verbatim>\<open>encrypt/pkcs11\<close>: the CK_RV codes and errors of \<^verbatim>\<open>errors.go\<close>, the mechanisms and attributes
  of \<^verbatim>\<open>attributes.go\<close> with their byte encodings, the parameter blocks of \<^verbatim>\<open>module.go\<close> and the choice of a signing
  mechanism in \<^verbatim>\<open>mechanisms.go\<close>.

  Go errors form a tree: \<open>Message\<close> is a plain text, \<open>Errorf\<close> a format with operands whose rendering (\<open>%q\<close>) is not
  modelled, \<open>WrapErr\<close> is \<open>fmt.Errorf\<close> with \<open>%w\<close> verbs, \<open>Join\<close> is \<open>errors.Join\<close>; \<open>errors_As_token\<close> and
  \<open>errors_Is\<close> search it the way the standard library does.
\<close>

unbundle bit_operations_syntax

subsection \<open>Return values, \<^verbatim>\<open>errors.go\<close>\<close>

type_synonym returnValue = "64 word"

definition ckrOK :: returnValue where "ckrOK = 0x00000000"
definition ckrCancel :: returnValue where "ckrCancel = 0x00000001"
definition ckrHostMemory :: returnValue where "ckrHostMemory = 0x00000002"
definition ckrSlotIDInvalid :: returnValue where "ckrSlotIDInvalid = 0x00000003"
definition ckrGeneralError :: returnValue where "ckrGeneralError = 0x00000005"
definition ckrFunctionFailed :: returnValue where "ckrFunctionFailed = 0x00000006"
definition ckrArgumentsBad :: returnValue where "ckrArgumentsBad = 0x00000007"
definition ckrAttributeReadOnly :: returnValue where "ckrAttributeReadOnly = 0x00000010"
definition ckrAttributeSensitive :: returnValue where "ckrAttributeSensitive = 0x00000011"
definition ckrAttributeTypeInalid :: returnValue where "ckrAttributeTypeInalid = 0x00000012"
definition ckrAttributeValueInval :: returnValue where "ckrAttributeValueInval = 0x00000013"
definition ckrDataInvalid :: returnValue where "ckrDataInvalid = 0x00000020"
definition ckrDataLenRange :: returnValue where "ckrDataLenRange = 0x00000021"
definition ckrDeviceError :: returnValue where "ckrDeviceError = 0x00000030"
definition ckrDeviceMemory :: returnValue where "ckrDeviceMemory = 0x00000031"
definition ckrDeviceRemoved :: returnValue where "ckrDeviceRemoved = 0x00000032"
definition ckrEncryptedDataInval :: returnValue where "ckrEncryptedDataInval = 0x00000040"
definition ckrEncryptedDataLenRng :: returnValue where "ckrEncryptedDataLenRng = 0x00000041"
definition ckrKeyHandleInvalid :: returnValue where "ckrKeyHandleInvalid = 0x00000060"
definition ckrKeySizeRange :: returnValue where "ckrKeySizeRange = 0x00000062"
definition ckrKeyTypeInconsistent :: returnValue where "ckrKeyTypeInconsistent = 0x00000063"
definition ckrKeyFunctionNotPerm :: returnValue where "ckrKeyFunctionNotPerm = 0x00000068"
definition ckrKeyNotWrappable :: returnValue where "ckrKeyNotWrappable = 0x00000069"
definition ckrKeyUnextractable :: returnValue where "ckrKeyUnextractable = 0x0000006A"
definition ckrMechanismInvalid :: returnValue where "ckrMechanismInvalid = 0x00000070"
definition ckrMechanismParamInval :: returnValue where "ckrMechanismParamInval = 0x00000071"
definition ckrObjectHandleInvalid :: returnValue where "ckrObjectHandleInvalid = 0x00000082"
definition ckrOperationActive :: returnValue where "ckrOperationActive = 0x00000090"
definition ckrOperationNotInit :: returnValue where "ckrOperationNotInit = 0x00000091"
definition ckrPinIncorrect :: returnValue where "ckrPinIncorrect = 0x000000A0"
definition ckrPinInvalid :: returnValue where "ckrPinInvalid = 0x000000A1"
definition ckrPinLenRange :: returnValue where "ckrPinLenRange = 0x000000A2"
definition ckrPinExpired :: returnValue where "ckrPinExpired = 0x000000A3"
definition ckrPinLocked :: returnValue where "ckrPinLocked = 0x000000A4"
definition ckrSessionClosed :: returnValue where "ckrSessionClosed = 0x000000B0"
definition ckrSessionCount :: returnValue where "ckrSessionCount = 0x000000B1"
definition ckrSessionHandleInval :: returnValue where "ckrSessionHandleInval = 0x000000B3"
definition ckrSessionReadOnly :: returnValue where "ckrSessionReadOnly = 0x000000B5"
definition ckrSignatureInvalid :: returnValue where "ckrSignatureInvalid = 0x000000C0"
definition ckrSignatureLenRange :: returnValue where "ckrSignatureLenRange = 0x000000C1"
definition ckrTemplateIncomplete :: returnValue where "ckrTemplateIncomplete = 0x000000D0"
definition ckrTemplateInconsisten :: returnValue where "ckrTemplateInconsisten = 0x000000D1"
definition ckrTokenNotPresent :: returnValue where "ckrTokenNotPresent = 0x000000E0"
definition ckrTokenNotRecognized :: returnValue where "ckrTokenNotRecognized = 0x000000E1"
definition ckrTokenWriteProtected :: returnValue where "ckrTokenWriteProtected = 0x000000E2"
definition ckrUserAlreadyLoggedIn :: returnValue where "ckrUserAlreadyLoggedIn = 0x00000100"
definition ckrUserNotLoggedIn :: returnValue where "ckrUserNotLoggedIn = 0x00000101"
definition ckrUserPinNotInitiated :: returnValue where "ckrUserPinNotInitiated = 0x00000102"
definition ckrUserTypeInvalid :: returnValue where "ckrUserTypeInvalid = 0x00000103"
definition ckrCryptokiNotInitiali :: returnValue where "ckrCryptokiNotInitiali = 0x00000190"
definition ckrCryptokiAlreadyInit :: returnValue where "ckrCryptokiAlreadyInit = 0x00000191"
definition ckrBufferTooSmall :: returnValue where "ckrBufferTooSmall = 0x00000150"

lemmas ckr_defs =
  ckrOK_def ckrCancel_def ckrHostMemory_def ckrSlotIDInvalid_def ckrGeneralError_def
  ckrFunctionFailed_def ckrArgumentsBad_def ckrAttributeReadOnly_def ckrAttributeSensitive_def ckrAttributeTypeInalid_def
  ckrAttributeValueInval_def ckrDataInvalid_def ckrDataLenRange_def ckrDeviceError_def ckrDeviceMemory_def
  ckrDeviceRemoved_def ckrEncryptedDataInval_def ckrEncryptedDataLenRng_def ckrKeyHandleInvalid_def ckrKeySizeRange_def
  ckrKeyTypeInconsistent_def ckrKeyFunctionNotPerm_def ckrKeyNotWrappable_def ckrKeyUnextractable_def ckrMechanismInvalid_def
  ckrMechanismParamInval_def ckrObjectHandleInvalid_def ckrOperationActive_def ckrOperationNotInit_def ckrPinIncorrect_def
  ckrPinInvalid_def ckrPinLenRange_def ckrPinExpired_def ckrPinLocked_def ckrSessionClosed_def
  ckrSessionCount_def ckrSessionHandleInval_def ckrSessionReadOnly_def ckrSignatureInvalid_def ckrSignatureLenRange_def
  ckrTemplateIncomplete_def ckrTemplateInconsisten_def ckrTokenNotPresent_def ckrTokenNotRecognized_def ckrTokenWriteProtected_def
  ckrUserAlreadyLoggedIn_def ckrUserNotLoggedIn_def ckrUserPinNotInitiated_def ckrUserTypeInvalid_def ckrCryptokiNotInitiali_def
  ckrCryptokiAlreadyInit_def ckrBufferTooSmall_def

definition ckrNames :: "(returnValue \<times> string) list" where
  "ckrNames =
    [(ckrCancel, ''CKR_CANCEL''),
     (ckrHostMemory, ''CKR_HOST_MEMORY''),
     (ckrSlotIDInvalid, ''CKR_SLOT_ID_INVALID''),
     (ckrGeneralError, ''CKR_GENERAL_ERROR''),
     (ckrFunctionFailed, ''CKR_FUNCTION_FAILED''),
     (ckrArgumentsBad, ''CKR_ARGUMENTS_BAD''),
     (ckrAttributeReadOnly, ''CKR_ATTRIBUTE_READ_ONLY''),
     (ckrAttributeSensitive, ''CKR_ATTRIBUTE_SENSITIVE''),
     (ckrAttributeTypeInalid, ''CKR_ATTRIBUTE_TYPE_INVALID''),
     (ckrAttributeValueInval, ''CKR_ATTRIBUTE_VALUE_INVALID''),
     (ckrDataInvalid, ''CKR_DATA_INVALID''),
     (ckrDataLenRange, ''CKR_DATA_LEN_RANGE''),
     (ckrDeviceError, ''CKR_DEVICE_ERROR''),
     (ckrDeviceMemory, ''CKR_DEVICE_MEMORY''),
     (ckrDeviceRemoved, ''CKR_DEVICE_REMOVED''),
     (ckrEncryptedDataInval, ''CKR_ENCRYPTED_DATA_INVALID''),
     (ckrEncryptedDataLenRng, ''CKR_ENCRYPTED_DATA_LEN_RANGE''),
     (ckrKeyHandleInvalid, ''CKR_KEY_HANDLE_INVALID''),
     (ckrKeySizeRange, ''CKR_KEY_SIZE_RANGE''),
     (ckrKeyTypeInconsistent, ''CKR_KEY_TYPE_INCONSISTENT''),
     (ckrKeyFunctionNotPerm, ''CKR_KEY_FUNCTION_NOT_PERMITTED''),
     (ckrKeyNotWrappable, ''CKR_KEY_NOT_WRAPPABLE''),
     (ckrKeyUnextractable, ''CKR_KEY_UNEXTRACTABLE''),
     (ckrMechanismInvalid, ''CKR_MECHANISM_INVALID''),
     (ckrMechanismParamInval, ''CKR_MECHANISM_PARAM_INVALID''),
     (ckrObjectHandleInvalid, ''CKR_OBJECT_HANDLE_INVALID''),
     (ckrOperationActive, ''CKR_OPERATION_ACTIVE''),
     (ckrOperationNotInit, ''CKR_OPERATION_NOT_INITIALIZED''),
     (ckrPinIncorrect, ''CKR_PIN_INCORRECT''),
     (ckrPinInvalid, ''CKR_PIN_INVALID''),
     (ckrPinLenRange, ''CKR_PIN_LEN_RANGE''),
     (ckrPinExpired, ''CKR_PIN_EXPIRED''),
     (ckrPinLocked, ''CKR_PIN_LOCKED''),
     (ckrSessionClosed, ''CKR_SESSION_CLOSED''),
     (ckrSessionCount, ''CKR_SESSION_COUNT''),
     (ckrSessionHandleInval, ''CKR_SESSION_HANDLE_INVALID''),
     (ckrSessionReadOnly, ''CKR_SESSION_READ_ONLY''),
     (ckrSignatureInvalid, ''CKR_SIGNATURE_INVALID''),
     (ckrSignatureLenRange, ''CKR_SIGNATURE_LEN_RANGE''),
     (ckrTemplateIncomplete, ''CKR_TEMPLATE_INCOMPLETE''),
     (ckrTemplateInconsisten, ''CKR_TEMPLATE_INCONSISTENT''),
     (ckrTokenNotPresent, ''CKR_TOKEN_NOT_PRESENT''),
     (ckrTokenNotRecognized, ''CKR_TOKEN_NOT_RECOGNIZED''),
     (ckrTokenWriteProtected, ''CKR_TOKEN_WRITE_PROTECTED''),
     (ckrUserAlreadyLoggedIn, ''CKR_USER_ALREADY_LOGGED_IN''),
     (ckrUserNotLoggedIn, ''CKR_USER_NOT_LOGGED_IN''),
     (ckrUserPinNotInitiated, ''CKR_USER_PIN_NOT_INITIALIZED''),
     (ckrUserTypeInvalid, ''CKR_USER_TYPE_INVALID''),
     (ckrCryptokiNotInitiali, ''CKR_CRYPTOKI_NOT_INITIALIZED''),
     (ckrCryptokiAlreadyInit, ''CKR_CRYPTOKI_ALREADY_INITIALIZED''),
     (ckrBufferTooSmall, ''CKR_BUFFER_TOO_SMALL'')]"

subsection \<open>Mechanisms and attributes, \<^verbatim>\<open>attributes.go\<close>\<close>

type_synonym mechanism = "64 word"
type_synonym attributeType = "64 word"
type_synonym keyType = "64 word"

definition ckmRSAPKCSKeyPairGen :: mechanism where "ckmRSAPKCSKeyPairGen = 0x00000000"
definition ckmRSAPKCSOAEP :: mechanism where "ckmRSAPKCSOAEP = 0x00000009"
definition ckmSHA256RSAPKCS :: mechanism where "ckmSHA256RSAPKCS = 0x00000040"
definition ckmSHA256RSAPKCSPSS :: mechanism where "ckmSHA256RSAPKCSPSS = 0x00000043"
definition ckmECKeyPairGen :: mechanism where "ckmECKeyPairGen = 0x00001040"
definition ckmECDH1Derive :: mechanism where "ckmECDH1Derive = 0x00001050"
definition ckmAESKeyGen :: mechanism where "ckmAESKeyGen = 0x00001080"
definition ckmAESGCM :: mechanism where "ckmAESGCM = 0x00001087"
definition ckmSHA256HMAC :: mechanism where "ckmSHA256HMAC = 0x00000251"
definition ckmSHA256 :: mechanism where "ckmSHA256 = 0x00000250"
definition ckmECEdwardsKeyPairGe :: mechanism where "ckmECEdwardsKeyPairGe = 0x00001055"
definition ckmEdDSA :: mechanism where "ckmEdDSA = 0x00001057"
definition ckmGenericSecretKeyGe :: mechanism where "ckmGenericSecretKeyGe = 0x00000350"
definition ckmHKDFDerive :: mechanism where "ckmHKDFDerive = 0x0000402A"
definition ckmRSAPKCS :: mechanism where "ckmRSAPKCS = 0x00000001"
definition ckmRSAPKCSPSS :: mechanism where "ckmRSAPKCSPSS = 0x0000000D"


lemmas ckm_defs =
  ckmRSAPKCSKeyPairGen_def ckmRSAPKCSOAEP_def ckmSHA256RSAPKCS_def ckmSHA256RSAPKCSPSS_def ckmECKeyPairGen_def
  ckmECDH1Derive_def ckmAESKeyGen_def ckmAESGCM_def ckmSHA256HMAC_def ckmSHA256_def
  ckmECEdwardsKeyPairGe_def ckmEdDSA_def ckmGenericSecretKeyGe_def ckmHKDFDerive_def ckmRSAPKCS_def
  ckmRSAPKCSPSS_def

definition mechanismNames :: "(mechanism \<times> string) list" where
  "mechanismNames =
    [(ckmRSAPKCSKeyPairGen, ''CKM_RSA_PKCS_KEY_PAIR_GEN''),
     (ckmRSAPKCSOAEP, ''CKM_RSA_PKCS_OAEP''),
     (ckmSHA256RSAPKCS, ''CKM_SHA256_RSA_PKCS''),
     (ckmSHA256RSAPKCSPSS, ''CKM_SHA256_RSA_PKCS_PSS''),
     (ckmECKeyPairGen, ''CKM_EC_KEY_PAIR_GEN''),
     (ckmECDH1Derive, ''CKM_ECDH1_DERIVE''),
     (ckmAESKeyGen, ''CKM_AES_KEY_GEN''),
     (ckmAESGCM, ''CKM_AES_GCM''),
     (ckmSHA256HMAC, ''CKM_SHA256_HMAC''),
     (ckmSHA256, ''CKM_SHA256''),
     (ckmECEdwardsKeyPairGe, ''CKM_EC_EDWARDS_KEY_PAIR_GEN''),
     (ckmEdDSA, ''CKM_EDDSA''),
     (ckmGenericSecretKeyGe, ''CKM_GENERIC_SECRET_KEY_GEN''),
     (ckmHKDFDerive, ''CKM_HKDF_DERIVE'')]"

definition ckaClass :: attributeType where "ckaClass = 0x00000000"
definition ckaToken :: attributeType where "ckaToken = 0x00000001"
definition ckaPrivate :: attributeType where "ckaPrivate = 0x00000002"
definition ckaLabel :: attributeType where "ckaLabel = 0x00000003"
definition ckaKeyType :: attributeType where "ckaKeyType = 0x00000100"
definition ckaID :: attributeType where "ckaID = 0x00000102"
definition ckaSensitive :: attributeType where "ckaSensitive = 0x00000103"
definition ckaEncrypt :: attributeType where "ckaEncrypt = 0x00000104"
definition ckaDecrypt :: attributeType where "ckaDecrypt = 0x00000105"
definition ckaWrap :: attributeType where "ckaWrap = 0x00000106"
definition ckaUnwrap :: attributeType where "ckaUnwrap = 0x00000107"
definition ckaSign :: attributeType where "ckaSign = 0x00000108"
definition ckaVerify :: attributeType where "ckaVerify = 0x0000010A"
definition ckaDerive :: attributeType where "ckaDerive = 0x0000010C"
definition ckaModulus :: attributeType where "ckaModulus = 0x00000120"
definition ckaModulusBits :: attributeType where "ckaModulusBits = 0x00000121"
definition ckaPublicExpon :: attributeType where "ckaPublicExpon = 0x00000122"
definition ckaPrivateExponent :: attributeType where "ckaPrivateExponent = 0x00000123"
definition ckaValue :: attributeType where "ckaValue = 0x00000011"
definition ckaValueLen :: attributeType where "ckaValueLen = 0x00000161"
definition ckaExtractable :: attributeType where "ckaExtractable = 0x00000162"
definition ckaECParams :: attributeType where "ckaECParams = 0x00000180"
definition ckaECPoint :: attributeType where "ckaECPoint = 0x00000181"

lemmas cka_defs =
  ckaClass_def ckaToken_def ckaPrivate_def ckaLabel_def ckaKeyType_def
  ckaID_def ckaSensitive_def ckaEncrypt_def ckaDecrypt_def ckaWrap_def
  ckaUnwrap_def ckaSign_def ckaVerify_def ckaDerive_def ckaModulus_def
  ckaModulusBits_def ckaPublicExpon_def ckaPrivateExponent_def ckaValue_def ckaValueLen_def
  ckaExtractable_def ckaECParams_def ckaECPoint_def

definition ckkRSA :: keyType where "ckkRSA = 0x00000000"
definition ckkEC :: keyType where "ckkEC = 0x00000003"
definition ckkGenericSecret :: keyType where "ckkGenericSecret = 0x00000010"
definition ckkAES :: keyType where "ckkAES = 0x0000001F"
definition ckkECEdwards :: keyType where "ckkECEdwards = 0x00000040"

lemmas ckk_defs = ckkRSA_def ckkEC_def ckkGenericSecret_def ckkAES_def ckkECEdwards_def

definition ckgMGF1SHA256 :: "64 word" where "ckgMGF1SHA256 = 0x00000002"
definition ckzDataSpecified :: "64 word" where "ckzDataSpecified = 0x00000001"
definition ckdNULL :: "64 word" where "ckdNULL = 0x00000001"
definition ckfHKDFSaltNull :: "64 word" where "ckfHKDFSaltNull = 0x00000001"

definition gcmNonceLength :: nat where "gcmNonceLength = 12"
definition gcmTagBits :: "64 word" where "gcmTagBits = 128"

subsection \<open>Errors\<close>

datatype sentinel =
    ErrUnavailable | ErrModuleRequired | ErrTokenRequired | ErrPinRequired | ErrKeyURIRequired | ErrKeyNotFound
  | ErrOAEPHashUnsupported | ErrSecretNotExtractable

datatype err =
    Sentinel sentinel
  | TokenErr string returnValue
  | UnsupportedMechanism mechanism
  | UriErr uri_error
  | Message string
  | Errorf string "string list"
  | WrapErr string "err list"
  | Join "err list"
  | External nat

definition newTokenError :: "string \<Rightarrow> returnValue \<Rightarrow> err option" where
  "newTokenError function code = (if code = ckrOK then None else Some (TokenErr function code))"

definition errUnsupportedMechanism :: "mechanism \<Rightarrow> err" where
  "errUnsupportedMechanism m = UnsupportedMechanism m"

text \<open>\<open>errors.As\<close> with a \<open>tokenError\<close> target: the first token error in a depth-first walk.\<close>

fun errors_As_token :: "err \<Rightarrow> (string \<times> returnValue) option"
  and errors_As_tokens :: "err list \<Rightarrow> (string \<times> returnValue) option" where
  "errors_As_token (TokenErr f c) = Some (f, c)"
| "errors_As_token (WrapErr _ es) = errors_As_tokens es"
| "errors_As_token (Join es) = errors_As_tokens es"
| "errors_As_token _ = None"
| "errors_As_tokens [] = None"
| "errors_As_tokens (e # es) = (case errors_As_token e of Some t \<Rightarrow> Some t | None \<Rightarrow> errors_As_tokens es)"

text \<open>The \<open>Is\<close> method of \<open>tokenError\<close>.\<close>

definition tokenError_Is :: "returnValue \<Rightarrow> sentinel \<Rightarrow> bool" where
  "tokenError_Is code target =
     (if target = ErrSecretNotExtractable then code = ckrAttributeSensitive \<or> code = ckrKeyUnextractable
      else if target = ErrKeyNotFound then code = ckrObjectHandleInvalid \<or> code = ckrKeyHandleInvalid
      else False)"

fun errors_Is :: "err \<Rightarrow> sentinel \<Rightarrow> bool" where
  "errors_Is (Sentinel s) target = (s = target)"
| "errors_Is (TokenErr f c) target = tokenError_Is c target"
| "errors_Is (WrapErr _ es) target = list_ex (\<lambda>e. errors_Is e target) es"
| "errors_Is (Join es) target = list_ex (\<lambda>e. errors_Is e target) es"
| "errors_Is _ target = False"

text \<open>\<open>fmt\<close>'s \<open>%08X\<close>.\<close>

fun hex_upper :: "nat \<Rightarrow> string" where
  "hex_upper n = (if n < 16 then [upper_char (hex_digit n)] else hex_upper (n div 16) @ [upper_char (hex_digit (n mod 16))])"

declare hex_upper.simps [simp del]

definition format_08X :: "64 word \<Rightarrow> string" where
  "format_08X v = (let s = hex_upper (unat v) in replicate (8 - length s) (CHR ''0'') @ s)"

definition tokenError_Error :: "string \<Rightarrow> returnValue \<Rightarrow> string" where
  "tokenError_Error function code =
     (case map_of ckrNames code of
        Some name \<Rightarrow> ''pkcs11: '' @ function @ '' failed: '' @ name
      | None \<Rightarrow> ''pkcs11: '' @ function @ '' failed: CK_RV 0x'' @ format_08X code)"

definition mechanism_String :: "mechanism \<Rightarrow> string" where
  "mechanism_String m = (case map_of mechanismNames m of Some name \<Rightarrow> name | None \<Rightarrow> ''CKM_0x'' @ format_08X m)"

definition unsupportedMechanismError_Error :: "mechanism \<Rightarrow> string" where
  "unsupportedMechanismError_Error m = ''pkcs11: token does not support mechanism '' @ mechanism_String m"

subsection \<open>Attributes\<close>

record attribute =
  Type :: attributeType
  Value :: string
  Present :: bool

definition newBoolAttribute :: "attributeType \<Rightarrow> bool \<Rightarrow> attribute" where
  "newBoolAttribute kind value = \<lparr>Type = kind, Value = [if value then CHR 0x01 else CHR 0x00], Present = True\<rparr>"

text \<open>A CK_ULONG is eight bytes, least significant first.\<close>

definition ulong_bytes :: "64 word \<Rightarrow> string" where
  "ulong_bytes value = map (\<lambda>index. char_of (unat (drop_bit (8 * index) value) mod 256)) [0..<8]"

definition newULongAttribute :: "attributeType \<Rightarrow> 64 word \<Rightarrow> attribute" where
  "newULongAttribute kind value = \<lparr>Type = kind, Value = ulong_bytes value, Present = True\<rparr>"

definition newBytesAttribute :: "attributeType \<Rightarrow> string \<Rightarrow> attribute" where
  "newBytesAttribute kind value = \<lparr>Type = kind, Value = value, Present = True\<rparr>"

definition uLongValue :: "string \<Rightarrow> 64 word option" where
  "uLongValue value =
     (if length value \<noteq> 8 then None
      else Some (fold (\<lambda>index decoded. decoded OR push_bit (8 * index) (of_nat (byte (value ! index)))) [0..<8] 0))"

definition boolValue :: "string \<Rightarrow> bool option" where
  "boolValue value = (if length value \<noteq> 1 then None else Some (value ! 0 \<noteq> CHR 0x00))"

fun findAttribute :: "attribute list \<Rightarrow> attributeType \<Rightarrow> string option" where
  "findAttribute [] kind = None"
| "findAttribute (candidate # attributes) kind =
     (if Type candidate = kind \<and> Present candidate then Some (Value candidate) else findAttribute attributes kind)"

fun hasAttribute :: "attribute list \<Rightarrow> attributeType \<Rightarrow> bool" where
  "hasAttribute [] kind = False"
| "hasAttribute (candidate # attributes) kind =
     (if Type candidate = kind \<and> Present candidate then True else hasAttribute attributes kind)"

definition rsaModulusBits :: "64 word \<Rightarrow> err + 64 word" where
  "rsaModulusBits sz = (if sz \<in> {2048, 3072, 4096} then Inr sz
     else Inl (Message (''pkcs11: unsupported rsa key size: '' @ decimal (unat sz))))"

definition aesValueLen :: "64 word \<Rightarrow> err + 64 word" where
  "aesValueLen sz = (if sz \<in> {16, 32} then Inr sz
     else Inl (Message (''pkcs11: unsupported symmetric key size: '' @ decimal (unat sz))))"

subsection \<open>Mechanism parameters, \<^verbatim>\<open>module.go\<close>\<close>

datatype mechanismParams =
    GcmParams (IV: string) (AAD: string) (TagBits: "64 word")
  | OaepParams (oaep_HashAlg: mechanism) (oaep_MGF: "64 word") (oaep_Source: "64 word")
  | PssParams (pss_HashAlg: mechanism) (pss_MGF: "64 word") (SaltLen: "64 word")
  | Ecdh1Params (KDF: "64 word") (SharedData: string) (PublicData: string)
  | HkdfParams (Extract: bool) (Expand: bool) (PRF: mechanism) (SaltType: "64 word") (Info: string)
  | EddsaParams (PhFlag: bool)

record slotInfo =
  slot_ID :: "64 word"
  TokenLabel :: string
  TokenPresent :: bool
  MaxSessions :: "64 word"

subsection \<open>Signing plans, \<^verbatim>\<open>mechanisms.go\<close>\<close>

text \<open>\<open>sha\<close> stands for \<open>sha256.Sum256\<close> of the standard library and \<open>supports\<close> for the slot's mechanism set.\<close>

record signPlan =
  plan_mechanism :: mechanism
  plan_params :: "mechanismParams option"
  retryParams :: "mechanismParams option"
  prepare :: "string \<Rightarrow> string"

definition sha256DigestInfoPrefix :: string where
  "sha256DigestInfoPrefix = the (hex_DecodeString ''3031300d060960864801650304020105000420'')"

definition identityMessage :: "string \<Rightarrow> string" where
  "identityMessage message = message"

definition sha256Digest :: "(string \<Rightarrow> string) \<Rightarrow> string \<Rightarrow> string" where
  "sha256Digest sha message = sha message"

definition sha256DigestInfo :: "(string \<Rightarrow> string) \<Rightarrow> string \<Rightarrow> string" where
  "sha256DigestInfo sha message = sha256DigestInfoPrefix @ sha message"

definition planRSAPKCS1v15 :: "(string \<Rightarrow> string) \<Rightarrow> (mechanism \<Rightarrow> bool) \<Rightarrow> err + signPlan" where
  "planRSAPKCS1v15 sha supports =
     (if supports ckmSHA256RSAPKCS then
        Inr \<lparr>plan_mechanism = ckmSHA256RSAPKCS, plan_params = None, retryParams = None, prepare = identityMessage\<rparr>
      else if supports ckmRSAPKCS then
        Inr \<lparr>plan_mechanism = ckmRSAPKCS, plan_params = None, retryParams = None, prepare = sha256DigestInfo sha\<rparr>
      else Inl (errUnsupportedMechanism ckmSHA256RSAPKCS))"

definition pss_block :: mechanismParams where
  "pss_block = PssParams ckmSHA256 ckgMGF1SHA256 32"

definition planRSAPSS :: "(string \<Rightarrow> string) \<Rightarrow> (mechanism \<Rightarrow> bool) \<Rightarrow> err + signPlan" where
  "planRSAPSS sha supports =
     (if supports ckmSHA256RSAPKCSPSS then
        Inr \<lparr>plan_mechanism = ckmSHA256RSAPKCSPSS, plan_params = Some pss_block, retryParams = None, prepare = identityMessage\<rparr>
      else if supports ckmRSAPKCSPSS then
        Inr \<lparr>plan_mechanism = ckmRSAPKCSPSS, plan_params = Some pss_block, retryParams = None, prepare = sha256Digest sha\<rparr>
      else Inl (errUnsupportedMechanism ckmSHA256RSAPKCSPSS))"

definition requireMechanism :: "(mechanism \<Rightarrow> bool) \<Rightarrow> mechanism \<Rightarrow> err option" where
  "requireMechanism supports mech = (if supports mech then None else Some (errUnsupportedMechanism mech))"

definition planEd25519 :: "(mechanism \<Rightarrow> bool) \<Rightarrow> err + signPlan" where
  "planEd25519 supports =
     (case requireMechanism supports ckmEdDSA of Some e \<Rightarrow> Inl e
      | None \<Rightarrow> Inr \<lparr>plan_mechanism = ckmEdDSA, plan_params = None, retryParams = Some (EddsaParams False),
                    prepare = identityMessage\<rparr>)"

definition supportsInHardwareECDH :: "(mechanism \<Rightarrow> bool) \<Rightarrow> bool" where
  "supportsInHardwareECDH supports \<longleftrightarrow> supports ckmECDH1Derive \<and> supports ckmHKDFDerive \<and> supports ckmAESGCM"

subsection \<open>Encodings\<close>

lemma hasAttribute_find: "hasAttribute attributes kind \<longleftrightarrow> findAttribute attributes kind \<noteq> None"
  by (induction attributes) auto

lemma bit_fold_or:
  "bit (fold (\<lambda>i d. d OR f i) xs (a :: 64 word)) n \<longleftrightarrow> bit a n \<or> (\<exists>i\<in>set xs. bit (f i) n)"
  by (induction xs arbitrary: a) (auto simp: bit_or_iff)

lemma bit_byte: "bit (byte c) n \<Longrightarrow> n < 8"
proof -
  assume "bit (byte c) n"
  moreover have "take_bit 8 (byte c) = byte c" by (simp add: take_bit_nat_eq_self_iff)
  ultimately show ?thesis by (metis bit_take_bit_iff)
qed

lemma bit_shifted_byte:
  "bit (push_bit (8 * i) (of_nat (byte c)) :: 64 word) n \<longleftrightarrow> n < 64 \<and> 8 * i \<le> n \<and> bit (byte c) (n - 8 * i)"
  by (auto simp: bit_simps)

lemma bit_uLongValue:
  assumes "uLongValue bs = Some v"
  shows "bit v n \<longleftrightarrow> n < 64 \<and> bit (byte (bs ! (n div 8))) (n mod 8)"
proof -
  have v: "v = fold (\<lambda>i d. d OR push_bit (8 * i) (of_nat (byte (bs ! i)))) [0..<8] 0"
    using assms by (simp add: uLongValue_def split: if_splits)
  have "bit v n \<longleftrightarrow> (\<exists>i<8. n < 64 \<and> 8 * i \<le> n \<and> bit (byte (bs ! i)) (n - 8 * i))"
    unfolding v bit_fold_or 
  proof (intro iffI)
    assume "bit (0 :: 64 word) n \<or> (\<exists>i\<in>set [0..<8]. bit (push_bit (8 * i) (of_nat (byte (bs ! i))) :: 64 word) n)"
    then obtain i where "i < 8" "bit (push_bit (8 * i) (of_nat (byte (bs ! i))) :: 64 word) n" by auto
    then show "\<exists>i<8. n < 64 \<and> 8 * i \<le> n \<and> bit (byte (bs ! i)) (n - 8 * i)"
      unfolding bit_shifted_byte by blast
  qed (auto simp: bit_shifted_byte)
  also have "\<dots> \<longleftrightarrow> n < 64 \<and> bit (byte (bs ! (n div 8))) (n mod 8)"
  proof (intro iffI conjI)
    assume "\<exists>i<8. n < 64 \<and> 8 * i \<le> n \<and> bit (byte (bs ! i)) (n - 8 * i)"
    then obtain i where i: "n < 64" "8 * i \<le> n" "bit (byte (bs ! i)) (n - 8 * i)" by blast
    then have "n - 8 * i < 8" using bit_byte by blast
    then have d: "n div 8 = i" using i(2) by linarith
    then have "n mod 8 = n - 8 * i" by (metis minus_mult_div_eq_mod)
    then show "n < 64" "bit (byte (bs ! (n div 8))) (n mod 8)" using i d by simp_all
  next
    assume "n < 64 \<and> bit (byte (bs ! (n div 8))) (n mod 8)"
    then show "\<exists>i<8. n < 64 \<and> 8 * i \<le> n \<and> bit (byte (bs ! i)) (n - 8 * i)"
      by (intro exI[of _ "n div 8"]) (auto simp: minus_mult_div_eq_mod)
  qed
  finally show ?thesis .
qed

lemma length_ulong_bytes [simp]: "length (ulong_bytes v) = 8"
  by (simp add: ulong_bytes_def)

lemma bit_ulong_bytes: "i < 8 \<Longrightarrow> bit (byte (ulong_bytes v ! i)) n \<longleftrightarrow> n < 8 \<and> bit v (8 * i + n)"
proof -
  assume "i < 8"
  then have "byte (ulong_bytes v ! i) = take_bit 8 (unat (drop_bit (8 * i) v))"
    by (simp add: ulong_bytes_def take_bit_eq_mod)
  then show ?thesis by (simp add: bit_take_bit_iff bit_unsigned_iff bit_drop_bit_eq)
qed

interpretation ulong: canonical_codec ulong_bytes uLongValue
proof
  fix v :: "64 word"
  obtain u where u: "uLongValue (ulong_bytes v) = Some u" by (simp add: uLongValue_def)
  have "u = v"
  proof (rule bit_eqI)
    fix n assume "possible_bit TYPE(64 word) n"
    then have "n < 64" by simp
    then show "bit u n \<longleftrightarrow> bit v n" using bit_uLongValue[OF u, of n] by (simp add: bit_ulong_bytes)
  qed
  then show "uLongValue (ulong_bytes v) = Some v" using u by simp
next
  fix bs and v :: "64 word" assume d: "uLongValue bs = Some v"
  then have l: "length bs = 8" by (simp add: uLongValue_def split: if_splits)
  show "ulong_bytes v = bs"
  proof (rule nth_equalityI)
    fix i assume "i < length (ulong_bytes v)"
    then have i: "i < 8" by simp
    have "byte (ulong_bytes v ! i) = byte (bs ! i)"
    proof (rule bit_eqI)
      fix n
      have "(8 * i + n) div 8 = i" "(8 * i + n) mod 8 = n" if "n < 8" using that by simp_all
      then show "bit (byte (ulong_bytes v ! i)) n \<longleftrightarrow> bit (byte (bs ! i)) n"
        using bit_byte[of "bs ! i" n] bit_uLongValue[OF d, of "8 * i + n"] i
        by (cases "n < 8") (auto simp: bit_ulong_bytes)
    qed
    then show "ulong_bytes v ! i = bs ! i" by simp
  qed (simp add: l)
qed

end
