(* ===== verification/Pkcs11_Session.thy ===== *)
theory Pkcs11_Session
  imports Pkcs11_Types "HOL-Library.AList"
begin

text \<open>
  Configuration, library registry, session pool and the \<open>withSession\<close> bracket of \<^verbatim>\<open>encrypt/pkcs11\<close>: \<^verbatim>\<open>config.go\<close>,
  \<^verbatim>\<open>session.go\<close> and \<^verbatim>\<open>backend.go\<close>.

  The vendor library behind the \<open>module\<close> interface is not part of the repository. It is a record
  \<open>token_module\<close> of operations on a state \<open>'t\<close> of its own (the libraries and tokens of the process, and
  whatever else the outside world is), and every definition takes it as an argument. So are the file
  system behind \<open>resolveModulePath\<close> (\<open>resolve\<close>), \<open>newModuleFn\<close> and \<open>viper.GetString\<close>.

  \<open>proc\<close> is the package state: the registry of libraries with, per slot, the advertised mechanisms, the
  session pool and the login flag. The sequential definitions give one complete call; the relation
  \<open>pool_step\<close> interleaves any number of callers at the granularity of the channel operations.
\<close>

subsection \<open>Sequencing with errors\<close>

definition attempt :: "(err + 'a) \<times> 's \<Rightarrow> ('a \<Rightarrow> 's \<Rightarrow> (err + 'b) \<times> 's) \<Rightarrow> (err + 'b) \<times> 's" where
  "attempt r k = (case r of (Inl e, s) \<Rightarrow> (Inl e, s) | (Inr x, s) \<Rightarrow> k x s)"

definition check :: "err option \<times> 's \<Rightarrow> ('s \<Rightarrow> (err + 'b) \<times> 's) \<Rightarrow> (err + 'b) \<times> 's" where
  "check r k = (case r of (Some e, s) \<Rightarrow> (Inl e, s) | (None, s) \<Rightarrow> k s)"

lemma attempt_simps [simp]: "attempt (Inl e, s) k = (Inl e, s)" "attempt (Inr x, s) k = k x s"
  by (simp_all add: attempt_def)

lemma check_simps [simp]: "check (Some e, s) k = (Inl e, s)" "check (None, s) k = k s"
  by (simp_all add: check_def)

lemma attempt_InrE:
  assumes "attempt r k = (Inr y, s')"
  obtains x s where "r = (Inr x, s)" "k x s = (Inr y, s')"
  using assms by (cases r; cases "fst r") (auto simp: attempt_def)

lemma check_InrE:
  assumes "check r k = (Inr y, s')"
  obtains s where "r = (None, s)" "k s = (Inr y, s')"
  using assms by (cases r; cases "fst r") (auto simp: check_def)

subsection \<open>The vendor library\<close>

text \<open>\<open>m_Decrypt\<close> may return Go's nil slice, \<open>None\<close>, which the caller can tell from an empty one.\<close>

type_synonym handle = "64 word"

record 't token_module =
  m_Initialize :: "'t \<Rightarrow> err option \<times> 't"
  m_Finalize :: "'t \<Rightarrow> err option \<times> 't"
  m_Slots :: "bool \<Rightarrow> 't \<Rightarrow> (err + slotInfo list) \<times> 't"
  m_Mechanisms :: "64 word \<Rightarrow> 't \<Rightarrow> (err + mechanism list) \<times> 't"
  m_OpenSession :: "64 word \<Rightarrow> 't \<Rightarrow> (err + handle) \<times> 't"
  m_CloseSession :: "handle \<Rightarrow> 't \<Rightarrow> err option \<times> 't"
  m_Login :: "handle \<Rightarrow> string \<Rightarrow> 't \<Rightarrow> err option \<times> 't"
  m_FindObjects :: "handle \<Rightarrow> attribute list \<Rightarrow> 't \<Rightarrow> (err + handle list) \<times> 't"
  m_GetAttributes :: "handle \<Rightarrow> handle \<Rightarrow> attributeType list \<Rightarrow> 't \<Rightarrow> (err + attribute list) \<times> 't"
  m_SetAttributes :: "handle \<Rightarrow> handle \<Rightarrow> attribute list \<Rightarrow> 't \<Rightarrow> err option \<times> 't"
  m_DestroyObject :: "handle \<Rightarrow> handle \<Rightarrow> 't \<Rightarrow> err option \<times> 't"
  m_GenerateKey :: "handle \<Rightarrow> mechanism \<Rightarrow> attribute list \<Rightarrow> 't \<Rightarrow> (err + handle) \<times> 't"
  m_GenerateKeyPair :: "handle \<Rightarrow> mechanism \<Rightarrow> attribute list \<Rightarrow> attribute list \<Rightarrow> 't \<Rightarrow> (err + handle \<times> handle) \<times> 't"
  m_DeriveKey :: "handle \<Rightarrow> mechanism \<Rightarrow> mechanismParams \<Rightarrow> handle \<Rightarrow> attribute list \<Rightarrow> 't \<Rightarrow> (err + handle) \<times> 't"
  m_Encrypt :: "handle \<Rightarrow> mechanism \<Rightarrow> mechanismParams \<Rightarrow> handle \<Rightarrow> string \<Rightarrow> 't \<Rightarrow> (err + string) \<times> 't"
  m_Decrypt :: "handle \<Rightarrow> mechanism \<Rightarrow> mechanismParams \<Rightarrow> handle \<Rightarrow> string \<Rightarrow> 't \<Rightarrow> (err + string option) \<times> 't"
  m_Sign :: "handle \<Rightarrow> mechanism \<Rightarrow> mechanismParams option \<Rightarrow> handle \<Rightarrow> string \<Rightarrow> 't \<Rightarrow> (err + string) \<times> 't"

subsection \<open>Configuration, \<^verbatim>\<open>config.go\<close>\<close>

type_synonym 't PinProvider = "'t \<Rightarrow> (err + string) \<times> 't"

record 't config =
  modulePath :: string
  tokenLabel :: string
  slotID :: "64 word"
  hasSlotID :: bool
  cfg_keyURI :: string
  maxSession :: int
  pin :: "'t PinProvider option"
  allowSecretExtraction :: bool
  deactivateDestroys :: bool
  rotateDisablesPrev :: bool

definition defaultModulePathKey :: string where "defaultModulePathKey = ''encrypt.vault.pkcs11.module-path''"
definition defaultTokenLabelKey :: string where "defaultTokenLabelKey = ''encrypt.vault.pkcs11.token-label''"
definition defaultSlotIDKey :: string where "defaultSlotIDKey = ''encrypt.vault.pkcs11.slot-id''"
definition defaultKeyURIKey :: string where "defaultKeyURIKey = ''encrypt.vault.pkcs11.key-uri''"
definition defaultMaxSessionKey :: string where "defaultMaxSessionKey = ''encrypt.vault.pkcs11.max-sessions''"
definition providerName :: string where "providerName = ''pkcs11''"
definition defaultMaxSessions :: int where "defaultMaxSessions = 8"
definition symmetricKeyPrefix :: string where "symmetricKeyPrefix = ''GoForge-symmetric''"
definition rsaKeyPrefix :: string where "rsaKeyPrefix = ''GoForge-rsa''"
definition ecdhKeyPrefix :: string where "ecdhKeyPrefix = ''GoForge-ecdh''"
definition ed25519KeyPrefix :: string where "ed25519KeyPrefix = ''GoForge-ed25519''"
definition hmacKeyPrefix :: string where "hmacKeyPrefix = ''GoForge-hmac''"
definition eccHKDFInfoPrefix :: string where "eccHKDFInfoPrefix = ''GoForge-ecc-aes-gcm:''"

datatype 't Option =
    WithModulePath string | WithTokenLabel string | WithSlotID "64 word" | WithKeyURI string | WithMaxSessions int
  | WithPinProvider "'t PinProvider option" | WithAllowSecretExtraction bool | WithDeactivateDestroys bool
  | WithRotateDisablesPrevious bool

fun apply_option :: "'t Option \<Rightarrow> 't config \<Rightarrow> 't config" where
  "apply_option (WithModulePath path) c = c\<lparr>modulePath := TrimSpace path\<rparr>"
| "apply_option (WithTokenLabel label) c = c\<lparr>tokenLabel := TrimSpace label\<rparr>"
| "apply_option (WithSlotID i) c = c\<lparr>slotID := i, hasSlotID := True\<rparr>"
| "apply_option (WithKeyURI uri) c = c\<lparr>cfg_keyURI := TrimSpace uri\<rparr>"
| "apply_option (WithMaxSessions n) c = (if n > 0 then c\<lparr>maxSession := n\<rparr> else c)"
| "apply_option (WithPinProvider provider) c = c\<lparr>pin := provider\<rparr>"
| "apply_option (WithAllowSecretExtraction allow) c = c\<lparr>allowSecretExtraction := allow\<rparr>"
| "apply_option (WithDeactivateDestroys destroy) c = c\<lparr>deactivateDestroys := destroy\<rparr>"
| "apply_option (WithRotateDisablesPrevious disable) c = c\<lparr>rotateDisablesPrev := disable\<rparr>"

text \<open>\<open>strconv.ParseUint(s, 10, 64)\<close>.\<close>

definition ParseUint :: "string \<Rightarrow> 64 word option" where
  "ParseUint s = (if s \<noteq> [] \<and> list_all is_digit s \<and> digits_value s < 2 ^ 64 then Some (of_nat (digits_value s)) else None)"

definition newConfig :: "(string \<Rightarrow> string) \<Rightarrow> 't Option list \<Rightarrow> 't config" where
  "newConfig viper opts =
     (let resolved = \<lparr>modulePath = TrimSpace (viper defaultModulePathKey), tokenLabel = TrimSpace (viper defaultTokenLabelKey),
            slotID = 0, hasSlotID = False, cfg_keyURI = TrimSpace (viper defaultKeyURIKey),
            maxSession = defaultMaxSessions, pin = None, allowSecretExtraction = True, deactivateDestroys = False,
            rotateDisablesPrev = False\<rparr>;
          r1 = (let raw = TrimSpace (viper defaultSlotIDKey) in
                if raw \<noteq> [] then (case ParseUint raw of Some i \<Rightarrow> resolved\<lparr>slotID := i, hasSlotID := True\<rparr> | None \<Rightarrow> resolved)
                else resolved);
          r2 = (let raw = TrimSpace (viper defaultMaxSessionKey) in
                if raw \<noteq> [] then (case Atoi raw of Some n \<Rightarrow> (if n > 0 then r1\<lparr>maxSession := n\<rparr> else r1) | None \<Rightarrow> r1)
                else r1)
      in fold apply_option opts r2)"

definition validate :: "'t config \<Rightarrow> err option" where
  "validate c =
     (if modulePath c = [] then Some (Sentinel ErrModuleRequired)
      else if tokenLabel c = [] \<and> \<not> hasSlotID c then Some (Sentinel ErrTokenRequired)
      else if Option.is_none (pin c) then Some (Sentinel ErrPinRequired)
      else None)"

definition resolveKeyURI :: "'t config \<Rightarrow> string \<Rightarrow> err + keyURI" where
  "resolveKeyURI c reference =
     (if TrimSpace reference \<noteq> [] then map_sum UriErr (\<lambda>u. u) (parseKeyURI (TrimSpace reference))
      else if cfg_keyURI c \<noteq> [] then map_sum UriErr (\<lambda>u. u) (parseKeyURI (cfg_keyURI c))
      else Inl (Sentinel ErrKeyURIRequired))"

subsection \<open>The session pool, \<^verbatim>\<open>session.go\<close>\<close>

text \<open>
  \<open>sem\<close> and \<open>idle\<close> are buffered channels of capacity \<open>pool_cap\<close>: the number of values in the one, the
  values in the other in the order they will be received.
\<close>

record sessionPool =
  pool_slot :: "64 word"
  pool_cap :: nat
  sem :: nat
  idle :: "handle list"

definition newSessionPool :: "64 word \<Rightarrow> int \<Rightarrow> sessionPool" where
  "newSessionPool slot sz = \<lparr>pool_slot = slot, pool_cap = nat (if sz < 1 then 1 else sz), sem = 0, idle = []\<rparr>"

text \<open>
  What the caller's context does during one call: its error at the first check, its error once it is
  done while the call waits, and which ready case \<open>select\<close> picks.
\<close>

record go_ctx =
  ctx_Err :: "err option"
  ctx_Done :: "err option"
  picks_Done :: bool

definition enter_sem :: "sessionPool \<Rightarrow> sessionPool option" where
  "enter_sem p = (if sem p < pool_cap p then Some (p\<lparr>sem := sem p + 1\<rparr>) else None)"

definition leave_sem :: "sessionPool \<Rightarrow> sessionPool" where
  "leave_sem p = p\<lparr>sem := sem p - 1\<rparr>"

definition take_idle :: "sessionPool \<Rightarrow> (handle \<times> sessionPool) option" where
  "take_idle p = (case idle p of [] \<Rightarrow> None | s # ss \<Rightarrow> Some (s, p\<lparr>idle := ss\<rparr>))"

definition put_idle :: "handle \<Rightarrow> sessionPool \<Rightarrow> sessionPool option" where
  "put_idle s p = (if length (idle p) < pool_cap p then Some (p\<lparr>idle := idle p @ [s]\<rparr>) else None)"

definition acquire :: "go_ctx \<Rightarrow> 't token_module \<Rightarrow> sessionPool \<Rightarrow> 't \<Rightarrow> ((err + handle) \<times> sessionPool \<times> 't) option" where
  \<comment> \<open>\<open>None\<close>: the call blocks for ever\<close>
  "acquire ctx m p t =
     (case ctx_Err ctx of Some e \<Rightarrow> Some (Inl e, p, t)
      | None \<Rightarrow> (case (ctx_Done ctx, enter_sem p) of
          (Some e, None) \<Rightarrow> Some (Inl e, p, t)
        | (None, None) \<Rightarrow> None
        | (done, Some p1) \<Rightarrow>
            (if done \<noteq> None \<and> picks_Done ctx then Some (Inl (the done), p, t)
             else (case take_idle p1 of
                Some (s, p2) \<Rightarrow> Some (Inr s, p2, t)
              | None \<Rightarrow> (case m_OpenSession m (pool_slot p1) t of
                    (Inl e, t1) \<Rightarrow> Some (Inl e, leave_sem p1, t1)
                  | (Inr s, t1) \<Rightarrow> Some (Inr s, p1, t1))))))"

definition sessionIsDead :: "err option \<Rightarrow> bool" where
  "sessionIsDead e = (case e of None \<Rightarrow> False
     | Some x \<Rightarrow> (case errors_As_token x of None \<Rightarrow> False
         | Some (f, code) \<Rightarrow> code \<in> {ckrSessionHandleInval, ckrSessionClosed, ckrDeviceRemoved, ckrTokenNotPresent,
             ckrDeviceError, ckrCryptokiNotInitiali, ckrUserNotLoggedIn}))"

definition pool_release :: "'t token_module \<Rightarrow> handle \<Rightarrow> err option \<Rightarrow> sessionPool \<Rightarrow> 't \<Rightarrow> sessionPool \<times> 't" where
  "pool_release m s opErr p t =
     (if sessionIsDead opErr then (leave_sem p, snd (m_CloseSession m s t))
      else (case put_idle s p of
              Some p1 \<Rightarrow> (leave_sem p1, t)
            | None \<Rightarrow> (leave_sem p, snd (m_CloseSession m s t))))"

text \<open>\<open>errors.Join\<close> of an accumulated error with one more.\<close>

definition join_err :: "err option \<Rightarrow> err \<Rightarrow> err option" where
  "join_err joined e = (case joined of None \<Rightarrow> Some (Join [e]) | Some j \<Rightarrow> Some (Join [j, e]))"

fun drain_sessions :: "'t token_module \<Rightarrow> handle list \<Rightarrow> err option \<Rightarrow> 't \<Rightarrow> err option \<times> 't" where
  "drain_sessions m [] joined t = (joined, t)"
| "drain_sessions m (s # ss) joined t =
     (case m_CloseSession m s t of
        (Some e, t1) \<Rightarrow> drain_sessions m ss (join_err joined e) t1
      | (None, t1) \<Rightarrow> drain_sessions m ss joined t1)"

definition drain :: "'t token_module \<Rightarrow> sessionPool \<Rightarrow> 't \<Rightarrow> err option \<times> sessionPool \<times> 't" where
  "drain m p t = (case drain_sessions m (idle p) None t of (e, t1) \<Rightarrow> (e, p\<lparr>idle := []\<rparr>, t1))"

subsection \<open>Slots and libraries\<close>

record slotState =
  slot_id :: "64 word"
  mechanisms :: "mechanism list"
  pool :: sessionPool
  loggedIn :: bool

record 't moduleEntry =
  path :: string
  once_done :: bool
  entry_mod :: "'t token_module option"
  entry_err :: "err option"
  refs :: int
  slots :: "(64 word \<times> slotState) list"

record 't proc =
  outside :: 't
  entries :: "(string \<times> 't moduleEntry) list"

definition supports :: "slotState \<Rightarrow> mechanism \<Rightarrow> bool" where
  "supports s mech = (mech \<in> set (mechanisms s))"

definition login :: "'t token_module \<Rightarrow> handle \<Rightarrow> 't PinProvider \<Rightarrow> slotState \<Rightarrow> 't \<Rightarrow> err option \<times> slotState \<times> 't" where
  "login m session provider s t =
     (if loggedIn s then (None, s, t)
      else (case provider t of
              (Inl e, t1) \<Rightarrow> (Some (WrapErr ''pkcs11: obtain pin: %w'' [e]), s, t1)
            | (Inr p, t1) \<Rightarrow> (case m_Login m session p t1 of
                  (Some e, t2) \<Rightarrow> (Some e, s, t2)
                | (None, t2) \<Rightarrow> (None, s\<lparr>loggedIn := True\<rparr>, t2))))"

definition resetLogin :: "slotState \<Rightarrow> slotState" where
  "resetLogin s = s\<lparr>loggedIn := False\<rparr>"

definition fresh_entry :: "string \<Rightarrow> 't moduleEntry" where
  "fresh_entry key = \<lparr>path = key, once_done = False, entry_mod = None, entry_err = None, refs = 0, slots = []\<rparr>"

definition set_entry :: "string \<Rightarrow> 't moduleEntry \<Rightarrow> 't proc \<Rightarrow> 't proc" where
  "set_entry key e p = p\<lparr>entries := AList.update key e (entries p)\<rparr>"

type_synonym 't loader = "string \<Rightarrow> 't \<Rightarrow> (err + 't token_module) \<times> 't"

text \<open>The body of \<open>entry.once.Do\<close>.\<close>

definition load_entry :: "'t loader \<Rightarrow> string \<Rightarrow> 't moduleEntry \<Rightarrow> 't \<Rightarrow> 't moduleEntry \<times> 't" where
  "load_entry newModuleFn key e t =
     (if once_done e then (e, t)
      else (case newModuleFn key t of
              (Inl er, t1) \<Rightarrow> (e\<lparr>once_done := True, entry_err := Some er\<rparr>, t1)
            | (Inr m, t1) \<Rightarrow> (case m_Initialize m t1 of
                  (Some er, t2) \<Rightarrow> (e\<lparr>once_done := True, entry_err := Some er\<rparr>, t2)
                | (None, t2) \<Rightarrow> (e\<lparr>once_done := True, entry_mod := Some m\<rparr>, t2))))"

definition acquireModule :: "(string \<Rightarrow> string) \<Rightarrow> 't loader \<Rightarrow> string \<Rightarrow> 't proc \<Rightarrow> (err + string) \<times> 't proc" where
  \<comment> \<open>the result names the entry by its registry key\<close>
  "acquireModule resolve newModuleFn pth p =
     (let key = resolve pth;
          e0 = (case map_of (entries p) key of Some e \<Rightarrow> e | None \<Rightarrow> fresh_entry key);
          (e1, t1) = load_entry newModuleFn key e0 (outside p)
      in (case entry_err e1 of
            Some er \<Rightarrow> (Inl er, set_entry key e1 (p\<lparr>outside := t1\<rparr>))
          | None \<Rightarrow> (Inr key, set_entry key (e1\<lparr>refs := refs e1 + 1\<rparr>) (p\<lparr>outside := t1\<rparr>))))"

fun find_label :: "string \<Rightarrow> slotInfo list \<Rightarrow> 64 word option" where
  "find_label label [] = None"
| "find_label label (slot # rest) = (if TrimSpace (TokenLabel slot) = label then Some (slot_ID slot) else find_label label rest)"

definition resolveSlotID :: "'t token_module \<Rightarrow> 't config \<Rightarrow> 't \<Rightarrow> (err + 64 word) \<times> 't" where
  "resolveSlotID m cfg t =
     (if tokenLabel cfg = [] then
        (if hasSlotID cfg then (Inr (slotID cfg), t) else (Inl (Sentinel ErrTokenRequired), t))
      else attempt (m_Slots m True t) (\<lambda>infos t1.
        (case find_label (tokenLabel cfg) infos of
           Some i \<Rightarrow> (Inr i, t1)
         | None \<Rightarrow> (Inl (Errorf ''pkcs11: no token labelled %q is present'' [tokenLabel cfg]), t1))))"

fun clamp_sessions :: "int \<Rightarrow> 64 word \<Rightarrow> slotInfo list \<Rightarrow> int" where
  "clamp_sessions sz slot [] = sz"
| "clamp_sessions sz slot (info # rest) =
     (if slot_ID info \<noteq> slot then clamp_sessions sz slot rest
      else if MaxSessions info > 0 \<and> of_int sz > MaxSessions info then sint (MaxSessions info)
      else clamp_sessions sz slot rest)"

definition poolSize :: "'t token_module \<Rightarrow> 't config \<Rightarrow> 64 word \<Rightarrow> 't \<Rightarrow> int \<times> 't" where
  "poolSize m cfg slot t =
     (case m_Slots m True t of (Inl e, t1) \<Rightarrow> (maxSession cfg, t1)
      | (Inr infos, t1) \<Rightarrow> (clamp_sessions (maxSession cfg) slot infos, t1))"

definition slotFor :: "'t token_module \<Rightarrow> 't config \<Rightarrow> 't moduleEntry \<Rightarrow> 't \<Rightarrow> (err + 64 word) \<times> 't moduleEntry \<times> 't" where
  \<comment> \<open>the result names the slot state by its id\<close>
  "slotFor m cfg e t =
     (case resolveSlotID m cfg t of
        (Inl er, t1) \<Rightarrow> (Inl er, e, t1)
      | (Inr i, t1) \<Rightarrow>
          (case map_of (slots e) i of
             Some s \<Rightarrow> (Inr i, e, t1)
           | None \<Rightarrow> (case m_Mechanisms m i t1 of
                 (Inl er, t2) \<Rightarrow> (Inl er, e, t2)
               | (Inr ms, t2) \<Rightarrow> (let (sz, t3) = poolSize m cfg i t2 in
                   (Inr i, e\<lparr>slots := (i, \<lparr>slot_id = i, mechanisms = ms, pool = newSessionPool i sz, loggedIn = False\<rparr>) # slots e\<rparr>, t3)))))"

subsection \<open>The backend, \<^verbatim>\<open>backend.go\<close>\<close>

type_synonym ('t, 'a) tokenOp = "'t token_module \<Rightarrow> slotState \<Rightarrow> handle \<Rightarrow> 't \<Rightarrow> (err + 'a) \<times> 't"

text \<open>A closure of \<open>withSession\<close> leaves its result in captured variables, which are read only if it returned nil.\<close>

definition runLoggedIn ::
    "'t PinProvider \<Rightarrow> 't token_module \<Rightarrow> slotState \<Rightarrow> handle \<Rightarrow> ('t, 'a) tokenOp \<Rightarrow> 't \<Rightarrow> (err + 'a) \<times> slotState \<times> 't" where
  "runLoggedIn provider m s session op t =
     (case login m session provider s t of
        (Some e, s1, t1) \<Rightarrow> (Inl e, s1, t1)
      | (None, s1, t1) \<Rightarrow> (case op m s1 session t1 of (r, t2) \<Rightarrow> (r, s1, t2)))"

definition err_of :: "err + 'a \<Rightarrow> err option" where
  "err_of r = (case r of Inl e \<Rightarrow> Some e | Inr _ \<Rightarrow> None)"

definition store_slot :: "string \<Rightarrow> 't moduleEntry \<Rightarrow> 64 word \<Rightarrow> slotState \<Rightarrow> 't \<Rightarrow> 't proc \<Rightarrow> 't proc" where
  "store_slot key e i s t p = set_entry key (e\<lparr>slots := AList.update i s (slots e)\<rparr>) (p\<lparr>outside := t\<rparr>)"

definition use_slot ::
    "go_ctx \<Rightarrow> 't PinProvider \<Rightarrow> 't token_module \<Rightarrow> ('t, 'a) tokenOp \<Rightarrow> slotState \<Rightarrow> 't \<Rightarrow> ((err + 'a) \<times> slotState \<times> 't) option" where
  \<comment> \<open>\<open>withSession\<close> from the acquisition of a session on\<close>
  "use_slot ctx provider m op s t =
     (case acquire ctx m (pool s) t of
        None \<Rightarrow> None
      | Some (Inl e, pl, t1) \<Rightarrow> Some (Inl e, s\<lparr>pool := pl\<rparr>, t1)
      | Some (Inr session, pl, t1) \<Rightarrow>
          (case runLoggedIn provider m (s\<lparr>pool := pl\<rparr>) session op t1 of (r, s1, t2) \<Rightarrow>
           (case pool_release m session (err_of r) (pool s1) t2 of (pl2, t3) \<Rightarrow>
             Some (r, if sessionIsDead (err_of r) then resetLogin (s1\<lparr>pool := pl2\<rparr>) else s1\<lparr>pool := pl2\<rparr>, t3))))"

definition withSession ::
    "(string \<Rightarrow> string) \<Rightarrow> 't loader \<Rightarrow> go_ctx \<Rightarrow> 't config \<Rightarrow> ('t, 'a) tokenOp \<Rightarrow> 't proc \<Rightarrow> ((err + 'a) \<times> 't proc) option" where
  \<comment> \<open>\<open>None\<close>: the call blocks for ever, or dereferences a nil module\<close>
  "withSession resolve newModuleFn ctx cfg op p =
     (case ctx_Err ctx of Some e \<Rightarrow> Some (Inl e, p)
      | None \<Rightarrow> (case validate cfg of Some e \<Rightarrow> Some (Inl e, p)
      | None \<Rightarrow> (case acquireModule resolve newModuleFn (modulePath cfg) p of
          (Inl e, p1) \<Rightarrow> Some (Inl e, p1)
        | (Inr key, p1) \<Rightarrow>
            (case map_of (entries p1) key of None \<Rightarrow> None
             | Some e \<Rightarrow> (case entry_mod e of None \<Rightarrow> None
             | Some m \<Rightarrow>
                (case slotFor m cfg e (outside p1) of
                   (Inl er, e1, t1) \<Rightarrow> Some (Inl er, set_entry key e1 (p1\<lparr>outside := t1\<rparr>))
                 | (Inr i, e1, t1) \<Rightarrow>
                     (case map_of (slots e1) i of None \<Rightarrow> None
                      | Some s \<Rightarrow> (case use_slot ctx (the (pin cfg)) m op s t1 of
                            None \<Rightarrow> None
                          | Some (r, s1, t2) \<Rightarrow> Some (r, store_slot key e1 i s1 t2 p1)))))))))"

record KeyData =
  kd_PublicKey :: string
  kd_KeyID :: string
  kd_KeyRef :: string
  kd_Provider :: string

definition keyDataFor :: "keyURI \<Rightarrow> string \<Rightarrow> KeyData" where
  "keyDataFor uri publicKey =
     \<lparr>kd_PublicKey = publicKey, kd_KeyID = hexID uri, kd_KeyRef = uriString uri, kd_Provider = providerName\<rparr>"

subsection \<open>Releasing libraries\<close>

text \<open>\<open>moduleEntry.release\<close> visits the slots in the order of the list; Go's map order is arbitrary.\<close>

fun release_slots :: "'t token_module \<Rightarrow> (64 word \<times> slotState) list \<Rightarrow> err option \<Rightarrow> 't
    \<Rightarrow> err option \<times> (64 word \<times> slotState) list \<times> 't" where
  "release_slots m [] joined t = (joined, [], t)"
| "release_slots m ((i, s) # rest) joined t =
     (case drain m (pool s) t of (e, pl, t1) \<Rightarrow>
      (case release_slots m rest (case e of None \<Rightarrow> joined | Some x \<Rightarrow> join_err joined x) t1 of (j, rest', t2) \<Rightarrow>
        (j, (i, resetLogin (s\<lparr>pool := pl\<rparr>)) # rest', t2)))"

definition entry_release :: "'t token_module \<Rightarrow> 't moduleEntry \<Rightarrow> 't \<Rightarrow> err option \<times> 't moduleEntry \<times> 't" where
  "entry_release m e t =
     (case release_slots m (slots e) None t of (j, ss, t1) \<Rightarrow> (j, e\<lparr>refs := refs e - 1, slots := ss\<rparr>, t1))"

definition Close :: "(string \<Rightarrow> string) \<Rightarrow> 't loader \<Rightarrow> 't config \<Rightarrow> 't proc \<Rightarrow> err option \<times> 't proc" where
  "Close resolve newModuleFn cfg p =
     (case acquireModule resolve newModuleFn (modulePath cfg) p of
        (Inl e, p1) \<Rightarrow> (None, p1)
      | (Inr key, p1) \<Rightarrow>
          (case map_of (entries p1) key of None \<Rightarrow> (None, p1)
           | Some e \<Rightarrow> (case entry_mod e of None \<Rightarrow> (None, p1)
           | Some m \<Rightarrow> (case entry_release m (e\<lparr>refs := refs e - 1\<rparr>) (outside p1) of
                (j, e1, t1) \<Rightarrow> (j, set_entry key e1 (p1\<lparr>outside := t1\<rparr>))))))"

fun finalize_all :: "'t moduleEntry list \<Rightarrow> err option \<Rightarrow> 't \<Rightarrow> err option \<times> 't" where
  "finalize_all [] joined t = (joined, t)"
| "finalize_all (e # es) joined t =
     (case entry_mod e of None \<Rightarrow> finalize_all es joined t
      | Some m \<Rightarrow> (case m_Finalize m t of
            (Some x, t1) \<Rightarrow> finalize_all es (join_err joined x) t1
          | (None, t1) \<Rightarrow> finalize_all es joined t1))"

definition Shutdown :: "go_ctx \<Rightarrow> 't proc \<Rightarrow> err option \<times> 't proc" where
  "Shutdown ctx p =
     (case ctx_Err ctx of Some e \<Rightarrow> (Some e, p)
      | None \<Rightarrow> (case finalize_all (map snd (entries p)) None (outside p) of
          (j, t1) \<Rightarrow> (j, p\<lparr>outside := t1, entries := []\<rparr>)))"

subsection \<open>One call at a time\<close>

text \<open>Between calls no semaphore slot is taken, and a library that was loaded without error is there.\<close>

definition quiet_pool :: "sessionPool \<Rightarrow> bool" where
  "quiet_pool p \<longleftrightarrow> sem p = 0 \<and> 0 < pool_cap p \<and> length (idle p) \<le> pool_cap p"

definition wf_entry :: "'t moduleEntry \<Rightarrow> bool" where
  "wf_entry e \<longleftrightarrow> (once_done e \<longrightarrow> (entry_err e = None) = (entry_mod e \<noteq> None))
     \<and> (\<forall>(i, s)\<in>set (slots e). quiet_pool (pool s))"

definition wf_proc :: "'t proc \<Rightarrow> bool" where
  "wf_proc p \<longleftrightarrow> (\<forall>(k, e)\<in>set (entries p). wf_entry e \<and> once_done e)"

lemma newSessionPool_quiet: "quiet_pool (newSessionPool slot sz)"
  by (simp add: newSessionPool_def quiet_pool_def)

text \<open>The pool while one caller holds a session of it.\<close>

definition held_pool :: "sessionPool \<Rightarrow> bool" where
  "held_pool p \<longleftrightarrow> sem p = 1 \<and> 0 < pool_cap p \<and> length (idle p) \<le> pool_cap p"

lemma acquire_quiet:
  assumes "quiet_pool p"
  obtains r pl t' where "acquire ctx m p t = Some (r, pl, t')"
    "pool_cap pl = pool_cap p" "case r of Inl _ \<Rightarrow> quiet_pool pl | Inr _ \<Rightarrow> held_pool pl"
proof -
  have "\<exists>r pl t'. acquire ctx m p t = Some (r, pl, t') \<and> pool_cap pl = pool_cap p
      \<and> (case r of Inl _ \<Rightarrow> quiet_pool pl | Inr _ \<Rightarrow> held_pool pl)"
    using assms
    by (cases "idle p"; cases "m_OpenSession m (pool_slot p) t"; cases "fst (m_OpenSession m (pool_slot p) t)")
      (auto simp: acquire_def enter_sem_def take_idle_def leave_sem_def quiet_pool_def held_pool_def split: option.splits)
  then show thesis using that by blast
qed

lemma pool_release_quiet:
  assumes "held_pool p"
  shows "quiet_pool (fst (pool_release m s e p t)) \<and> pool_cap (fst (pool_release m s e p t)) = pool_cap p"
  using assms by (auto simp: pool_release_def held_pool_def quiet_pool_def leave_sem_def put_idle_def)

lemma login_pool: "login m session provider s t = (e, s', t') \<Longrightarrow> pool s' = pool s \<and> mechanisms s' = mechanisms s
    \<and> (e = None \<longrightarrow> loggedIn s')"
  by (auto simp: login_def split: if_splits prod.splits sum.splits option.splits)

text \<open>What one use of a slot promises.\<close>

definition bracket :: "'t token_module \<Rightarrow> ('t, 'a) tokenOp \<Rightarrow> slotState \<Rightarrow> err + 'a \<Rightarrow> slotState \<Rightarrow> bool" where
  "bracket m op s r s' \<longleftrightarrow> quiet_pool (pool s') \<and> pool_cap (pool s') = pool_cap (pool s) \<and> mechanisms s' = mechanisms s
     \<and> (\<forall>x. r = Inr x \<longrightarrow> loggedIn s' \<and> (\<exists>s1 session t1 t2. loggedIn s1 \<and> mechanisms s1 = mechanisms s
            \<and> op m s1 session t1 = (Inr x, t2)))"

lemma use_slot_bracket:
  assumes "quiet_pool (pool s)"
  obtains r s' t' where "use_slot ctx provider m op s t = Some (r, s', t')" "bracket m op s r s'"
proof (cases rule: acquire_quiet[OF assms, of ctx m t])
  case (1 r pl t1)
  show thesis
  proof (cases r)
    case (Inl e)
    then show thesis using 1 that[of "Inl e" "s\<lparr>pool := pl\<rparr>" t1] by (simp add: use_slot_def bracket_def)
  next
    case (Inr session)
    obtain r2 s2 t2 where run: "runLoggedIn provider m (s\<lparr>pool := pl\<rparr>) session op t1 = (r2, s2, t2)" by (metis prod_cases3)
    obtain pl2 t3 where rel: "pool_release m session (err_of r2) (pool s2) t2 = (pl2, t3)" by fastforce
    have s2: "pool s2 = pl" "mechanisms s2 = mechanisms s" and
      op: "r2 = Inr x \<Longrightarrow> loggedIn s2 \<and> (\<exists>t1 t2. op m s2 session t1 = (Inr x, t2))" for x
      using run by (auto simp: runLoggedIn_def split: prod.splits option.splits dest!: login_pool)
    have "held_pool pl" using 1(3) Inr by simp
    then have "quiet_pool pl2" "pool_cap pl2 = pool_cap (pool s)"
      using pool_release_quiet[of pl m session "err_of r2" t2] rel s2 1(2) by auto
    moreover have "\<not> sessionIsDead (err_of r2)" if "r2 = Inr x" for x
      using that by (simp add: err_of_def sessionIsDead_def)
    ultimately have "bracket m op s r2 (if sessionIsDead (err_of r2) then resetLogin (s2\<lparr>pool := pl2\<rparr>) else s2\<lparr>pool := pl2\<rparr>)"
      using s2 op unfolding bracket_def resetLogin_def by (auto, metis+)
    then show thesis
      using that[of r2 "if sessionIsDead (err_of r2) then resetLogin (s2\<lparr>pool := pl2\<rparr>) else s2\<lparr>pool := pl2\<rparr>" t3] 1(1) Inr run rel
      by (simp add: use_slot_def)
  qed
qed

lemma load_entry_wf:
  assumes "load_entry newModuleFn key e t = (e', t')" "wf_entry e" "once_done e \<or> e = fresh_entry key"
  shows "wf_entry e' \<and> once_done e' \<and> slots e' = slots e"
  using assms by (auto simp: load_entry_def wf_entry_def fresh_entry_def split: if_splits prod.splits sum.splits option.splits)

lemma set_alist_update: "set (AList.update k v al) \<subseteq> insert (k, v) (set al)"
  by (induction al) auto

lemma wf_set_entry: "wf_proc p \<Longrightarrow> wf_entry e \<Longrightarrow> once_done e \<Longrightarrow> wf_proc (set_entry key e p)"
  using set_alist_update[of key e "entries p"] by (auto simp: wf_proc_def set_entry_def)

lemma lookup_set_entry [simp]: "map_of (entries (set_entry key e p)) k = (if k = key then Some e else map_of (entries p) k)"
  by (simp add: set_entry_def update_conv')

lemma wf_outside [simp]: "wf_proc (p\<lparr>outside := t\<rparr>) = wf_proc p"
  by (simp add: wf_proc_def)

lemma wf_lookup: "wf_proc p \<Longrightarrow> map_of (entries p) key = Some e \<Longrightarrow> wf_entry e \<and> once_done e"
  by (auto simp: wf_proc_def dest!: map_of_SomeD)

lemma fresh_wf: "wf_entry (fresh_entry key)"
  by (simp add: wf_entry_def fresh_entry_def)

lemma acquireModule_wf:
  assumes "acquireModule resolve newModuleFn pth p = (r, p')" "wf_proc p"
  shows "wf_proc p' \<and> (\<forall>key. r = Inr key \<longrightarrow>
    (\<exists>e m. map_of (entries p') key = Some e \<and> entry_mod e = Some m \<and> wf_entry e \<and> once_done e))"
proof -
  define e0 where "e0 = (case map_of (entries p) (resolve pth) of Some e \<Rightarrow> e | None \<Rightarrow> fresh_entry (resolve pth))"
  obtain e1 t1 where l: "load_entry newModuleFn (resolve pth) e0 (outside p) = (e1, t1)" by fastforce
  have "wf_entry e0" "once_done e0 \<or> e0 = fresh_entry (resolve pth)"
    using assms(2) wf_lookup[OF assms(2)] by (auto simp: e0_def fresh_wf split: option.splits)
  then have e1: "wf_entry e1" "once_done e1" using load_entry_wf[OF l] by auto
  then have n: "wf_entry (e1\<lparr>refs := n\<rparr>)" for n by (simp add: wf_entry_def)
  have eq: "(r, p') = (case entry_err e1 of
      Some er \<Rightarrow> (Inl er, set_entry (resolve pth) e1 (p\<lparr>outside := t1\<rparr>))
    | None \<Rightarrow> (Inr (resolve pth), set_entry (resolve pth) (e1\<lparr>refs := refs e1 + 1\<rparr>) (p\<lparr>outside := t1\<rparr>)))"
    using assms(1) l by (simp add: acquireModule_def Let_def e0_def)
  show ?thesis
  proof (cases "entry_err e1")
    case None
    then obtain m where "entry_mod e1 = Some m" using e1 by (auto simp: wf_entry_def)
    then show ?thesis using eq None e1 n wf_set_entry[OF _ n, of "p\<lparr>outside := t1\<rparr>"] assms(2) by simp
  next
    case (Some er)
    then show ?thesis using eq e1 wf_set_entry[of "p\<lparr>outside := t1\<rparr>" e1] assms(2) by simp
  qed
qed

lemma slotFor_wf:
  assumes "slotFor m cfg e t = (r, e', t')" "wf_entry e" "once_done e"
  shows "wf_entry e' \<and> once_done e' \<and> (\<forall>i. r = Inr i \<longrightarrow> (\<exists>s. map_of (slots e') i = Some s \<and> quiet_pool (pool s)))"
proof -
  have "quiet_pool (pool s)" if "map_of (slots e) i = Some s" for i s
    using assms(2) map_of_SomeD[OF that] by (auto simp: wf_entry_def)
  then show ?thesis
    using assms
    by (auto simp: slotFor_def wf_entry_def newSessionPool_quiet split: prod.splits sum.splits option.splits)
qed

lemma wf_store_slot:
  assumes "wf_entry e" "once_done e" "quiet_pool (pool s)" "wf_proc p"
  shows "wf_proc (store_slot key e i s t p)"
proof -
  have "wf_entry (e\<lparr>slots := AList.update i s (slots e)\<rparr>)"
    using assms(1,3) set_alist_update[of i s "slots e"] by (auto simp: wf_entry_def)
  then show ?thesis using assms(2,4) by (simp add: store_slot_def wf_set_entry)
qed

subsection \<open>Callers of one pool, interleaved\<close>

text \<open>
  Callers of a pool: \<open>polling\<close> of them entered the semaphore and have not looked for an idle session yet,
  \<open>in_open\<close> found none and are in \<open>OpenSession\<close>, \<open>holding\<close> are the sessions in use, \<open>leaving\<close> gave their
  session up and have not left the semaphore yet. \<open>opened\<close> are the sessions open on the token for this
  pool; the token hands out a handle that is not open.
\<close>

record pool_sys =
  the_pool :: sessionPool
  polling :: nat
  in_open :: nat
  holding :: "handle list"
  leaving :: nat
  opened :: "handle set"

definition pool_start :: "64 word \<Rightarrow> int \<Rightarrow> pool_sys" where
  "pool_start slot sz = \<lparr>the_pool = newSessionPool slot sz, polling = 0, in_open = 0, holding = [], leaving = 0, opened = {}\<rparr>"

inductive pool_step :: "pool_sys \<Rightarrow> pool_sys \<Rightarrow> bool" where
  enter: "enter_sem (the_pool c) = Some p \<Longrightarrow> pool_step c (c\<lparr>the_pool := p, polling := polling c + 1\<rparr>)"
| poll_hit: "0 < polling c \<Longrightarrow> take_idle (the_pool c) = Some (s, p)
    \<Longrightarrow> pool_step c (c\<lparr>the_pool := p, polling := polling c - 1, holding := s # holding c\<rparr>)"
| poll_miss: "0 < polling c \<Longrightarrow> take_idle (the_pool c) = None
    \<Longrightarrow> pool_step c (c\<lparr>polling := polling c - 1, in_open := in_open c + 1\<rparr>)"
| open_ok: "0 < in_open c \<Longrightarrow> s \<notin> opened c
    \<Longrightarrow> pool_step c (c\<lparr>in_open := in_open c - 1, holding := s # holding c, opened := insert s (opened c)\<rparr>)"
| open_fails: "0 < in_open c
    \<Longrightarrow> pool_step c (c\<lparr>in_open := in_open c - 1, the_pool := leave_sem (the_pool c)\<rparr>)"
| give_back: "s \<in> set (holding c) \<Longrightarrow> put_idle s (the_pool c) = Some p
    \<Longrightarrow> pool_step c (c\<lparr>the_pool := p, holding := remove1 s (holding c), leaving := leaving c + 1\<rparr>)"
| discard: "s \<in> set (holding c)
    \<Longrightarrow> pool_step c (c\<lparr>holding := remove1 s (holding c), opened := opened c - {s}, leaving := leaving c + 1\<rparr>)"
| leave: "0 < leaving c \<Longrightarrow> pool_step c (c\<lparr>leaving := leaving c - 1, the_pool := leave_sem (the_pool c)\<rparr>)"
| drain_one: "take_idle (the_pool c) = Some (s, p)
    \<Longrightarrow> pool_step c (c\<lparr>the_pool := p, opened := opened c - {s}\<rparr>)"

definition pool_inv :: "pool_sys \<Rightarrow> bool" where
  "pool_inv c \<longleftrightarrow> sem (the_pool c) = polling c + in_open c + length (holding c) + leaving c
     \<and> sem (the_pool c) \<le> pool_cap (the_pool c)
     \<and> in_open c + length (holding c) + length (idle (the_pool c)) \<le> pool_cap (the_pool c)
     \<and> distinct (holding c @ idle (the_pool c)) \<and> set (holding c @ idle (the_pool c)) = opened c"

definition pool_begins :: "pool_sys \<Rightarrow> bool" where
  "pool_begins c \<longleftrightarrow> (\<exists>slot sz. c = pool_start slot sz)"

lemma pool_step_inv: "pool_step c c' \<Longrightarrow> pool_inv c \<Longrightarrow> pool_inv c'"
proof (induction rule: pool_step.induct)
  case (give_back s c p)
  then have "Suc (length (remove1 s (holding c))) = length (holding c)"
    by (metis One_nat_def Suc_pred length_pos_if_in_set length_remove1)
  then show ?case using give_back by (auto simp: pool_inv_def put_idle_def split: if_splits)
next
  case (discard s c)
  then have "Suc (length (remove1 s (holding c))) = length (holding c)"
    by (metis One_nat_def Suc_pred length_pos_if_in_set length_remove1)
  then show ?case using discard by (auto simp: pool_inv_def)
qed (auto simp: pool_inv_def enter_sem_def take_idle_def leave_sem_def split: if_splits list.splits)

interpretation sessions: inv_system pool_begins pool_step pool_inv
proof
  fix c assume "pool_begins c"
  then show "pool_inv c" by (auto simp: pool_begins_def pool_start_def newSessionPool_def pool_inv_def)
qed (rule pool_step_inv)

subsection \<open>A small token for the witnesses\<close>

text \<open>
  A token with one slot and one object (handle 5) that carries every attribute it is asked for. Its
  AES-GCM appends sixteen zero bytes and checks them; its signatures are the message itself.
\<close>

definition sample_token :: "'t token_module" where
  "sample_token = \<lparr>m_Initialize = (\<lambda>t. (None, t)), m_Finalize = (\<lambda>t. (None, t)),
     m_Slots = (\<lambda>_ t. (Inr [\<lparr>slot_ID = 1, TokenLabel = ''hsm'', TokenPresent = True, MaxSessions = 4\<rparr>], t)),
     m_Mechanisms = (\<lambda>_ t. (Inr [ckmAESGCM, ckmAESKeyGen, ckmRSAPKCS, ckmRSAPKCSKeyPairGen], t)),
     m_OpenSession = (\<lambda>_ t. (Inr 9, t)), m_CloseSession = (\<lambda>_ t. (None, t)), m_Login = (\<lambda>_ _ t. (None, t)),
     m_FindObjects = (\<lambda>_ _ t. (Inr [5], t)),
     m_GetAttributes = (\<lambda>_ _ kinds t. (Inr (map (\<lambda>k. newULongAttribute k 0) kinds), t)),
     m_SetAttributes = (\<lambda>_ _ _ t. (None, t)), m_DestroyObject = (\<lambda>_ _ t. (None, t)),
     m_GenerateKey = (\<lambda>_ _ _ t. (Inr 5, t)), m_GenerateKeyPair = (\<lambda>_ _ _ _ t. (Inr (5, 6), t)),
     m_DeriveKey = (\<lambda>_ _ _ _ _ t. (Inr 8, t)),
     m_Encrypt = (\<lambda>_ _ _ _ x t. (Inr (x @ replicate 16 (CHR 0x00)), t)),
     m_Decrypt = (\<lambda>_ _ _ _ x t. (if drop (length x - 16) x = replicate 16 (CHR 0x00) then Inr (Some (take (length x - 16) x))
        else Inl (TokenErr ''C_Decrypt'' ckrEncryptedDataInval), t)),
     m_Sign = (\<lambda>_ _ _ _ x t. (Inr x, t))\<rparr>"

definition sample_config :: "'t config" where
  "sample_config = newConfig (\<lambda>_. [])
     [WithModulePath ''/hsm.so'', WithTokenLabel ''hsm'', WithPinProvider (Some (\<lambda>t. (Inr ''1234'', t)))]"

definition sample_ctx :: go_ctx where
  "sample_ctx = \<lparr>ctx_Err = None, ctx_Done = None, picks_Done = False\<rparr>"

definition sample_loader :: "'t loader" where
  "sample_loader = (\<lambda>_ t. (Inr sample_token, t))"

definition sample_proc :: "unit proc" where
  "sample_proc = \<lparr>outside = (), entries = []\<rparr>"

lemma sample_strings [simp]: "TrimSpace ''/hsm.so'' = ''/hsm.so''" "TrimSpace ''hsm'' = ''hsm''"
  by code_simp+

lemmas sample_defs = sample_config_def newConfig_def sample_loader_def sample_token_def sample_ctx_def sample_proc_def
  withSession_def validate_def acquireModule_def load_entry_def fresh_entry_def slotFor_def resolveSlotID_def
  poolSize_def newSessionPool_def use_slot_def acquire_def enter_sem_def take_idle_def runLoggedIn_def login_def
  pool_release_def put_idle_def leave_sem_def sessionIsDead_def err_of_def supports_def set_entry_def Let_def

lemma sample_wf: "wf_proc sample_proc"
  by (simp add: wf_proc_def sample_proc_def)

subsection \<open>One call, from start to end\<close>

lemma withSession_bracketed:
  assumes "wf_proc p"
  shows "\<exists>r p'. withSession resolve newModuleFn ctx cfg op p = Some (r, p') \<and> wf_proc p'
    \<and> (\<forall>x. r = Inr x \<longrightarrow> ctx_Err ctx = None \<and> validate cfg = None
         \<and> (\<exists>m s session t t'. loggedIn s \<and> op m s session t = (Inr x, t')))"
proof (cases "ctx_Err ctx = None \<and> validate cfg = None")
  case False
  then show ?thesis using assms by (auto simp: withSession_def split: option.splits)
next
  case True
  obtain r1 p1 where a: "acquireModule resolve newModuleFn (modulePath cfg) p = (r1, p1)" by fastforce
  note wf1 = acquireModule_wf[OF a assms]
  show ?thesis
  proof (cases r1)
    case (Inl e)
    then show ?thesis using True a wf1 by (simp add: withSession_def)
  next
    case (Inr key)
    then obtain e m where e: "map_of (entries p1) key = Some e" "entry_mod e = Some m" "wf_entry e" "once_done e"
      using wf1 by blast
    obtain r2 e1 t1 where sf: "slotFor m cfg e (outside p1) = (r2, e1, t1)" by (metis prod_cases3)
    note wf2 = slotFor_wf[OF sf e(3,4)]
    show ?thesis
    proof (cases r2)
      case (Inl er)
      then show ?thesis using True a Inr e sf wf1 wf2 by (simp add: withSession_def wf_set_entry)
    next
      case (Inr i)
      then obtain s where s: "map_of (slots e1) i = Some s" "quiet_pool (pool s)" using wf2 by blast
      obtain r s' t' where u: "use_slot ctx (the (pin cfg)) m op s t1 = Some (r, s', t')" "bracket m op s r s'"
        using use_slot_bracket[OF s(2)] by metis
      then have "withSession resolve newModuleFn ctx cfg op p = Some (r, store_slot key e1 i s' t' p1)"
        using True a \<open>r1 = Inr key\<close> e sf Inr s by (simp add: withSession_def)
      moreover have "wf_proc (store_slot key e1 i s' t' p1)"
        using wf_store_slot wf1 wf2 u(2) by (auto simp: bracket_def)
      ultimately show ?thesis using u(2) True unfolding bracket_def by blast
    qed
  qed
qed

subsection \<open>Properties\<close>



text \<open>
  C12: A call through \<open>withSession\<close> on a quiescent process always comes back, leaves the process quiescent
  (no semaphore slot is lost on any path, errors and panicking tokens apart), and if it succeeds the
  operation ran on a session of a token the application is logged in to.\<close>
theorem withSession_brackets:
  assumes "wf_proc p"
  shows "\<exists>r p'. withSession resolve newModuleFn ctx cfg op p = Some (r, p') \<and> wf_proc p'
    \<and> (\<forall>x. r = Inr x \<longrightarrow> ctx_Err ctx = None \<and> validate cfg = None
         \<and> (\<exists>m s session t t'. loggedIn s \<and> op m s session t = (Inr x, t')))"
  using assms by (rule withSession_bracketed)

theorem withSession_brackets_witness:
  "\<exists>p'. withSession (\<lambda>x. x) sample_loader sample_ctx sample_config (\<lambda>m s h t. (Inr (h, supports s ckmAESGCM), t)) sample_proc
     = Some (Inr (9, True), p') \<and> wf_proc p'"
proof -
  have "map_option fst (withSession (\<lambda>x. x) sample_loader sample_ctx sample_config
      (\<lambda>m s h t. (Inr (h, supports s ckmAESGCM), t)) sample_proc) = Some (Inr (9, True))"
    by (simp add: sample_defs)
  then show ?thesis
    using withSession_brackets[OF sample_wf, of "\<lambda>x. x" sample_loader sample_ctx sample_config
        "\<lambda>m s h t. (Inr (h, supports s ckmAESGCM), t)"] by auto
qed

end
