(* ===== verification/Pkcs11_Rules.thy ===== *)
theory Pkcs11_Rules
  imports Pkcs11_Session
begin

text \<open>
  Reasoning about calls that go through \<open>withSession\<close>: a property \<open>I\<close> of the outside world that the library keeps, and a
  property \<open>P\<close> of the libraries that get loaded, carry over the whole call if the operation itself keeps them.
\<close>

named_theorems keeps_intros \<open>introduction rules for what keeps a property of the outside world\<close>

definition keeps :: "('t \<Rightarrow> bool) \<Rightarrow> ('t \<Rightarrow> 'r \<times> 't) \<Rightarrow> bool" where
  "keeps I f \<longleftrightarrow> (\<forall>t. I t \<longrightarrow> I (snd (f t)))"

lemma keepsD: "keeps I f \<Longrightarrow> I t \<Longrightarrow> f t = (r, t') \<Longrightarrow> I t'"
  by (auto simp: keeps_def dest: spec[of _ t])

lemma keeps_return [keeps_intros]: "keeps I (\<lambda>t. (r, t))"
  by (simp add: keeps_def)

lemma keeps_attempt [keeps_intros]:
  assumes "keeps I f" "\<And>x. keeps I (k x)"
  shows "keeps I (\<lambda>t. attempt (f t) k)"
  unfolding keeps_def
proof (intro allI impI)
  fix t assume "I t"
  obtain r t1 where r: "f t = (r, t1)" by fastforce
  then have "I t1" using assms(1) \<open>I t\<close> by (rule_tac keepsD)
  then show "I (snd (attempt (f t) k))" using assms(2) r by (cases r) (auto simp: keeps_def)
qed

lemma keeps_check [keeps_intros]:
  assumes "keeps I f" "keeps I k"
  shows "keeps I (\<lambda>t. check (f t) k)"
  unfolding keeps_def
proof (intro allI impI)
  fix t assume "I t"
  obtain r t1 where r: "f t = (r, t1)" by fastforce
  then have "I t1" using assms(1) \<open>I t\<close> by (rule_tac keepsD)
  then show "I (snd (check (f t) k))" using assms(2) r by (cases r) (auto simp: keeps_def)
qed

lemma keeps_if [keeps_intros]: "(b \<Longrightarrow> keeps I f) \<Longrightarrow> (\<not> b \<Longrightarrow> keeps I g) \<Longrightarrow> keeps I (\<lambda>t. if b then f t else g t)"
  by (simp add: keeps_def)

lemma keeps_case_sum [keeps_intros]:
  assumes "keeps I f" "\<And>e. keeps I (g e)" "\<And>x. keeps I (h x)"
  shows "keeps I (\<lambda>t. case f t of (Inl e, t1) \<Rightarrow> g e t1 | (Inr x, t1) \<Rightarrow> h x t1)"
  unfolding keeps_def
proof (intro allI impI)
  fix t assume "I t"
  obtain r t1 where r: "f t = (r, t1)" by fastforce
  then have "I t1" using assms(1) \<open>I t\<close> by (rule_tac keepsD)
  then show "I (snd (case f t of (Inl e, t1) \<Rightarrow> g e t1 | (Inr x, t1) \<Rightarrow> h x t1))"
    using assms(2,3) r by (cases r) (auto simp: keeps_def)
qed

lemma keeps_case_option [keeps_intros]:
  assumes "c = None \<Longrightarrow> keeps I f" "\<And>x. c = Some x \<Longrightarrow> keeps I (g x)"
  shows "keeps I (\<lambda>t. case c of None \<Rightarrow> f t | Some x \<Rightarrow> g x t)"
  using assms by (cases c) simp_all

lemma keeps_case_list [keeps_intros]:
  assumes "c = [] \<Longrightarrow> keeps I f" "\<And>x xs. c = x # xs \<Longrightarrow> keeps I (g x xs)"
  shows "keeps I (\<lambda>t. case c of [] \<Rightarrow> f t | x # xs \<Rightarrow> g x xs t)"
  using assms by (cases c) simp_all

lemma keeps_case_prod [keeps_intros]:
  assumes "\<And>x y. c = (x, y) \<Longrightarrow> keeps I (g x y)"
  shows "keeps I (case c of (x, y) \<Rightarrow> g x y)"
  using assms by (cases c) simp

text \<open>The library calls that only read, or that manage sessions.\<close>

definition reads_keep :: "('t \<Rightarrow> bool) \<Rightarrow> 't token_module \<Rightarrow> bool" where
  "reads_keep I m \<longleftrightarrow> keeps I (m_Initialize m) \<and> (\<forall>b. keeps I (m_Slots m b)) \<and> (\<forall>i. keeps I (m_Mechanisms m i))
     \<and> (\<forall>i. keeps I (m_OpenSession m i)) \<and> (\<forall>s. keeps I (m_CloseSession m s)) \<and> (\<forall>s pin. keeps I (m_Login m s pin))
     \<and> (\<forall>s tp. keeps I (m_FindObjects m s tp)) \<and> (\<forall>s h ks. keeps I (m_GetAttributes m s h ks))
     \<and> (\<forall>s mech ps h x. keeps I (m_Encrypt m s mech ps h x)) \<and> (\<forall>s mech ps h x. keeps I (m_Decrypt m s mech ps h x))
     \<and> (\<forall>s mech ps h x. keeps I (m_Sign m s mech ps h x))"

lemma reads_keepD [keeps_intros]:
  assumes "reads_keep I m"
  shows "keeps I (m_Initialize m)" "keeps I (m_Slots m b)" "keeps I (m_Mechanisms m i)" "keeps I (m_OpenSession m i)"
    "keeps I (m_CloseSession m s)" "keeps I (m_Login m s pn)" "keeps I (m_FindObjects m s tp)"
    "keeps I (m_GetAttributes m s h ks)" "keeps I (m_Encrypt m s mech ps h x)" "keeps I (m_Decrypt m s mech ps h x)"
    "keeps I (m_Sign m s mech pso h x)"
  using assms by (simp_all add: reads_keep_def)

definition mods_ok :: "('t token_module \<Rightarrow> bool) \<Rightarrow> 't proc \<Rightarrow> bool" where
  "mods_ok P p \<longleftrightarrow> (\<forall>(key, e)\<in>set (entries p). \<forall>m. entry_mod e = Some m \<longrightarrow> P m)"

definition loader_ok :: "('t \<Rightarrow> bool) \<Rightarrow> ('t token_module \<Rightarrow> bool) \<Rightarrow> 't loader \<Rightarrow> bool" where
  "loader_ok I P newModuleFn \<longleftrightarrow> (\<forall>pth. keeps I (newModuleFn pth)) \<and> (\<forall>pth t m t'. newModuleFn pth t = (Inr m, t') \<longrightarrow> P m)"

definition pin_ok :: "('t \<Rightarrow> bool) \<Rightarrow> 't config \<Rightarrow> bool" where
  "pin_ok I cfg \<longleftrightarrow> (\<forall>f. pin cfg = Some f \<longrightarrow> keeps I f)"

subsection \<open>The steps of a call\<close>

lemma mods_ok_set_entry:
  "mods_ok P p \<Longrightarrow> (\<And>m. entry_mod e = Some m \<Longrightarrow> P m) \<Longrightarrow> mods_ok P (set_entry key e p)"
  using set_alist_update[of key e "entries p"] by (auto simp: mods_ok_def set_entry_def)

lemma mods_ok_outside [simp]: "mods_ok P (p\<lparr>outside := t\<rparr>) = mods_ok P p"
  by (simp add: mods_ok_def)

lemma mods_ok_lookup: "mods_ok P p \<Longrightarrow> map_of (entries p) key = Some e \<Longrightarrow> entry_mod e = Some m \<Longrightarrow> P m"
  by (force simp: mods_ok_def dest: map_of_SomeD)

lemma set_entry_outside [simp]: "outside (set_entry key e p) = outside p"
  by (simp add: set_entry_def)

lemma load_entry_keeps:
  assumes "load_entry newModuleFn key e t = (e', t')" "loader_ok I P newModuleFn" "\<And>m. P m \<Longrightarrow> reads_keep I m" "I t"
    and "\<And>m. entry_mod e = Some m \<Longrightarrow> P m"
  shows "I t' \<and> (\<forall>m. entry_mod e' = Some m \<longrightarrow> P m)"
proof (cases "once_done e")
  case True
  then show ?thesis using assms by (simp add: load_entry_def)
next
  case False
  obtain r t1 where n: "newModuleFn key t = (r, t1)" by fastforce
  have t1: "I t1" using assms(2,4) n by (auto simp: loader_ok_def intro: keepsD)
  show ?thesis
  proof (cases r)
    case (Inl er)
    then show ?thesis using assms(1,5) False n t1 by (auto simp: load_entry_def)
  next
    case (Inr m)
    then have m: "P m" using assms(2) n unfolding loader_ok_def by blast
    obtain er t2 where i: "m_Initialize m t1 = (er, t2)" by fastforce
    have "I t2" using keepsD[OF reads_keepD(1)[OF assms(3)[OF m]] t1 i] .
    then show ?thesis using assms(1,5) False n Inr i m by (cases er) (auto simp: load_entry_def)
  qed
qed

lemma acquireModule_keeps:
  assumes a: "acquireModule resolve newModuleFn pth p = (r, p')" and l: "loader_ok I P newModuleFn"
    and reads: "\<And>m. P m \<Longrightarrow> reads_keep I m" and i: "I (outside p)" and mods: "mods_ok P p"
  shows "I (outside p') \<and> mods_ok P p'"
proof -
  define e0 where "e0 = (case map_of (entries p) (resolve pth) of Some e \<Rightarrow> e | None \<Rightarrow> fresh_entry (resolve pth))"
  obtain e1 t1 where le: "load_entry newModuleFn (resolve pth) e0 (outside p) = (e1, t1)" by fastforce
  have "P m" if "entry_mod e0 = Some m" for m
    using that mods mods_ok_lookup by (fastforce simp: e0_def fresh_entry_def split: option.splits)
  then have e1: "I t1" "\<And>m. entry_mod e1 = Some m \<Longrightarrow> P m" using load_entry_keeps[OF le l reads i] by blast+
  show ?thesis
    using a le e1 mods by (auto simp: acquireModule_def Let_def e0_def[symmetric] intro!: mods_ok_set_entry split: option.splits)
qed

lemma keeps_resolveSlotID: "reads_keep I m \<Longrightarrow> keeps I (resolveSlotID m cfg)"
  unfolding resolveSlotID_def[abs_def] by (intro keeps_intros)

lemma keeps_poolSize: "reads_keep I m \<Longrightarrow> keeps I (poolSize m cfg i)"
  unfolding poolSize_def[abs_def] by (intro keeps_intros)

lemma slotFor_keeps:
  assumes "slotFor m cfg e t = (r, e', t')" "reads_keep I m" "I t"
  shows "I t' \<and> entry_mod e' = entry_mod e"
proof -
  obtain r1 t1 where s: "resolveSlotID m cfg t = (r1, t1)" by fastforce
  have t1: "I t1" using keepsD[OF keeps_resolveSlotID[OF assms(2)] assms(3) s] .
  have "I t2" if "m_Mechanisms m i t1 = (r2, t2)" for i r2 t2 using keepsD[OF reads_keepD(3)[OF assms(2)] t1 that] .
  moreover have "I t3" if "m_Mechanisms m i t1 = (r2, t2)" "poolSize m cfg i t2 = (z, t3)" for i r2 t2 z t3
    using keepsD[OF keeps_poolSize[OF assms(2)] calculation[OF that(1)] that(2)] .
  ultimately show ?thesis
    using assms(1) s t1 by (auto simp: slotFor_def split: sum.splits option.splits prod.splits)
qed

lemma acquire_keeps: "acquire ctx m p t = Some (r, p', t') \<Longrightarrow> reads_keep I m \<Longrightarrow> I t \<Longrightarrow> I t'"
  by (auto simp: acquire_def split: option.splits if_splits prod.splits sum.splits dest: keepsD[OF reads_keepD(4)])

lemma login_keeps:
  assumes l: "login m session f s t = (r, s', t')" and m: "reads_keep I m" and f: "keeps I f" and t: "I t"
  shows "I t'"
proof (cases "loggedIn s")
  case True
  then show ?thesis using l t by (simp add: login_def)
next
  case False
  obtain q t1 where q: "f t = (q, t1)" by fastforce
  have t1: "I t1" by (rule keepsD[OF f t q])
  show ?thesis
  proof (cases q)
    case (Inl e)
    then show ?thesis using l False q t1 by (simp add: login_def)
  next
    case (Inr pn)
    obtain e t2 where e: "m_Login m session pn t1 = (e, t2)" by fastforce
    have "I t2" by (rule keepsD[OF reads_keepD(6)[OF m] t1 e])
    then show ?thesis using l False q Inr e by (auto simp: login_def split: option.splits)
  qed
qed

lemma pool_release_keeps: "reads_keep I m \<Longrightarrow> I t \<Longrightarrow> I (snd (pool_release m s e p t))"
  using reads_keepD(5)[of I m s] by (auto simp: pool_release_def keeps_def split: option.splits)

lemma use_slot_keeps:
  assumes u: "use_slot ctx f m op s t = Some (r, s', t')" and m: "reads_keep I m" and f: "keeps I f"
    and op: "\<And>s h. keeps I (op m s h)" and t: "I t"
  shows "I t' \<and> (\<forall>x. r = Inr x \<longrightarrow> (\<exists>s1 h t1 t2. mechanisms s1 = mechanisms s \<and> I t1 \<and> op m s1 h t1 = (Inr x, t2)))"
proof -
  obtain r1 pl t1 where a: "acquire ctx m (pool s) t = Some (r1, pl, t1)"
    using u by (auto simp: use_slot_def split: option.splits)
  have t1: "I t1" by (rule acquire_keeps[OF a m t])
  show ?thesis
  proof (cases r1)
    case (Inl e)
    then show ?thesis using u a t1 by (auto simp: use_slot_def)
  next
    case (Inr h)
    obtain r2 s2 t2 where l: "login m h f (s\<lparr>pool := pl\<rparr>) t1 = (r2, s2, t2)" by (metis prod_cases3)
    have t2: "I t2" by (rule login_keeps[OF l m f t1])
    have s2: "mechanisms s2 = mechanisms s" using login_pool[OF l] by simp
    obtain r3 t3 where o: "op m s2 h t2 = (r3, t3)" by fastforce
    have t3: "I t3" by (rule keepsD[OF op t2 o])
    have rel: "I (snd (pool_release m h e q t3))" "I (snd (pool_release m h e q t2))" for e q
      using pool_release_keeps[OF m] t2 t3 by blast+
    show ?thesis
      using u a Inr l o rel s2 t2
      by (cases r2) (auto simp: use_slot_def runLoggedIn_def split: prod.splits, (metis snd_conv)+)
  qed
qed

theorem withSession_rule:
  assumes w: "withSession resolve newModuleFn ctx cfg op p = Some (r, p')"
    and l: "loader_ok I P newModuleFn" and reads: "\<And>m. P m \<Longrightarrow> reads_keep I m" and pn: "pin_ok I cfg"
    and op: "\<And>m s h. P m \<Longrightarrow> keeps I (op m s h)"
    and i: "I (outside p)" and mods: "mods_ok P p"
  shows "I (outside p') \<and> mods_ok P p' \<and> (\<forall>x. r = Inr x \<longrightarrow> (\<exists>m s h t t'. P m \<and> I t \<and> op m s h t = (Inr x, t')))"
proof (cases "ctx_Err ctx = None \<and> validate cfg = None")
  case False
  then show ?thesis using w i mods by (auto simp: withSession_def split: option.splits)
next
  case True
  then obtain f where f: "pin cfg = Some f" by (cases "pin cfg") (auto simp: validate_def split: if_splits)
  obtain r1 p1 where a: "acquireModule resolve newModuleFn (modulePath cfg) p = (r1, p1)" by fastforce
  have p1: "I (outside p1)" "mods_ok P p1" using acquireModule_keeps[OF a l reads i mods] by auto
  show ?thesis
  proof (cases r1)
    case (Inl e)
    then show ?thesis using w True a p1 by (auto simp: withSession_def)
  next
    case (Inr key)
    then obtain e m where e: "map_of (entries p1) key = Some e" "entry_mod e = Some m"
      using w True a by (auto simp: withSession_def split: option.splits)
    have m: "P m" by (rule mods_ok_lookup[OF p1(2) e])
    obtain r2 e1 t1 where sf: "slotFor m cfg e (outside p1) = (r2, e1, t1)" by (metis prod_cases3)
    have e1: "I t1" "entry_mod e1 = Some m" using slotFor_keeps[OF sf reads[OF m] p1(1)] e by auto
    show ?thesis
    proof (cases r2)
      case (Inl er)
      then show ?thesis
        using w True a \<open>r1 = Inr key\<close> e sf e1 m p1 by (auto simp: withSession_def intro!: mods_ok_set_entry)
    next
      case (Inr j)
      then obtain s s' t' where s: "use_slot ctx f m op s t1 = Some (r, s', t')" "p' = store_slot key e1 j s' t' p1"
        using w True a \<open>r1 = Inr key\<close> e sf f by (auto simp: withSession_def split: option.splits)
      have "keeps I f" using pn f by (simp add: pin_ok_def)
      from use_slot_keeps[OF s(1) reads[OF m] this op[OF m] e1(1)] m
      have "I t'" "\<forall>x. r = Inr x \<longrightarrow> (\<exists>m s h t t'. P m \<and> I t \<and> op m s h t = (Inr x, t'))" by blast+
      moreover have "mods_ok P p'" unfolding s(2) store_slot_def using e1 m p1 by (intro mods_ok_set_entry) auto
      ultimately show ?thesis using s(2) by (simp add: store_slot_def)
    qed
  qed
qed

end
