(* ===== verification/Encrypt_Utilities.thy ===== *)
theory Encrypt_Utilities
  imports Json Pkcs11_Session
begin

text \<open>
  The shared part of the encryption backends: the request records of \<^verbatim>\<open>encrypt/models\<close>, the enumerations of
  \<^verbatim>\<open>encrypt/common\<close> and the key parsing, key derivation and payload encoding of \<^verbatim>\<open>encrypt/utilities\<close>.

  The cryptographic primitives of Go's standard library (and BLAKE3) are a record \<open>'t crypto\<close> of functions; what draws
  randomness or reads a file works on the state \<open>'t\<close> of the outside world. \<open>nonce_law\<close>, \<open>gcm_law\<close> and the laws below
  are the documented behaviour the properties assume of them.
\<close>

subsection \<open>Keys and primitives\<close>

datatype curve = P256 | P384 | P521 | X25519

record ecdh_PublicKey =
  pub_Curve :: curve
  pub_Bytes :: string

record ecdh_PrivateKey =
  priv_Curve :: curve
  priv_Bytes :: string

record rsa_PublicKey =
  rsa_N :: nat
  rsa_E :: int

record rsa_PrivateKey =
  rsa_Public :: rsa_PublicKey
  rsa_D :: nat
  rsa_Primes :: "nat list"

record ecdsa_PublicKey =
  ecdsa_Curve :: string
  ecdsa_X :: nat
  ecdsa_Y :: nat

text \<open>The dynamic types of the \<open>any\<close> values of \<^verbatim>\<open>crypto/x509\<close>.\<close>

datatype any_public = PubRSA rsa_PublicKey | PubECDH ecdh_PublicKey | PubECDSA ecdsa_PublicKey | PubEd25519 string | PubOther
datatype any_private = PrivRSA rsa_PrivateKey | PrivECDH ecdh_PrivateKey | PrivECDSA ecdsa_PublicKey nat | PrivEd25519 string | PrivOther

record 't crypto =
  rand_Read :: "nat \<Rightarrow> 't \<Rightarrow> (err + string) \<times> 't"
  gcm_Seal :: "string \<Rightarrow> string \<Rightarrow> string \<Rightarrow> string \<Rightarrow> string"
  gcm_Open :: "string \<Rightarrow> string \<Rightarrow> string \<Rightarrow> string \<Rightarrow> err + string"
  sha256_Sum256 :: "string \<Rightarrow> string"
  hmac_SHA256 :: "string \<Rightarrow> string \<Rightarrow> string"
  blake3_Sum256 :: "string \<Rightarrow> string"
  hkdf_Key :: "string \<Rightarrow> string \<Rightarrow> nat \<Rightarrow> err + string"
  ParsePKIXPublicKey :: "string \<Rightarrow> err + any_public"
  ParsePKCS8PrivateKey :: "string \<Rightarrow> err + any_private"
  MarshalPKIXPublicKey :: "any_public \<Rightarrow> err + string"
  MarshalPKCS8PrivateKey :: "any_private \<Rightarrow> err + string"
  MarshalPKCS1PublicKey :: "rsa_PublicKey \<Rightarrow> string"
  MarshalPKCS1PrivateKey :: "rsa_PrivateKey \<Rightarrow> string"
  ParseCertificate :: "string \<Rightarrow> err + any_public"
  rsa_GenerateKey :: "nat \<Rightarrow> 't \<Rightarrow> (err + rsa_PrivateKey) \<times> 't"
  rsa_EncryptOAEP :: "rsa_PublicKey \<Rightarrow> string \<Rightarrow> 't \<Rightarrow> (err + string) \<times> 't"
  rsa_DecryptOAEP :: "rsa_PrivateKey \<Rightarrow> string \<Rightarrow> err + string"
  rsa_SignPSS :: "rsa_PrivateKey \<Rightarrow> string \<Rightarrow> 't \<Rightarrow> (err + string) \<times> 't"
  rsa_VerifyPSS :: "rsa_PublicKey \<Rightarrow> string \<Rightarrow> string \<Rightarrow> err option"
  rsa_SignPKCS1v15 :: "rsa_PrivateKey \<Rightarrow> string \<Rightarrow> err + string"
  rsa_VerifyPKCS1v15 :: "rsa_PublicKey \<Rightarrow> string \<Rightarrow> string \<Rightarrow> err option"
  ed25519_GenerateKey :: "'t \<Rightarrow> (err + string \<times> string) \<times> 't"
  ed25519_Sign :: "string \<Rightarrow> string \<Rightarrow> string"
  ed25519_Verify :: "string \<Rightarrow> string \<Rightarrow> string \<Rightarrow> bool"
  ecdh_GenerateKey :: "curve \<Rightarrow> 't \<Rightarrow> (err + ecdh_PrivateKey) \<times> 't"
  ecdh_NewPublicKey :: "curve \<Rightarrow> string \<Rightarrow> err + ecdh_PublicKey"
  ecdh_Public :: "ecdh_PrivateKey \<Rightarrow> ecdh_PublicKey"
  ecdh_ECDH :: "ecdh_PrivateKey \<Rightarrow> ecdh_PublicKey \<Rightarrow> err + string"
  ecdsa_Public_ECDH :: "ecdsa_PublicKey \<Rightarrow> err + ecdh_PublicKey"
  ecdsa_Private_ECDH :: "ecdsa_PublicKey \<Rightarrow> nat \<Rightarrow> err + ecdh_PrivateKey"
  os_ReadFile :: "string \<Rightarrow> 't \<Rightarrow> (err + string) \<times> 't"
  pem_Decode :: "string \<Rightarrow> string option"

text \<open>\<open>aes.NewCipher\<close> accepts the three key lengths of AES; \<open>cipher.NewGCM\<close> accepts every AES block.\<close>

definition aes_NewCipher :: "string \<Rightarrow> err option" where
  "aes_NewCipher key = (if length key \<in> {16, 24, 32} then None
     else Some (Errorf ''crypto/aes: invalid key size %d'' [decimal (length key)]))"

definition gcm_NonceSize :: nat where "gcm_NonceSize = 12"

text \<open>What the documentation of \<^verbatim>\<open>crypto/rand\<close> and \<^verbatim>\<open>crypto/cipher\<close> promises.\<close>

definition rand_law :: "('t, 'm) crypto_scheme \<Rightarrow> bool" where
  "rand_law C \<longleftrightarrow> (\<forall>n t r t'. rand_Read C n t = (Inr r, t') \<longrightarrow> length r = n)"

definition gcm_law :: "('t, 'm) crypto_scheme \<Rightarrow> bool" where
  "gcm_law C \<longleftrightarrow> (\<forall>key nonce plain aad. length key \<in> {16, 24, 32} \<longrightarrow> length nonce = gcm_NonceSize
     \<longrightarrow> gcm_Open C key nonce (gcm_Seal C key nonce plain aad) aad = Inr plain)"

subsection \<open>Enumerations, \<^verbatim>\<open>common/enums.go\<close>\<close>

type_synonym SizeSymetrycKey = "64 word"
type_synonym SizeAsymetrycKey = "64 word"
type_synonym CurveAsymmetricKey = "64 word"

definition Key128Bits :: SizeSymetrycKey where "Key128Bits = 16"
definition Key256Bits :: SizeSymetrycKey where "Key256Bits = 32"
definition Key2048Bits :: SizeAsymetrycKey where "Key2048Bits = 2048"
definition Key3072Bits :: SizeAsymetrycKey where "Key3072Bits = 3072"
definition Key4096Bits :: SizeAsymetrycKey where "Key4096Bits = 4096"
definition CurveP256 :: CurveAsymmetricKey where "CurveP256 = 256"
definition CurveP384 :: CurveAsymmetricKey where "CurveP384 = 384"
definition CurveP521 :: CurveAsymmetricKey where "CurveP521 = 521"

lemmas common_defs = Key128Bits_def Key256Bits_def Key2048Bits_def Key3072Bits_def Key4096Bits_def
  CurveP256_def CurveP384_def CurveP521_def

definition curve_String :: "CurveAsymmetricKey \<Rightarrow> string" where
  "curve_String c = (if c = CurveP256 then ''P-256'' else if c = CurveP384 then ''P-384''
     else if c = CurveP521 then ''P-521'' else ''unknown'')"

subsection \<open>Requests, \<^verbatim>\<open>models/models.go\<close>\<close>

record RotateKeyRequest = rot_UID :: string  rot_KeyID :: string
record GetKeyRequest = get_UID :: string  get_KeyID :: string
record DeactivateKeyRequest = deact_UID :: string  deact_KeyID :: string
record GenerateSymmetricKeyRequest = gsk_UID :: string  gsk_Size :: SizeSymetrycKey
record EncryptAESRequest = enc_UID :: string  enc_SecretKey :: string  enc_Value :: string  enc_Additional :: "string option"
record DecryptAESRequest = dec_UID :: string  dec_SecretKey :: string  dec_CipherValue :: string  dec_Additional :: "string option"
record GenerateRSAKeyRequest = grk_UID :: string  grk_Size :: SizeAsymetrycKey
record GenerateECDHCurveKeyRequest = gek_UID :: string  gek_Curve :: CurveAsymmetricKey
record RSAOAEPEncodeRequest = oaepe_UID :: string  oaepe_PublicKey :: string  oaepe_Text :: string
record RSAOAEPDecodeRequest = oaepd_UID :: string  oaepd_PrivateKey :: string  oaepd_CipherText :: string
record ECDHEncodeRequest = ecdhe_UID :: string  ecdhe_PublicKey :: string  ecdhe_Text :: string
record ECDHDecodeRequest = ecdhd_UID :: string  ecdhd_PrivateKey :: string  ecdhd_CipherText :: string

subsection \<open>Parsing keys, \<^verbatim>\<open>utilities/utilities.go\<close>\<close>

definition sum_bind :: "'e + 'a \<Rightarrow> ('a \<Rightarrow> 'e + 'b) \<Rightarrow> 'e + 'b" where
  "sum_bind r k = (case r of Inl e \<Rightarrow> Inl e | Inr x \<Rightarrow> k x)"

definition wrap_error :: "string \<Rightarrow> err + 'a \<Rightarrow> err + 'a" where
  "wrap_error fmt r = (case r of Inl e \<Rightarrow> Inl (WrapErr fmt [e]) | Inr x \<Rightarrow> Inr x)"

text \<open>\<open>base64.StdEncoding.DecodeString\<close> with its error as a value.\<close>

definition decode_std :: "string \<Rightarrow> err + string" where
  "decode_std s = (case std_DecodeString s of Some b \<Rightarrow> Inr b | None \<Rightarrow> Inl (Message ''illegal base64 data''))"

lemma sum_bind_simps [simp]: "sum_bind (Inl e) k = Inl e" "sum_bind (Inr x) k = k x"
  by (simp_all add: sum_bind_def)

lemma wrap_error_simps [simp]: "wrap_error f (Inl e) = Inl (WrapErr f [e])" "wrap_error f (Inr x) = Inr x"
  by (simp_all add: wrap_error_def)

lemma sum_bind_Inr_iff: "sum_bind r k = Inr y \<longleftrightarrow> (\<exists>x. r = Inr x \<and> k x = Inr y)"
  by (cases r) auto

lemma wrap_error_Inr_iff [simp]: "wrap_error f r = Inr y \<longleftrightarrow> r = Inr y"
  by (cases r) auto

lemma decode_std_encode [simp]: "decode_std (std_EncodeToString s) = Inr s"
  by (simp add: decode_std_def std64.decode_encode)

definition rsa_public_of :: "any_public \<Rightarrow> err + rsa_PublicKey" where
  "rsa_public_of k = (case k of PubRSA p \<Rightarrow> Inr p | _ \<Rightarrow> Inl (Message ''public key is not an RSA key''))"

definition rsa_private_of :: "any_private \<Rightarrow> err + rsa_PrivateKey" where
  "rsa_private_of k = (case k of PrivRSA p \<Rightarrow> Inr p | _ \<Rightarrow> Inl (Message ''private key is not an RSA key''))"

definition ed25519_public_of :: "any_public \<Rightarrow> err + string" where
  "ed25519_public_of k = (case k of PubEd25519 p \<Rightarrow> Inr p | _ \<Rightarrow> Inl (Message ''public key is not an Ed25519 key''))"

definition ed25519_private_of :: "any_private \<Rightarrow> err + string" where
  "ed25519_private_of k = (case k of PrivEd25519 p \<Rightarrow> Inr p | _ \<Rightarrow> Inl (Message ''private key is not an Ed25519 key''))"

definition parse_public :: "('t, 'm) crypto_scheme \<Rightarrow> string \<Rightarrow> err + any_public" where
  "parse_public C der = wrap_error ''parse public key: %w'' (ParsePKIXPublicKey C der)"

definition parse_private :: "('t, 'm) crypto_scheme \<Rightarrow> string \<Rightarrow> err + any_private" where
  "parse_private C der = wrap_error ''parse private key: %w'' (ParsePKCS8PrivateKey C der)"

definition decode_public :: "string \<Rightarrow> err + string" where
  "decode_public b64 = wrap_error ''decode public key from Base64: %w'' (decode_std b64)"

definition decode_private :: "string \<Rightarrow> err + string" where
  "decode_private b64 = wrap_error ''decode private key from Base64: %w'' (decode_std b64)"

definition readPEMFile :: "('t, 'm) crypto_scheme \<Rightarrow> string \<Rightarrow> 't \<Rightarrow> (err + string) \<times> 't" where
  "readPEMFile C pth t = (case os_ReadFile C pth t of
      (Inl e, t1) \<Rightarrow> (Inl (WrapErr ''read PEM file: %w'' [e]), t1)
    | (Inr content, t1) \<Rightarrow> (case pem_Decode C content of
          None \<Rightarrow> (Inl (Message ''decode PEM block: no PEM data found''), t1)
        | Some block \<Rightarrow> (Inr block, t1)))"

definition from_file :: "('t, 'm) crypto_scheme \<Rightarrow> (string \<Rightarrow> err + 'a) \<Rightarrow> string \<Rightarrow> 't \<Rightarrow> (err + 'a) \<times> 't" where
  "from_file C parse pth t = (case readPEMFile C pth t of (r, t1) \<Rightarrow> (sum_bind r parse, t1))"

definition ParseRSAPublicKeyFromBase64 :: "('t, 'm) crypto_scheme \<Rightarrow> string \<Rightarrow> err + rsa_PublicKey" where
  "ParseRSAPublicKeyFromBase64 C b64 = sum_bind (decode_public b64) (\<lambda>der. sum_bind (parse_public C der) rsa_public_of)"

definition ParseRSAPublicKeyFromPEMFile :: "('t, 'm) crypto_scheme \<Rightarrow> string \<Rightarrow> 't \<Rightarrow> (err + rsa_PublicKey) \<times> 't" where
  "ParseRSAPublicKeyFromPEMFile C = from_file C (\<lambda>der. sum_bind (parse_public C der) rsa_public_of)"

definition ParseRSAPrivateKeyFromBase64 :: "('t, 'm) crypto_scheme \<Rightarrow> string \<Rightarrow> err + rsa_PrivateKey" where
  "ParseRSAPrivateKeyFromBase64 C b64 = sum_bind (decode_private b64) (\<lambda>der. sum_bind (parse_private C der) rsa_private_of)"

definition ParseRSAPrivateKeyFromPEMFile :: "('t, 'm) crypto_scheme \<Rightarrow> string \<Rightarrow> 't \<Rightarrow> (err + rsa_PrivateKey) \<times> 't" where
  "ParseRSAPrivateKeyFromPEMFile C = from_file C (\<lambda>der. sum_bind (parse_private C der) rsa_private_of)"

definition ParseEd25519PublicKeyFromBase64 :: "('t, 'm) crypto_scheme \<Rightarrow> string \<Rightarrow> err + string" where
  "ParseEd25519PublicKeyFromBase64 C b64 = sum_bind (decode_public b64) (\<lambda>der. sum_bind (parse_public C der) ed25519_public_of)"

definition ParseEd25519PublicKeyFromPEMFile :: "('t, 'm) crypto_scheme \<Rightarrow> string \<Rightarrow> 't \<Rightarrow> (err + string) \<times> 't" where
  "ParseEd25519PublicKeyFromPEMFile C = from_file C (\<lambda>der. sum_bind (parse_public C der) ed25519_public_of)"

definition ParseEd25519PrivateKeyFromBase64 :: "('t, 'm) crypto_scheme \<Rightarrow> string \<Rightarrow> err + string" where
  "ParseEd25519PrivateKeyFromBase64 C b64 = sum_bind (decode_private b64) (\<lambda>der. sum_bind (parse_private C der) ed25519_private_of)"

definition ParseEd25519PrivateKeyFromPEMFile :: "('t, 'm) crypto_scheme \<Rightarrow> string \<Rightarrow> 't \<Rightarrow> (err + string) \<times> 't" where
  "ParseEd25519PrivateKeyFromPEMFile C = from_file C (\<lambda>der. sum_bind (parse_private C der) ed25519_private_of)"

definition parseECDHPublicKey :: "('t, 'm) crypto_scheme \<Rightarrow> string \<Rightarrow> err + ecdh_PublicKey" where
  "parseECDHPublicKey C der = sum_bind (parse_public C der) (\<lambda>k. case k of
      PubECDH p \<Rightarrow> Inr p
    | PubECDSA p \<Rightarrow> wrap_error ''convert public key to ECDH: %w'' (ecdsa_Public_ECDH C p)
    | _ \<Rightarrow> Inl (Message ''public key is not an ECC key''))"

definition parseECDHPrivateKey :: "('t, 'm) crypto_scheme \<Rightarrow> string \<Rightarrow> err + ecdh_PrivateKey" where
  "parseECDHPrivateKey C der = sum_bind (parse_private C der) (\<lambda>k. case k of
      PrivECDH p \<Rightarrow> Inr p
    | PrivECDSA p d \<Rightarrow> wrap_error ''convert private key to ECDH: %w'' (ecdsa_Private_ECDH C p d)
    | _ \<Rightarrow> Inl (Message ''private key is not an ECC key''))"

definition ParseECDHPublicKeyFromBase64 :: "('t, 'm) crypto_scheme \<Rightarrow> string \<Rightarrow> err + ecdh_PublicKey" where
  "ParseECDHPublicKeyFromBase64 C b64 = sum_bind (decode_public b64) (parseECDHPublicKey C)"

definition ParseECDHPublicKeyFromPEMFile :: "('t, 'm) crypto_scheme \<Rightarrow> string \<Rightarrow> 't \<Rightarrow> (err + ecdh_PublicKey) \<times> 't" where
  "ParseECDHPublicKeyFromPEMFile C = from_file C (parseECDHPublicKey C)"

definition ParseECDHPrivateKeyFromBase64 :: "('t, 'm) crypto_scheme \<Rightarrow> string \<Rightarrow> err + ecdh_PrivateKey" where
  "ParseECDHPrivateKeyFromBase64 C b64 = sum_bind (decode_private b64) (parseECDHPrivateKey C)"

definition ParseECDHPrivateKeyFromPEMFile :: "('t, 'm) crypto_scheme \<Rightarrow> string \<Rightarrow> 't \<Rightarrow> (err + ecdh_PrivateKey) \<times> 't" where
  "ParseECDHPrivateKeyFromPEMFile C = from_file C (parseECDHPrivateKey C)"

definition IsLocalAESKey :: "string \<Rightarrow> bool" where
  "IsLocalAESKey key = (case std_DecodeString key of None \<Rightarrow> False | Some decoded \<Rightarrow> aes_NewCipher decoded = None)"

definition BytesFromOptionalString :: "string option \<Rightarrow> string" where
  "BytesFromOptionalString v = (case v of None \<Rightarrow> [] | Some s \<Rightarrow> s)"

definition ResolveECDHCurve :: "CurveAsymmetricKey \<Rightarrow> err + curve" where
  "ResolveECDHCurve c = (if c = CurveP256 then Inr P256 else if c = CurveP384 then Inr P384
     else if c = CurveP521 then Inr P521 else Inl (Errorf ''unsupported ECC curve: %q'' [curve_String c]))"

definition CurveNameFromECDH :: "curve \<Rightarrow> err + string" where
  "CurveNameFromECDH c = (case c of P256 \<Rightarrow> Inr (curve_String CurveP256) | P384 \<Rightarrow> Inr (curve_String CurveP384)
     | P521 \<Rightarrow> Inr (curve_String CurveP521) | _ \<Rightarrow> Inl (Message ''unsupported ECC curve''))"

definition DeriveECCAESKey :: "('t, 'm) crypto_scheme \<Rightarrow> string \<Rightarrow> string \<Rightarrow> err + string" where
  "DeriveECCAESKey C sharedSecret curveName =
     wrap_error ''derive AES key from shared secret: %w'' (hkdf_Key C sharedSecret (eccHKDFInfoPrefix @ curveName) 32)"

subsection \<open>The ECC payload\<close>

record ECCCipherPayload =
  pl_Curve :: string
  pl_EphemeralPublicKey :: string
  pl_Ciphertext :: string

definition payload_fields :: "ECCCipherPayload field list" where
  "payload_fields = [string_field ''curve'' (\<lambda>s. pl_Curve_update (\<lambda>_. s)),
     string_field ''ephemeralPublicKey'' (\<lambda>s. pl_EphemeralPublicKey_update (\<lambda>_. s)),
     string_field ''ciphertext'' (\<lambda>s. pl_Ciphertext_update (\<lambda>_. s))]"

definition EncodeECCCipherPayload :: "ECCCipherPayload \<Rightarrow> string" where
  "EncodeECCCipherPayload p = std_EncodeToString (json_object
     [(''curve'', json_quote (pl_Curve p)), (''ephemeralPublicKey'', json_quote (pl_EphemeralPublicKey p)),
      (''ciphertext'', json_quote (pl_Ciphertext p))])"

definition json_err :: "json_error \<Rightarrow> err" where
  "json_err e = Message (case e of JSyntax \<Rightarrow> ''invalid JSON'' | JType \<Rightarrow> ''json: cannot unmarshal'' | JUnknownField \<Rightarrow> ''json: unknown field'')"

definition DecodeECCCipherPayload :: "string \<Rightarrow> err + ECCCipherPayload" where
  "DecodeECCCipherPayload cipherText =
     sum_bind (wrap_error ''decode ECC payload: %w'' (decode_std cipherText)) (\<lambda>payloadBytes.
     sum_bind (wrap_error ''decode ECC payload json: %w'' (map_sum json_err (\<lambda>x. x)
        (json_Unmarshal payload_fields payloadBytes \<lparr>pl_Curve = [], pl_EphemeralPublicKey = [], pl_Ciphertext = []\<rparr>))) (\<lambda>p.
     if pl_Curve p = [] \<or> pl_EphemeralPublicKey p = [] \<or> pl_Ciphertext p = [] then Inl (Message ''invalid ECC payload'')
     else Inr p))"

lemma std_alphabet_ascii: "c \<in> set std_alphabet \<Longrightarrow> byte c < 0x80"
  by (simp add: std_alphabet_def) (auto simp: byte_bounds)

lemma std_nth_ascii: "i < 64 \<Longrightarrow> byte (std_alphabet ! i) < 0x80"
  using alphabets(1) by (intro std_alphabet_ascii nth_mem) (simp add: b64_alphabet_def)

lemma b64_encode_ascii: "c \<in> set (b64_encode std_alphabet padded s) \<Longrightarrow> byte c < 0x80"
  by (induction std_alphabet padded s rule: b64_encode.induct) (auto simp: std_nth_ascii byte_bounds split: if_splits)

lemma std_valid [simp]: "utf8_Valid (std_EncodeToString s)"
  by (rule utf8_Valid_ascii) (auto simp: ascii_only_def list_all_iff std_EncodeToString_def dest: b64_encode_ascii)

lemma std_Nil_iff [simp]: "std_EncodeToString s = [] \<longleftrightarrow> s = []"
  by (cases "(std_alphabet, True, s)" rule: b64_encode.cases) (auto simp: std_EncodeToString_def)

lemma payload_parse:
  assumes "utf8_Valid (pl_Curve p)" "utf8_Valid (pl_EphemeralPublicKey p)" "utf8_Valid (pl_Ciphertext p)"
    "pl_Curve p \<noteq> []" "pl_EphemeralPublicKey p \<noteq> []" "pl_Ciphertext p \<noteq> []"
  shows "DecodeECCCipherPayload (EncodeECCCipherPayload p) = Inr p"
proof -
  have "utf8_Valid ''curve''" "utf8_Valid ''ephemeralPublicKey''" "utf8_Valid ''ciphertext''"
    by (rule utf8_Valid_ascii, simp add: ascii_only_def)+
  then have "json_parse (string_object [(''curve'', pl_Curve p), (''ephemeralPublicKey'', pl_EphemeralPublicKey p), (''ciphertext'', pl_Ciphertext p)])
      = Some (JObject (string_members [(''curve'', pl_Curve p), (''ephemeralPublicKey'', pl_EphemeralPublicKey p), (''ciphertext'', pl_Ciphertext p)]))"
    using assms(1-3) by (intro string_object_parse) simp
  then show ?thesis
    using assms(4-6)
    by (simp add: DecodeECCCipherPayload_def EncodeECCCipherPayload_def json_Unmarshal_def decode_struct_def
        payload_fields_def string_field_def lookup_field_def string_object_def string_members_def)
qed

end
