(* ===== verification/Encrypt_Local.thy ===== *)
theory Encrypt_Local
  imports Encrypt_Utilities
begin

text \<open>
  The local backend, \<^verbatim>\<open>encrypt/local/repository.go\<close>: every operation with its guards, under \<open>runWithContext\<close>. The
  tracing spans around the operations are left out; they do not change results.
\<close>

subsection \<open>Running under a context\<close>

text \<open>A context is \<open>None\<close> for Go's nil.\<close>

definition contextErr :: "go_ctx option \<Rightarrow> err option" where
  "contextErr ctx = (case ctx of None \<Rightarrow> Some (Message ''context is nil'') | Some c \<Rightarrow> ctx_Err c)"

text \<open>
  The function runs in a goroutine of its own, so what it does to the outside world happens even if the caller
  has left by the \<open>Done\<close> case.
\<close>

definition runWithContext :: "go_ctx option \<Rightarrow> ('t \<Rightarrow> (err + 'a) \<times> 't) \<Rightarrow> 't \<Rightarrow> (err + 'a) \<times> 't" where
  "runWithContext ctx fn t = (case contextErr ctx of Some e \<Rightarrow> (Inl e, t)
     | None \<Rightarrow> (case ctx_Done (the ctx) of
          Some e \<Rightarrow> if picks_Done (the ctx) then (Inl e, snd (fn t)) else fn t
        | None \<Rightarrow> fn t))"

definition live :: "go_ctx option \<Rightarrow> bool" where
  "live ctx \<longleftrightarrow> (\<exists>c. ctx = Some c \<and> ctx_Err c = None \<and> (ctx_Done c = None \<or> \<not> picks_Done c))"

lemma runWithContext_live [simp]: "live ctx \<Longrightarrow> runWithContext ctx fn t = fn t"
  by (auto simp: live_def runWithContext_def contextErr_def split: option.splits)

lemma runWithContext_Inr: "runWithContext ctx fn t = (Inr x, t') \<longleftrightarrow> live ctx \<and> fn t = (Inr x, t')"
  by (auto simp: live_def runWithContext_def contextErr_def split: option.splits if_splits)

text \<open>A pure computation that may fail, as the body of an operation.\<close>

definition pure :: "err + 'a \<Rightarrow> 't \<Rightarrow> (err + 'a) \<times> 't" where
  "pure r t = (r, t)"

definition local_KeyData :: "string \<Rightarrow> string \<Rightarrow> KeyData" where
  "local_KeyData key public =
     \<lparr>kd_PublicKey = public, kd_KeyID = key, kd_KeyRef = key, kd_Provider = ''local''\<rparr>"

subsection \<open>Keys the local backend does not manage\<close>

definition local_RotateKey :: "go_ctx option \<Rightarrow> RotateKeyRequest \<Rightarrow> 't \<Rightarrow> (err + KeyData) \<times> 't" where
  "local_RotateKey ctx input = runWithContext ctx (pure (Inl (Message ''local: key rotation is not supported'')))"

definition local_GetKey :: "go_ctx option \<Rightarrow> GetKeyRequest \<Rightarrow> 't \<Rightarrow> (err + KeyData) \<times> 't" where
  "local_GetKey ctx input = runWithContext ctx (pure (Inl (Message ''local: key metadata lookup is not supported'')))"

definition local_DeactivateKey :: "go_ctx option \<Rightarrow> DeactivateKeyRequest \<Rightarrow> err option" where
  "local_DeactivateKey ctx input = (case contextErr ctx of Some e \<Rightarrow> Some e
     | None \<Rightarrow> Some (Message ''local: key deactivation is not supported''))"

subsection \<open>Symmetric encryption\<close>

definition validateSymmetricKeySize :: "SizeSymetrycKey \<Rightarrow> err option" where
  "validateSymmetricKeySize sz = (if sz = Key128Bits \<or> sz = Key256Bits then None
     else Some (Errorf ''unsupported symmetric key size: %d'' [decimal (unat sz)]))"

definition local_GenerateSymetrycKeys ::
    "('t, 'm) crypto_scheme \<Rightarrow> go_ctx option \<Rightarrow> GenerateSymmetricKeyRequest \<Rightarrow> 't \<Rightarrow> (err + KeyData) \<times> 't" where
  "local_GenerateSymetrycKeys C ctx input = runWithContext ctx (\<lambda>t.
     check (validateSymmetricKeySize (gsk_Size input), t) (\<lambda>t.
     attempt (rand_Read C (unat (gsk_Size input)) t) (\<lambda>b t.
       (Inr (local_KeyData (std_EncodeToString b) []), t))))"

definition encryptAES :: "('t, 'm) crypto_scheme \<Rightarrow> string \<Rightarrow> string \<Rightarrow> string option \<Rightarrow> 't \<Rightarrow> (err + string) \<times> 't" where
  "encryptAES C secretKey plain additional t =
     attempt (wrap_error ''decode AES key: %w'' (decode_std secretKey), t) (\<lambda>key t.
     check (map_option (\<lambda>e. WrapErr ''create AES cipher: %w'' [e]) (aes_NewCipher key), t) (\<lambda>t.
     case rand_Read C gcm_NonceSize t of
       (Inl e, t) \<Rightarrow> (Inl (WrapErr ''generate nonce: %w'' [e]), t)
     | (Inr nonce, t) \<Rightarrow>
         (Inr (std_EncodeToString (nonce @ gcm_Seal C key nonce plain (BytesFromOptionalString additional))), t)))"

definition local_EncryptAES :: "('t, 'm) crypto_scheme \<Rightarrow> go_ctx option \<Rightarrow> EncryptAESRequest \<Rightarrow> 't \<Rightarrow> (err + string) \<times> 't" where
  "local_EncryptAES C ctx input = runWithContext ctx (encryptAES C (enc_SecretKey input) (enc_Value input) (enc_Additional input))"

definition decryptAES :: "('t, 'm) crypto_scheme \<Rightarrow> string \<Rightarrow> string \<Rightarrow> string option \<Rightarrow> err + string" where
  "decryptAES C secretKey cipherValue additional =
     sum_bind (wrap_error ''decode AES key: %w'' (decode_std secretKey)) (\<lambda>key.
     case aes_NewCipher key of Some e \<Rightarrow> Inl (WrapErr ''create AES cipher: %w'' [e])
     | None \<Rightarrow>
         sum_bind (wrap_error ''decode Base64 ciphertext: %w'' (decode_std cipherValue)) (\<lambda>allBytes.
         if length allBytes < gcm_NonceSize then Inl (Message ''ciphertext is too short'')
         else wrap_error ''decrypt AES-GCM: %w''
           (gcm_Open C key (take gcm_NonceSize allBytes) (drop gcm_NonceSize allBytes) (BytesFromOptionalString additional))))"

definition local_DecryptAES :: "('t, 'm) crypto_scheme \<Rightarrow> go_ctx option \<Rightarrow> DecryptAESRequest \<Rightarrow> 't \<Rightarrow> (err + string) \<times> 't" where
  "local_DecryptAES C ctx input = runWithContext ctx (pure (decryptAES C (dec_SecretKey input) (dec_CipherValue input) (dec_Additional input)))"

subsection \<open>Hashes\<close>

text \<open>These return the empty string when the context is done.\<close>

definition or_empty :: "(err + string) \<times> 't \<Rightarrow> string \<times> 't" where
  "or_empty r = (case r of (Inl e, t) \<Rightarrow> ([], t) | (Inr v, t) \<Rightarrow> (v, t))"

definition local_HMAC :: "('t, 'm) crypto_scheme \<Rightarrow> go_ctx option \<Rightarrow> string \<Rightarrow> string \<Rightarrow> 't \<Rightarrow> string \<times> 't" where
  "local_HMAC C ctx secretKey message t =
     or_empty (runWithContext ctx (pure (Inr (std_EncodeToString (hmac_SHA256 C secretKey message)))) t)"

definition local_Sha256Hex :: "('t, 'm) crypto_scheme \<Rightarrow> go_ctx option \<Rightarrow> string \<Rightarrow> 't \<Rightarrow> string \<times> 't" where
  "local_Sha256Hex C ctx message t =
     or_empty (runWithContext ctx (pure (Inr (hex_EncodeToString (sha256_Sum256 C message)))) t)"

definition local_Blake3 :: "('t, 'm) crypto_scheme \<Rightarrow> go_ctx option \<Rightarrow> string \<Rightarrow> 't \<Rightarrow> string \<times> 't" where
  "local_Blake3 C ctx message t =
     or_empty (runWithContext ctx (pure (Inr (std_EncodeToString (blake3_Sum256 C message)))) t)"

subsection \<open>RSA\<close>

definition validateAsymmetricKeySize :: "SizeAsymetrycKey \<Rightarrow> err option" where
  "validateAsymmetricKeySize sz = (if sz = Key2048Bits \<or> sz = Key3072Bits \<or> sz = Key4096Bits then None
     else Some (Errorf ''unsupported asymmetric key size: %d'' [decimal (unat sz)]))"

definition local_GenerateRSAKeys ::
    "('t, 'm) crypto_scheme \<Rightarrow> go_ctx option \<Rightarrow> GenerateRSAKeyRequest \<Rightarrow> 't \<Rightarrow> (err + KeyData) \<times> 't" where
  "local_GenerateRSAKeys C ctx input = runWithContext ctx (\<lambda>t.
     check (validateAsymmetricKeySize (grk_Size input), t) (\<lambda>t.
     attempt (rsa_GenerateKey C (unat (grk_Size input)) t) (\<lambda>privateKey t.
       (Inr (local_KeyData (std_EncodeToString (MarshalPKCS1PrivateKey C privateKey))
              (std_EncodeToString (MarshalPKCS1PublicKey C (rsa_Public privateKey)))), t))))"

definition wrap_state :: "string \<Rightarrow> (err + 'a) \<times> 't \<Rightarrow> (err + 'a) \<times> 't" where
  "wrap_state fmt r = (case r of (x, t) \<Rightarrow> (wrap_error fmt x, t))"

definition local_RSA_OAEP_Encode ::
    "('t, 'm) crypto_scheme \<Rightarrow> go_ctx option \<Rightarrow> RSAOAEPEncodeRequest \<Rightarrow> 't \<Rightarrow> (err + string) \<times> 't" where
  "local_RSA_OAEP_Encode C ctx input = runWithContext ctx (\<lambda>t.
     attempt (wrap_error ''load public key: %w'' (ParseRSAPublicKeyFromBase64 C (oaepe_PublicKey input)), t) (\<lambda>pub t.
     attempt (wrap_state ''encrypt with RSA-OAEP: %w'' (rsa_EncryptOAEP C pub (oaepe_Text input) t)) (\<lambda>cipherBytes t.
       (Inr (std_EncodeToString cipherBytes), t))))"

definition local_RSA_OAEP_Decode ::
    "('t, 'm) crypto_scheme \<Rightarrow> go_ctx option \<Rightarrow> RSAOAEPDecodeRequest \<Rightarrow> 't \<Rightarrow> (err + string) \<times> 't" where
  "local_RSA_OAEP_Decode C ctx input = runWithContext ctx (pure (
     sum_bind (wrap_error ''load private key: %w'' (ParseRSAPrivateKeyFromBase64 C (oaepd_PrivateKey input))) (\<lambda>priv.
     sum_bind (wrap_error ''decode Base64 ciphertext: %w'' (decode_std (oaepd_CipherText input))) (\<lambda>encrypted.
       wrap_error ''decrypt with RSA-OAEP: %w'' (rsa_DecryptOAEP C priv encrypted)))))"

subsection \<open>ECDH\<close>

definition curve_of_enum :: "CurveAsymmetricKey \<Rightarrow> err + curve" where
  "curve_of_enum c = (if c = CurveP256 then Inr P256 else if c = CurveP384 then Inr P384
     else if c = CurveP521 then Inr P521 else Inl (Errorf ''unsupported ECC curve: %q'' [curve_String c]))"

definition local_GenerateECDHCurveKeys ::
    "('t, 'm) crypto_scheme \<Rightarrow> go_ctx option \<Rightarrow> GenerateECDHCurveKeyRequest \<Rightarrow> 't \<Rightarrow> (err + KeyData) \<times> 't" where
  "local_GenerateECDHCurveKeys C ctx input = runWithContext ctx (\<lambda>t.
     attempt (curve_of_enum (gek_Curve input), t) (\<lambda>curveImpl t.
     attempt (ecdh_GenerateKey C curveImpl t) (\<lambda>privateKey t.
     attempt (wrap_error ''marshal ECC private key: %w'' (MarshalPKCS8PrivateKey C (PrivECDH privateKey)), t) (\<lambda>privateDER t.
     attempt (wrap_error ''marshal ECC public key: %w'' (MarshalPKIXPublicKey C (PubECDH (ecdh_Public C privateKey))), t) (\<lambda>publicDER t.
       (Inr (local_KeyData (std_EncodeToString privateDER) (std_EncodeToString publicDER)), t))))))"

definition local_ECDH_Encode ::
    "('t, 'm) crypto_scheme \<Rightarrow> go_ctx option \<Rightarrow> ECDHEncodeRequest \<Rightarrow> 't \<Rightarrow> (err + string) \<times> 't" where
  "local_ECDH_Encode C ctx input = runWithContext ctx (\<lambda>t.
     attempt (wrap_error ''load public key: %w'' (ParseECDHPublicKeyFromBase64 C (ecdhe_PublicKey input)), t) (\<lambda>recipient t.
     attempt (CurveNameFromECDH (pub_Curve recipient), t) (\<lambda>curveName t.
     attempt (wrap_state ''generate ephemeral key: %w'' (ecdh_GenerateKey C (pub_Curve recipient) t)) (\<lambda>ephemeral t.
     attempt (wrap_error ''derive shared secret: %w'' (ecdh_ECDH C ephemeral recipient), t) (\<lambda>sharedSecret t.
     attempt (DeriveECCAESKey C sharedSecret curveName, t) (\<lambda>derivedKey t.
     attempt (wrap_state ''encrypt payload with AES-GCM: %w''
         (encryptAES C (std_EncodeToString derivedKey) (ecdhe_Text input) (Some curveName) t)) (\<lambda>ciphertext t.
     attempt (wrap_error ''marshal ephemeral public key: %w'' (MarshalPKIXPublicKey C (PubECDH (ecdh_Public C ephemeral))), t) (\<lambda>der t.
       (Inr (EncodeECCCipherPayload \<lparr>pl_Curve = curveName, pl_EphemeralPublicKey = std_EncodeToString der,
               pl_Ciphertext = ciphertext\<rparr>), t)))))))))"

definition local_ECDH_Decode ::
    "('t, 'm) crypto_scheme \<Rightarrow> go_ctx option \<Rightarrow> ECDHDecodeRequest \<Rightarrow> 't \<Rightarrow> (err + string) \<times> 't" where
  "local_ECDH_Decode C ctx input = runWithContext ctx (pure (
     sum_bind (wrap_error ''load private key: %w'' (ParseECDHPrivateKeyFromBase64 C (ecdhd_PrivateKey input))) (\<lambda>recipient.
     sum_bind (DecodeECCCipherPayload (ecdhd_CipherText input)) (\<lambda>payload.
     sum_bind (wrap_error ''load ephemeral public key: %w'' (ParseECDHPublicKeyFromBase64 C (pl_EphemeralPublicKey payload))) (\<lambda>ephemeral.
     sum_bind (CurveNameFromECDH (priv_Curve recipient)) (\<lambda>curveName.
     if curveName \<noteq> pl_Curve payload then
       Inl (Errorf ''ecc payload curve mismatch: key uses %s, payload uses %s'' [curveName, pl_Curve payload])
     else
       sum_bind (wrap_error ''derive shared secret: %w'' (ecdh_ECDH C recipient ephemeral)) (\<lambda>sharedSecret.
       sum_bind (DeriveECCAESKey C sharedSecret (pl_Curve payload)) (\<lambda>derivedKey.
         decryptAES C (std_EncodeToString derivedKey) (pl_Ciphertext payload) (Some (pl_Curve payload))))))))))"

subsection \<open>Signatures\<close>

definition local_GenerateEd255Keys :: "('t, 'm) crypto_scheme \<Rightarrow> go_ctx option \<Rightarrow> 't \<Rightarrow> (err + KeyData) \<times> 't" where
  "local_GenerateEd255Keys C ctx = runWithContext ctx (\<lambda>t.
     attempt (ed25519_GenerateKey C t) (\<lambda>(publicKey, privateKey) t.
     attempt (MarshalPKCS8PrivateKey C (PrivEd25519 privateKey), t) (\<lambda>privDer t.
     attempt (MarshalPKIXPublicKey C (PubEd25519 publicKey), t) (\<lambda>publicDer t.
       (Inr (local_KeyData (std_EncodeToString privDer) (std_EncodeToString publicDer)), t)))))"

definition local_SignEd25519 ::
    "('t, 'm) crypto_scheme \<Rightarrow> go_ctx option \<Rightarrow> string \<Rightarrow> string \<Rightarrow> 't \<Rightarrow> (err + string) \<times> 't" where
  "local_SignEd25519 C ctx privateKey msg = runWithContext ctx (pure (
     sum_bind (wrap_error ''load private key: %w'' (ParseEd25519PrivateKeyFromBase64 C privateKey)) (\<lambda>key.
       Inr (std_EncodeToString (ed25519_Sign C key msg)))))"

text \<open>The verifying operations return an error only; success is \<open>Inr ()\<close>.\<close>

definition local_VerifyEd25519 ::
    "('t, 'm) crypto_scheme \<Rightarrow> go_ctx option \<Rightarrow> string \<Rightarrow> string \<Rightarrow> string \<Rightarrow> 't \<Rightarrow> (err + unit) \<times> 't" where
  "local_VerifyEd25519 C ctx publicKey msg signature = runWithContext ctx (pure (
     sum_bind (wrap_error ''load public key: %w'' (ParseEd25519PublicKeyFromBase64 C publicKey)) (\<lambda>key.
     sum_bind (wrap_error ''decode signature from Base64: %w'' (decode_std signature)) (\<lambda>sig.
       if ed25519_Verify C key msg sig then Inr () else Inl (Message ''invalid Ed25519 signature'')))))"

definition local_SignRSAPSS ::
    "('t, 'm) crypto_scheme \<Rightarrow> go_ctx option \<Rightarrow> string \<Rightarrow> string \<Rightarrow> 't \<Rightarrow> (err + string) \<times> 't" where
  "local_SignRSAPSS C ctx privateKey msg = runWithContext ctx (\<lambda>t.
     attempt (wrap_error ''load private key: %w'' (ParseRSAPrivateKeyFromBase64 C privateKey), t) (\<lambda>priv t.
     attempt (wrap_state ''sign with RSA-PSS: %w'' (rsa_SignPSS C priv (sha256_Sum256 C msg) t)) (\<lambda>sig t.
       (Inr (std_EncodeToString sig), t))))"

definition verdict :: "string \<Rightarrow> err option \<Rightarrow> err + unit" where
  "verdict fmt r = (case r of Some e \<Rightarrow> Inl (WrapErr fmt [e]) | None \<Rightarrow> Inr ())"

definition local_VerifyRSAPSS ::
    "('t, 'm) crypto_scheme \<Rightarrow> go_ctx option \<Rightarrow> string \<Rightarrow> string \<Rightarrow> string \<Rightarrow> 't \<Rightarrow> (err + unit) \<times> 't" where
  "local_VerifyRSAPSS C ctx publicKey msg signature = runWithContext ctx (pure (
     sum_bind (wrap_error ''load public key: %w'' (ParseRSAPublicKeyFromBase64 C publicKey)) (\<lambda>pub.
     sum_bind (wrap_error ''decode signature from Base64: %w'' (decode_std signature)) (\<lambda>sig.
       verdict ''invalid RSA-PSS signature: %w'' (rsa_VerifyPSS C pub (sha256_Sum256 C msg) sig)))))"

definition local_Sign_RSA_PKCS1v15_SHA256 ::
    "('t, 'm) crypto_scheme \<Rightarrow> go_ctx option \<Rightarrow> string \<Rightarrow> string \<Rightarrow> 't \<Rightarrow> (err + string) \<times> 't" where
  "local_Sign_RSA_PKCS1v15_SHA256 C ctx privateKey msg = runWithContext ctx (pure (
     sum_bind (wrap_error ''load private key: %w'' (ParseRSAPrivateKeyFromBase64 C privateKey)) (\<lambda>priv.
     sum_bind (wrap_error ''sign with RSA SHA-256: %w'' (rsa_SignPKCS1v15 C priv (sha256_Sum256 C msg))) (\<lambda>sig.
       Inr (std_EncodeToString sig)))))"

definition local_Verify_RSA_PKCS1v15_SHA256 ::
    "('t, 'm) crypto_scheme \<Rightarrow> go_ctx option \<Rightarrow> string \<Rightarrow> string \<Rightarrow> string \<Rightarrow> 't \<Rightarrow> (err + unit) \<times> 't" where
  "local_Verify_RSA_PKCS1v15_SHA256 C ctx msg publicKey signature = runWithContext ctx (pure (
     sum_bind (wrap_error ''load public key: %w'' (ParseRSAPublicKeyFromBase64 C publicKey)) (\<lambda>pub.
     sum_bind (decode_std signature) (\<lambda>sig.
       verdict ''invalid RSA SHA-256 signature: %w'' (rsa_VerifyPKCS1v15 C pub (sha256_Sum256 C msg) sig)))))"

subsection \<open>AES-GCM\<close>

lemma gcm_lawD:
  assumes "gcm_law C" "aes_NewCipher key = None" "length nonce = gcm_NonceSize"
  shows "gcm_Open C key nonce (gcm_Seal C key nonce plain aad) aad = Inr plain"
proof -
  have "length key \<in> {16, 24, 32}" using assms(2) by (simp add: aes_NewCipher_def split: if_splits)
  then show ?thesis using assms(1,3) unfolding gcm_law_def by blast
qed

lemma rand_lawD: "rand_law C \<Longrightarrow> rand_Read C n t = (Inr r, t') \<Longrightarrow> length r = n"
  unfolding rand_law_def by blast

lemma encryptAES_Inr:
  assumes "encryptAES C secretKey plain additional t = (Inr c, t')"
  obtains key nonce where "decode_std secretKey = Inr key" "aes_NewCipher key = None"
    "rand_Read C gcm_NonceSize t = (Inr nonce, t')"
    "c = std_EncodeToString (nonce @ gcm_Seal C key nonce plain (BytesFromOptionalString additional))"
  using assms
  by (auto simp: encryptAES_def split: sum.splits prod.splits option.splits elim!: attempt_InrE check_InrE)

lemma decryptAES_sealed:
  assumes "gcm_law C" "decode_std secretKey = Inr key" "aes_NewCipher key = None" "length nonce = gcm_NonceSize"
  shows "decryptAES C secretKey (std_EncodeToString (nonce @ gcm_Seal C key nonce plain (BytesFromOptionalString additional))) additional
    = Inr plain"
  using assms by (simp add: decryptAES_def gcm_lawD)

lemma decrypt_encryptAES:
  assumes "gcm_law C" "rand_law C" "encryptAES C secretKey plain additional t = (Inr c, t')"
  shows "decryptAES C secretKey c additional = Inr plain"
  using assms(3)
proof (rule encryptAES_Inr)
  fix key nonce
  assume "decode_std secretKey = Inr key" "aes_NewCipher key = None" "rand_Read C gcm_NonceSize t = (Inr nonce, t')"
    "c = std_EncodeToString (nonce @ gcm_Seal C key nonce plain (BytesFromOptionalString additional))"
  then show ?thesis using decryptAES_sealed[OF assms(1)] rand_lawD[OF assms(2)] by simp
qed

lemma encryptAES_not_Nil:
  assumes "rand_law C" "encryptAES C secretKey plain additional t = (Inr c, t')"
  shows "c \<noteq> [] \<and> utf8_Valid c"
  using assms(2) by (rule encryptAES_Inr) (use rand_lawD[OF assms(1)] in \<open>force simp: gcm_NonceSize_def\<close>)

subsection \<open>Key agreement\<close>

text \<open>
  What the documentation of \<^verbatim>\<open>crypto/ecdh\<close>, \<^verbatim>\<open>crypto/hkdf\<close> and \<^verbatim>\<open>crypto/x509\<close> promises: keys keep their curve, both sides of
  an agreement get one secret, the derived key has the length asked for, and a marshalled ECDH key parses to a key
  that converts to itself (\<open>x509\<close> returns the NIST curves as \<open>ecdsa\<close> keys).
\<close>

definition ecdh_law :: "('t, 'm) crypto_scheme \<Rightarrow> bool" where
  "ecdh_law C \<longleftrightarrow>
     (\<forall>c t k t'. ecdh_GenerateKey C c t = (Inr k, t') \<longrightarrow> priv_Curve k = c)
   \<and> (\<forall>k. pub_Curve (ecdh_Public C k) = priv_Curve k)
   \<and> (\<forall>a b. priv_Curve a = priv_Curve b \<longrightarrow> ecdh_ECDH C a (ecdh_Public C b) = ecdh_ECDH C b (ecdh_Public C a))
   \<and> (\<forall>s i n key. hkdf_Key C s i n = Inr key \<longrightarrow> length key = n)
   \<and> (\<forall>k der. MarshalPKCS8PrivateKey C (PrivECDH k) = Inr der \<longrightarrow> parseECDHPrivateKey C der = Inr k)
   \<and> (\<forall>q der. MarshalPKIXPublicKey C (PubECDH q) = Inr der \<longrightarrow> der \<noteq> [] \<and> parseECDHPublicKey C der = Inr q)"

lemma parse_encoded_ecdh:
  "parseECDHPublicKey C der = Inr q \<Longrightarrow> ParseECDHPublicKeyFromBase64 C (std_EncodeToString der) = Inr q"
  "parseECDHPrivateKey C der = Inr k \<Longrightarrow> ParseECDHPrivateKeyFromBase64 C (std_EncodeToString der) = Inr k"
  by (simp_all add: ParseECDHPublicKeyFromBase64_def ParseECDHPrivateKeyFromBase64_def decode_public_def decode_private_def)

lemma wrap_state_Inr [simp]: "wrap_state f r = (Inr x, t) \<longleftrightarrow> r = (Inr x, t)"
  by (cases r) (simp add: wrap_state_def)

lemma attempt_Inr_iff: "attempt r k = (Inr y, t') \<longleftrightarrow> (\<exists>x t. r = (Inr x, t) \<and> k x t = (Inr y, t'))"
  by (cases r; cases "fst r") (auto simp: attempt_def)

lemma CurveName_valid: "CurveNameFromECDH c = Inr n \<Longrightarrow> utf8_Valid n \<and> n \<noteq> []"
proof -
  assume "CurveNameFromECDH c = Inr n"
  then have "n \<in> {''P-256'', ''P-384'', ''P-521''}"
    by (auto simp: CurveNameFromECDH_def curve_String_def common_defs split: curve.splits)
  moreover have "ascii_only ''P-256''" "ascii_only ''P-384''" "ascii_only ''P-521''" by (simp_all add: ascii_only_def)
  ultimately show ?thesis using utf8_Valid_ascii by auto
qed

lemma ECDH_Encode_Inr:
  assumes "local_ECDH_Encode C ctx input t = (Inr out, t')"
    and "ParseECDHPublicKeyFromBase64 C (ecdhe_PublicKey input) = Inr q"
  obtains name eph secret derived c t1 t2 der where
    "CurveNameFromECDH (pub_Curve q) = Inr name" "ecdh_GenerateKey C (pub_Curve q) t = (Inr eph, t1)"
    "ecdh_ECDH C eph q = Inr secret" "DeriveECCAESKey C secret name = Inr derived"
    "encryptAES C (std_EncodeToString derived) (ecdhe_Text input) (Some name) t1 = (Inr c, t2)"
    "MarshalPKIXPublicKey C (PubECDH (ecdh_Public C eph)) = Inr der"
    "out = EncodeECCCipherPayload \<lparr>pl_Curve = name, pl_EphemeralPublicKey = std_EncodeToString der, pl_Ciphertext = c\<rparr>"
  using assms by (auto simp: local_ECDH_Encode_def runWithContext_Inr attempt_Inr_iff)

lemma ECDH_Decode_Encode:
  assumes laws: "ecdh_law C" "gcm_law C" "rand_law C"
    and enc: "local_ECDH_Encode C ctx input t = (Inr out, t')"
    and pub: "ParseECDHPublicKeyFromBase64 C (ecdhe_PublicKey input) = Inr (ecdh_Public C k)"
    and priv: "ParseECDHPrivateKeyFromBase64 C privateKey = Inr k"
    and live: "live ctx2"
  shows "local_ECDH_Decode C ctx2 \<lparr>ecdhd_UID = u, ecdhd_PrivateKey = privateKey, ecdhd_CipherText = out\<rparr> t2
    = (Inr (ecdhe_Text input), t2)"
  using enc pub
proof (rule ECDH_Encode_Inr)
  fix name eph secret derived c t1 t3 der
  assume h: "CurveNameFromECDH (pub_Curve (ecdh_Public C k)) = Inr name" "ecdh_GenerateKey C (pub_Curve (ecdh_Public C k)) t = (Inr eph, t1)"
    "ecdh_ECDH C eph (ecdh_Public C k) = Inr secret" "DeriveECCAESKey C secret name = Inr derived"
    "encryptAES C (std_EncodeToString derived) (ecdhe_Text input) (Some name) t1 = (Inr c, t3)"
    "MarshalPKIXPublicKey C (PubECDH (ecdh_Public C eph)) = Inr der"
    "out = EncodeECCCipherPayload \<lparr>pl_Curve = name, pl_EphemeralPublicKey = std_EncodeToString der, pl_Ciphertext = c\<rparr>"
  have curves: "pub_Curve (ecdh_Public C k) = priv_Curve k" "priv_Curve eph = priv_Curve k"
    using laws(1) h(2) by (metis ecdh_law_def)+
  then have secret: "ecdh_ECDH C k (ecdh_Public C eph) = Inr secret"
    using laws(1) h(3) by (metis ecdh_law_def)
  have der: "der \<noteq> []" "parseECDHPublicKey C der = Inr (ecdh_Public C eph)"
    using laws(1) h(6) by (metis ecdh_law_def)+
  have "DecodeECCCipherPayload out = Inr \<lparr>pl_Curve = name, pl_EphemeralPublicKey = std_EncodeToString der, pl_Ciphertext = c\<rparr>"
    unfolding h(7) using CurveName_valid[OF h(1)] encryptAES_not_Nil[OF laws(3) h(5)] der(1) by (intro payload_parse) simp_all
  moreover have "decryptAES C (std_EncodeToString derived) c (Some name) = Inr (ecdhe_Text input)"
    by (rule decrypt_encryptAES[OF laws(2,3) h(5)])
  ultimately show ?thesis
    using h(1,4) curves secret der priv live
    by (simp add: local_ECDH_Decode_def pure_def parse_encoded_ecdh)
qed

subsection \<open>Further laws\<close>

text \<open>What the documentation of \<^verbatim>\<open>crypto/ed25519\<close> and \<^verbatim>\<open>crypto/x509\<close> promises of Ed25519 keys.\<close>

definition ed25519_law :: "('t, 'm) crypto_scheme \<Rightarrow> bool" where
  "ed25519_law C \<longleftrightarrow>
     (\<forall>t pub priv t' m. ed25519_GenerateKey C t = (Inr (pub, priv), t') \<longrightarrow> ed25519_Verify C pub m (ed25519_Sign C priv m))
   \<and> (\<forall>k der. MarshalPKIXPublicKey C (PubEd25519 k) = Inr der \<longrightarrow> ParsePKIXPublicKey C der = Inr (PubEd25519 k))
   \<and> (\<forall>k der. MarshalPKCS8PrivateKey C (PrivEd25519 k) = Inr der \<longrightarrow> ParsePKCS8PrivateKey C der = Inr (PrivEd25519 k))"

text \<open>
  What it says of the PKCS#1 forms: the parsers of the PKIX and PKCS#8 forms refuse them (\<open>x509\<close> tells the caller to use
  the PKCS#1 parsers).
\<close>

definition pkcs1_law :: "('t, 'm) crypto_scheme \<Rightarrow> bool" where
  "pkcs1_law C \<longleftrightarrow> (\<forall>k x. ParsePKIXPublicKey C (MarshalPKCS1PublicKey C k) \<noteq> Inr x)
     \<and> (\<forall>k x. ParsePKCS8PrivateKey C (MarshalPKCS1PrivateKey C k) \<noteq> Inr x)"

subsection \<open>A small set of primitives for the witnesses\<close>

text \<open>
  The outside world is a counter. AES-GCM appends the sixteen tag bytes, a key agreement gives one constant, keys are
  marshalled by their bytes behind one byte for the curve.
\<close>

definition curve_byte :: "curve \<Rightarrow> char" where
  "curve_byte c = (case c of P256 \<Rightarrow> CHR ''2'' | P384 \<Rightarrow> CHR ''3'' | P521 \<Rightarrow> CHR ''5'' | X25519 \<Rightarrow> CHR ''x'')"

definition byte_curve :: "char \<Rightarrow> curve option" where
  "byte_curve b = (if b = CHR ''2'' then Some P256 else if b = CHR ''3'' then Some P384 else if b = CHR ''5'' then Some P521
     else if b = CHR ''x'' then Some X25519 else None)"

lemma byte_curve [simp]: "byte_curve (curve_byte c) = Some c"
  by (cases c) (simp_all add: byte_curve_def curve_byte_def)

definition toy_crypto :: "nat crypto" where
  "toy_crypto = \<lparr>
     rand_Read = (\<lambda>n t. (Inr (replicate n (char_of t)), t + 1)),
     gcm_Seal = (\<lambda>key nonce plain aad. plain @ replicate 16 (CHR 0x00)),
     gcm_Open = (\<lambda>key nonce c aad. if 16 \<le> length c \<and> drop (length c - 16) c = replicate 16 (CHR 0x00)
        then Inr (take (length c - 16) c) else Inl (Message ''cipher: message authentication failed'')),
     sha256_Sum256 = (\<lambda>m. take 32 (m @ replicate 32 (CHR 0x00))),
     hmac_SHA256 = (\<lambda>key m. take 32 (key @ m @ replicate 32 (CHR 0x00))),
     blake3_Sum256 = (\<lambda>m. take 32 (m @ replicate 32 (CHR 0x00))),
     hkdf_Key = (\<lambda>s i n. Inr (take n (s @ replicate n (CHR 0x01)))),
     ParsePKIXPublicKey = (\<lambda>der. case der of
         a # b # r \<Rightarrow> if a = CHR ''E'' then (case byte_curve b of
             Some c \<Rightarrow> Inr (PubECDH \<lparr>pub_Curve = c, pub_Bytes = r\<rparr>) | None \<Rightarrow> Inl (Message ''x509''))
           else if a = CHR ''D'' then Inr (PubEd25519 (b # r)) else Inl (Message ''x509'')
       | _ \<Rightarrow> Inl (Message ''x509'')),
     ParsePKCS8PrivateKey = (\<lambda>der. case der of
         a # b # r \<Rightarrow> if a = CHR ''E'' then (case byte_curve b of
             Some c \<Rightarrow> Inr (PrivECDH \<lparr>priv_Curve = c, priv_Bytes = r\<rparr>) | None \<Rightarrow> Inl (Message ''x509''))
           else if a = CHR ''D'' then Inr (PrivEd25519 (b # r)) else Inl (Message ''x509'')
       | _ \<Rightarrow> Inl (Message ''x509'')),
     MarshalPKIXPublicKey = (\<lambda>k. case k of PubECDH q \<Rightarrow> Inr (CHR ''E'' # curve_byte (pub_Curve q) # pub_Bytes q)
       | PubEd25519 q \<Rightarrow> if q = [] then Inl (Message ''x509'') else Inr (CHR ''D'' # q) | _ \<Rightarrow> Inl (Message ''x509'')),
     MarshalPKCS8PrivateKey = (\<lambda>k. case k of PrivECDH q \<Rightarrow> Inr (CHR ''E'' # curve_byte (priv_Curve q) # priv_Bytes q)
       | PrivEd25519 q \<Rightarrow> if q = [] then Inl (Message ''x509'') else Inr (CHR ''D'' # q) | _ \<Rightarrow> Inl (Message ''x509'')),
     MarshalPKCS1PublicKey = (\<lambda>k. ''1''), MarshalPKCS1PrivateKey = (\<lambda>k. ''1''),
     ParseCertificate = (\<lambda>der. Inl (Message ''x509'')),
     rsa_GenerateKey = (\<lambda>n t. (Inr \<lparr>rsa_Public = \<lparr>rsa_N = n, rsa_E = 65537\<rparr>, rsa_D = t, rsa_Primes = []\<rparr>, t + 1)),
     rsa_EncryptOAEP = (\<lambda>k m t. (Inr m, t + 1)), rsa_DecryptOAEP = (\<lambda>k m. Inr m),
     rsa_SignPSS = (\<lambda>k d t. (Inr d, t + 1)), rsa_VerifyPSS = (\<lambda>k d s. if s = d then None else Some (Message ''rsa'')),
     rsa_SignPKCS1v15 = (\<lambda>k d. Inr d), rsa_VerifyPKCS1v15 = (\<lambda>k d s. if s = d then None else Some (Message ''rsa'')),
     ed25519_GenerateKey = (\<lambda>t. (Inr (replicate 32 (char_of t), replicate 64 (char_of t)), t + 1)),
     ed25519_Sign = (\<lambda>k m. take 32 k @ m), ed25519_Verify = (\<lambda>k m s. s = k @ m),
     ecdh_GenerateKey = (\<lambda>c t. (Inr \<lparr>priv_Curve = c, priv_Bytes = [char_of t]\<rparr>, t + 1)),
     ecdh_NewPublicKey = (\<lambda>c b. Inr \<lparr>pub_Curve = c, pub_Bytes = b\<rparr>),
     ecdh_Public = (\<lambda>k. \<lparr>pub_Curve = priv_Curve k, pub_Bytes = priv_Bytes k\<rparr>),
     ecdh_ECDH = (\<lambda>a b. Inr ''secret''),
     ecdsa_Public_ECDH = (\<lambda>k. Inl (Message ''ecdsa'')), ecdsa_Private_ECDH = (\<lambda>k d. Inl (Message ''ecdsa'')),
     os_ReadFile = (\<lambda>p t. (Inl (Message ''no file''), t)), pem_Decode = (\<lambda>b. None)\<rparr>"

lemma toy_laws: "rand_law toy_crypto" "gcm_law toy_crypto" "ecdh_law toy_crypto" "ed25519_law toy_crypto" "pkcs1_law toy_crypto"
  by (auto simp: rand_law_def gcm_law_def ecdh_law_def ed25519_law_def pkcs1_law_def toy_crypto_def parseECDHPublicKey_def parseECDHPrivateKey_def
      parse_public_def parse_private_def neq_Nil_conv split: if_splits)

definition toy_ctx :: "go_ctx option" where
  "toy_ctx = Some sample_ctx"

lemma toy_live [simp]: "live toy_ctx"
  by (simp add: live_def toy_ctx_def sample_ctx_def)

subsection \<open>Properties\<close>

text \<open>
  C13: What \<open>EncryptAES\<close> returns, \<open>DecryptAES\<close> with the same key and the same additional data turns back into the
  plaintext, whatever the nonce.\<close>
theorem AES_roundtrip:
  assumes "gcm_law C" "rand_law C"
    and "local_EncryptAES C ctx \<lparr>enc_UID = u, enc_SecretKey = key, enc_Value = plain, enc_Additional = additional\<rparr> t = (Inr c, t')"
    and "live ctx2"
  shows "local_DecryptAES C ctx2 \<lparr>dec_UID = u2, dec_SecretKey = key, dec_CipherValue = c, dec_Additional = additional\<rparr> t2
    = (Inr plain, t2)"
  using assms(3,4) decrypt_encryptAES[OF assms(1,2)]
  by (auto simp: local_EncryptAES_def local_DecryptAES_def runWithContext_Inr pure_def)

theorem AES_roundtrip_witness:
  "\<exists>c t'. local_EncryptAES toy_crypto toy_ctx \<lparr>enc_UID = ''u'', enc_SecretKey = std_EncodeToString (replicate 16 (CHR ''k'')),
      enc_Value = ''hello'', enc_Additional = Some ''ad''\<rparr> 7 = (Inr c, t')
    \<and> local_DecryptAES toy_crypto toy_ctx \<lparr>dec_UID = [], dec_SecretKey = std_EncodeToString (replicate 16 (CHR ''k'')),
        dec_CipherValue = c, dec_Additional = Some ''ad''\<rparr> 9 = (Inr ''hello'', 9)"
proof -
  let ?in = "\<lparr>enc_UID = ''u'', enc_SecretKey = std_EncodeToString (replicate 16 (CHR ''k'')), enc_Value = ''hello'', enc_Additional = Some ''ad''\<rparr>"
  have "\<exists>c t'. local_EncryptAES toy_crypto toy_ctx ?in 7 = (Inr c, t')"
    by (simp add: local_EncryptAES_def encryptAES_def aes_NewCipher_def toy_crypto_def)
  then obtain c t' where c: "local_EncryptAES toy_crypto toy_ctx ?in 7 = (Inr c, t')" by blast
  show ?thesis using c AES_roundtrip[OF toy_laws(2,1) c toy_live, of "[]" 9] by blast
qed



text \<open>
  A signature of \<open>SignEd25519\<close> under a generated private key is accepted by \<open>VerifyEd25519\<close> with its public key.\<close>
theorem Ed25519_generated_verifies:
  assumes "ed25519_law C"
    and "local_GenerateEd255Keys C ctx t0 = (Inr data, t1)"
    and "live ctx2" "live ctx3"
  shows "\<exists>sig. local_SignEd25519 C ctx2 (kd_KeyRef data) msg t2 = (Inr sig, t2)
    \<and> local_VerifyEd25519 C ctx3 (kd_PublicKey data) msg sig t3 = (Inr (), t3)"
proof -
  obtain pub priv privDer pubDer where k: "ed25519_GenerateKey C t0 = (Inr (pub, priv), t1)"
    "MarshalPKCS8PrivateKey C (PrivEd25519 priv) = Inr privDer" "MarshalPKIXPublicKey C (PubEd25519 pub) = Inr pubDer"
    "data = local_KeyData (std_EncodeToString privDer) (std_EncodeToString pubDer)"
    using assms(2) by (auto simp: local_GenerateEd255Keys_def runWithContext_Inr attempt_Inr_iff)
  then have "ParsePKCS8PrivateKey C privDer = Inr (PrivEd25519 priv)" "ParsePKIXPublicKey C pubDer = Inr (PubEd25519 pub)"
    "ed25519_Verify C pub msg (ed25519_Sign C priv msg)"
    using assms(1) by (auto simp: ed25519_law_def)
  then show ?thesis
    using assms(3,4) k(4)
    by (simp add: local_SignEd25519_def local_VerifyEd25519_def pure_def local_KeyData_def ParseEd25519PrivateKeyFromBase64_def
        ParseEd25519PublicKeyFromBase64_def decode_public_def decode_private_def parse_public_def parse_private_def
        ed25519_public_of_def ed25519_private_of_def)
qed

theorem Ed25519_generated_verifies_witness:
  "\<exists>data t1 sig. local_GenerateEd255Keys toy_crypto toy_ctx 3 = (Inr data, t1)
    \<and> local_VerifyEd25519 toy_crypto toy_ctx (kd_PublicKey data) ''m'' sig 9 = (Inr (), 9)"
proof -
  have "\<exists>data t1. local_GenerateEd255Keys toy_crypto toy_ctx 3 = (Inr data, t1)"
    by (simp add: local_GenerateEd255Keys_def toy_crypto_def)
  then obtain data t1 where d: "local_GenerateEd255Keys toy_crypto toy_ctx 3 = (Inr data, t1)" by blast
  show ?thesis using d Ed25519_generated_verifies[OF toy_laws(4) d toy_live toy_live, of "''m''" 0 9] by blast
qed

text \<open>
  C15: A key pair from \<open>GenerateRSAKeys\<close> is refused by every RSA operation of the same backend: the generator writes the
  PKCS#1 forms, the operations parse the PKIX and PKCS#8 forms.\<close>
theorem generated_RSA_keys_refused:
  assumes "pkcs1_law C"
    and "local_GenerateRSAKeys C ctx request t0 = (Inr data, t1)"
  shows "fst (local_RSA_OAEP_Encode C ctx2 \<lparr>oaepe_UID = u, oaepe_PublicKey = kd_PublicKey data, oaepe_Text = msg\<rparr> t) \<noteq> Inr x
    \<and> fst (local_RSA_OAEP_Decode C ctx2 \<lparr>oaepd_UID = u, oaepd_PrivateKey = kd_KeyRef data, oaepd_CipherText = c\<rparr> t) \<noteq> Inr x
    \<and> fst (local_SignRSAPSS C ctx2 (kd_KeyRef data) msg t) \<noteq> Inr x
    \<and> fst (local_Sign_RSA_PKCS1v15_SHA256 C ctx2 (kd_KeyRef data) msg t) \<noteq> Inr x
    \<and> fst (local_VerifyRSAPSS C ctx2 (kd_PublicKey data) msg sig t) \<noteq> Inr ()
    \<and> fst (local_Verify_RSA_PKCS1v15_SHA256 C ctx2 msg (kd_PublicKey data) sig t) \<noteq> Inr ()"
proof -
  obtain k where d: "data = local_KeyData (std_EncodeToString (MarshalPKCS1PrivateKey C k)) (std_EncodeToString (MarshalPKCS1PublicKey C (rsa_Public k)))"
    using assms(2) by (auto simp: local_GenerateRSAKeys_def runWithContext_Inr attempt_Inr_iff elim!: check_InrE)
  have "ParseRSAPublicKeyFromBase64 C (kd_PublicKey data) \<noteq> Inr p" "ParseRSAPrivateKeyFromBase64 C (kd_KeyRef data) \<noteq> Inr q" for p q
    using assms(1) by (auto simp: d pkcs1_law_def local_KeyData_def ParseRSAPublicKeyFromBase64_def ParseRSAPrivateKeyFromBase64_def
        decode_public_def decode_private_def parse_public_def parse_private_def sum_bind_Inr_iff)
  then obtain e1 e2 where "ParseRSAPublicKeyFromBase64 C (kd_PublicKey data) = Inl e1" "ParseRSAPrivateKeyFromBase64 C (kd_KeyRef data) = Inl e2"
    by (metis sum.exhaust)
  then show ?thesis
    by (auto simp: local_RSA_OAEP_Encode_def local_RSA_OAEP_Decode_def local_SignRSAPSS_def local_Sign_RSA_PKCS1v15_SHA256_def
        local_VerifyRSAPSS_def local_Verify_RSA_PKCS1v15_SHA256_def runWithContext_def pure_def split: option.splits)
qed

theorem generated_RSA_keys_refused_witness:
  "\<exists>data t1. local_GenerateRSAKeys toy_crypto toy_ctx \<lparr>grk_UID = [], grk_Size = Key2048Bits\<rparr> 3 = (Inr data, t1)
    \<and> fst (local_SignRSAPSS toy_crypto toy_ctx (kd_KeyRef data) ''m'' 4) \<noteq> Inr ''s''"
proof -
  have "\<exists>data t1. local_GenerateRSAKeys toy_crypto toy_ctx \<lparr>grk_UID = [], grk_Size = Key2048Bits\<rparr> 3 = (Inr data, t1)"
    by (simp add: local_GenerateRSAKeys_def validateAsymmetricKeySize_def toy_crypto_def)
  then obtain data t1 where d: "local_GenerateRSAKeys toy_crypto toy_ctx \<lparr>grk_UID = [], grk_Size = Key2048Bits\<rparr> 3 = (Inr data, t1)" by blast
  show ?thesis using d generated_RSA_keys_refused[OF toy_laws(5) d] by blast
qed

text \<open>
  Under a context that is nil or already done no operation of the backend does anything: it returns the context's
  error (the hashes the empty string) and the outside world is untouched, randomness included.\<close>
theorem done_context_no_effect:
  assumes "contextErr ctx = Some e"
  shows "local_GenerateSymetrycKeys C ctx a1 t = (Inl e, t) \<and> local_EncryptAES C ctx a2 t = (Inl e, t)
    \<and> local_DecryptAES C ctx a3 t = (Inl e, t) \<and> local_GenerateRSAKeys C ctx a4 t = (Inl e, t)
    \<and> local_RSA_OAEP_Encode C ctx a5 t = (Inl e, t) \<and> local_RSA_OAEP_Decode C ctx a6 t = (Inl e, t)
    \<and> local_GenerateECDHCurveKeys C ctx a7 t = (Inl e, t) \<and> local_ECDH_Encode C ctx a8 t = (Inl e, t)
    \<and> local_ECDH_Decode C ctx a9 t = (Inl e, t) \<and> local_GenerateEd255Keys C ctx t = (Inl e, t)
    \<and> local_SignEd25519 C ctx x y t = (Inl e, t) \<and> local_VerifyEd25519 C ctx x y z t = (Inl e, t)
    \<and> local_SignRSAPSS C ctx x y t = (Inl e, t) \<and> local_VerifyRSAPSS C ctx x y z t = (Inl e, t)
    \<and> local_Sign_RSA_PKCS1v15_SHA256 C ctx x y t = (Inl e, t) \<and> local_Verify_RSA_PKCS1v15_SHA256 C ctx x y z t = (Inl e, t)
    \<and> local_RotateKey ctx b1 t = (Inl e, t) \<and> local_GetKey ctx b2 t = (Inl e, t) \<and> local_DeactivateKey ctx b3 = Some e
    \<and> local_HMAC C ctx x y t = ([], t) \<and> local_Sha256Hex C ctx x t = ([], t) \<and> local_Blake3 C ctx x t = ([], t)"
  using assms
  by (simp add: runWithContext_def or_empty_def local_GenerateSymetrycKeys_def local_EncryptAES_def local_DecryptAES_def
      local_GenerateRSAKeys_def local_RSA_OAEP_Encode_def local_RSA_OAEP_Decode_def local_GenerateECDHCurveKeys_def
      local_ECDH_Encode_def local_ECDH_Decode_def local_GenerateEd255Keys_def local_SignEd25519_def local_VerifyEd25519_def
      local_SignRSAPSS_def local_VerifyRSAPSS_def local_Sign_RSA_PKCS1v15_SHA256_def local_Verify_RSA_PKCS1v15_SHA256_def
      local_RotateKey_def local_GetKey_def local_DeactivateKey_def local_HMAC_def local_Sha256Hex_def local_Blake3_def)

theorem done_context_no_effect_witness:
  "local_GenerateRSAKeys toy_crypto None \<lparr>grk_UID = [], grk_Size = Key2048Bits\<rparr> 3 = (Inl (Message ''context is nil''), 3)"
  using done_context_no_effect[of None "Message ''context is nil''" toy_crypto] by (simp add: contextErr_def)

end
