(* ===== verification/Kms_Strings.thy ===== *)
theory Kms_Strings
  imports Go_Strings Utf8
begin

text \<open>
  The functions of Go's package \<^verbatim>\<open>strings\<close> the cloud backends use on key names: trimming a set of ASCII characters, the text
  before the first occurrence of another, counting a character, lower case.
\<close>

definition TrimLeft_set :: "string \<Rightarrow> string \<Rightarrow> string" where
  "TrimLeft_set s cutset = dropWhile (\<lambda>c. c \<in> set cutset) s"

definition TrimRight_set :: "string \<Rightarrow> string \<Rightarrow> string" where
  "TrimRight_set s cutset = rev (dropWhile (\<lambda>c. c \<in> set cutset) (rev s))"

definition Trim_set :: "string \<Rightarrow> string \<Rightarrow> string" where
  "Trim_set s cutset = TrimRight_set (TrimLeft_set s cutset) cutset"

text \<open>\<open>s[:strings.Index(s, p)]\<close>, with \<open>None\<close> when there is no occurrence.\<close>

fun before_first :: "string \<Rightarrow> string \<Rightarrow> string option" where
  "before_first p [] = (if p = [] then Some [] else None)"
| "before_first p (c # s) = (if prefix p (c # s) then Some [] else map_option ((#) c) (before_first p s))"

definition Count_char :: "string \<Rightarrow> char \<Rightarrow> nat" where
  "Count_char s c = length (filter (\<lambda>x. x = c) s)"

text \<open>
  \<open>strings.ToLower\<close>, exact on the runes it maps to ASCII. Which other runes the others become makes no difference to the one
  caller, which replaces them.
\<close>

definition lower_rune :: "nat \<Rightarrow> nat" where
  "lower_rune r = (if 0x41 \<le> r \<and> r \<le> 0x5A then r + 32 else if r = 0x130 then 0x69 else if r = 0x212A then 0x6B else r)"

definition ToLower :: "string \<Rightarrow> string" where
  "ToLower s = runes_string (map lower_rune (runes s))"

lemma before_first_Contains: "before_first p s \<noteq> None \<longleftrightarrow> Contains s p"
  by (induction s) auto

lemma before_first_prefix: "before_first p s = Some q \<Longrightarrow> prefix (q @ p) s"
proof (induction s arbitrary: q)
  case (Cons c s)
  show ?case
  proof (cases "prefix p (c # s)")
    case True
    then show ?thesis using Cons.prems by simp
  next
    case False
    then obtain r where "before_first p s = Some r" "q = c # r" using Cons.prems by (auto split: if_splits)
    then show ?thesis using Cons.IH by simp
  qed
qed (auto split: if_splits)

lemma dropWhile_head: "dropWhile P s = c # r \<Longrightarrow> \<not> P c"
  by (metis hd_dropWhile list.distinct(1) list.sel(1))

lemma Trim_set_ends:
  assumes "Trim_set s cs \<noteq> []"
  shows "hd (Trim_set s cs) \<notin> set cs" "last (Trim_set s cs) \<notin> set cs"
proof -
  let ?l = "dropWhile (\<lambda>c. c \<in> set cs) s" and ?P = "\<lambda>c. c \<in> set cs"
  have "rev (dropWhile ?P (rev ?l)) \<noteq> []" using assms unfolding Trim_set_def TrimRight_set_def TrimLeft_set_def .
  then have d: "dropWhile ?P (rev ?l) \<noteq> []" by (metis rev.simps(1))
  then show "last (Trim_set s cs) \<notin> set cs"
    using hd_dropWhile[of ?P "rev ?l"] by (simp add: Trim_set_def TrimRight_set_def TrimLeft_set_def last_rev)
  obtain u where u: "rev ?l = u @ dropWhile ?P (rev ?l)" by (metis takeWhile_dropWhile_id)
  then have "?l = rev (dropWhile ?P (rev ?l)) @ rev u" by (metis rev_append rev_rev_ident)
  then have "hd (Trim_set s cs) = hd ?l"
    using d by (metis Trim_set_def TrimLeft_set_def TrimRight_set_def hd_append2 rev_is_Nil_conv)
  moreover have "?l \<noteq> []" using d by (metis dropWhile.simps(1) rev.simps(1))
  ultimately show "hd (Trim_set s cs) \<notin> set cs" using hd_dropWhile[of ?P s] by simp
qed

lemma Trim_set_subset: "set (Trim_set s cs) \<subseteq> set s" "set (TrimRight_set s cs) \<subseteq> set s"
  by (auto simp: Trim_set_def TrimRight_set_def TrimLeft_set_def dest!: set_dropWhileD)

lemma TrimRight_set_props:
  "length (TrimRight_set s cs) \<le> length s" "TrimRight_set s cs \<noteq> [] \<Longrightarrow> last (TrimRight_set s cs) \<notin> set cs"
  "prefix (TrimRight_set s cs) s"
proof -
  show "length (TrimRight_set s cs) \<le> length s" by (simp add: TrimRight_set_def) (metis length_dropWhile_le length_rev)
  show "TrimRight_set s cs \<noteq> [] \<Longrightarrow> last (TrimRight_set s cs) \<notin> set cs"
    using hd_dropWhile[of "\<lambda>c. c \<in> set cs" "rev s"] by (simp add: TrimRight_set_def last_rev)
  show "prefix (TrimRight_set s cs) s"
    by (metis TrimRight_set_def prefix_def rev_append rev_rev_ident takeWhile_dropWhile_id)
qed

end
