(* ===== verification/Aws_Kms.thy ===== *)
theory Aws_Kms
  imports Kms_Strings Encrypt_Local
begin

text \<open>
  The AWS KMS backend, \<^verbatim>\<open>encrypt/aws-kms/repository.go\<close>. The client of the service is a parameter, with one function per
  method of the interface \<open>kmsClient\<close>, working on the state of the outside world; so are the configuration and the loading of
  the SDK's configuration. Tracing spans are left out.
\<close>

subsection \<open>The service\<close>

datatype KeySpec = KeySpecSymmetricDefault | KeySpecRsa2048 | KeySpecRsa3072 | KeySpecRsa4096
  | KeySpecEccNistP256 | KeySpecEccNistP384 | KeySpecEccNistP521 | KeySpecEccNistEdwards25519 | OtherKeySpec string

datatype KeyUsage = KeyUsageTypeEncryptDecrypt | KeyUsageTypeKeyAgreement | KeyUsageTypeSignVerify | OtherKeyUsage string

datatype SigningAlgorithm = SigningAlgorithmSpecEd25519Sha512 | SigningAlgorithmSpecRsassaPssSha256 | SigningAlgorithmSpecRsassaPkcs1V15Sha256

datatype EncryptionAlgorithm = EncryptionAlgorithmUnset | EncryptionAlgorithmSpecRsaesOaepSha256

text \<open>\<open>None\<close> is Go's nil.\<close>

record KeyMetadata =
  md_KeyId :: "string option"
  md_Arn :: "string option"
  md_KeyUsage :: KeyUsage
  md_KeySpec :: KeySpec

text \<open>\<open>ck_Origin\<close> tells whether the request names the origin \<open>AWS_KMS\<close>.\<close>

record CreateKeyInput =
  ck_KeyUsage :: KeyUsage
  ck_KeySpec :: KeySpec
  ck_Origin :: bool
  ck_Tags :: "(string \<times> string) list"

record EncryptInput =
  ei_KeyId :: string
  ei_Plaintext :: string
  ei_EncryptionContext :: "string \<rightharpoonup> string"
  ei_EncryptionAlgorithm :: EncryptionAlgorithm

record DecryptInput =
  di_KeyId :: string
  di_CiphertextBlob :: string
  di_EncryptionContext :: "string \<rightharpoonup> string"
  di_EncryptionAlgorithm :: EncryptionAlgorithm

text \<open>The interface, one field per method; \<open>VerifyMac\<close> is never called. Messages are always raw.\<close>

record 't kmsClient =
  CreateKey :: "go_ctx option \<Rightarrow> CreateKeyInput \<Rightarrow> 't \<Rightarrow> (err + KeyMetadata option) \<times> 't"
  DescribeKey :: "go_ctx option \<Rightarrow> string \<Rightarrow> 't \<Rightarrow> (err + KeyMetadata option) \<times> 't"
  DeriveSharedSecret :: "go_ctx option \<Rightarrow> string \<Rightarrow> string \<Rightarrow> 't \<Rightarrow> (err + string) \<times> 't"
  DisableKey :: "go_ctx option \<Rightarrow> string \<Rightarrow> 't \<Rightarrow> (err + unit) \<times> 't"
  GetPublicKey :: "go_ctx option \<Rightarrow> string \<Rightarrow> 't \<Rightarrow> (err + string) \<times> 't"
  kms_Encrypt :: "go_ctx option \<Rightarrow> EncryptInput \<Rightarrow> 't \<Rightarrow> (err + string) \<times> 't"
  kms_Decrypt :: "go_ctx option \<Rightarrow> DecryptInput \<Rightarrow> 't \<Rightarrow> (err + string) \<times> 't"
  GenerateMac :: "go_ctx option \<Rightarrow> string \<Rightarrow> string \<Rightarrow> 't \<Rightarrow> (err + string) \<times> 't"
  RotateKeyOnDemand :: "go_ctx option \<Rightarrow> string \<Rightarrow> 't \<Rightarrow> (err + unit) \<times> 't"
  kms_Sign :: "go_ctx option \<Rightarrow> string \<Rightarrow> string \<Rightarrow> SigningAlgorithm \<Rightarrow> 't \<Rightarrow> (err + string) \<times> 't"
  kms_Verify :: "go_ctx option \<Rightarrow> string \<Rightarrow> string \<Rightarrow> string \<Rightarrow> SigningAlgorithm \<Rightarrow> 't \<Rightarrow> (err + bool) \<times> 't"

text \<open>\<open>loadAWSConfigFn\<close> is followed by \<open>newKMSClientFn\<close>, which cannot fail: together they give a client.\<close>

record 't aws_env =
  loadAWSConfigFn :: "go_ctx option \<Rightarrow> 't \<Rightarrow> (err + 't kmsClient) \<times> 't"
  viper_GetString :: "string \<Rightarrow> 't \<Rightarrow> string"

definition defaultKMSARNKey :: string where "defaultKMSARNKey = ''encrypt.vault.aws-kms.arn''"
definition awsProviderName :: string where "awsProviderName = ''aws-kms''"
definition errAWSKMSKeyARNRequired :: err where "errAWSKMSKeyARNRequired = Message ''aws-kms: key arn or id is required''"

definition newAWSKMSClient :: "'t aws_env \<Rightarrow> go_ctx option \<Rightarrow> 't \<Rightarrow> (err + 't kmsClient) \<times> 't" where
  "newAWSKMSClient E ctx t = wrap_state ''aws-kms: load aws config: %w'' (loadAWSConfigFn E ctx t)"

subsection \<open>Names, tags, contexts, specifications\<close>

definition resolveAWSKMSKeyID :: "'t aws_env \<Rightarrow> string \<Rightarrow> 't \<Rightarrow> err + string" where
  "resolveAWSKMSKeyID E key t =
     (if TrimSpace key \<noteq> [] then Inr (TrimSpace key)
      else let configured = TrimSpace (viper_GetString E defaultKMSARNKey t) in
        if configured \<noteq> [] then Inr configured else Inl errAWSKMSKeyARNRequired)"

definition awsUIDTags :: "string \<Rightarrow> (string \<times> string) list" where
  "awsUIDTags uid = (if TrimSpace uid = [] then [] else [(''uid'', uid)])"

definition awsKMSEncryptionContext :: "string \<Rightarrow> string option \<Rightarrow> (string \<rightharpoonup> string)" where
  "awsKMSEncryptionContext uid additional =
     (let m = (if TrimSpace uid \<noteq> [] then Map.empty(''uid'' \<mapsto> uid) else Map.empty)
      in case additional of None \<Rightarrow> m | Some a \<Rightarrow> m(''additional'' \<mapsto> a))"

definition looksLikeAWSKMSKeyReference :: "'t aws_env \<Rightarrow> string \<Rightarrow> 't \<Rightarrow> bool" where
  "looksLikeAWSKMSKeyReference E key t \<longleftrightarrow>
     (let trimmed = TrimSpace key in
      if trimmed = [] then TrimSpace (viper_GetString E defaultKMSARNKey t) \<noteq> []
      else HasPrefix trimmed ''arn:aws:kms:'' \<or> HasPrefix trimmed ''alias/'' \<or> HasPrefix trimmed ''mrk-''
        \<or> Count_char trimmed (CHR ''-'') \<ge> 4)"

definition awsKeySpecHasPublicKey :: "KeySpec \<Rightarrow> bool" where
  "awsKeySpecHasPublicKey s \<longleftrightarrow> s \<in> {KeySpecRsa2048, KeySpecRsa3072, KeySpecRsa4096, KeySpecEccNistP256, KeySpecEccNistP384,
     KeySpecEccNistP521, KeySpecEccNistEdwards25519}"

definition toAWSRSAKeySpec :: "SizeAsymetrycKey \<Rightarrow> err + KeySpec" where
  "toAWSRSAKeySpec sz =
     (if sz = Key2048Bits then Inr KeySpecRsa2048 else if sz = Key3072Bits then Inr KeySpecRsa3072
      else if sz = Key4096Bits then Inr KeySpecRsa4096
      else Inl (Errorf ''aws-kms: unsupported rsa key size: %d'' [decimal (unat sz)]))"

definition toAWSECCKeySpec :: "CurveAsymmetricKey \<Rightarrow> err + KeySpec" where
  "toAWSECCKeySpec curve =
     (if curve = CurveP256 then Inr KeySpecEccNistP256 else if curve = CurveP384 then Inr KeySpecEccNistP384
      else if curve = CurveP521 then Inr KeySpecEccNistP521
      else Inl (Errorf ''aws-kms: unsupported ecc curve: %q'' [curve_String curve]))"

definition toAWSSymmetricKeySpec :: "SizeSymetrycKey \<Rightarrow> err + KeySpec" where
  "toAWSSymmetricKeySpec sz =
     (if sz = Key256Bits then Inr KeySpecSymmetricDefault
      else Inl (Errorf ''aws-kms: unsupported symmetric key size: %d'' [decimal (unat sz)]))"

subsection \<open>Managing keys\<close>

definition awsKeyDataFromMetadata :: "go_ctx option \<Rightarrow> 't kmsClient \<Rightarrow> KeyMetadata option \<Rightarrow> 't \<Rightarrow> (err + KeyData) \<times> 't" where
  "awsKeyDataFromMetadata ctx client metadata t =
     (case metadata of
        None \<Rightarrow> (Inl (Message ''aws-kms: missing key metadata from describe key response''), t)
      | Some md \<Rightarrow> (case md_KeyId md of
          None \<Rightarrow> (Inl (Message ''aws-kms: missing key metadata from describe key response''), t)
        | Some keyID \<Rightarrow>
            (let arn = (case md_Arn md of None \<Rightarrow> [] | Some a \<Rightarrow> a);
                 data = (\<lambda>publicKey. \<lparr>kd_PublicKey = publicKey, kd_KeyID = keyID, kd_KeyRef = if arn = [] then keyID else arn,
                   kd_Provider = awsProviderName\<rparr>)
             in if \<not> awsKeySpecHasPublicKey (md_KeySpec md) then (Inr (data []), t)
                else attempt (wrap_state ''aws-kms: get public key: %w'' (GetPublicKey client ctx keyID t)) (\<lambda>publicKey t.
                  (Inr (data (std_EncodeToString publicKey)), t)))))"

definition awsKeyDataFromDescribe :: "go_ctx option \<Rightarrow> 't kmsClient \<Rightarrow> string \<Rightarrow> 't \<Rightarrow> (err + KeyData) \<times> 't" where
  "awsKeyDataFromDescribe ctx client keyID t =
     attempt (wrap_state ''aws-kms: describe key: %w'' (DescribeKey client ctx keyID t)) (awsKeyDataFromMetadata ctx client)"

text \<open>Opening a client and resolving the key, with which most operations begin.\<close>

definition with_key ::
    "'t aws_env \<Rightarrow> go_ctx option \<Rightarrow> string \<Rightarrow> ('t kmsClient \<Rightarrow> string \<Rightarrow> 't \<Rightarrow> (err + 'a) \<times> 't) \<Rightarrow> 't \<Rightarrow> (err + 'a) \<times> 't" where
  "with_key E ctx key body t =
     attempt (newAWSKMSClient E ctx t) (\<lambda>client t. attempt (resolveAWSKMSKeyID E key t, t) (body client))"

definition aws_RotateKey :: "'t aws_env \<Rightarrow> go_ctx option \<Rightarrow> RotateKeyRequest \<Rightarrow> 't \<Rightarrow> (err + KeyData) \<times> 't" where
  "aws_RotateKey E ctx input = with_key E ctx (rot_KeyID input) (\<lambda>client keyID t.
     attempt (wrap_state ''aws-kms: describe key before rotation: %w'' (DescribeKey client ctx keyID t)) (\<lambda>metadata t.
     case metadata of None \<Rightarrow> (Inl (Message ''aws-kms: missing key metadata from describe key response''), t)
     | Some md \<Rightarrow>
         if md_KeyUsage md \<noteq> KeyUsageTypeEncryptDecrypt \<or> md_KeySpec md \<noteq> KeySpecSymmetricDefault
         then (Inl (Message ''aws-kms: key rotation is supported only for symmetric encryption keys''), t)
         else attempt (wrap_state ''aws-kms: rotate key: %w'' (RotateKeyOnDemand client ctx keyID t)) (\<lambda>_ t.
           awsKeyDataFromDescribe ctx client keyID t)))"

definition aws_GetKey :: "'t aws_env \<Rightarrow> go_ctx option \<Rightarrow> GetKeyRequest \<Rightarrow> 't \<Rightarrow> (err + KeyData) \<times> 't" where
  "aws_GetKey E ctx input = with_key E ctx (get_KeyID input) (\<lambda>client keyID. awsKeyDataFromDescribe ctx client keyID)"

definition aws_DeactivateKey :: "'t aws_env \<Rightarrow> go_ctx option \<Rightarrow> DeactivateKeyRequest \<Rightarrow> 't \<Rightarrow> (err + unit) \<times> 't" where
  "aws_DeactivateKey E ctx input = with_key E ctx (deact_KeyID input) (\<lambda>client keyID t.
     wrap_state ''aws-kms: deactivate key: %w'' (DisableKey client ctx keyID t))"

subsection \<open>Generating keys\<close>

text \<open>A new key with the identifier and the ARN the service must report.\<close>

definition create_key ::
    "go_ctx option \<Rightarrow> 't kmsClient \<Rightarrow> CreateKeyInput \<Rightarrow> string \<Rightarrow> string \<Rightarrow> 't \<Rightarrow> (err + string \<times> string) \<times> 't" where
  "create_key ctx client input failure missing t =
     attempt (wrap_state failure (CreateKey client ctx input t)) (\<lambda>metadata t.
       (case metadata of None \<Rightarrow> Inl (Message missing)
        | Some md \<Rightarrow> (case (md_KeyId md, md_Arn md) of (Some keyID, Some arn) \<Rightarrow> Inr (keyID, arn) | _ \<Rightarrow> Inl (Message missing)), t))"

definition create_pair ::
    "go_ctx option \<Rightarrow> 't kmsClient \<Rightarrow> CreateKeyInput \<Rightarrow> string \<Rightarrow> string \<Rightarrow> string \<Rightarrow> 't \<Rightarrow> (err + KeyData) \<times> 't" where
  "create_pair ctx client input failure missing failure_public t =
     attempt (create_key ctx client input failure missing t) (\<lambda>(keyID, arn) t.
     attempt (wrap_state failure_public (GetPublicKey client ctx keyID t)) (\<lambda>publicKey t.
       (Inr \<lparr>kd_PublicKey = std_EncodeToString publicKey, kd_KeyID = keyID, kd_KeyRef = arn, kd_Provider = awsProviderName\<rparr>, t)))"

definition aws_GenerateSymetrycKeys :: "'t aws_env \<Rightarrow> go_ctx option \<Rightarrow> GenerateSymmetricKeyRequest \<Rightarrow> 't \<Rightarrow> (err + KeyData) \<times> 't" where
  "aws_GenerateSymetrycKeys E ctx input t =
     attempt (toAWSSymmetricKeySpec (gsk_Size input), t) (\<lambda>keySpec t.
     attempt (newAWSKMSClient E ctx t) (\<lambda>client t.
     attempt (create_key ctx client \<lparr>ck_KeyUsage = KeyUsageTypeEncryptDecrypt, ck_KeySpec = keySpec, ck_Origin = True,
         ck_Tags = awsUIDTags (gsk_UID input)\<rparr> ''aws-kms: create symmetric key: %w''
         ''aws-kms: missing key metadata from create symmetric key response'' t) (\<lambda>(keyID, arn) t.
       (Inr \<lparr>kd_PublicKey = [], kd_KeyID = keyID, kd_KeyRef = arn, kd_Provider = awsProviderName\<rparr>, t))))"

definition aws_GenerateECDHCurveKeys :: "'t aws_env \<Rightarrow> go_ctx option \<Rightarrow> GenerateECDHCurveKeyRequest \<Rightarrow> 't \<Rightarrow> (err + KeyData) \<times> 't" where
  "aws_GenerateECDHCurveKeys E ctx input t =
     attempt (newAWSKMSClient E ctx t) (\<lambda>client t.
     attempt (toAWSECCKeySpec (gek_Curve input), t) (\<lambda>keySpec t.
       create_pair ctx client \<lparr>ck_KeyUsage = KeyUsageTypeKeyAgreement, ck_KeySpec = keySpec, ck_Origin = True,
         ck_Tags = awsUIDTags (gek_UID input)\<rparr> ''aws-kms: create ecc key: %w''
         ''aws-kms: missing key metadata from create ecc key response'' ''aws-kms: get ecc public key: %w'' t))"

definition aws_GenerateRSAKeys :: "'t aws_env \<Rightarrow> go_ctx option \<Rightarrow> GenerateRSAKeyRequest \<Rightarrow> 't \<Rightarrow> (err + KeyData) \<times> 't" where
  "aws_GenerateRSAKeys E ctx input t =
     attempt (newAWSKMSClient E ctx t) (\<lambda>client t.
     attempt (toAWSRSAKeySpec (grk_Size input), t) (\<lambda>keySpec t.
       create_pair ctx client \<lparr>ck_KeyUsage = KeyUsageTypeEncryptDecrypt, ck_KeySpec = keySpec, ck_Origin = False,
         ck_Tags = awsUIDTags (grk_UID input)\<rparr> ''aws-kms: create rsa key: %w''
         ''aws-kms: missing key metadata from create key response'' ''aws-kms: get public key: %w'' t))"

definition aws_GenerateEd255Keys :: "'t aws_env \<Rightarrow> go_ctx option \<Rightarrow> 't \<Rightarrow> (err + KeyData) \<times> 't" where
  "aws_GenerateEd255Keys E ctx t =
     attempt (newAWSKMSClient E ctx t) (\<lambda>client t.
       create_pair ctx client \<lparr>ck_KeyUsage = KeyUsageTypeSignVerify, ck_KeySpec = KeySpecEccNistEdwards25519, ck_Origin = True, ck_Tags = []\<rparr>
         ''aws-kms: create ed25519 key: %w'' ''aws-kms: missing key metadata from create ed25519 key response''
         ''aws-kms: get ed25519 public key: %w'' t)"

subsection \<open>Symmetric encryption and hashes\<close>

text \<open>An empty encryption context is not sent, which is the same to the service as sending it.\<close>

definition aws_EncryptAES ::
    "('t, 'm) crypto_scheme \<Rightarrow> 't aws_env \<Rightarrow> go_ctx option \<Rightarrow> EncryptAESRequest \<Rightarrow> 't \<Rightarrow> (err + string) \<times> 't" where
  "aws_EncryptAES C E ctx input =
     (if IsLocalAESKey (enc_SecretKey input) then local_EncryptAES C ctx input
      else with_key E ctx (enc_SecretKey input) (\<lambda>client keyID t.
        attempt (wrap_state ''aws-kms: encrypt with symmetric key: %w'' (kms_Encrypt client ctx \<lparr>ei_KeyId = keyID,
            ei_Plaintext = enc_Value input, ei_EncryptionContext = awsKMSEncryptionContext (enc_UID input) (enc_Additional input),
            ei_EncryptionAlgorithm = EncryptionAlgorithmUnset\<rparr> t)) (\<lambda>ciphertext t.
          (Inr (std_EncodeToString ciphertext), t))))"

definition aws_DecryptAES ::
    "('t, 'm) crypto_scheme \<Rightarrow> 't aws_env \<Rightarrow> go_ctx option \<Rightarrow> DecryptAESRequest \<Rightarrow> 't \<Rightarrow> (err + string) \<times> 't" where
  "aws_DecryptAES C E ctx input =
     (if IsLocalAESKey (dec_SecretKey input) then local_DecryptAES C ctx input
      else with_key E ctx (dec_SecretKey input) (\<lambda>client keyID t.
        attempt (wrap_error ''aws-kms: decode base64 ciphertext: %w'' (decode_std (dec_CipherValue input)), t) (\<lambda>ciphertext t.
          wrap_state ''aws-kms: decrypt with symmetric key: %w'' (kms_Decrypt client ctx \<lparr>di_KeyId = keyID, di_CiphertextBlob = ciphertext,
            di_EncryptionContext = awsKMSEncryptionContext (dec_UID input) (dec_Additional input),
            di_EncryptionAlgorithm = EncryptionAlgorithmUnset\<rparr> t))))"

definition aws_HMAC :: "('t, 'm) crypto_scheme \<Rightarrow> 't aws_env \<Rightarrow> go_ctx option \<Rightarrow> string \<Rightarrow> string \<Rightarrow> 't \<Rightarrow> string \<times> 't" where
  "aws_HMAC C E ctx secretKey message t =
     (if \<not> looksLikeAWSKMSKeyReference E secretKey t then local_HMAC C ctx secretKey message t
      else or_empty (with_key E ctx secretKey (\<lambda>client keyID t.
        attempt (GenerateMac client ctx keyID message t) (\<lambda>mac t. (Inr (std_EncodeToString mac), t))) t))"

definition aws_Sha256Hex :: "('t, 'm) crypto_scheme \<Rightarrow> go_ctx option \<Rightarrow> string \<Rightarrow> 't \<Rightarrow> string \<times> 't" where
  "aws_Sha256Hex = local_Sha256Hex"

definition aws_Blake3 :: "('t, 'm) crypto_scheme \<Rightarrow> go_ctx option \<Rightarrow> string \<Rightarrow> 't \<Rightarrow> string \<times> 't" where
  "aws_Blake3 = local_Blake3"

subsection \<open>Key agreement and RSA\<close>

definition aws_ECDH_Encode ::
    "('t, 'm) crypto_scheme \<Rightarrow> 't aws_env \<Rightarrow> go_ctx option \<Rightarrow> ECDHEncodeRequest \<Rightarrow> 't \<Rightarrow> (err + string) \<times> 't" where
  "aws_ECDH_Encode C E ctx input =
     (if \<not> isl (ParseECDHPublicKeyFromBase64 C (ecdhe_PublicKey input)) then local_ECDH_Encode C ctx input
      else with_key E ctx (ecdhe_PublicKey input) (\<lambda>client keyID t.
        attempt (wrap_state ''aws-kms: get ecc public key: %w'' (GetPublicKey client ctx keyID t)) (\<lambda>publicKey t.
          local_ECDH_Encode C ctx \<lparr>ecdhe_UID = ecdhe_UID input, ecdhe_PublicKey = std_EncodeToString publicKey,
            ecdhe_Text = ecdhe_Text input\<rparr> t)))"

definition aws_ECDH_Decode ::
    "('t, 'm) crypto_scheme \<Rightarrow> 't aws_env \<Rightarrow> go_ctx option \<Rightarrow> ECDHDecodeRequest \<Rightarrow> 't \<Rightarrow> (err + string) \<times> 't" where
  "aws_ECDH_Decode C E ctx input =
     (if \<not> isl (ParseECDHPrivateKeyFromBase64 C (ecdhd_PrivateKey input)) then local_ECDH_Decode C ctx input
      else with_key E ctx (ecdhd_PrivateKey input) (\<lambda>client keyID t.
        attempt (DecodeECCCipherPayload (ecdhd_CipherText input), t) (\<lambda>payload t.
        attempt (wrap_error ''aws-kms: decode ephemeral public key: %w'' (decode_std (pl_EphemeralPublicKey payload)), t) (\<lambda>ephemeral t.
        attempt (wrap_state ''aws-kms: derive shared secret: %w'' (DeriveSharedSecret client ctx keyID ephemeral t)) (\<lambda>sharedSecret t.
        attempt (DeriveECCAESKey C sharedSecret (pl_Curve payload), t) (\<lambda>derivedKey t.
          local_DecryptAES C ctx \<lparr>dec_UID = ecdhd_UID input, dec_SecretKey = std_EncodeToString derivedKey,
            dec_CipherValue = pl_Ciphertext payload, dec_Additional = Some (pl_Curve payload)\<rparr> t))))))"

definition aws_RSA_OAEP_Encode ::
    "('t, 'm) crypto_scheme \<Rightarrow> 't aws_env \<Rightarrow> go_ctx option \<Rightarrow> RSAOAEPEncodeRequest \<Rightarrow> 't \<Rightarrow> (err + string) \<times> 't" where
  "aws_RSA_OAEP_Encode C E ctx input =
     (if \<not> isl (ParseRSAPublicKeyFromBase64 C (oaepe_PublicKey input)) then local_RSA_OAEP_Encode C ctx input
      else with_key E ctx (oaepe_PublicKey input) (\<lambda>client keyID t.
        attempt (wrap_state ''aws-kms: encrypt with rsa-oaep-sha256: %w'' (kms_Encrypt client ctx \<lparr>ei_KeyId = keyID,
            ei_Plaintext = oaepe_Text input, ei_EncryptionContext = Map.empty,
            ei_EncryptionAlgorithm = EncryptionAlgorithmSpecRsaesOaepSha256\<rparr> t)) (\<lambda>ciphertext t.
          (Inr (std_EncodeToString ciphertext), t))))"

definition aws_RSA_OAEP_Decode ::
    "('t, 'm) crypto_scheme \<Rightarrow> 't aws_env \<Rightarrow> go_ctx option \<Rightarrow> RSAOAEPDecodeRequest \<Rightarrow> 't \<Rightarrow> (err + string) \<times> 't" where
  "aws_RSA_OAEP_Decode C E ctx input =
     (if \<not> isl (ParseRSAPrivateKeyFromBase64 C (oaepd_PrivateKey input)) then local_RSA_OAEP_Decode C ctx input
      else with_key E ctx (oaepd_PrivateKey input) (\<lambda>client keyID t.
        attempt (wrap_error ''aws-kms: decode base64 ciphertext: %w'' (decode_std (oaepd_CipherText input)), t) (\<lambda>ciphertext t.
          wrap_state ''aws-kms: decrypt with rsa-oaep-sha256: %w'' (kms_Decrypt client ctx \<lparr>di_KeyId = keyID, di_CiphertextBlob = ciphertext,
            di_EncryptionContext = Map.empty, di_EncryptionAlgorithm = EncryptionAlgorithmSpecRsaesOaepSha256\<rparr> t))))"

subsection \<open>Signatures\<close>

definition remote_sign ::
    "'t aws_env \<Rightarrow> go_ctx option \<Rightarrow> string \<Rightarrow> string \<Rightarrow> SigningAlgorithm \<Rightarrow> string \<Rightarrow> 't \<Rightarrow> (err + string) \<times> 't" where
  "remote_sign E ctx key msg a failure = with_key E ctx key (\<lambda>client keyID t.
     attempt (wrap_state failure (kms_Sign client ctx keyID msg a t)) (\<lambda>signature t. (Inr (std_EncodeToString signature), t)))"

definition remote_verify ::
    "'t aws_env \<Rightarrow> go_ctx option \<Rightarrow> string \<Rightarrow> string \<Rightarrow> string \<Rightarrow> SigningAlgorithm \<Rightarrow> string \<Rightarrow> string \<Rightarrow> 't \<Rightarrow> (err + unit) \<times> 't" where
  "remote_verify E ctx key msg signature a failure invalid = with_key E ctx key (\<lambda>client keyID t.
     attempt (wrap_error ''aws-kms: decode signature from base64: %w'' (decode_std signature), t) (\<lambda>signatureBytes t.
     attempt (wrap_state failure (kms_Verify client ctx keyID msg signatureBytes a t)) (\<lambda>valid t.
       (if valid then Inr () else Inl (Message invalid), t))))"

definition aws_SignEd25519 ::
    "('t, 'm) crypto_scheme \<Rightarrow> 't aws_env \<Rightarrow> go_ctx option \<Rightarrow> string \<Rightarrow> string \<Rightarrow> 't \<Rightarrow> (err + string) \<times> 't" where
  "aws_SignEd25519 C E ctx privateKey msg =
     (if \<not> isl (ParseEd25519PrivateKeyFromBase64 C privateKey) then local_SignEd25519 C ctx privateKey msg
      else remote_sign E ctx privateKey msg SigningAlgorithmSpecEd25519Sha512 ''aws-kms: sign ed25519: %w'')"

definition aws_VerifyEd25519 ::
    "('t, 'm) crypto_scheme \<Rightarrow> 't aws_env \<Rightarrow> go_ctx option \<Rightarrow> string \<Rightarrow> string \<Rightarrow> string \<Rightarrow> 't \<Rightarrow> (err + unit) \<times> 't" where
  "aws_VerifyEd25519 C E ctx publicKey msg signature =
     (if \<not> isl (ParseEd25519PublicKeyFromBase64 C publicKey) then local_VerifyEd25519 C ctx publicKey msg signature
      else remote_verify E ctx publicKey msg signature SigningAlgorithmSpecEd25519Sha512 ''aws-kms: verify ed25519: %w''
        ''aws-kms: invalid Ed25519 signature'')"

definition aws_SignRSAPSS ::
    "('t, 'm) crypto_scheme \<Rightarrow> 't aws_env \<Rightarrow> go_ctx option \<Rightarrow> string \<Rightarrow> string \<Rightarrow> 't \<Rightarrow> (err + string) \<times> 't" where
  "aws_SignRSAPSS C E ctx privateKey msg =
     (if \<not> isl (ParseRSAPrivateKeyFromBase64 C privateKey) then local_SignRSAPSS C ctx privateKey msg
      else remote_sign E ctx privateKey msg SigningAlgorithmSpecRsassaPssSha256 ''aws-kms: sign rsa-pss-sha256: %w'')"

definition aws_VerifyRSAPSS ::
    "('t, 'm) crypto_scheme \<Rightarrow> 't aws_env \<Rightarrow> go_ctx option \<Rightarrow> string \<Rightarrow> string \<Rightarrow> string \<Rightarrow> 't \<Rightarrow> (err + unit) \<times> 't" where
  "aws_VerifyRSAPSS C E ctx publicKey msg signature =
     (if \<not> isl (ParseRSAPublicKeyFromBase64 C publicKey) then local_VerifyRSAPSS C ctx publicKey msg signature
      else remote_verify E ctx publicKey msg signature SigningAlgorithmSpecRsassaPssSha256 ''aws-kms: verify rsa-pss-sha256: %w''
        ''aws-kms: invalid RSA-PSS signature'')"

definition aws_Sign_RSA_PKCS1v15_SHA256 ::
    "('t, 'm) crypto_scheme \<Rightarrow> 't aws_env \<Rightarrow> go_ctx option \<Rightarrow> string \<Rightarrow> string \<Rightarrow> 't \<Rightarrow> (err + string) \<times> 't" where
  "aws_Sign_RSA_PKCS1v15_SHA256 C E ctx privateKey msg t =
     (if privateKey \<noteq> [] \<and> \<not> looksLikeAWSKMSKeyReference E privateKey t then local_Sign_RSA_PKCS1v15_SHA256 C ctx privateKey msg t
      else remote_sign E ctx privateKey msg SigningAlgorithmSpecRsassaPkcs1V15Sha256 ''aws-kms: sign rsa-pkcs1v15-sha256: %w'' t)"

definition aws_Verify_RSA_PKCS1v15_SHA256 ::
    "('t, 'm) crypto_scheme \<Rightarrow> 't aws_env \<Rightarrow> go_ctx option \<Rightarrow> string \<Rightarrow> string \<Rightarrow> string \<Rightarrow> 't \<Rightarrow> (err + unit) \<times> 't" where
  "aws_Verify_RSA_PKCS1v15_SHA256 C E ctx msg publicKey signature t =
     (if publicKey \<noteq> [] \<and> \<not> looksLikeAWSKMSKeyReference E publicKey t
      then local_Verify_RSA_PKCS1v15_SHA256 C ctx msg publicKey signature t
      else remote_verify E ctx publicKey msg signature SigningAlgorithmSpecRsassaPkcs1V15Sha256 ''aws-kms: verify rsa-pkcs1v15-sha256: %w''
        ''aws-kms: invalid RSA SHA-256 signature'' t)"

end
