(* ===== verification/Aws_Guarantees.thy ===== *)
theory Aws_Guarantees
  imports Aws_Kms
begin

text \<open>
  What the AWS backend guarantees: the binding of ciphertexts to user and additional data, key agreement with keys the service
  holds; and where the guess that a key is a local AES key takes the name of a key for the key.
\<close>

subsection \<open>Texts that Base64 accepts\<close>

lemma quanta_alphabet:
  assumes "b64_alphabet al"
  shows "set s \<subseteq> set al \<Longrightarrow> length s = 4 * n \<Longrightarrow> \<exists>b. b64_quanta al padded s = Some b \<and> length b = 3 * n"
proof (induction n arbitrary: s)
  case (Suc n)
  then obtain a b c d r where s: "s = a # b # c # d # r" "length r = 4 * n"
    by (cases s; cases "tl s"; cases "tl (tl s)"; cases "tl (tl (tl s))") auto
  have v: "b64_values al x \<noteq> None" if "x \<in> {a, b, c, d}" for x
  proof -
    have "x \<in> set al" using that Suc.prems(1) s(1) by auto
    then obtain i where "i < 64" "x = al ! i" using assms by (auto simp: in_set_conv_nth b64_alphabet_def)
    then show ?thesis using b64_values_nth assms by simp
  qed
  have "d \<noteq> CHR ''=''" using Suc.prems(1) s(1) assms by (auto simp: b64_alphabet_def)
  moreover obtain q where "b64_quanta al padded r = Some q" "length q = 3 * n" using Suc.IH[of r] Suc.prems(1) s by auto
  ultimately show ?case using v s(1) by (simp add: b64_sextets_def)
qed simp

lemma alphabet_key:
  assumes "set s \<subseteq> set std_alphabet" "length s = 32"
  shows "\<exists>key. std_DecodeString s = Some key \<and> length key = 24" "IsLocalAESKey s"
proof -
  have "filter (\<lambda>c. \<not> is_newline c) s = s" using assms(1) alphabets(1) by (auto simp: filter_id_conv b64_alphabet_def list_all_iff)
  then show "\<exists>key. std_DecodeString s = Some key \<and> length key = 24"
    using quanta_alphabet[OF alphabets(1) assms(1), of 8 True] assms(2) by (simp add: std_DecodeString_def b64_decode_def)
  then show "IsLocalAESKey s" by (auto simp: IsLocalAESKey_def aes_NewCipher_def)
qed

subsection \<open>Calls of the service\<close>

text \<open>The configuration can be loaded at any time and gives this client.\<close>

definition connects :: "'t aws_env \<Rightarrow> go_ctx option \<Rightarrow> 't kmsClient \<Rightarrow> bool" where
  "connects E ctx client \<longleftrightarrow> (\<forall>t. \<exists>t'. loadAWSConfigFn E ctx t = (Inr client, t'))"

lemma with_key_connects:
  assumes "connects E ctx client" "TrimSpace key = keyID" "keyID \<noteq> []"
  obtains t' where "with_key E ctx key body t = body client keyID t'"
proof -
  obtain t' where "loadAWSConfigFn E ctx t = (Inr client, t')" using assms(1) by (auto simp: connects_def)
  then show thesis using that assms(2,3)
    by (simp add: with_key_def newAWSKMSClient_def wrap_state_def resolveAWSKMSKeyID_def)
qed

text \<open>
  What the service documents of a key agreement key: \<open>DeriveSharedSecret\<close> gives the agreement of the key it holds with the
  public key in the request.
\<close>

definition holds_agreement_key :: "('t, 'm) crypto_scheme \<Rightarrow> 't kmsClient \<Rightarrow> string \<Rightarrow> ecdh_PrivateKey \<Rightarrow> bool" where
  "holds_agreement_key C client keyID k \<longleftrightarrow> (\<forall>ctx q der t. MarshalPKIXPublicKey C (PubECDH q) = Inr der \<longrightarrow> pub_Curve q = priv_Curve k
     \<longrightarrow> fst (DeriveSharedSecret client ctx keyID der t) = ecdh_ECDH C k q)"

text \<open>
  And of symmetric keys: what \<open>Encrypt\<close> returns, \<open>Decrypt\<close> opens with the same key and the same encryption context only.
\<close>

definition holds_symmetric_key :: "'t kmsClient \<Rightarrow> string \<Rightarrow> bool" where
  "holds_symmetric_key client keyID \<longleftrightarrow> (\<forall>ctx1 ctx2 p e e' a c t1 t2 t. kms_Encrypt client ctx1 \<lparr>ei_KeyId = keyID, ei_Plaintext = p,
       ei_EncryptionContext = e, ei_EncryptionAlgorithm = a\<rparr> t1 = (Inr c, t2)
     \<longrightarrow> (if e = e' then fst (kms_Decrypt client ctx2 \<lparr>di_KeyId = keyID, di_CiphertextBlob = c, di_EncryptionContext = e',
            di_EncryptionAlgorithm = a\<rparr> t) = Inr p
          else isl (fst (kms_Decrypt client ctx2 \<lparr>di_KeyId = keyID, di_CiphertextBlob = c, di_EncryptionContext = e',
            di_EncryptionAlgorithm = a\<rparr> t))))"

text \<open>Blank user identifiers count as none.\<close>

definition norm_uid :: "string \<Rightarrow> string option" where
  "norm_uid u = (if TrimSpace u = [] then None else Some u)"

lemma context_eq_iff: "awsKMSEncryptionContext u a = awsKMSEncryptionContext u' a' \<longleftrightarrow> norm_uid u = norm_uid u' \<and> a = a'"
proof
  assume eq: "awsKMSEncryptionContext u a = awsKMSEncryptionContext u' a'"
  have "awsKMSEncryptionContext u a ''uid'' = norm_uid u" "awsKMSEncryptionContext u a ''additional'' = a" for u a
    by (simp_all add: awsKMSEncryptionContext_def norm_uid_def Let_def split: option.split)
  with eq show "norm_uid u = norm_uid u' \<and> a = a'" by metis
qed (auto simp: awsKMSEncryptionContext_def norm_uid_def split: if_splits)

lemma aws_EncryptAES_Inr:
  assumes "aws_EncryptAES C E ctx \<lparr>enc_UID = u, enc_SecretKey = key, enc_Value = p, enc_Additional = a\<rparr> t = (Inr out, t')"
    and "connects E ctx client" "\<not> IsLocalAESKey key" "TrimSpace key = keyID" "keyID \<noteq> []"
  obtains c t1 t2 where "kms_Encrypt client ctx \<lparr>ei_KeyId = keyID, ei_Plaintext = p, ei_EncryptionContext = awsKMSEncryptionContext u a,
      ei_EncryptionAlgorithm = EncryptionAlgorithmUnset\<rparr> t1 = (Inr c, t2)" "out = std_EncodeToString c"
proof -
  obtain t1 where "with_key E ctx key (\<lambda>client keyID t.
        attempt (wrap_state ''aws-kms: encrypt with symmetric key: %w'' (kms_Encrypt client ctx \<lparr>ei_KeyId = keyID,
            ei_Plaintext = p, ei_EncryptionContext = awsKMSEncryptionContext u a, ei_EncryptionAlgorithm = EncryptionAlgorithmUnset\<rparr> t))
          (\<lambda>ciphertext t. (Inr (std_EncodeToString ciphertext), t))) t
    = attempt (wrap_state ''aws-kms: encrypt with symmetric key: %w'' (kms_Encrypt client ctx \<lparr>ei_KeyId = keyID,
            ei_Plaintext = p, ei_EncryptionContext = awsKMSEncryptionContext u a, ei_EncryptionAlgorithm = EncryptionAlgorithmUnset\<rparr> t1))
          (\<lambda>ciphertext t. (Inr (std_EncodeToString ciphertext), t))"
    by (rule with_key_connects[OF assms(2,4,5)])
  then show thesis using that assms(1,3) by (auto simp: aws_EncryptAES_def attempt_Inr_iff)
qed

subsection \<open>Properties\<close>

text \<open>
  C32: A text encrypted under an alias that Base64 accepts as a 24-byte key, which every alias of 26 letters and digits is, is
  decrypted by the local backend with nothing but the name of the alias: the service is not asked, the name is the key.\<close>
theorem alias_name_is_the_key:
  assumes "gcm_law C" "rand_law C" "length name = 26" "set name \<subseteq> set std_alphabet"
    and "aws_EncryptAES C E ctx \<lparr>enc_UID = u, enc_SecretKey = ''alias/'' @ name, enc_Value = plain, enc_Additional = a\<rparr> t = (Inr c, t')"
    and "live ctx2"
  shows "local_DecryptAES C ctx2 \<lparr>dec_UID = [], dec_SecretKey = ''alias/'' @ name, dec_CipherValue = c, dec_Additional = a\<rparr> t2 = (Inr plain, t2)"
proof -
  have "set (''alias/'' @ name) \<subseteq> set std_alphabet" using assms(4) by (simp add: std_alphabet_def)
  then have "IsLocalAESKey (''alias/'' @ name)" using assms(3) by (intro alphabet_key(2)) simp_all
  then have "local_EncryptAES C ctx \<lparr>enc_UID = u, enc_SecretKey = ''alias/'' @ name, enc_Value = plain, enc_Additional = a\<rparr> t = (Inr c, t')"
    using assms(5) by (simp add: aws_EncryptAES_def)
  then show ?thesis using assms(6) decrypt_encryptAES[OF assms(1,2)]
    by (auto simp: local_EncryptAES_def local_DecryptAES_def runWithContext_Inr pure_def)
qed

text \<open>An environment in which loading the configuration fails, to show that the service is not asked.\<close>

definition offline :: "nat aws_env" where
  "offline = \<lparr>loadAWSConfigFn = (\<lambda>ctx t. (Inl (Message ''offline''), t)), viper_GetString = (\<lambda>k t. [])\<rparr>"

theorem alias_name_is_the_key_witness:
  "\<exists>c t'. aws_EncryptAES toy_crypto offline toy_ctx \<lparr>enc_UID = [], enc_SecretKey = ''alias/ProductionMasterKey0000001'',
      enc_Value = ''secret'', enc_Additional = None\<rparr> 7 = (Inr c, t')
    \<and> local_DecryptAES toy_crypto toy_ctx \<lparr>dec_UID = [], dec_SecretKey = ''alias/ProductionMasterKey0000001'', dec_CipherValue = c,
        dec_Additional = None\<rparr> 9 = (Inr ''secret'', 9)"
proof -
  let ?n = "''ProductionMasterKey0000001''"
  have n: "length ?n = 26" "set ?n \<subseteq> set std_alphabet" by (simp_all add: std_alphabet_def)
  have s: "set (''alias/'' @ ?n) \<subseteq> set std_alphabet" "length (''alias/'' @ ?n) = 32" using n by (simp_all add: std_alphabet_def)
  obtain key where key: "std_DecodeString (''alias/'' @ ?n) = Some key" "length key = 24" using alphabet_key(1)[OF s] by blast
  have "\<exists>c t'. aws_EncryptAES toy_crypto offline toy_ctx \<lparr>enc_UID = [], enc_SecretKey = ''alias/'' @ ?n, enc_Value = ''secret'',
      enc_Additional = None\<rparr> 7 = (Inr c, t')"
    using alphabet_key(2)[OF s] key unfolding aws_EncryptAES_def local_EncryptAES_def
    by (simp add: encryptAES_def decode_std_def aes_NewCipher_def toy_crypto_def)
  then obtain c t' where c: "aws_EncryptAES toy_crypto offline toy_ctx \<lparr>enc_UID = [], enc_SecretKey = ''alias/'' @ ?n,
      enc_Value = ''secret'', enc_Additional = None\<rparr> 7 = (Inr c, t')" by blast
  show ?thesis using c alias_name_is_the_key[OF toy_laws(2,1) n c toy_live, of 9] by auto
qed

text \<open>
  A service for the witnesses: it encrypts without a context only, returns the plaintext as the ciphertext, and gives one
  constant as every shared secret.
\<close>

definition toy_kms :: "nat kmsClient" where
  "toy_kms = \<lparr>CreateKey = (\<lambda>ctx i t. (Inl (Message ''denied''), t)), DescribeKey = (\<lambda>ctx i t. (Inl (Message ''denied''), t)),
     DeriveSharedSecret = (\<lambda>ctx k q t. (Inr ''secret'', t + 1)), DisableKey = (\<lambda>ctx k t. (Inr (), t)),
     GetPublicKey = (\<lambda>ctx k t. (Inl (Message ''denied''), t)),
     kms_Encrypt = (\<lambda>ctx i t. (if ei_EncryptionContext i = Map.empty then Inr (ei_Plaintext i) else Inl (Message ''denied''), t + 1)),
     kms_Decrypt = (\<lambda>ctx i t. (if di_EncryptionContext i = Map.empty then Inr (di_CiphertextBlob i) else Inl (Message ''denied''), t + 1)),
     GenerateMac = (\<lambda>ctx k m t. (Inl (Message ''denied''), t)), RotateKeyOnDemand = (\<lambda>ctx k t. (Inl (Message ''denied''), t)),
     kms_Sign = (\<lambda>ctx k m a t. (Inl (Message ''denied''), t)), kms_Verify = (\<lambda>ctx k m s a t. (Inr False, t))\<rparr>"

definition online :: "nat aws_env" where
  "online = \<lparr>loadAWSConfigFn = (\<lambda>ctx t. (Inr toy_kms, t + 1)), viper_GetString = (\<lambda>k t. [])\<rparr>"

lemma toy_kms_laws: "connects online ctx toy_kms" "holds_symmetric_key toy_kms keyID" "holds_agreement_key toy_crypto toy_kms keyID k"
  by (auto simp: connects_def online_def holds_symmetric_key_def holds_agreement_key_def toy_kms_def toy_crypto_def)

lemma mrk_key: "TrimSpace ''mrk-1'' = ''mrk-1''" "\<not> IsLocalAESKey ''mrk-1''"
  by code_simp+

text \<open>
  C33: A ciphertext of a key the service holds is bound to the user and the additional data: \<open>DecryptAES\<close> with the same key
  returns the plaintext when both are the same, blank users counting as none, and fails otherwise.\<close>
theorem AES_binding:
  assumes "holds_symmetric_key client keyID" "connects E ctx client" "connects E ctx2 client"
    and "\<not> IsLocalAESKey key" "TrimSpace key = keyID" "keyID \<noteq> []"
    and "aws_EncryptAES C E ctx \<lparr>enc_UID = u, enc_SecretKey = key, enc_Value = p, enc_Additional = a\<rparr> t = (Inr out, t')"
  shows "if norm_uid u' = norm_uid u \<and> a' = a
    then fst (aws_DecryptAES C E ctx2 \<lparr>dec_UID = u', dec_SecretKey = key, dec_CipherValue = out, dec_Additional = a'\<rparr> t2) = Inr p
    else isl (fst (aws_DecryptAES C E ctx2 \<lparr>dec_UID = u', dec_SecretKey = key, dec_CipherValue = out, dec_Additional = a'\<rparr> t2))"
  using assms(7,2,4,5,6)
proof (rule aws_EncryptAES_Inr)
  fix c s1 s2
  assume enc: "kms_Encrypt client ctx \<lparr>ei_KeyId = keyID, ei_Plaintext = p, ei_EncryptionContext = awsKMSEncryptionContext u a,
      ei_EncryptionAlgorithm = EncryptionAlgorithmUnset\<rparr> s1 = (Inr c, s2)" and out: "out = std_EncodeToString c"
  let ?body = "\<lambda>client keyID t. attempt (wrap_error ''aws-kms: decode base64 ciphertext: %w'' (decode_std out), t) (\<lambda>ciphertext t.
          wrap_state ''aws-kms: decrypt with symmetric key: %w'' (kms_Decrypt client ctx2 \<lparr>di_KeyId = keyID, di_CiphertextBlob = ciphertext,
            di_EncryptionContext = awsKMSEncryptionContext u' a', di_EncryptionAlgorithm = EncryptionAlgorithmUnset\<rparr> t))"
  obtain t3 where w: "with_key E ctx2 key ?body t2 = ?body client keyID t3" by (rule with_key_connects[OF assms(3,5,6)])
  let ?dec = "fst (kms_Decrypt client ctx2 \<lparr>di_KeyId = keyID, di_CiphertextBlob = c, di_EncryptionContext = awsKMSEncryptionContext u' a',
    di_EncryptionAlgorithm = EncryptionAlgorithmUnset\<rparr> t3)"
  have d: "fst (aws_DecryptAES C E ctx2 \<lparr>dec_UID = u', dec_SecretKey = key, dec_CipherValue = out, dec_Additional = a'\<rparr> t2)
      = wrap_error ''aws-kms: decrypt with symmetric key: %w'' ?dec"
    using assms(4) w by (simp add: aws_DecryptAES_def out wrap_state_def split: prod.split)
  have "if awsKMSEncryptionContext u a = awsKMSEncryptionContext u' a' then ?dec = Inr p else isl ?dec"
    using assms(1) enc unfolding holds_symmetric_key_def by blast
  then show ?thesis unfolding d by (cases ?dec) (auto simp: context_eq_iff split: if_splits)
qed

theorem AES_binding_witness:
  "\<exists>out t'. aws_EncryptAES toy_crypto online toy_ctx \<lparr>enc_UID = '' '', enc_SecretKey = ''mrk-1'', enc_Value = ''v'', enc_Additional = None\<rparr> 1
      = (Inr out, t')
    \<and> fst (aws_DecryptAES toy_crypto online toy_ctx \<lparr>dec_UID = [], dec_SecretKey = ''mrk-1'', dec_CipherValue = out, dec_Additional = None\<rparr> 5) = Inr ''v''
    \<and> isl (fst (aws_DecryptAES toy_crypto online toy_ctx \<lparr>dec_UID = [], dec_SecretKey = ''mrk-1'', dec_CipherValue = out, dec_Additional = Some []\<rparr> 5))"
proof -
  have blank: "TrimSpace '' '' = []" "TrimSpace [] = []" by code_simp+
  have "\<exists>out t'. aws_EncryptAES toy_crypto online toy_ctx \<lparr>enc_UID = '' '', enc_SecretKey = ''mrk-1'', enc_Value = ''v'', enc_Additional = None\<rparr> 1
      = (Inr out, t')"
    by (simp add: aws_EncryptAES_def mrk_key blank with_key_def newAWSKMSClient_def wrap_state_def resolveAWSKMSKeyID_def online_def toy_kms_def
        awsKMSEncryptionContext_def)
  then obtain out t' where e: "aws_EncryptAES toy_crypto online toy_ctx \<lparr>enc_UID = '' '', enc_SecretKey = ''mrk-1'', enc_Value = ''v'',
      enc_Additional = None\<rparr> 1 = (Inr out, t')" by blast
  note b = AES_binding[where ?ctx2.0 = toy_ctx, OF toy_kms_laws(2,1,1) mrk_key(2,1) _ e]
  show ?thesis using e b[where u' = "[]" and a' = None and ?t2.0 = 5] b[where u' = "[]" and a' = "Some []" and ?t2.0 = 5] blank by (auto simp: norm_uid_def)
qed

text \<open>
  A text encoded locally to the public key of a key pair the service holds is decoded by \<open>ECDH_Decode\<close> with the reference
  of that key: the agreement is computed by the service, the rest here.\<close>
theorem agreement_roundtrip:
  assumes "ecdh_law C" "gcm_law C" "rand_law C" "holds_agreement_key C client keyID k" "connects E ctx2 client" "live ctx2"
    and "local_ECDH_Encode C ctx \<lparr>ecdhe_UID = u, ecdhe_PublicKey = public, ecdhe_Text = plain\<rparr> t = (Inr out, t')"
    and "ParseECDHPublicKeyFromBase64 C public = Inr (ecdh_Public C k)"
    and "isl (ParseECDHPrivateKeyFromBase64 C ref)" "TrimSpace ref = keyID" "keyID \<noteq> []"
  shows "fst (aws_ECDH_Decode C E ctx2 \<lparr>ecdhd_UID = u2, ecdhd_PrivateKey = ref, ecdhd_CipherText = out\<rparr> t2) = Inr plain"
proof -
  let ?in = "\<lparr>ecdhe_UID = u, ecdhe_PublicKey = public, ecdhe_Text = plain\<rparr>"
  have pub: "ParseECDHPublicKeyFromBase64 C (ecdhe_PublicKey ?in) = Inr (ecdh_Public C k)" using assms(8) by simp
  obtain name eph secret derived c t1 t3 der where
    h: "CurveNameFromECDH (pub_Curve (ecdh_Public C k)) = Inr name" "ecdh_GenerateKey C (pub_Curve (ecdh_Public C k)) t = (Inr eph, t1)"
    "ecdh_ECDH C eph (ecdh_Public C k) = Inr secret" "DeriveECCAESKey C secret name = Inr derived"
    "encryptAES C (std_EncodeToString derived) (ecdhe_Text ?in) (Some name) t1 = (Inr c, t3)"
    "MarshalPKIXPublicKey C (PubECDH (ecdh_Public C eph)) = Inr der"
    "out = EncodeECCCipherPayload \<lparr>pl_Curve = name, pl_EphemeralPublicKey = std_EncodeToString der, pl_Ciphertext = c\<rparr>"
    by (rule ECDH_Encode_Inr[OF assms(7) pub])
  have curves: "pub_Curve (ecdh_Public C k) = priv_Curve k" "priv_Curve eph = priv_Curve k" "pub_Curve (ecdh_Public C eph) = priv_Curve k"
    using assms(1) h(2) by (metis ecdh_law_def)+
  have "ecdh_ECDH C k (ecdh_Public C eph) = Inr secret" using assms(1) h(3) curves(2) by (metis ecdh_law_def)
  then have secret: "fst (DeriveSharedSecret client ctx2 keyID der s) = Inr secret" for s
    using assms(4) h(6) curves(3) by (simp add: holds_agreement_key_def)
  have "der \<noteq> []" using assms(1) h(6) by (metis ecdh_law_def)
  then have payload: "DecodeECCCipherPayload out = Inr \<lparr>pl_Curve = name, pl_EphemeralPublicKey = std_EncodeToString der, pl_Ciphertext = c\<rparr>"
    unfolding h(7) using CurveName_valid[OF h(1)] encryptAES_not_Nil[OF assms(3) h(5)] by (intro payload_parse) simp_all
  have dec: "decryptAES C (std_EncodeToString derived) c (Some name) = Inr plain" using decrypt_encryptAES[OF assms(2,3) h(5)] by simp
  let ?body = "\<lambda>client keyID t. attempt (DecodeECCCipherPayload out, t) (\<lambda>payload t.
        attempt (wrap_error ''aws-kms: decode ephemeral public key: %w'' (decode_std (pl_EphemeralPublicKey payload)), t) (\<lambda>ephemeral t.
        attempt (wrap_state ''aws-kms: derive shared secret: %w'' (DeriveSharedSecret client ctx2 keyID ephemeral t)) (\<lambda>sharedSecret t.
        attempt (DeriveECCAESKey C sharedSecret (pl_Curve payload), t) (\<lambda>derivedKey t.
          local_DecryptAES C ctx2 \<lparr>dec_UID = u2, dec_SecretKey = std_EncodeToString derivedKey,
            dec_CipherValue = pl_Ciphertext payload, dec_Additional = Some (pl_Curve payload)\<rparr> t))))"
  obtain t4 where w: "with_key E ctx2 ref ?body t2 = ?body client keyID t4" by (rule with_key_connects[OF assms(5,10,11)])
  obtain t5 where s: "DeriveSharedSecret client ctx2 keyID der t4 = (Inr secret, t5)" using secret[of t4] by (metis prod.collapse)
  have "aws_ECDH_Decode C E ctx2 \<lparr>ecdhd_UID = u2, ecdhd_PrivateKey = ref, ecdhd_CipherText = out\<rparr> t2 = ?body client keyID t4"
    using w assms(9) by (simp add: aws_ECDH_Decode_def)
  moreover have "fst (?body client keyID t4) = Inr plain"
    using assms(6) h(4) s dec by (simp add: payload wrap_state_def local_DecryptAES_def pure_def)
  ultimately show ?thesis by simp
qed

theorem agreement_roundtrip_witness:
  "\<exists>out t'. local_ECDH_Encode toy_crypto toy_ctx \<lparr>ecdhe_UID = [], ecdhe_PublicKey = std_EncodeToString ''E3k'', ecdhe_Text = ''hi''\<rparr> 6 = (Inr out, t')
    \<and> fst (aws_ECDH_Decode toy_crypto online toy_ctx \<lparr>ecdhd_UID = [], ecdhd_PrivateKey = ''mrk-1'', ecdhd_CipherText = out\<rparr> 8) = Inr ''hi''"
proof -
  let ?k = "\<lparr>priv_Curve = P384, priv_Bytes = ''k''\<rparr>"
  have pub: "ParseECDHPublicKeyFromBase64 toy_crypto (std_EncodeToString ''E3k'') = Inr (ecdh_Public toy_crypto ?k)"
    by (simp add: ParseECDHPublicKeyFromBase64_def decode_public_def parseECDHPublicKey_def parse_public_def toy_crypto_def byte_curve_def)
  have "std_DecodeString ''mrk-1'' = None" by code_simp
  then have priv: "isl (ParseECDHPrivateKeyFromBase64 toy_crypto ''mrk-1'')"
    by (simp add: ParseECDHPrivateKeyFromBase64_def decode_private_def decode_std_def)
  have "\<exists>out t'. local_ECDH_Encode toy_crypto toy_ctx \<lparr>ecdhe_UID = [], ecdhe_PublicKey = std_EncodeToString ''E3k'', ecdhe_Text = ''hi''\<rparr> 6
      = (Inr out, t')"
    using pub by (simp add: local_ECDH_Encode_def) (simp add: toy_crypto_def CurveNameFromECDH_def DeriveECCAESKey_def encryptAES_def
      aes_NewCipher_def wrap_state_def curve_byte_def)
  then obtain out t' where e: "local_ECDH_Encode toy_crypto toy_ctx
      \<lparr>ecdhe_UID = [], ecdhe_PublicKey = std_EncodeToString ''E3k'', ecdhe_Text = ''hi''\<rparr> 6 = (Inr out, t')" by blast
  show ?thesis
    using e agreement_roundtrip[OF toy_laws(3,2,1) toy_kms_laws(3,1) toy_live e pub priv mrk_key(1), of "[]" 8] by auto
qed

end
