(* ===== verification/Gcp_Kms.thy ===== *)
theory Gcp_Kms
  imports Kms_Strings Encrypt_Local
begin

text \<open>
  The Google Cloud KMS backend, \<^verbatim>\<open>encrypt/gcp-kms/repository.go\<close>. The client of the service is a parameter, with one
  function per method of the interface \<open>gcpKMSClient\<close>, working on the state of the outside world; so are the configuration,
  the clock and Go's ML-KEM. Tracing spans are left out.
\<close>

subsection \<open>The service\<close>

datatype purpose = PURPOSE_UNSPECIFIED | ENCRYPT_DECRYPT | ASYMMETRIC_SIGN | ASYMMETRIC_DECRYPT | MAC | KEY_ENCAPSULATION | OtherPurpose string

text \<open>\<open>ALGORITHM_UNSPECIFIED\<close> is the zero value.\<close>

datatype algorithm = ALGORITHM_UNSPECIFIED | GOOGLE_SYMMETRIC_ENCRYPTION
  | RSA_DECRYPT_OAEP_2048_SHA256 | RSA_DECRYPT_OAEP_3072_SHA256 | RSA_DECRYPT_OAEP_4096_SHA256
  | EC_SIGN_ED25519 | ML_KEM_768 | ML_KEM_1024 | OtherAlgorithm string

datatype version_state = ENABLED | DISABLED | DESTROYED

datatype public_key_format = FORMAT_UNSPECIFIED | NIST_PQC

datatype sign_input = SignData string | SignDigest string

record CryptoKey =
  ck_Name :: string
  ck_Purpose :: purpose
  ck_Primary :: "string option"
  ck_Algorithm :: algorithm

record CreateCryptoKeyRequest =
  cr_Parent :: string
  cr_CryptoKeyId :: string
  cr_Purpose :: purpose
  cr_Labels :: "(string \<times> string) list"
  cr_Algorithm :: algorithm

record UpdateCryptoKeyVersionRequest =
  uv_Name :: string
  uv_State :: version_state
  uv_Mask :: "string list"

record PublicKeyResponse =
  pk_Pem :: string
  pk_Algorithm :: algorithm
  pk_Data :: string

text \<open>
  Of a crypto key version only the name is used. The interface, one field per method; \<open>MacVerify\<close> is never called.
\<close>

record 't gcpKMSClient =
  CreateCryptoKey :: "go_ctx option \<Rightarrow> CreateCryptoKeyRequest \<Rightarrow> 't \<Rightarrow> (err + CryptoKey) \<times> 't"
  CreateCryptoKeyVersion :: "go_ctx option \<Rightarrow> string \<Rightarrow> algorithm \<Rightarrow> 't \<Rightarrow> (err + string) \<times> 't"
  GetCryptoKey :: "go_ctx option \<Rightarrow> string \<Rightarrow> 't \<Rightarrow> (err + CryptoKey) \<times> 't"
  GetPublicKey :: "go_ctx option \<Rightarrow> string \<Rightarrow> public_key_format \<Rightarrow> 't \<Rightarrow> (err + PublicKeyResponse) \<times> 't"
  UpdateCryptoKeyVersion :: "go_ctx option \<Rightarrow> UpdateCryptoKeyVersionRequest \<Rightarrow> 't \<Rightarrow> (err + unit) \<times> 't"
  UpdateCryptoKeyPrimaryVersion :: "go_ctx option \<Rightarrow> string \<Rightarrow> string \<Rightarrow> 't \<Rightarrow> (err + CryptoKey) \<times> 't"
  kms_Encrypt :: "go_ctx option \<Rightarrow> string \<Rightarrow> string \<Rightarrow> string \<Rightarrow> 't \<Rightarrow> (err + string) \<times> 't"
  kms_Decrypt :: "go_ctx option \<Rightarrow> string \<Rightarrow> string \<Rightarrow> string \<Rightarrow> 't \<Rightarrow> (err + string) \<times> 't"
  AsymmetricSign :: "go_ctx option \<Rightarrow> string \<Rightarrow> sign_input \<Rightarrow> 't \<Rightarrow> (err + string) \<times> 't"
  AsymmetricDecrypt :: "go_ctx option \<Rightarrow> string \<Rightarrow> string \<Rightarrow> 't \<Rightarrow> (err + string) \<times> 't"
  Decapsulate :: "go_ctx option \<Rightarrow> string \<Rightarrow> string \<Rightarrow> 't \<Rightarrow> (err + string) \<times> 't"
  MacSign :: "go_ctx option \<Rightarrow> string \<Rightarrow> string \<Rightarrow> 't \<Rightarrow> (err + string) \<times> 't"
  Close :: "'t \<Rightarrow> 't"

text \<open>\<open>Encapsulate768\<close> and \<open>Encapsulate1024\<close> parse the public key and return the shared secret and the ciphertext.\<close>

record 't gcp_env =
  newGCPKMSClientFn :: "go_ctx option \<Rightarrow> 't \<Rightarrow> (err + 't gcpKMSClient) \<times> 't"
  viper_GetString :: "string \<Rightarrow> 't \<Rightarrow> string"
  time_UnixNano :: "'t \<Rightarrow> nat \<times> 't"
  Encapsulate768 :: "string \<Rightarrow> 't \<Rightarrow> (err + string \<times> string) \<times> 't"
  Encapsulate1024 :: "string \<Rightarrow> 't \<Rightarrow> (err + string \<times> string) \<times> 't"

subsection \<open>Constants and errors\<close>

definition defaultGCPKeyIDKey :: string where "defaultGCPKeyIDKey = ''encrypt.vault.gcp-kms.key-id''"
definition legacyGCPKeyIDKey :: string where "legacyGCPKeyIDKey = ''encrypt.gcp-kms.key-id''"
definition gcpProviderName :: string where "gcpProviderName = ''gcp-kms''"
definition gcpSymmetricKeyPrefix :: string where "gcpSymmetricKeyPrefix = ''GoForge-symmetric''"
definition gcpAsymmetricKeyPrefix :: string where "gcpAsymmetricKeyPrefix = ''GoForge-rsa''"
definition gcpKEMKeyPrefix :: string where "gcpKEMKeyPrefix = ''GoForge-kem''"
definition gcpEd25519KeyPrefix :: string where "gcpEd25519KeyPrefix = ''GoForge-ed25519''"

definition errGCPKMSKeyIDRequired :: err where "errGCPKMSKeyIDRequired = Message ''gcp-kms: key id is required''"
definition errGCPKMSKeyRingRequired :: err where "errGCPKMSKeyRingRequired = Message ''gcp-kms: key ring path is required''"
definition errGCPKMSVersionRequired :: err where "errGCPKMSVersionRequired = Message ''gcp-kms: crypto key version is required''"
definition errGCPECCUnsupported :: err where
  "errGCPECCUnsupported = Message ''gcp-kms: provider-backed ECDH is not supported; Cloud KMS uses key encapsulation''"

definition newGCPClient :: "'t gcp_env \<Rightarrow> go_ctx option \<Rightarrow> 't \<Rightarrow> (err + 't gcpKMSClient) \<times> 't" where
  "newGCPClient E ctx t = wrap_state ''gcp-kms: create client: %w'' (newGCPKMSClientFn E ctx t)"

text \<open>Opening a client, and closing it when the operation is over.\<close>

definition using_client :: "'t gcp_env \<Rightarrow> go_ctx option \<Rightarrow> ('t gcpKMSClient \<Rightarrow> 't \<Rightarrow> (err + 'a) \<times> 't) \<Rightarrow> 't \<Rightarrow> (err + 'a) \<times> 't" where
  "using_client E ctx body t =
     attempt (newGCPClient E ctx t) (\<lambda>client t. case body client t of (r, t) \<Rightarrow> (r, Close client t))"

subsection \<open>Names of keys\<close>

definition configuredGCPKeyID :: "'t gcp_env \<Rightarrow> 't \<Rightarrow> string" where
  "configuredGCPKeyID E t =
     (let configured = TrimSpace (viper_GetString E defaultGCPKeyIDKey t) in
      if configured \<noteq> [] then configured else TrimSpace (viper_GetString E legacyGCPKeyIDKey t))"

definition raw_key :: "'t gcp_env \<Rightarrow> string \<Rightarrow> 't \<Rightarrow> string" where
  "raw_key E key t = (if TrimSpace key = [] then configuredGCPKeyID E t else TrimSpace key)"

definition name_segments :: "string \<Rightarrow> string list" where
  "name_segments name = Split (CHR ''/'') (Trim_set name ''/'')"

definition resolveGCPKeyRingName :: "'t gcp_env \<Rightarrow> string \<Rightarrow> 't \<Rightarrow> err + string" where
  "resolveGCPKeyRingName E key t =
     (let rawKey = raw_key E key t; segments = name_segments rawKey in
      if rawKey = [] then Inl errGCPKMSKeyIDRequired
      else (case find (\<lambda>i. segments ! i = ''cryptoKeys'' \<and> 5 \<le> i) [0..<length segments] of
          Some i \<Rightarrow> Inr (Go_Strings.Join (take i segments) ''/'')
        | None \<Rightarrow> Inl errGCPKMSKeyRingRequired))"

definition resolveGCPCryptoKeyName :: "'t gcp_env \<Rightarrow> string \<Rightarrow> 't \<Rightarrow> err + string" where
  "resolveGCPCryptoKeyName E key t =
     (let rawKey = raw_key E key t in
      if rawKey = [] then Inl errGCPKMSKeyIDRequired
      else (case before_first ''/cryptoKeyVersions/'' rawKey of Some name \<Rightarrow> Inr name
        | None \<Rightarrow> if Contains rawKey ''/cryptoKeys/'' then Inr rawKey else Inl errGCPKMSKeyIDRequired))"

definition resolveGCPCryptoKeyVersionName :: "'t gcp_env \<Rightarrow> string \<Rightarrow> 't \<Rightarrow> err + string" where
  "resolveGCPCryptoKeyVersionName E key t =
     (let rawKey = raw_key E key t in
      if rawKey = [] then Inl errGCPKMSKeyIDRequired
      else if Contains rawKey ''/cryptoKeyVersions/'' then Inr rawKey
      else Inl errGCPKMSVersionRequired)"

definition resolveGCPKeyLookupNames :: "'t gcp_env \<Rightarrow> string \<Rightarrow> 't \<Rightarrow> err + string \<times> string" where
  "resolveGCPKeyLookupNames E key t =
     (let rawKey = raw_key E key t in
      if rawKey = [] then Inl errGCPKMSKeyIDRequired
      else if Contains rawKey ''/cryptoKeyVersions/'' then
        sum_bind (resolveGCPCryptoKeyName E rawKey t) (\<lambda>keyName. Inr (keyName, rawKey))
      else if Contains rawKey ''/cryptoKeys/'' then Inr (rawKey, [])
      else sum_bind (resolveGCPKeyRingName E [] t) (\<lambda>keyRingName.
        Inr (TrimRight_set keyRingName ''/'' @ ''/cryptoKeys/'' @ rawKey, [])))"

text \<open>The segment behind the first \<open>collection\<close> that has one behind it.\<close>

fun segment_after :: "string \<Rightarrow> string list \<Rightarrow> string option" where
  "segment_after collection (a # b # r) = (if a = collection then Some b else segment_after collection (b # r))"
| "segment_after collection _ = None"

definition gcpKeyIDFromName :: "string \<Rightarrow> string" where
  "gcpKeyIDFromName keyName = (case segment_after ''cryptoKeys'' (name_segments keyName) of Some s \<Rightarrow> s | None \<Rightarrow> keyName)"

definition gcpCryptoKeyVersionID :: "string \<Rightarrow> err + string" where
  "gcpCryptoKeyVersionID versionName =
     (case segment_after ''cryptoKeyVersions'' (name_segments versionName) of Some s \<Rightarrow> Inr s | None \<Rightarrow> Inl errGCPKMSVersionRequired)"

definition gcpPublicVersionName :: "string \<Rightarrow> CryptoKey \<Rightarrow> string \<Rightarrow> string" where
  "gcpPublicVersionName keyName cryptoKey versionName =
     (if TrimSpace versionName \<noteq> [] then versionName
      else (case ck_Primary cryptoKey of
          Some name \<Rightarrow> if name \<noteq> [] then name else TrimRight_set keyName ''/'' @ ''/cryptoKeyVersions/1''
        | None \<Rightarrow> TrimRight_set keyName ''/'' @ ''/cryptoKeyVersions/1''))"

definition looksLikeGCPKMSKeyReference :: "'t gcp_env \<Rightarrow> string \<Rightarrow> 't \<Rightarrow> bool" where
  "looksLikeGCPKMSKeyReference E key t \<longleftrightarrow>
     (let trimmed = TrimSpace key in
      if trimmed = [] then configuredGCPKeyID E t \<noteq> [] else HasPrefix trimmed ''projects/'')"

subsection \<open>Labels and additional data\<close>

definition label_char :: "nat \<Rightarrow> char" where
  "label_char r = (if (0x61 \<le> r \<and> r \<le> 0x7A) \<or> (0x30 \<le> r \<and> r \<le> 0x39) \<or> r = 0x2D \<or> r = 0x5F then char_of r else CHR ''-'')"

definition gcpLabelValue :: "string \<Rightarrow> string" where
  "gcpLabelValue value =
     (let trimmed = ToLower (TrimSpace value); label = Trim_set (map label_char (runes trimmed)) ''-_'' in
      if length label > 63 then TrimRight_set (take 63 label) ''-_'' else label)"

definition gcpUIDLabels :: "string \<Rightarrow> (string \<times> string) list" where
  "gcpUIDLabels uid = (let value = gcpLabelValue uid in if value = [] then [] else [(''uid'', value)])"

definition gcpAuthenticatedData :: "string \<Rightarrow> string option \<Rightarrow> string" where
  "gcpAuthenticatedData uid additional =
     (if TrimSpace uid = [] then BytesFromOptionalString additional
      else (case additional of None \<Rightarrow> uid | Some a \<Rightarrow> uid @ [CHR 0x00] @ a))"

subsection \<open>Algorithms\<close>

definition gcpRSADecryptAlgorithm :: "SizeAsymetrycKey \<Rightarrow> err + algorithm" where
  "gcpRSADecryptAlgorithm sz =
     (if sz = Key2048Bits then Inr RSA_DECRYPT_OAEP_2048_SHA256
      else if sz = Key3072Bits then Inr RSA_DECRYPT_OAEP_3072_SHA256
      else if sz = Key4096Bits then Inr RSA_DECRYPT_OAEP_4096_SHA256
      else Inl (Errorf ''gcp-kms: unsupported rsa key size: %d'' [decimal (unat sz)]))"

definition gcpKEMAlgorithm :: "CurveAsymmetricKey \<Rightarrow> err + algorithm" where
  "gcpKEMAlgorithm curve =
     (if curve = CurveP256 then Inr ML_KEM_768 else if curve = CurveP384 \<or> curve = CurveP521 then Inr ML_KEM_1024
      else Inl (Errorf ''gcp-kms: unsupported kem curve mapping: %q'' [curve_String curve]))"

definition gcpKEMAlgorithmName :: "algorithm \<Rightarrow> err + string" where
  "gcpKEMAlgorithmName a =
     (if a = ML_KEM_768 then Inr ''ML_KEM_768'' else if a = ML_KEM_1024 then Inr ''ML_KEM_1024''
      else Inl (WrapErr ''%w: unsupported algorithm %s'' [errGCPECCUnsupported]))"

definition gcpKEMAlgorithmFromPublicKey :: "string \<Rightarrow> err + algorithm" where
  "gcpKEMAlgorithmFromPublicKey publicKey =
     (if length publicKey = 1184 then Inr ML_KEM_768 else if length publicKey = 1568 then Inr ML_KEM_1024
      else Inl (Errorf ''gcp-kms: unsupported kem public key size: %d'' [decimal (length publicKey)]))"

definition gcpRotationAlgorithm :: "CryptoKey \<Rightarrow> err + algorithm" where
  "gcpRotationAlgorithm cryptoKey =
     (if ck_Algorithm cryptoKey \<noteq> ALGORITHM_UNSPECIFIED then Inr (ck_Algorithm cryptoKey)
      else if ck_Purpose cryptoKey = ENCRYPT_DECRYPT then Inr GOOGLE_SYMMETRIC_ENCRYPTION
      else Inl (Message ''gcp-kms: missing crypto key version template algorithm''))"

subsection \<open>Versions and public keys\<close>

definition ensureGCPVersion ::
    "go_ctx option \<Rightarrow> 't gcpKMSClient \<Rightarrow> string \<Rightarrow> algorithm \<Rightarrow> string option \<Rightarrow> 't \<Rightarrow> (err + string) \<times> 't" where
  "ensureGCPVersion ctx client cryptoKeyName algorithm primary t =
     (if primary \<noteq> None \<and> the primary \<noteq> [] then (Inr (the primary), t)
      else attempt (wrap_state ''gcp-kms: create crypto key version: %w'' (CreateCryptoKeyVersion client ctx cryptoKeyName algorithm t)) (\<lambda>name t.
        if name = [] then (Inl (Message ''gcp-kms: missing crypto key version metadata''), t) else (Inr name, t)))"

definition fetchGCPPublicKey ::
    "('t, 'm) crypto_scheme \<Rightarrow> go_ctx option \<Rightarrow> 't gcpKMSClient \<Rightarrow> string \<Rightarrow> 't \<Rightarrow> (err + string) \<times> 't" where
  "fetchGCPPublicKey C ctx client versionName t =
     attempt (wrap_state ''gcp-kms: get public key: %w'' (GetPublicKey client ctx versionName FORMAT_UNSPECIFIED t)) (\<lambda>response t.
       (case pem_Decode C (pk_Pem response) of None \<Rightarrow> Inl (Message ''gcp-kms: invalid PEM public key'') | Some bytes \<Rightarrow> Inr bytes, t))"

definition fetchGCPKEMPublicKey :: "go_ctx option \<Rightarrow> 't gcpKMSClient \<Rightarrow> string \<Rightarrow> 't \<Rightarrow> (err + string \<times> algorithm) \<times> 't" where
  "fetchGCPKEMPublicKey ctx client versionName t =
     attempt (wrap_state ''gcp-kms: get kem public key: %w'' (GetPublicKey client ctx versionName NIST_PQC t)) (\<lambda>response t.
     attempt (gcpKEMAlgorithmName (pk_Algorithm response), t) (\<lambda>_ t.
       if pk_Data response = [] then (Inl (Message ''gcp-kms: missing kem public key material''), t)
       else (Inr (pk_Data response, pk_Algorithm response), t)))"

definition gcpKeyDataFromCryptoKey ::
    "('t, 'm) crypto_scheme \<Rightarrow> go_ctx option \<Rightarrow> 't gcpKMSClient \<Rightarrow> CryptoKey \<Rightarrow> string \<Rightarrow> string \<Rightarrow> 't \<Rightarrow> (err + KeyData) \<times> 't" where
  "gcpKeyDataFromCryptoKey C ctx client cryptoKey fallbackKeyName versionName t =
     (let keyName = (if ck_Name cryptoKey = [] then fallbackKeyName else ck_Name cryptoKey);
          publicVersionName = gcpPublicVersionName keyName cryptoKey versionName;
          data = (\<lambda>publicKey keyRef. \<lparr>kd_PublicKey = publicKey, kd_KeyID = gcpKeyIDFromName keyName, kd_KeyRef = keyRef,
            kd_Provider = gcpProviderName\<rparr>)
      in if keyName = [] then (Inl (Message ''gcp-kms: missing crypto key metadata''), t)
         else if ck_Purpose cryptoKey \<in> {ASYMMETRIC_DECRYPT, ASYMMETRIC_SIGN} then
           attempt (fetchGCPPublicKey C ctx client publicVersionName t) (\<lambda>publicKey t.
             (Inr (data (std_EncodeToString publicKey) publicVersionName), t))
         else if ck_Purpose cryptoKey = KEY_ENCAPSULATION then
           attempt (fetchGCPKEMPublicKey ctx client publicVersionName t) (\<lambda>(publicKey, _) t.
             (Inr (data (std_EncodeToString publicKey) publicVersionName), t))
         else (Inr (data [] keyName), t))"

subsection \<open>Generating keys\<close>

text \<open>The part the four generators share: the key ring of the configured key, a name from the clock, the request.\<close>

definition create_key ::
    "'t gcp_env \<Rightarrow> go_ctx option \<Rightarrow> 't gcpKMSClient \<Rightarrow> string \<Rightarrow> purpose \<Rightarrow> (string \<times> string) list \<Rightarrow> algorithm \<Rightarrow> string
      \<Rightarrow> 't \<Rightarrow> (err + string \<times> CryptoKey) \<times> 't" where
  "create_key E ctx client keyPrefix purpose labels algorithm failure t =
     attempt (resolveGCPKeyRingName E [] t, t) (\<lambda>parent t.
       let (now, t) = time_UnixNano E t; keyID = keyPrefix @ ''-'' @ decimal now in
       attempt (wrap_state failure (CreateCryptoKey client ctx \<lparr>cr_Parent = parent, cr_CryptoKeyId = keyID, cr_Purpose = purpose,
           cr_Labels = labels, cr_Algorithm = algorithm\<rparr> t)) (\<lambda>cryptoKey t. (Inr (keyID, cryptoKey), t)))"

definition generated_data :: "string \<Rightarrow> string \<Rightarrow> string \<Rightarrow> KeyData" where
  "generated_data keyID keyRef publicKey =
     \<lparr>kd_PublicKey = std_EncodeToString publicKey, kd_KeyID = keyID, kd_KeyRef = keyRef, kd_Provider = gcpProviderName\<rparr>"

definition gcp_GenerateSymetrycKeys :: "'t gcp_env \<Rightarrow> go_ctx option \<Rightarrow> GenerateSymmetricKeyRequest \<Rightarrow> 't \<Rightarrow> (err + KeyData) \<times> 't" where
  "gcp_GenerateSymetrycKeys E ctx input t =
     (if gsk_Size input \<noteq> Key256Bits
      then (Inl (Errorf ''gcp-kms: unsupported symmetric key size: %d'' [decimal (unat (gsk_Size input))]), t)
      else using_client E ctx (\<lambda>client t.
        attempt (create_key E ctx client gcpSymmetricKeyPrefix ENCRYPT_DECRYPT (gcpUIDLabels (gsk_UID input)) GOOGLE_SYMMETRIC_ENCRYPTION
            ''gcp-kms: create symmetric key: %w'' t) (\<lambda>(keyID, cryptoKey) t.
          (Inr \<lparr>kd_PublicKey = [], kd_KeyID = keyID, kd_KeyRef = ck_Name cryptoKey, kd_Provider = gcpProviderName\<rparr>, t))) t)"

definition gcp_GenerateECDHCurveKeys :: "'t gcp_env \<Rightarrow> go_ctx option \<Rightarrow> GenerateECDHCurveKeyRequest \<Rightarrow> 't \<Rightarrow> (err + KeyData) \<times> 't" where
  "gcp_GenerateECDHCurveKeys E ctx input t =
     attempt (gcpKEMAlgorithm (gek_Curve input), t) (\<lambda>algorithm.
     using_client E ctx (\<lambda>client t.
       attempt (create_key E ctx client gcpKEMKeyPrefix KEY_ENCAPSULATION (gcpUIDLabels (gek_UID input)) algorithm
           ''gcp-kms: create kem key: %w'' t) (\<lambda>(keyID, cryptoKey) t.
       attempt (ensureGCPVersion ctx client (ck_Name cryptoKey) algorithm (ck_Primary cryptoKey) t) (\<lambda>versionName t.
       attempt (fetchGCPKEMPublicKey ctx client versionName t) (\<lambda>(publicKey, _) t.
         (Inr (generated_data keyID versionName publicKey), t))))))"

text \<open>An asymmetric key with the public key of its version, for RSA and Ed25519.\<close>

definition generate_pair ::
    "('t, 'm) crypto_scheme \<Rightarrow> 't gcp_env \<Rightarrow> go_ctx option \<Rightarrow> string \<Rightarrow> purpose \<Rightarrow> (string \<times> string) list \<Rightarrow> algorithm \<Rightarrow> string
      \<Rightarrow> 't \<Rightarrow> (err + KeyData) \<times> 't" where
  "generate_pair C E ctx keyPrefix purpose labels algorithm failure =
     using_client E ctx (\<lambda>client t.
       attempt (create_key E ctx client keyPrefix purpose labels algorithm failure t) (\<lambda>(keyID, cryptoKey) t.
       attempt (ensureGCPVersion ctx client (ck_Name cryptoKey) algorithm (ck_Primary cryptoKey) t) (\<lambda>versionName t.
       attempt (fetchGCPPublicKey C ctx client versionName t) (\<lambda>publicKey t.
         (Inr (generated_data keyID versionName publicKey), t)))))"

definition gcp_GenerateRSAKeys ::
    "('t, 'm) crypto_scheme \<Rightarrow> 't gcp_env \<Rightarrow> go_ctx option \<Rightarrow> GenerateRSAKeyRequest \<Rightarrow> 't \<Rightarrow> (err + KeyData) \<times> 't" where
  "gcp_GenerateRSAKeys C E ctx input t =
     attempt (gcpRSADecryptAlgorithm (grk_Size input), t) (\<lambda>algorithm.
       generate_pair C E ctx gcpAsymmetricKeyPrefix ASYMMETRIC_DECRYPT (gcpUIDLabels (grk_UID input)) algorithm ''gcp-kms: create rsa key: %w'')"

definition gcp_GenerateEd255Keys :: "('t, 'm) crypto_scheme \<Rightarrow> 't gcp_env \<Rightarrow> go_ctx option \<Rightarrow> 't \<Rightarrow> (err + KeyData) \<times> 't" where
  "gcp_GenerateEd255Keys C E ctx =
     generate_pair C E ctx gcpEd25519KeyPrefix ASYMMETRIC_SIGN [] EC_SIGN_ED25519 ''gcp-kms: create ed25519 key: %w''"

subsection \<open>Managing keys\<close>

definition gcp_RotateKey ::
    "('t, 'm) crypto_scheme \<Rightarrow> 't gcp_env \<Rightarrow> go_ctx option \<Rightarrow> RotateKeyRequest \<Rightarrow> 't \<Rightarrow> (err + KeyData) \<times> 't" where
  "gcp_RotateKey C E ctx input = using_client E ctx (\<lambda>client t.
     attempt (resolveGCPKeyLookupNames E (rot_KeyID input) t, t) (\<lambda>(keyName, _) t.
     attempt (wrap_state ''gcp-kms: get crypto key before rotation: %w'' (GetCryptoKey client ctx keyName t)) (\<lambda>cryptoKey t.
     attempt (gcpRotationAlgorithm cryptoKey, t) (\<lambda>algorithm t.
     attempt (wrap_state ''gcp-kms: rotate key: %w'' (CreateCryptoKeyVersion client ctx keyName algorithm t)) (\<lambda>versionName t.
     if versionName = [] then (Inl (Message ''gcp-kms: missing rotated crypto key version metadata''), t)
     else attempt
       (if ck_Purpose cryptoKey = ENCRYPT_DECRYPT then
          attempt (gcpCryptoKeyVersionID versionName, t) (\<lambda>versionID t.
            wrap_state ''gcp-kms: update primary crypto key version: %w'' (UpdateCryptoKeyPrimaryVersion client ctx keyName versionID t))
        else (Inr cryptoKey, t)) (\<lambda>cryptoKey t.
       gcpKeyDataFromCryptoKey C ctx client cryptoKey keyName versionName t))))))"

definition gcp_GetKey ::
    "('t, 'm) crypto_scheme \<Rightarrow> 't gcp_env \<Rightarrow> go_ctx option \<Rightarrow> GetKeyRequest \<Rightarrow> 't \<Rightarrow> (err + KeyData) \<times> 't" where
  "gcp_GetKey C E ctx input = using_client E ctx (\<lambda>client t.
     attempt (resolveGCPKeyLookupNames E (get_KeyID input) t, t) (\<lambda>(keyName, versionName) t.
     attempt (wrap_state ''gcp-kms: get crypto key: %w'' (GetCryptoKey client ctx keyName t)) (\<lambda>cryptoKey t.
       gcpKeyDataFromCryptoKey C ctx client cryptoKey keyName versionName t)))"

definition gcp_DeactivateKey :: "'t gcp_env \<Rightarrow> go_ctx option \<Rightarrow> DeactivateKeyRequest \<Rightarrow> 't \<Rightarrow> (err + unit) \<times> 't" where
  "gcp_DeactivateKey E ctx input = using_client E ctx (\<lambda>client t.
     attempt (resolveGCPKeyLookupNames E (deact_KeyID input) t, t) (\<lambda>(keyName, versionName) t.
     attempt (wrap_state ''gcp-kms: get crypto key before deactivation: %w'' (GetCryptoKey client ctx keyName t)) (\<lambda>cryptoKey t.
       wrap_state ''gcp-kms: deactivate key version: %w'' (UpdateCryptoKeyVersion client ctx
         \<lparr>uv_Name = gcpPublicVersionName keyName cryptoKey versionName, uv_State = DISABLED, uv_Mask = [''state'']\<rparr> t))))"

subsection \<open>Symmetric encryption and hashes\<close>

definition gcp_EncryptAES ::
    "('t, 'm) crypto_scheme \<Rightarrow> 't gcp_env \<Rightarrow> go_ctx option \<Rightarrow> EncryptAESRequest \<Rightarrow> 't \<Rightarrow> (err + string) \<times> 't" where
  "gcp_EncryptAES C E ctx input =
     (if IsLocalAESKey (enc_SecretKey input) then local_EncryptAES C ctx input
      else using_client E ctx (\<lambda>client t.
        attempt (resolveGCPCryptoKeyName E (enc_SecretKey input) t, t) (\<lambda>keyName t.
        attempt (wrap_state ''gcp-kms: encrypt with symmetric key: %w'' (kms_Encrypt client ctx keyName (enc_Value input)
            (gcpAuthenticatedData (enc_UID input) (enc_Additional input)) t)) (\<lambda>ciphertext t.
          (Inr (std_EncodeToString ciphertext), t)))))"

definition gcp_DecryptAES ::
    "('t, 'm) crypto_scheme \<Rightarrow> 't gcp_env \<Rightarrow> go_ctx option \<Rightarrow> DecryptAESRequest \<Rightarrow> 't \<Rightarrow> (err + string) \<times> 't" where
  "gcp_DecryptAES C E ctx input =
     (if IsLocalAESKey (dec_SecretKey input) then local_DecryptAES C ctx input
      else using_client E ctx (\<lambda>client t.
        attempt (resolveGCPCryptoKeyName E (dec_SecretKey input) t, t) (\<lambda>keyName t.
        attempt (wrap_error ''gcp-kms: decode ciphertext: %w'' (decode_std (dec_CipherValue input)), t) (\<lambda>ciphertext t.
          wrap_state ''gcp-kms: decrypt with symmetric key: %w'' (kms_Decrypt client ctx keyName ciphertext
            (gcpAuthenticatedData (dec_UID input) (dec_Additional input)) t)))))"

definition gcp_HMAC :: "('t, 'm) crypto_scheme \<Rightarrow> 't gcp_env \<Rightarrow> go_ctx option \<Rightarrow> string \<Rightarrow> string \<Rightarrow> 't \<Rightarrow> string \<times> 't" where
  "gcp_HMAC C E ctx secretKey message t =
     (if \<not> looksLikeGCPKMSKeyReference E secretKey t then local_HMAC C ctx secretKey message t
      else or_empty (using_client E ctx (\<lambda>client t.
        attempt (resolveGCPCryptoKeyVersionName E secretKey t, t) (\<lambda>versionName t.
        attempt (MacSign client ctx versionName message t) (\<lambda>mac t. (Inr (std_EncodeToString mac), t)))) t))"

definition gcp_Sha256Hex :: "('t, 'm) crypto_scheme \<Rightarrow> go_ctx option \<Rightarrow> string \<Rightarrow> 't \<Rightarrow> string \<times> 't" where
  "gcp_Sha256Hex = local_Sha256Hex"

definition gcp_Blake3 :: "('t, 'm) crypto_scheme \<Rightarrow> go_ctx option \<Rightarrow> string \<Rightarrow> 't \<Rightarrow> string \<times> 't" where
  "gcp_Blake3 = local_Blake3"

subsection \<open>Key encapsulation\<close>

definition encapsulateGCPKEM :: "'t gcp_env \<Rightarrow> string \<Rightarrow> algorithm \<Rightarrow> 't \<Rightarrow> (err + string \<times> string) \<times> 't" where
  "encapsulateGCPKEM E publicKey a t =
     (if a = ML_KEM_768 then wrap_state ''gcp-kms: parse ml-kem-768 public key: %w'' (Encapsulate768 E publicKey t)
      else if a = ML_KEM_1024 then wrap_state ''gcp-kms: parse ml-kem-1024 public key: %w'' (Encapsulate1024 E publicKey t)
      else (Inl (WrapErr ''%w: unsupported algorithm %s'' [errGCPECCUnsupported]), t))"

definition encodeGCPKEMPayload ::
    "('t, 'm) crypto_scheme \<Rightarrow> 't gcp_env \<Rightarrow> go_ctx option \<Rightarrow> string \<Rightarrow> string \<Rightarrow> string \<Rightarrow> 't \<Rightarrow> (err + string) \<times> 't" where
  "encodeGCPKEMPayload C E ctx uid publicKey plain t =
     attempt (wrap_error ''gcp-kms: decode kem public key: %w'' (decode_std publicKey), t) (\<lambda>publicKeyBytes t.
     attempt (gcpKEMAlgorithmFromPublicKey publicKeyBytes, t) (\<lambda>algorithm t.
     attempt (gcpKEMAlgorithmName algorithm, t) (\<lambda>algorithmName t.
     attempt (encapsulateGCPKEM E publicKeyBytes algorithm t) (\<lambda>(sharedSecret, kemCiphertext) t.
     attempt (DeriveECCAESKey C sharedSecret algorithmName, t) (\<lambda>derivedKey t.
     attempt (wrap_state ''gcp-kms: encrypt payload with kem shared secret: %w'' (local_EncryptAES C ctx \<lparr>enc_UID = uid,
         enc_SecretKey = std_EncodeToString derivedKey, enc_Value = plain, enc_Additional = Some algorithmName\<rparr> t)) (\<lambda>ciphertext t.
       (Inr (EncodeECCCipherPayload \<lparr>pl_Curve = algorithmName, pl_EphemeralPublicKey = std_EncodeToString kemCiphertext,
          pl_Ciphertext = ciphertext\<rparr>), t)))))))"

definition gcp_ECDH_Encode ::
    "('t, 'm) crypto_scheme \<Rightarrow> 't gcp_env \<Rightarrow> go_ctx option \<Rightarrow> ECDHEncodeRequest \<Rightarrow> 't \<Rightarrow> (err + string) \<times> 't" where
  "gcp_ECDH_Encode C E ctx input t =
     (if \<not> isl (ParseECDHPublicKeyFromBase64 C (ecdhe_PublicKey input)) then local_ECDH_Encode C ctx input t
      else (case encodeGCPKEMPayload C E ctx (ecdhe_UID input) (ecdhe_PublicKey input) (ecdhe_Text input) t of
          (Inr payload, t) \<Rightarrow> (Inr payload, t)
        | (Inl _, t) \<Rightarrow> using_client E ctx (\<lambda>client t.
            attempt (resolveGCPCryptoKeyVersionName E (ecdhe_PublicKey input) t, t) (\<lambda>versionName t.
            attempt (fetchGCPKEMPublicKey ctx client versionName t) (\<lambda>(kemPublicKey, _) t.
              encodeGCPKEMPayload C E ctx (ecdhe_UID input) (std_EncodeToString kemPublicKey) (ecdhe_Text input) t))) t))"

definition gcp_ECDH_Decode ::
    "('t, 'm) crypto_scheme \<Rightarrow> 't gcp_env \<Rightarrow> go_ctx option \<Rightarrow> ECDHDecodeRequest \<Rightarrow> 't \<Rightarrow> (err + string) \<times> 't" where
  "gcp_ECDH_Decode C E ctx input t =
     (if \<not> isl (ParseECDHPrivateKeyFromBase64 C (ecdhd_PrivateKey input)) then local_ECDH_Decode C ctx input t
      else attempt (DecodeECCCipherPayload (ecdhd_CipherText input), t) (\<lambda>payload t.
        attempt (wrap_error ''gcp-kms: decode kem ciphertext: %w'' (decode_std (pl_EphemeralPublicKey payload)), t) (\<lambda>kemCiphertext.
        using_client E ctx (\<lambda>client t.
          attempt (resolveGCPCryptoKeyVersionName E (ecdhd_PrivateKey input) t, t) (\<lambda>versionName t.
          attempt (wrap_state ''gcp-kms: decapsulate shared secret: %w'' (Decapsulate client ctx versionName kemCiphertext t)) (\<lambda>sharedSecret t.
          attempt (DeriveECCAESKey C sharedSecret (pl_Curve payload), t) (\<lambda>derivedKey t.
            local_DecryptAES C ctx \<lparr>dec_UID = ecdhd_UID input, dec_SecretKey = std_EncodeToString derivedKey,
              dec_CipherValue = pl_Ciphertext payload, dec_Additional = Some (pl_Curve payload)\<rparr> t)))))))"

subsection \<open>RSA\<close>

definition gcp_RSA_OAEP_Encode ::
    "('t, 'm) crypto_scheme \<Rightarrow> 't gcp_env \<Rightarrow> go_ctx option \<Rightarrow> RSAOAEPEncodeRequest \<Rightarrow> 't \<Rightarrow> (err + string) \<times> 't" where
  "gcp_RSA_OAEP_Encode C E ctx input =
     (if \<not> isl (ParseRSAPublicKeyFromBase64 C (oaepe_PublicKey input)) then local_RSA_OAEP_Encode C ctx input
      else using_client E ctx (\<lambda>client t.
        attempt (resolveGCPCryptoKeyVersionName E (oaepe_PublicKey input) t, t) (\<lambda>versionName t.
        attempt (fetchGCPPublicKey C ctx client versionName t) (\<lambda>publicKeyDER t.
          local_RSA_OAEP_Encode C ctx \<lparr>oaepe_UID = oaepe_UID input, oaepe_PublicKey = std_EncodeToString publicKeyDER,
            oaepe_Text = oaepe_Text input\<rparr> t))))"

definition gcp_RSA_OAEP_Decode ::
    "('t, 'm) crypto_scheme \<Rightarrow> 't gcp_env \<Rightarrow> go_ctx option \<Rightarrow> RSAOAEPDecodeRequest \<Rightarrow> 't \<Rightarrow> (err + string) \<times> 't" where
  "gcp_RSA_OAEP_Decode C E ctx input =
     (if \<not> isl (ParseRSAPrivateKeyFromBase64 C (oaepd_PrivateKey input)) then local_RSA_OAEP_Decode C ctx input
      else using_client E ctx (\<lambda>client t.
        attempt (resolveGCPCryptoKeyVersionName E (oaepd_PrivateKey input) t, t) (\<lambda>versionName t.
        attempt (wrap_error ''gcp-kms: decode ciphertext: %w'' (decode_std (oaepd_CipherText input)), t) (\<lambda>cipherBytes t.
          wrap_state ''gcp-kms: asymmetric decrypt: %w'' (AsymmetricDecrypt client ctx versionName cipherBytes t)))))"

subsection \<open>Signatures\<close>

definition remote_sign ::
    "'t gcp_env \<Rightarrow> go_ctx option \<Rightarrow> string \<Rightarrow> sign_input \<Rightarrow> string \<Rightarrow> 't \<Rightarrow> (err + string) \<times> 't" where
  "remote_sign E ctx key input failure = using_client E ctx (\<lambda>client t.
     attempt (resolveGCPCryptoKeyVersionName E key t, t) (\<lambda>versionName t.
     attempt (wrap_state failure (AsymmetricSign client ctx versionName input t)) (\<lambda>signature t.
       (Inr (std_EncodeToString signature), t))))"

text \<open>The verifying operations fetch the public key and verify here; \<open>verify\<close> is the last step, on the parsed key.\<close>

definition remote_verify ::
    "('t, 'm) crypto_scheme \<Rightarrow> 't gcp_env \<Rightarrow> go_ctx option \<Rightarrow> string \<Rightarrow> string \<Rightarrow> (any_public \<Rightarrow> err + 'k) \<Rightarrow> ('k \<Rightarrow> string \<Rightarrow> err option)
      \<Rightarrow> 't \<Rightarrow> (err + unit) \<times> 't" where
  "remote_verify C E ctx key signature kind verify = using_client E ctx (\<lambda>client t.
     attempt (resolveGCPCryptoKeyVersionName E key t, t) (\<lambda>versionName t.
     attempt (fetchGCPPublicKey C ctx client versionName t) (\<lambda>publicKeyDER t.
     attempt (wrap_error ''gcp-kms: parse public key: %w'' (ParsePKIXPublicKey C publicKeyDER), t) (\<lambda>keyAny t.
     attempt (kind keyAny, t) (\<lambda>publicKey t.
     attempt (wrap_error ''gcp-kms: decode signature from base64: %w'' (decode_std signature), t) (\<lambda>signatureBytes t.
       (case verify publicKey signatureBytes of Some e \<Rightarrow> Inl e | None \<Rightarrow> Inr (), t)))))))"

definition gcp_rsa_key :: "any_public \<Rightarrow> err + rsa_PublicKey" where
  "gcp_rsa_key k = (case k of PubRSA p \<Rightarrow> Inr p | _ \<Rightarrow> Inl (Message ''gcp-kms: public key is not an RSA key''))"

definition gcp_ed25519_key :: "any_public \<Rightarrow> err + string" where
  "gcp_ed25519_key k = (case k of PubEd25519 p \<Rightarrow> Inr p | _ \<Rightarrow> Inl (Message ''gcp-kms: public key is not an Ed25519 key''))"

definition gcp_SignEd25519 ::
    "('t, 'm) crypto_scheme \<Rightarrow> 't gcp_env \<Rightarrow> go_ctx option \<Rightarrow> string \<Rightarrow> string \<Rightarrow> 't \<Rightarrow> (err + string) \<times> 't" where
  "gcp_SignEd25519 C E ctx privateKey msg =
     (if \<not> isl (ParseEd25519PrivateKeyFromBase64 C privateKey) then local_SignEd25519 C ctx privateKey msg
      else remote_sign E ctx privateKey (SignData msg) ''gcp-kms: sign ed25519: %w'')"

definition gcp_VerifyEd25519 ::
    "('t, 'm) crypto_scheme \<Rightarrow> 't gcp_env \<Rightarrow> go_ctx option \<Rightarrow> string \<Rightarrow> string \<Rightarrow> string \<Rightarrow> 't \<Rightarrow> (err + unit) \<times> 't" where
  "gcp_VerifyEd25519 C E ctx publicKey msg signature =
     (if \<not> isl (ParseEd25519PublicKeyFromBase64 C publicKey) then local_VerifyEd25519 C ctx publicKey msg signature
      else remote_verify C E ctx publicKey signature gcp_ed25519_key (\<lambda>k sig.
        if ed25519_Verify C k msg sig then None else Some (Message ''gcp-kms: invalid Ed25519 signature'')))"

definition gcp_SignRSAPSS ::
    "('t, 'm) crypto_scheme \<Rightarrow> 't gcp_env \<Rightarrow> go_ctx option \<Rightarrow> string \<Rightarrow> string \<Rightarrow> 't \<Rightarrow> (err + string) \<times> 't" where
  "gcp_SignRSAPSS C E ctx privateKey msg =
     (if \<not> isl (ParseRSAPrivateKeyFromBase64 C privateKey) then local_SignRSAPSS C ctx privateKey msg
      else remote_sign E ctx privateKey (SignDigest (sha256_Sum256 C msg)) ''gcp-kms: sign rsa-pss-sha256: %w'')"

definition gcp_VerifyRSAPSS ::
    "('t, 'm) crypto_scheme \<Rightarrow> 't gcp_env \<Rightarrow> go_ctx option \<Rightarrow> string \<Rightarrow> string \<Rightarrow> string \<Rightarrow> 't \<Rightarrow> (err + unit) \<times> 't" where
  "gcp_VerifyRSAPSS C E ctx publicKey msg signature =
     (if \<not> isl (ParseRSAPublicKeyFromBase64 C publicKey) then local_VerifyRSAPSS C ctx publicKey msg signature
      else remote_verify C E ctx publicKey signature gcp_rsa_key (\<lambda>k sig.
        map_option (\<lambda>e. WrapErr ''gcp-kms: invalid RSA-PSS signature: %w'' [e]) (rsa_VerifyPSS C k (sha256_Sum256 C msg) sig)))"

definition gcp_Sign_RSA_PKCS1v15_SHA256 ::
    "('t, 'm) crypto_scheme \<Rightarrow> 't gcp_env \<Rightarrow> go_ctx option \<Rightarrow> string \<Rightarrow> string \<Rightarrow> 't \<Rightarrow> (err + string) \<times> 't" where
  "gcp_Sign_RSA_PKCS1v15_SHA256 C E ctx privateKey msg t =
     (if privateKey \<noteq> [] \<and> \<not> looksLikeGCPKMSKeyReference E privateKey t then local_Sign_RSA_PKCS1v15_SHA256 C ctx privateKey msg t
      else remote_sign E ctx privateKey (SignDigest (sha256_Sum256 C msg)) ''gcp-kms: sign rsa-sha256: %w'' t)"

definition gcp_Verify_RSA_PKCS1v15_SHA256 ::
    "('t, 'm) crypto_scheme \<Rightarrow> 't gcp_env \<Rightarrow> go_ctx option \<Rightarrow> string \<Rightarrow> string \<Rightarrow> string \<Rightarrow> 't \<Rightarrow> (err + unit) \<times> 't" where
  "gcp_Verify_RSA_PKCS1v15_SHA256 C E ctx msg publicKey signature t =
     (if publicKey \<noteq> [] \<and> \<not> looksLikeGCPKMSKeyReference E publicKey t
      then local_Verify_RSA_PKCS1v15_SHA256 C ctx msg publicKey signature t
      else remote_verify C E ctx publicKey signature gcp_rsa_key (\<lambda>k sig.
        map_option (\<lambda>e. WrapErr ''gcp-kms: invalid RSA SHA-256 signature: %w'' [e]) (rsa_VerifyPKCS1v15 C k (sha256_Sum256 C msg) sig)) t)"

end
