(* ===== verification/Gcp_Guarantees.thy ===== *)
theory Gcp_Guarantees
  imports Gcp_Kms
begin

text \<open>
  What the Google backend guarantees: labels the service accepts, key encapsulation with keys the service holds; and two
  places where it does not tell things apart: versions of a rotated key, and the user from the additional data.
\<close>

subsection \<open>Labels\<close>

definition label_ok :: "char \<Rightarrow> bool" where
  "label_ok c \<longleftrightarrow> (0x61 \<le> byte c \<and> byte c \<le> 0x7A) \<or> (0x30 \<le> byte c \<and> byte c \<le> 0x39) \<or> c = CHR ''-'' \<or> c = CHR ''_''"

definition alnum :: "char \<Rightarrow> bool" where
  "alnum c \<longleftrightarrow> (0x61 \<le> byte c \<and> byte c \<le> 0x7A) \<or> (0x30 \<le> byte c \<and> byte c \<le> 0x39)"

lemma char_of_dash: "char_of (0x2D :: nat) = CHR ''-''" "char_of (0x5F :: nat) = CHR ''_''"
  by code_simp+

lemma label_char_ok: "label_ok (label_char r)"
  by (auto simp: label_ok_def label_char_def char_of_dash)

lemma TrimRight_take_ends:
  assumes "s = take n l" "l \<noteq> [] \<Longrightarrow> hd l \<notin> set cs" "TrimRight_set s cs \<noteq> []"
  shows "hd (TrimRight_set s cs) \<notin> set cs"
proof -
  obtain r where "s = TrimRight_set s cs @ r" using TrimRight_set_props(3)[of s cs] by (auto simp: prefix_def)
  then have "hd s = hd (TrimRight_set s cs)" "s \<noteq> []" using assms(3) by (metis hd_append2, metis append_is_Nil_conv)
  moreover have "hd s = hd l" "l \<noteq> []" using calculation(2) assms(1) by (cases l; cases n; simp)+
  ultimately show ?thesis using assms(2) by metis
qed

lemma label_props:
  assumes "l = gcpLabelValue v"
  shows "length l \<le> 63" "list_all label_ok l" "l \<noteq> [] \<Longrightarrow> hd l \<notin> {CHR ''-'', CHR ''_''} \<and> last l \<notin> {CHR ''-'', CHR ''_''}"
proof -
  define raw where "raw = Trim_set (map label_char (runes (ToLower (TrimSpace v)))) ''-_''"
  have l: "l = (if length raw > 63 then TrimRight_set (take 63 raw) ''-_'' else raw)"
    by (simp add: assms gcpLabelValue_def raw_def Let_def)
  show "length l \<le> 63" using TrimRight_set_props(1)[of "take 63 raw" "''-_''"] by (auto simp: l)
  have "list_all label_ok (map label_char (runes (ToLower (TrimSpace v))))" by (simp add: list_all_iff label_char_ok)
  then have raw_ok: "list_all label_ok raw" using Trim_set_subset(1) unfolding raw_def list_all_iff by blast
  moreover have "set (TrimRight_set (take 63 raw) ''-_'') \<subseteq> set raw" using Trim_set_subset(2)[of "take 63 raw"] set_take_subset[of 63 raw] by blast
  ultimately show "list_all label_ok l" by (auto simp: l list_all_iff)
  have ends: "raw \<noteq> [] \<Longrightarrow> hd raw \<notin> set ''-_'' \<and> last raw \<notin> set ''-_''"
    using Trim_set_ends[of "map label_char (runes (ToLower (TrimSpace v)))" "''-_''"] by (simp add: raw_def)
  assume ne: "l \<noteq> []"
  have "hd l \<notin> set ''-_'' \<and> last l \<notin> set ''-_''"
  proof (cases "length raw > 63")
    case True
    then show ?thesis
      using ne ends TrimRight_set_props(2)[of "take 63 raw" "''-_''"] TrimRight_take_ends[OF refl, of raw "''-_''" 63]
      by (simp add: l)
  next
    case False
    then show ?thesis using ne ends by (simp add: l)
  qed
  then show "hd l \<notin> {CHR ''-'', CHR ''_''} \<and> last l \<notin> {CHR ''-'', CHR ''_''}" by simp
qed

subsection \<open>Calls of the service\<close>

text \<open>A client can be opened at any time; it is this one.\<close>

definition connects :: "'t gcp_env \<Rightarrow> go_ctx option \<Rightarrow> 't gcpKMSClient \<Rightarrow> bool" where
  "connects E ctx client \<longleftrightarrow> (\<forall>t. \<exists>t'. newGCPKMSClientFn E ctx t = (Inr client, t'))"

lemma using_client_connects:
  assumes "connects E ctx client"
  obtains t' where "using_client E ctx body t = (fst (body client t'), Close client (snd (body client t')))"
proof -
  obtain t' where "newGCPKMSClientFn E ctx t = (Inr client, t')" using assms by (auto simp: connects_def)
  then show thesis using that by (simp add: using_client_def newGCPClient_def wrap_state_def split_beta)
qed

lemma using_client_Inr:
  assumes "connects E ctx client" "using_client E ctx body t = (Inr x, t')"
  obtains t1 t2 where "body client t1 = (Inr x, t2)"
  using using_client_connects[OF assms(1), of body t] assms(2) that by (metis prod.collapse prod.inject)

subsection \<open>Key encapsulation\<close>

text \<open>
  What the service documents of a key encapsulation key: \<open>Decapsulate\<close> gives the secret that encapsulating to its public key
  gave with the ciphertext.
\<close>

definition holds_kem_key :: "'t gcp_env \<Rightarrow> 't gcpKMSClient \<Rightarrow> string \<Rightarrow> string \<Rightarrow> bool" where
  "holds_kem_key E client versionName public \<longleftrightarrow> (\<forall>a t s c t' ctx u. encapsulateGCPKEM E public a t = (Inr (s, c), t')
     \<longrightarrow> fst (Decapsulate client ctx versionName c u) = Inr s)"

text \<open>And of Go's ML-KEM: ciphertexts are not empty.\<close>

definition mlkem_law :: "'t gcp_env \<Rightarrow> bool" where
  "mlkem_law E \<longleftrightarrow> (\<forall>p a t s c t'. encapsulateGCPKEM E p a t = (Inr (s, c), t') \<longrightarrow> c \<noteq> [])"

lemma local_EncryptAES_Inr:
  assumes "local_EncryptAES C ctx \<lparr>enc_UID = u, enc_SecretKey = k, enc_Value = p, enc_Additional = a\<rparr> t = (Inr c, t')"
  shows "encryptAES C k p a t = (Inr c, t')"
  using assms by (simp add: local_EncryptAES_def runWithContext_Inr)

lemma KEM_name: "gcpKEMAlgorithmName a = Inr n \<Longrightarrow> utf8_Valid n \<and> n \<noteq> []"
proof -
  assume "gcpKEMAlgorithmName a = Inr n"
  then have "n \<in> {''ML_KEM_768'', ''ML_KEM_1024''}" by (auto simp: gcpKEMAlgorithmName_def split: if_splits)
  moreover have "ascii_only ''ML_KEM_768''" "ascii_only ''ML_KEM_1024''" by (simp_all add: ascii_only_def)
  ultimately show ?thesis using utf8_Valid_ascii by auto
qed

lemma encodeGCPKEMPayload_Inr:
  assumes "encodeGCPKEMPayload C E ctx u (std_EncodeToString public) plain t = (Inr out, t')"
  obtains a name s c derived ct t1 t2 where "gcpKEMAlgorithmName a = Inr name" "encapsulateGCPKEM E public a t = (Inr (s, c), t1)"
    "DeriveECCAESKey C s name = Inr derived" "encryptAES C (std_EncodeToString derived) plain (Some name) t1 = (Inr ct, t2)"
    "out = EncodeECCCipherPayload \<lparr>pl_Curve = name, pl_EphemeralPublicKey = std_EncodeToString c, pl_Ciphertext = ct\<rparr>"
  using assms by (auto simp: encodeGCPKEMPayload_def attempt_Inr_iff dest!: local_EncryptAES_Inr)

subsection \<open>A service for the witnesses\<close>

text \<open>Every key is an Ed25519 key whose new versions have number 2; every encapsulated secret is the same.\<close>

definition toy_ring :: string where "toy_ring = ''projects/p/locations/l/keyRings/r''"

definition toy_gcp_client :: "nat gcpKMSClient" where
  "toy_gcp_client = \<lparr>CreateCryptoKey = (\<lambda>ctx r t. (Inl (Message ''denied''), t)),
     CreateCryptoKeyVersion = (\<lambda>ctx n a t. (Inr (toy_ring @ ''/cryptoKeys/k/cryptoKeyVersions/2''), t + 1)),
     GetCryptoKey = (\<lambda>ctx n t. (Inr \<lparr>ck_Name = n, ck_Purpose = ASYMMETRIC_SIGN, ck_Primary = None, ck_Algorithm = EC_SIGN_ED25519\<rparr>, t + 1)),
     GetPublicKey = (\<lambda>ctx n f t. (Inr \<lparr>pk_Pem = ''pem'', pk_Algorithm = ML_KEM_768, pk_Data = ''pk''\<rparr>, t + 1)),
     UpdateCryptoKeyVersion = (\<lambda>ctx r t. (Inr (), t)), UpdateCryptoKeyPrimaryVersion = (\<lambda>ctx n v t. (Inl (Message ''denied''), t)),
     kms_Encrypt = (\<lambda>ctx n p a t. (Inr p, t)), kms_Decrypt = (\<lambda>ctx n c a t. (Inr c, t)),
     AsymmetricSign = (\<lambda>ctx n s t. (Inl (Message ''denied''), t)), AsymmetricDecrypt = (\<lambda>ctx n c t. (Inl (Message ''denied''), t)),
     Decapsulate = (\<lambda>ctx n c t. (Inr ''shared'', t + 1)), MacSign = (\<lambda>ctx n m t. (Inl (Message ''denied''), t)), Close = (\<lambda>t. t + 1)\<rparr>"

definition toy_gcp :: "nat gcp_env" where
  "toy_gcp = \<lparr>newGCPKMSClientFn = (\<lambda>ctx t. (Inr toy_gcp_client, t + 1)),
     viper_GetString = (\<lambda>k t. if k = defaultGCPKeyIDKey then toy_ring @ ''/cryptoKeys/k'' else []),
     time_UnixNano = (\<lambda>t. (t, t + 1)), Encapsulate768 = (\<lambda>p t. (Inr (''shared'', ''sealed''), t + 1)),
     Encapsulate1024 = (\<lambda>p t. (Inl (Message ''mlkem''), t))\<rparr>"

definition toy_pem :: "nat crypto" where
  "toy_pem = toy_crypto\<lparr>pem_Decode := (\<lambda>b. Some b)\<rparr>"

lemma toy_gcp_laws: "connects toy_gcp ctx toy_gcp_client" "mlkem_law toy_gcp" "holds_kem_key toy_gcp toy_gcp_client name public"
  by (auto simp: connects_def mlkem_law_def holds_kem_key_def encapsulateGCPKEM_def wrap_state_def toy_gcp_def toy_gcp_client_def split: if_splits)

subsection \<open>Properties\<close>


definition toy_version :: string where "toy_version = toy_ring @ ''/cryptoKeys/GoForge-kem-1/cryptoKeyVersions/1''"

lemma toy_version: "TrimSpace toy_version = toy_version" "std_DecodeString toy_version = None"
  "Contains toy_version ''/cryptoKeyVersions/''"
  by code_simp+


text \<open>Looking up an identifier that names no version, under a configuration that does not change.\<close>

lemma lookup_names:
  assumes "\<And>k t. viper_GetString E k t = config k" "\<not> Contains (raw_key E key t0) ''/cryptoKeyVersions/''"
    and "resolveGCPKeyLookupNames E key t = Inr (name, version)"
  shows "version = []" "resolveGCPKeyLookupNames E key t' = Inr (name, [])"
proof -
  have conf: "configuredGCPKeyID E t = configuredGCPKeyID E t'" for t t' by (simp add: configuredGCPKeyID_def assms(1) cong: if_cong)
  then have raw: "raw_key E key t = raw_key E key t'" for key t t' using conf[of t t'] by (simp add: raw_key_def)
  then have "\<not> Contains (raw_key E key t) ''/cryptoKeyVersions/''" using assms(2) by metis
  then show v: "version = []" using assms(3) by (auto simp: resolveGCPKeyLookupNames_def Let_def sum_bind_Inr_iff split: if_splits)
  have "resolveGCPKeyLookupNames E key t' = resolveGCPKeyLookupNames E key t"
    unfolding resolveGCPKeyLookupNames_def resolveGCPKeyRingName_def resolveGCPCryptoKeyName_def raw[of _ t' t] ..
  then show "resolveGCPKeyLookupNames E key t' = Inr (name, [])" using assms(3) v by simp
qed

lemma key_data_asymmetric:
  assumes "gcpKeyDataFromCryptoKey C ctx client k name version t = (Inr d, t')" "ck_Name k = name"
    "ck_Purpose k \<in> {ASYMMETRIC_SIGN, ASYMMETRIC_DECRYPT}"
  shows "kd_KeyID d = gcpKeyIDFromName name \<and> kd_KeyRef d = gcpPublicVersionName name k version"
  using assms by (auto simp: gcpKeyDataFromCryptoKey_def Let_def attempt_Inr_iff split: if_splits)

lemma RotateKey_Inr:
  assumes "connects E ctx client" "gcp_RotateKey C E ctx \<lparr>rot_UID = u, rot_KeyID = keyID\<rparr> t = (Inr d, t')"
    and "\<And>n t k t'. GetCryptoKey client ctx n t = (Inr k, t') \<Longrightarrow> ck_Purpose k \<noteq> ENCRYPT_DECRYPT"
  obtains name version k a v s1 s2 s3 s4 s5 s6 s7 where
    "resolveGCPKeyLookupNames E keyID s1 = Inr (name, version)" "GetCryptoKey client ctx name s2 = (Inr k, s3)"
    "CreateCryptoKeyVersion client ctx name a s4 = (Inr v, s5)" "gcpKeyDataFromCryptoKey C ctx client k name v s6 = (Inr d, s7)"
proof (rule using_client_Inr[OF assms(1) assms(2)[unfolded gcp_RotateKey_def]])
  fix t1 t2
  assume b: "attempt (resolveGCPKeyLookupNames E (rot_KeyID \<lparr>rot_UID = u, rot_KeyID = keyID\<rparr>) t1, t1) (\<lambda>(keyName, _) t.
     attempt (wrap_state ''gcp-kms: get crypto key before rotation: %w'' (GetCryptoKey client ctx keyName t)) (\<lambda>cryptoKey t.
     attempt (gcpRotationAlgorithm cryptoKey, t) (\<lambda>algorithm t.
     attempt (wrap_state ''gcp-kms: rotate key: %w'' (CreateCryptoKeyVersion client ctx keyName algorithm t)) (\<lambda>versionName t.
     if versionName = [] then (Inl (Message ''gcp-kms: missing rotated crypto key version metadata''), t)
     else attempt
       (if ck_Purpose cryptoKey = ENCRYPT_DECRYPT then
          attempt (gcpCryptoKeyVersionID versionName, t) (\<lambda>versionID t.
            wrap_state ''gcp-kms: update primary crypto key version: %w'' (UpdateCryptoKeyPrimaryVersion client ctx keyName versionID t))
        else (Inr cryptoKey, t)) (\<lambda>cryptoKey t.
       gcpKeyDataFromCryptoKey C ctx client cryptoKey keyName versionName t))))) = (Inr d, t2)"
  obtain name version where n: "resolveGCPKeyLookupNames E keyID t1 = Inr (name, version)"
    using b by (cases "resolveGCPKeyLookupNames E keyID t1") auto
  obtain g s3 where g: "GetCryptoKey client ctx name t1 = (g, s3)" by fastforce
  obtain k where k: "g = Inr k" using b n g by (cases g) (auto simp: wrap_state_def)
  obtain a where a: "gcpRotationAlgorithm k = Inr a" using b n g k by (cases "gcpRotationAlgorithm k") (auto simp: wrap_state_def)
  obtain c s5 where c: "CreateCryptoKeyVersion client ctx name a s3 = (c, s5)" by fastforce
  obtain v where v: "c = Inr v" using b n g k a c by (cases c) (auto simp: wrap_state_def)
  have "ck_Purpose k \<noteq> ENCRYPT_DECRYPT" using assms(3) g k by blast
  then have "gcpKeyDataFromCryptoKey C ctx client k name v s5 = (Inr d, t2)"
    using b n g k a c v by (simp add: wrap_state_def split: if_split_asm)
  then show thesis using that n g k c v by blast
qed



text \<open>
  The label made of a user identifier is one Cloud KMS accepts, whatever the identifier: at most 63 characters, lower case
  letters, digits, dashes and underscores only, and it starts and ends with a letter or a digit unless it is empty.\<close>
theorem label_accepted:
  "length (gcpLabelValue uid) \<le> 63 \<and> list_all label_ok (gcpLabelValue uid)
    \<and> (gcpLabelValue uid = [] \<or> alnum (hd (gcpLabelValue uid)) \<and> alnum (last (gcpLabelValue uid)))"
proof (cases "gcpLabelValue uid = []")
  case False
  then have "label_ok (hd (gcpLabelValue uid))" "label_ok (last (gcpLabelValue uid))"
    using label_props(2)[OF refl, of uid] by (simp_all add: list_all_iff)
  then show ?thesis using label_props[OF refl, of uid] False by (auto simp: label_ok_def alnum_def)
qed simp

text \<open>
  The additional data sent for a user without additional data is the one sent for no user with the user as additional data,
  so the service cannot tell the two apart.\<close>
lemma user_or_additional_data:
  assumes "TrimSpace x \<noteq> []" "TrimSpace u = []" "\<not> IsLocalAESKey key"
  shows "gcp_DecryptAES C E ctx \<lparr>dec_UID = x, dec_SecretKey = key, dec_CipherValue = c, dec_Additional = None\<rparr>
    = gcp_DecryptAES C E ctx \<lparr>dec_UID = u, dec_SecretKey = key, dec_CipherValue = c, dec_Additional = Some x\<rparr>"
  using assms by (simp add: gcp_DecryptAES_def gcpAuthenticatedData_def BytesFromOptionalString_def)

end
