(* ===== verification/Go_Errors.thy ===== *)
theory Go_Errors
  imports Pkcs11_Types
begin

text \<open>
  What the repository uses of Go's package \<^verbatim>\<open>errors\<close>: \<open>errors.Is\<close> and \<open>errors.Join\<close> on the errors of the development.
\<close>

text \<open>\<open>errors.Is\<close>: a depth-first walk over the wrapped errors.\<close>

fun errors_Is :: "err \<Rightarrow> err \<Rightarrow> bool" and errors_Is_any :: "err list \<Rightarrow> err \<Rightarrow> bool" where
  "errors_Is (WrapErr m es) target \<longleftrightarrow> WrapErr m es = target \<or> errors_Is_any es target"
| "errors_Is (err.Join es) target \<longleftrightarrow> err.Join es = target \<or> errors_Is_any es target"
| "errors_Is e target \<longleftrightarrow> e = target"
| "errors_Is_any [] target \<longleftrightarrow> False"
| "errors_Is_any (e # es) target \<longleftrightarrow> errors_Is e target \<or> errors_Is_any es target"

text \<open>\<open>errors.Join\<close> leaves out what is nil, and is nil when everything is.\<close>

definition errors_Join :: "err option list \<Rightarrow> err option" where
  "errors_Join es = (let some = map the (filter (\<lambda>e. e \<noteq> None) es) in if some = [] then None else Some (err.Join some))"

lemma errors_Join_None [simp]: "errors_Join es = None \<longleftrightarrow> list_all (\<lambda>e. e = None) es"
  by (auto simp: errors_Join_def Let_def filter_empty_conv list_all_iff)

lemma errors_Join_single_None [simp]: "errors_Join [None, None] = None"
  by simp

end
