(* ===== verification/Go_Os.thy ===== *)
theory Go_Os
  imports Go_Errors Go_Strings
begin

text \<open>
  The part of Go's packages \<^verbatim>\<open>os\<close>, \<^verbatim>\<open>io\<close> and \<^verbatim>\<open>path/filepath\<close> the repository uses to read and replace files, on a Unix file
  system: a map from clean absolute paths to nodes. Every system call takes its turn from a list of faults; a call that has
  one fails with it and does nothing, except that a write may stop in the middle. \<open>history\<close> is a ghost: the states of the file
  system after each change, the ones a crash can leave behind. Links to directories are not followed within a path.
\<close>

subsection \<open>Paths\<close>

abbreviation slash :: char where "slash \<equiv> CHR ''/''"

text \<open>The elements of a path, with \<open>.\<close> dropped and \<open>..\<close> resolved; the accumulator holds the elements read, last first.\<close>

fun clean_elements :: "bool \<Rightarrow> string list \<Rightarrow> string list \<Rightarrow> string list" where
  "clean_elements rooted acc [] = rev acc"
| "clean_elements rooted acc (e # es) =
     (if e = [] \<or> e = ''.'' then clean_elements rooted acc es
      else if e \<noteq> ''..'' then clean_elements rooted (e # acc) es
      else (case acc of [] \<Rightarrow> clean_elements rooted (if rooted then [] else [e]) es
        | a # as \<Rightarrow> if a = ''..'' then clean_elements rooted (e # acc) es else clean_elements rooted as es))"

definition filepath_Clean :: "string \<Rightarrow> string" where
  "filepath_Clean p =
     (let rooted = (take 1 p = [slash]); es = clean_elements rooted [] (Split slash p) in
      if rooted then slash # Go_Strings.Join es [slash] else if es = [] then ''.'' else Go_Strings.Join es [slash])"

definition filepath_IsAbs :: "string \<Rightarrow> bool" where
  "filepath_IsAbs p \<longleftrightarrow> take 1 p = [slash]"

text \<open>What comes up to the last slash, and what comes after it.\<close>

definition after_slash :: "string \<Rightarrow> string" where
  "after_slash p = rev (takeWhile (\<lambda>c. c \<noteq> slash) (rev p))"

definition up_to_slash :: "string \<Rightarrow> string" where
  "up_to_slash p = rev (dropWhile (\<lambda>c. c \<noteq> slash) (rev p))"

definition filepath_Dir :: "string \<Rightarrow> string" where
  "filepath_Dir p = filepath_Clean (up_to_slash p)"

definition filepath_Base :: "string \<Rightarrow> string" where
  "filepath_Base p =
     (if p = [] then ''.''
      else (let q = rev (dropWhile (\<lambda>c. c = slash) (rev p)) in if after_slash q = [] then [slash] else after_slash q))"

definition filepath_Join2 :: "string \<Rightarrow> string \<Rightarrow> string" where
  "filepath_Join2 a b = (if a = [] then (if b = [] then [] else filepath_Clean b) else filepath_Clean (a @ slash # b))"

subsection \<open>The file system\<close>

datatype node =
    Directory nat nat
  | Regular nat string nat
  | Special nat nat

fun node_inode :: "node \<Rightarrow> nat" where
  "node_inode (Directory i m) = i" | "node_inode (Regular i c m) = i" | "node_inode (Special i m) = i"

fun node_perm :: "node \<Rightarrow> nat" where
  "node_perm (Directory i m) = m" | "node_perm (Regular i c m) = m" | "node_perm (Special i m) = m"

fun node_content :: "node \<Rightarrow> string" where
  "node_content (Regular i c m) = c" | "node_content _ = []"

fun is_regular :: "node \<Rightarrow> bool" where
  "is_regular (Regular i c m) = True" | "is_regular _ = False"

fun is_dir :: "node \<Rightarrow> bool" where
  "is_dir (Directory i m) = True" | "is_dir _ = False"

type_synonym nodes = "string \<rightharpoonup> node"

text \<open>The second component of a fault is how much a failing write still writes.\<close>

record world =
  nodes :: nodes
  next_inode :: nat
  faults :: "(err \<times> nat) option list"
  random :: "nat list"
  workdir :: string
  history :: "nodes list"

definition ErrNotExist :: err where "ErrNotExist = Message ''file does not exist''"

definition turn :: "world \<Rightarrow> (err \<times> nat) option \<times> world" where
  "turn w = (case faults w of [] \<Rightarrow> (None, w) | f # fs \<Rightarrow> (f, w\<lparr>faults := fs\<rparr>))"

definition change :: "nodes \<Rightarrow> world \<Rightarrow> world" where
  "change n w = w\<lparr>nodes := n, history := n # history w\<rparr>"

subsection \<open>Calls\<close>

definition os_Getwd :: "world \<Rightarrow> (err + string) \<times> world" where
  "os_Getwd w = (case turn w of (Some (e, _), w) \<Rightarrow> (Inl e, w) | (None, w) \<Rightarrow> (Inr (workdir w), w))"

definition filepath_Abs :: "string \<Rightarrow> world \<Rightarrow> (err + string) \<times> world" where
  "filepath_Abs p w = (if filepath_IsAbs p then (Inr (filepath_Clean p), w)
     else (case os_Getwd w of (Inl e, w) \<Rightarrow> (Inl e, w) | (Inr wd, w) \<Rightarrow> (Inr (filepath_Join2 wd p), w)))"

definition look :: "string \<Rightarrow> world \<Rightarrow> (err + node) \<times> world" where
  "look p w = (case turn w of (Some (e, _), w) \<Rightarrow> (Inl e, w)
     | (None, w) \<Rightarrow> (case nodes w p of None \<Rightarrow> (Inl ErrNotExist, w) | Some n \<Rightarrow> (Inr n, w)))"

text \<open>
  A \<open>FileInfo\<close> is the node, of which the code uses the kind, the permissions and the identity; an open file is the node as
  well. On a link \<open>os.Stat\<close> and \<open>os.Open\<close> look at what it points to, which \<open>target\<close> tells.
\<close>

definition os_Lstat :: "string \<Rightarrow> world \<Rightarrow> (err + node) \<times> world" where
  "os_Lstat = look"

definition os_Stat :: "(nat \<Rightarrow> node) \<Rightarrow> string \<Rightarrow> world \<Rightarrow> (err + node) \<times> world" where
  "os_Stat target p w = (case look p w of (Inr (Special i m), w) \<Rightarrow> (Inr (target i), w) | r \<Rightarrow> r)"

definition os_Open :: "(nat \<Rightarrow> node) \<Rightarrow> string \<Rightarrow> world \<Rightarrow> (err + node) \<times> world" where
  "os_Open = os_Stat"

definition os_SameFile :: "node \<Rightarrow> node \<Rightarrow> bool" where
  "os_SameFile a b \<longleftrightarrow> node_inode a = node_inode b"

definition file_Stat :: "node \<Rightarrow> world \<Rightarrow> (err + node) \<times> world" where
  "file_Stat f w = (case turn w of (Some (e, _), w) \<Rightarrow> (Inl e, w) | (None, w) \<Rightarrow> (Inr f, w))"

text \<open>\<open>io.ReadAll\<close> of a file limited to a number of bytes.\<close>

definition read_limited :: "nat \<Rightarrow> node \<Rightarrow> world \<Rightarrow> (err + string) \<times> world" where
  "read_limited n f w = (case turn w of (Some (e, _), w) \<Rightarrow> (Inl e, w) | (None, w) \<Rightarrow> (Inr (take n (node_content f)), w))"

text \<open>Closing and syncing change nothing here.\<close>

definition settle :: "world \<Rightarrow> err option \<times> world" where
  "settle w = (case turn w of (Some (e, _), w) \<Rightarrow> (Some e, w) | (None, w) \<Rightarrow> (None, w))"

definition os_Remove :: "string \<Rightarrow> world \<Rightarrow> err option \<times> world" where
  "os_Remove p w = (case turn w of (Some (e, _), w) \<Rightarrow> (Some e, w)
     | (None, w) \<Rightarrow> (case nodes w p of None \<Rightarrow> (Some ErrNotExist, w) | Some n \<Rightarrow> (None, change ((nodes w)(p := None)) w)))"

definition os_Rename :: "string \<Rightarrow> string \<Rightarrow> world \<Rightarrow> err option \<times> world" where
  "os_Rename a b w = (case turn w of (Some (e, _), w) \<Rightarrow> (Some e, w)
     | (None, w) \<Rightarrow> (case nodes w a of None \<Rightarrow> (Some ErrNotExist, w)
        | Some n \<Rightarrow> if (case nodes w b of Some t \<Rightarrow> is_dir t | None \<Rightarrow> False) then (Some (Message ''file exists''), w)
                    else (None, if a = b then w else change ((nodes w)(a := None, b \<mapsto> n)) w)))"

definition set_perm :: "nat \<Rightarrow> node \<Rightarrow> node" where
  "set_perm m n = (case n of Directory i _ \<Rightarrow> Directory i m | Regular i c _ \<Rightarrow> Regular i c m | Special i _ \<Rightarrow> Special i m)"

definition os_Chmod :: "string \<Rightarrow> nat \<Rightarrow> world \<Rightarrow> err option \<times> world" where
  "os_Chmod p m w = (case turn w of (Some (e, _), w) \<Rightarrow> (Some e, w)
     | (None, w) \<Rightarrow> (case nodes w p of None \<Rightarrow> (Some ErrNotExist, w)
        | Some n \<Rightarrow> (None, change ((nodes w)(p \<mapsto> set_perm m n)) w)))"

text \<open>\<open>os.CreateTemp\<close> puts a random number behind the pattern until the name is free.\<close>

definition temp_path :: "string \<Rightarrow> string \<Rightarrow> nat \<Rightarrow> string" where
  "temp_path dir pattern r = (if dir \<noteq> [] \<and> last dir = slash then dir else dir @ [slash]) @ pattern @ decimal r"

fun pick_temp :: "nodes \<Rightarrow> string \<Rightarrow> string \<Rightarrow> nat list \<Rightarrow> (string \<times> nat list) option" where
  "pick_temp n dir pattern [] = None"
| "pick_temp n dir pattern (r # rs) =
     (if n (temp_path dir pattern r) = None then Some (temp_path dir pattern r, rs) else pick_temp n dir pattern rs)"

definition os_CreateTemp :: "string \<Rightarrow> string \<Rightarrow> world \<Rightarrow> (err + string) \<times> world" where
  "os_CreateTemp dir pattern w = (case turn w of (Some (e, _), w) \<Rightarrow> (Inl e, w)
     | (None, w) \<Rightarrow> (case pick_temp (nodes w) dir pattern (random w) of
          None \<Rightarrow> (Inl (Message ''file exists''), w\<lparr>random := []\<rparr>)
        | Some (p, rs) \<Rightarrow> (Inr p, change ((nodes w)(p \<mapsto> Regular (next_inode w) [] 384))
            (w\<lparr>random := rs, next_inode := next_inode w + 1\<rparr>))))"

text \<open>\<open>io.Copy\<close> into the new file, in one write.\<close>

definition append_content :: "string \<Rightarrow> node \<Rightarrow> node" where
  "append_content s n = (case n of Regular i c m \<Rightarrow> Regular i (c @ s) m | _ \<Rightarrow> n)"

definition io_Copy :: "string \<Rightarrow> string \<Rightarrow> world \<Rightarrow> err option \<times> world" where
  "io_Copy p s w = (case turn w of
       (Some (e, k), w) \<Rightarrow> (Some e, change ((nodes w)(p := map_option (append_content (take k s)) (nodes w p))) w)
     | (None, w) \<Rightarrow> (None, change ((nodes w)(p := map_option (append_content s) (nodes w p))) w))"

end
