(* ===== verification/Pem_Atomic.thy ===== *)
theory Pem_Atomic
  imports Go_Os
begin

text \<open>
  Replacing a batch of PEM files as a whole, \<^verbatim>\<open>cmd/go-openssl/code/atomic.go\<close>: staging every file beside its target, checking
  that no target changed, renaming one after the other, and rolling back. Wiping buffers is left out. The arguments of error
  messages that are not errors are left out too.
\<close>

record pemFileUpdate =
  up_path :: string
  up_content :: string
  up_mode :: nat

record stagedPEMFile =
  sf_update :: pemFileUpdate
  tempPath :: string
  originalContent :: string
  originalMode :: nat
  originalInfo :: "node option"
  existed :: bool
  committed :: bool

definition maximumAtomicOriginalBytes :: nat where
  "maximumAtomicOriginalBytes = 16 * 1024 * 1024"

abbreviation sf_path :: "stagedPEMFile \<Rightarrow> string" where
  "sf_path f \<equiv> up_path (sf_update f)"

definition wrapf :: "string \<Rightarrow> err \<Rightarrow> err" where
  "wrapf m e = WrapErr m [e]"

subsection \<open>Looking at targets\<close>

definition validateAtomicTarget :: "(nat \<Rightarrow> node) \<Rightarrow> string \<Rightarrow> string list \<Rightarrow> world \<Rightarrow> (err + string \<times> string list) \<times> world" where
  "validateAtomicTarget L path seenPaths w =
     (if path = [] then (Inl (Message ''atomic target path is required''), w)
      else (case filepath_Abs (filepath_Clean path) w of
        (Inl e, w) \<Rightarrow> (Inl (wrapf ''resolve atomic target %q: %w'' e), w)
      | (Inr cleanPath, w) \<Rightarrow>
          if cleanPath \<in> set seenPaths then (Inl (Message ''atomic target %q is duplicated''), w)
          else (case os_Stat L (filepath_Dir cleanPath) w of
            (Inl e, w) \<Rightarrow> (Inl (wrapf ''inspect parent for %q: %w'' e), w)
          | (Inr parentInfo, w) \<Rightarrow>
              if \<not> is_dir parentInfo then (Inl (Message ''parent for atomic target %q is not a directory''), w)
              else (Inr (cleanPath, cleanPath # seenPaths), w))))"

definition snapshotExistingFile :: "(nat \<Rightarrow> node) \<Rightarrow> string \<Rightarrow> node \<Rightarrow> world \<Rightarrow> (err + string \<times> node) \<times> world" where
  "snapshotExistingFile L path expectedInfo w =
     (case os_Open L path w of (Inl e, w) \<Rightarrow> (Inl e, w)
      | (Inr source, w) \<Rightarrow>
          (let (result, w) =
             (case file_Stat source w of (Inl e, w) \<Rightarrow> (Inl e, w)
              | (Inr info, w) \<Rightarrow>
                  if \<not> is_regular info \<or> \<not> os_SameFile expectedInfo info then (Inl (Message ''target changed while it was opened''), w)
                  else (case read_limited (maximumAtomicOriginalBytes + 1) source w of (Inl e, w) \<Rightarrow> (Inl e, w)
                    | (Inr content, w) \<Rightarrow>
                        if length content > maximumAtomicOriginalBytes then (Inl (Message ''existing target exceeds %d bytes''), w)
                        else (Inr (content, info), w)));
               (closed, w) = settle w
           in (case (result, closed) of
                 (Inr x, None) \<Rightarrow> (Inr x, w)
               | (Inr x, Some e) \<Rightarrow> (Inl (err.Join [e]), w)
               | (Inl e, None) \<Rightarrow> (Inl (err.Join [e]), w)
               | (Inl e, Some e2) \<Rightarrow> (Inl (err.Join [e, e2]), w))))"

subsection \<open>Staging\<close>

definition and_then :: "err option \<times> world \<Rightarrow> (world \<Rightarrow> err option \<times> world) \<Rightarrow> err option \<times> world" where
  "and_then r k = (case r of (Some e, w) \<Rightarrow> (Some e, w) | (None, w) \<Rightarrow> k w)"

definition stagePEMReader :: "string \<Rightarrow> string \<Rightarrow> string \<Rightarrow> nat \<Rightarrow> world \<Rightarrow> (err + string) \<times> world" where
  "stagePEMReader path ending content mode w =
     (case os_CreateTemp (filepath_Dir path) (''.'' @ filepath_Base path @ ending) w of
        (Inl e, w) \<Rightarrow> (Inl e, w)
      | (Inr stagedPath, w) \<Rightarrow>
          (let (resultErr, w) = and_then (io_Copy stagedPath content w) (\<lambda>w. and_then (os_Chmod stagedPath (mode mod 512) w) settle);
               (closeErr, w) = settle w
           in (case (if resultErr = None then closeErr else resultErr) of
                 None \<Rightarrow> (Inr stagedPath, w)
               | Some e \<Rightarrow> (Inl e, snd (os_Remove stagedPath w)))))"

definition stagePEMContent :: "string \<Rightarrow> string \<Rightarrow> nat \<Rightarrow> world \<Rightarrow> (err + string) \<times> world" where
  "stagePEMContent path content mode w = stagePEMReader path ''.tmp-'' content mode w"

fun cleanupStagedPEMFiles :: "stagedPEMFile list \<Rightarrow> world \<Rightarrow> world" where
  "cleanupStagedPEMFiles [] w = w"
| "cleanupStagedPEMFiles (file # rest) w =
     cleanupStagedPEMFiles rest (if tempPath file \<noteq> [] then snd (os_Remove (tempPath file) w) else w)"

text \<open>The switch over what is at the target: its snapshot, or nothing.\<close>

definition inspect_target :: "(nat \<Rightarrow> node) \<Rightarrow> string \<Rightarrow> world \<Rightarrow> (err + (string \<times> node) option) \<times> world" where
  "inspect_target L cleanPath w =
     (case os_Lstat cleanPath w of
        (Inr info, w) \<Rightarrow>
          if \<not> is_regular info then (Inl (Message ''atomic target %q is not a regular file''), w)
          else (case snapshotExistingFile L cleanPath info w of
              (Inl e, w) \<Rightarrow> (Inl (wrapf ''snapshot existing target %q: %w'' e), w)
            | (Inr x, w) \<Rightarrow> (Inr (Some x), w))
      | (Inl e, w) \<Rightarrow> if errors_Is e ErrNotExist then (Inr None, w) else (Inl (wrapf ''inspect atomic target %q: %w'' e), w))"

definition staged_file :: "pemFileUpdate \<Rightarrow> (string \<times> node) option \<Rightarrow> stagedPEMFile" where
  "staged_file u original = (case original of
       None \<Rightarrow> \<lparr>sf_update = u, tempPath = [], originalContent = [], originalMode = 0, originalInfo = None, existed = False, committed = False\<rparr>
     | Some (c, i) \<Rightarrow> \<lparr>sf_update = u, tempPath = [], originalContent = c, originalMode = node_perm i, originalInfo = Some i, existed = True,
         committed = False\<rparr>)"

fun stage_updates :: "(nat \<Rightarrow> node) \<Rightarrow> pemFileUpdate list \<Rightarrow> string list \<Rightarrow> stagedPEMFile list \<Rightarrow> world
    \<Rightarrow> (err + stagedPEMFile list) \<times> world" where
  "stage_updates L [] seenPaths staged w = (Inr staged, w)"
| "stage_updates L (update # rest) seenPaths staged w =
     (case validateAtomicTarget L (up_path update) seenPaths w of
        (Inl e, w) \<Rightarrow> (Inl e, cleanupStagedPEMFiles staged w)
      | (Inr (cleanPath, seenPaths), w) \<Rightarrow> (case inspect_target L cleanPath w of
          (Inl e, w) \<Rightarrow> (Inl e, cleanupStagedPEMFiles staged w)
        | (Inr original, w) \<Rightarrow>
            (let file = staged_file (update\<lparr>up_path := cleanPath\<rparr>) original in
             case stagePEMContent cleanPath (up_content update) (up_mode update) w of
               (Inl e, w) \<Rightarrow> (Inl (wrapf ''stage %q: %w'' e), cleanupStagedPEMFiles (staged @ [file]) w)
             | (Inr p, w) \<Rightarrow> stage_updates L rest seenPaths (staged @ [file\<lparr>tempPath := p\<rparr>]) w)))"

fun validateStagedTargetsUnchanged :: "(nat \<Rightarrow> node) \<Rightarrow> stagedPEMFile list \<Rightarrow> world \<Rightarrow> err option \<times> world" where
  "validateStagedTargetsUnchanged L [] w = (None, w)"
| "validateStagedTargetsUnchanged L (file # rest) w =
     (case os_Lstat (sf_path file) w of
        (Inr info, w) \<Rightarrow>
          if \<not> existed file then (Some (Message ''atomic target %q appeared before commit''), w)
          else if \<not> is_regular info \<or> \<not> os_SameFile (the (originalInfo file)) info
          then (Some (Message ''atomic target %q changed before commit''), w)
          else (case snapshotExistingFile L (sf_path file) info w of
              (Inl e, w) \<Rightarrow> (Some (wrapf ''verify atomic target %q: %w'' e), w)
            | (Inr (currentContent, currentInfo), w) \<Rightarrow>
                if node_perm currentInfo = originalMode file \<and> currentContent = originalContent file
                then validateStagedTargetsUnchanged L rest w
                else (Some (Message ''atomic target %q changed before commit''), w))
      | (Inl e, w) \<Rightarrow>
          if existed file then (Some (wrapf ''inspect atomic target %q before commit: %w'' e), w)
          else if errors_Is e ErrNotExist then validateStagedTargetsUnchanged L rest w
          else (Some (wrapf ''inspect atomic target %q before commit: %w'' e), w))"

subsection \<open>Rolling back\<close>

fun sync_directories :: "(nat \<Rightarrow> node) \<Rightarrow> string list \<Rightarrow> stagedPEMFile list \<Rightarrow> world \<Rightarrow> err option \<times> world" where
  "sync_directories L seen [] w = (None, w)"
| "sync_directories L seen (file # rest) w =
     (let directory = filepath_Dir (sf_path file) in
      if directory \<in> set seen then sync_directories L seen rest w
      else (case os_Open L directory w of
          (Inl e, w) \<Rightarrow> (Some (wrapf ''open output directory %q: %w'' e), w)
        | (Inr handle, w) \<Rightarrow>
            (let (syncErr, w) = settle w; (closeErr, w) = settle w in
             case syncErr of Some e \<Rightarrow> (errors_Join [Some (wrapf ''sync output directory %q: %w'' e), closeErr], w)
             | None \<Rightarrow> (case closeErr of Some e \<Rightarrow> (Some (wrapf ''close output directory %q: %w'' e), w)
               | None \<Rightarrow> sync_directories L (directory # seen) rest w))))"

definition syncUpdateDirectories :: "(nat \<Rightarrow> node) \<Rightarrow> stagedPEMFile list \<Rightarrow> world \<Rightarrow> err option \<times> world" where
  "syncUpdateDirectories L staged w = sync_directories L [] staged w"

text \<open>One round of the loop; the flag \<open>committed\<close> it clears is not read again.\<close>

definition rollback_one :: "stagedPEMFile \<Rightarrow> world \<Rightarrow> err option \<times> world" where
  "rollback_one file w =
     (if \<not> committed file then (None, w)
      else if existed file then
        (case stagePEMContent (sf_path file) (originalContent file) 384 w of
           (Inl e, w) \<Rightarrow> (Some (wrapf ''stage restore for %q: %w'' e), w)
         | (Inr restorePath, w) \<Rightarrow> (case os_Rename restorePath (sf_path file) w of
             (Some e, w) \<Rightarrow> (Some (wrapf ''restore %q: %w'' e), snd (os_Remove restorePath w))
           | (None, w) \<Rightarrow> (case os_Chmod (sf_path file) (originalMode file) w of
               (Some e, w) \<Rightarrow> (Some (wrapf ''restore permissions for %q: %w'' e), w)
             | (None, w) \<Rightarrow> (None, w))))
      else (case os_Remove (sf_path file) w of
          (Some e, w) \<Rightarrow> if errors_Is e ErrNotExist then (None, w) else (Some (wrapf ''remove replacement %q: %w'' e), w)
        | (None, w) \<Rightarrow> (None, w)))"

fun rollback_each :: "stagedPEMFile list \<Rightarrow> err option \<Rightarrow> world \<Rightarrow> err option \<times> world" where
  "rollback_each [] rollbackErr w = (rollbackErr, w)"
| "rollback_each (file # rest) rollbackErr w =
     (case rollback_one file w of
        (None, w) \<Rightarrow> rollback_each rest rollbackErr w
      | (Some e, w) \<Rightarrow> rollback_each rest (errors_Join [rollbackErr, Some e]) w)"

definition rollbackStagedPEMFiles :: "(nat \<Rightarrow> node) \<Rightarrow> stagedPEMFile list \<Rightarrow> world \<Rightarrow> err option \<times> world" where
  "rollbackStagedPEMFiles L staged w =
     (let (rollbackErr, w) = rollback_each (rev staged) None w; (syncErr, w) = syncUpdateDirectories L staged w
      in (errors_Join [rollbackErr, syncErr], w))"

subsection \<open>The batch\<close>

fun commit_staged :: "(nat \<Rightarrow> node) \<Rightarrow> stagedPEMFile list \<Rightarrow> stagedPEMFile list \<Rightarrow> world \<Rightarrow> (err + stagedPEMFile list) \<times> world" where
  "commit_staged L renamed [] w = (Inr renamed, w)"
| "commit_staged L renamed (file # rest) w =
     (case os_Rename (tempPath file) (sf_path file) w of
        (Some e, w) \<Rightarrow>
          (let (rollbackErr, w) = rollbackStagedPEMFiles L renamed w; w = cleanupStagedPEMFiles (file # rest) w
           in (Inl (the (errors_Join [Some (wrapf ''commit %q: %w'' e), rollbackErr])), w))
      | (None, w) \<Rightarrow> commit_staged L (renamed @ [file\<lparr>tempPath := [], committed := True\<rparr>]) rest w)"

definition writePEMFilesAtomicallyWithSync ::
    "(nat \<Rightarrow> node) \<Rightarrow> pemFileUpdate list \<Rightarrow> (stagedPEMFile list \<Rightarrow> world \<Rightarrow> err option \<times> world) \<Rightarrow> world \<Rightarrow> err option \<times> world" where
  "writePEMFilesAtomicallyWithSync L updates syncFn w =
     (if updates = [] then (None, w)
      else (case stage_updates L updates [] [] w of
          (Inl e, w) \<Rightarrow> (Some e, w)
        | (Inr staged, w) \<Rightarrow> (case validateStagedTargetsUnchanged L staged w of
            (Some e, w) \<Rightarrow> (Some e, cleanupStagedPEMFiles staged w)
          | (None, w) \<Rightarrow> (case commit_staged L [] staged w of
              (Inl e, w) \<Rightarrow> (Some e, w)
            | (Inr staged, w) \<Rightarrow> (case syncFn staged w of
                (None, w) \<Rightarrow> (None, w)
              | (Some e, w) \<Rightarrow>
                  (let (rollbackErr, w) = rollbackStagedPEMFiles L staged w; w = cleanupStagedPEMFiles staged w
                   in (errors_Join [Some e, rollbackErr], w)))))))"

definition writePEMFilesAtomically :: "(nat \<Rightarrow> node) \<Rightarrow> pemFileUpdate list \<Rightarrow> world \<Rightarrow> err option \<times> world" where
  "writePEMFilesAtomically L updates w = writePEMFilesAtomicallyWithSync L updates (syncUpdateDirectories L) w"

end
