(* ===== verification/Pem_Guarantees.thy ===== *)
theory Pem_Guarantees
  imports Pem_Atomic
begin

text \<open>
  What replacing a batch guarantees: whatever system calls fail, and wherever the process is killed, each target holds all of
  its old or all of its new content; success means the new content everywhere and no leftovers; an error without a roll-back
  part means that every target is as it was.
\<close>

subsection \<open>Calls that change nothing\<close>

definition honest :: "world \<Rightarrow> bool" where
  "honest w \<longleftrightarrow> (\<forall>e k. Some (e, k) \<in> set (faults w) \<longrightarrow> \<not> errors_Is e ErrNotExist)"

definition quiet :: "world \<Rightarrow> world \<Rightarrow> bool" where
  "quiet w w' \<longleftrightarrow> nodes w' = nodes w \<and> history w' = history w \<and> workdir w' = workdir w \<and> set (faults w') \<subseteq> set (faults w)"

lemma quiet_refl [simp]: "quiet w w" by (simp add: quiet_def)

lemma quiet_trans: "quiet u v \<Longrightarrow> quiet v w \<Longrightarrow> quiet u w" by (auto simp: quiet_def)

lemma turn_quiet: "turn w = (f, w') \<Longrightarrow> quiet w w'"
  by (auto simp: turn_def quiet_def split: list.splits)

lemma turn_fault: "turn w = (Some (e, k), w') \<Longrightarrow> honest w \<Longrightarrow> \<not> errors_Is e ErrNotExist"
  by (force simp: turn_def honest_def split: list.splits)

lemma quiet_honest: "quiet w w' \<Longrightarrow> honest w \<Longrightarrow> honest w'"
  by (auto simp: quiet_def honest_def)

lemma look_quiet: "look p w = (r, w') \<Longrightarrow> quiet w w'"
  by (auto simp: look_def split: prod.splits option.splits dest: turn_quiet)

lemma look_Inr: "look p w = (Inr n, w') \<Longrightarrow> nodes w p = Some n"
  by (auto simp: look_def quiet_def split: prod.splits option.splits dest!: turn_quiet)

lemma look_absent: "look p w = (Inl e, w') \<Longrightarrow> honest w \<Longrightarrow> errors_Is e ErrNotExist \<Longrightarrow> nodes w p = None"
proof -
  assume a: "look p w = (Inl e, w')" "honest w" "errors_Is e ErrNotExist"
  obtain f w1 where t: "turn w = (f, w1)" by fastforce
  show ?thesis
  proof (cases f)
    case None
    then show ?thesis using a(1) turn_quiet[OF t] by (auto simp: look_def t quiet_def split: option.splits)
  next
    case (Some x)
    then show ?thesis using a turn_fault[of w _ _ w1] t by (cases x) (simp add: look_def)
  qed
qed

lemma Lstat_rules: "os_Lstat p w = (r, w') \<Longrightarrow> quiet w w'" "os_Lstat p w = (Inr n, w') \<Longrightarrow> nodes w p = Some n"
  "os_Lstat p w = (Inl e, w') \<Longrightarrow> honest w \<Longrightarrow> errors_Is e ErrNotExist \<Longrightarrow> nodes w p = None"
  by (simp_all add: os_Lstat_def look_quiet look_Inr look_absent)

lemma Stat_quiet: "os_Stat L p w = (r, w') \<Longrightarrow> quiet w w'"
  by (auto simp: os_Stat_def split: prod.splits sum.splits node.splits dest: look_quiet)

lemma Open_quiet: "os_Open L p w = (r, w') \<Longrightarrow> quiet w w'"
  by (simp add: os_Open_def Stat_quiet)

lemma Open_regular: "os_Open L p w = (Inr f, w') \<Longrightarrow> nodes w p = Some n \<Longrightarrow> is_regular n \<Longrightarrow> f = n"
  by (auto simp: os_Open_def os_Stat_def split: prod.splits sum.splits node.splits dest!: look_Inr)

lemma file_Stat_rules: "file_Stat f w = (r, w') \<Longrightarrow> quiet w w'" "file_Stat f w = (Inr i, w') \<Longrightarrow> i = f"
  by (auto simp: file_Stat_def split: prod.splits option.splits dest: turn_quiet)

lemma read_rules: "read_limited n f w = (r, w') \<Longrightarrow> quiet w w'" "read_limited n f w = (Inr c, w') \<Longrightarrow> c = take n (node_content f)"
  by (auto simp: read_limited_def split: prod.splits option.splits dest: turn_quiet)

lemma settle_quiet: "settle w = (r, w') \<Longrightarrow> quiet w w'"
  by (auto simp: settle_def split: prod.splits option.splits dest: turn_quiet)

lemma snapshot_quiet: "snapshotExistingFile L p i w = (r, w') \<Longrightarrow> quiet w w'"
  unfolding snapshotExistingFile_def Let_def
  by (auto split: prod.splits sum.splits option.splits if_splits
      dest!: Open_quiet file_Stat_rules(1) read_rules(1) settle_quiet intro: quiet_trans)

lemma snapshot_Inr:
  assumes "snapshotExistingFile L p i w = (Inr (c, info), w')" "nodes w p = Some n" "is_regular n"
  shows "info = n \<and> c = node_content n"
proof -
  obtain f w1 where o: "os_Open L p w = (Inr f, w1)"
    using assms(1) by (auto simp: snapshotExistingFile_def split: prod.splits sum.splits)
  then have f: "f = n" using Open_regular assms(2,3) by blast
  from assms(1) show ?thesis
    unfolding snapshotExistingFile_def Let_def o
    by (auto simp: f split: prod.splits sum.splits option.splits if_splits dest!: file_Stat_rules(2) read_rules(2))
qed

lemma inspect_rules:
  assumes "inspect_target L p w = (r, w')"
  shows "quiet w w'" "r = Inr None \<Longrightarrow> honest w \<Longrightarrow> nodes w p = None"
    "r = Inr (Some (c, i)) \<Longrightarrow> \<exists>j m. nodes w p = Some (Regular j c m) \<and> i = Regular j c m"
    "r = Inl e \<Longrightarrow> e \<noteq> err.Join es"
proof -
  show "quiet w w'"
    using assms by (auto simp: inspect_target_def split: prod.splits sum.splits if_splits
        dest!: Lstat_rules(1) snapshot_quiet intro: quiet_trans)
  show "r = Inr None \<Longrightarrow> honest w \<Longrightarrow> nodes w p = None"
    using assms by (auto simp: inspect_target_def split: prod.splits sum.splits if_splits dest: Lstat_rules(3))
  show "r = Inl e \<Longrightarrow> e \<noteq> err.Join es"
    using assms by (auto simp: inspect_target_def wrapf_def split: prod.splits sum.splits if_splits)
  assume r: "r = Inr (Some (c, i))"
  then obtain n w1 where n: "os_Lstat p w = (Inr n, w1)" "is_regular n" "snapshotExistingFile L p n w1 = (Inr (c, i), w')"
    using assms by (auto simp: inspect_target_def split: prod.splits sum.splits if_splits)
  have "nodes w p = Some n" "nodes w1 p = Some n" using Lstat_rules(1,2)[OF n(1)] by (auto simp: quiet_def)
  with snapshot_Inr[OF n(3)] n(2) show "\<exists>j m. nodes w p = Some (Regular j c m) \<and> i = Regular j c m"
    by (cases n) auto
qed

definition target_path :: "string \<Rightarrow> pemFileUpdate \<Rightarrow> string" where
  "target_path wd u = (let p = filepath_Clean (up_path u) in if filepath_IsAbs p then filepath_Clean p else filepath_Join2 wd p)"

lemma Abs_rules: "filepath_Abs p w = (r, w') \<Longrightarrow> quiet w w'"
  "filepath_Abs p w = (Inr q, w') \<Longrightarrow> q = (if filepath_IsAbs p then filepath_Clean p else filepath_Join2 (workdir w) p)"
  by (auto simp: filepath_Abs_def os_Getwd_def quiet_def split: prod.splits sum.splits option.splits if_splits dest!: turn_quiet)

lemma validateAtomicTarget_rules:
  assumes "validateAtomicTarget L (up_path u) seen w = (r, w')"
  shows "quiet w w'" "r = Inr (p, seen') \<Longrightarrow> p = target_path (workdir w) u \<and> p \<notin> set seen \<and> seen' = p # seen"
    "r = Inl e \<Longrightarrow> e \<noteq> err.Join es"
proof -
  show "quiet w w'"
    using assms by (auto simp: validateAtomicTarget_def split: prod.splits sum.splits if_splits dest!: Abs_rules(1) Stat_quiet intro: quiet_trans)
  show "r = Inl e \<Longrightarrow> e \<noteq> err.Join es"
    using assms by (auto simp: validateAtomicTarget_def wrapf_def split: prod.splits sum.splits if_splits)
  assume "r = Inr (p, seen')"
  then show "p = target_path (workdir w) u \<and> p \<notin> set seen \<and> seen' = p # seen"
    using assms by (auto simp: validateAtomicTarget_def target_path_def Let_def split: prod.splits sum.splits if_splits dest!: Abs_rules(2))
qed

lemma sync_quiet: "sync_directories L seen fs w = (r, w') \<Longrightarrow> quiet w w'"
proof (induction fs arbitrary: seen w)
  case (Cons f fs)
  obtain o1 w1 where o: "os_Open L (filepath_Dir (sf_path f)) w = (o1, w1)" by fastforce
  obtain s1 w2 where s1: "settle w1 = (s1, w2)" by fastforce
  obtain s2 w3 where s2: "settle w2 = (s2, w3)" by fastforce
  have q: "quiet w w1" "quiet w w3"
    using Open_quiet[OF o] settle_quiet[OF s1] settle_quiet[OF s2] quiet_trans by blast+
  show ?case
    using Cons.prems q Cons.IH[of "filepath_Dir (sf_path f) # seen" w3] Cons.IH[of seen w] quiet_trans[of w w3 w']
    by (auto simp: o s1 s2 Let_def split: sum.splits option.splits if_splits)
qed simp

lemma validate_quiet: "validateStagedTargetsUnchanged L fs w = (r, w') \<Longrightarrow> quiet w w'"
proof (induction fs arbitrary: w)
  case (Cons f fs)
  obtain l1 w1 where l: "os_Lstat (sf_path f) w = (l1, w1)" by fastforce
  note q = Lstat_rules(1)[OF l]
  show ?case
  proof (cases l1)
    case (Inl e)
    then show ?thesis using Cons.prems q Cons.IH[of w1] quiet_trans[of w w1 w'] by (auto simp: l split: if_splits)
  next
    case (Inr info)
    obtain s1 w2 where s1: "snapshotExistingFile L (sf_path f) info w1 = (s1, w2)" by fastforce
    have q2: "quiet w w2" using q snapshot_quiet[OF s1] quiet_trans by blast
    show ?thesis
      using Cons.prems Inr q q2 Cons.IH[of w2] quiet_trans[of w w2 w'] by (auto simp: l s1 split: sum.splits if_splits)
  qed
qed simp

subsection \<open>What may be at a path\<close>

definition temp_like :: "string \<Rightarrow> bool" where
  "temp_like p \<longleftrightarrow> p \<noteq> [] \<and> is_digit (last p)"

text \<open>
  At a path is what was there; or, at a fresh name of the form of a temporary file, anything; or, at a target, a regular file
  with all of the new content, or with all of the content the target had.
\<close>

definition allowed :: "nodes \<Rightarrow> string \<Rightarrow> pemFileUpdate list \<Rightarrow> string \<Rightarrow> node option \<Rightarrow> bool" where
  "allowed N0 wd us p x \<longleftrightarrow> x = N0 p \<or> (N0 p = None \<and> temp_like p)
     \<or> (\<exists>u\<in>set us. target_path wd u = p \<and> (\<exists>i m. x = Some (Regular i (up_content u) m)
          \<or> (\<exists>j k c. N0 p = Some (Regular j c k) \<and> x = Some (Regular i c m))))"

definition intact :: "nodes \<Rightarrow> string \<Rightarrow> pemFileUpdate list \<Rightarrow> nodes \<Rightarrow> bool" where
  "intact N0 wd us N \<longleftrightarrow> (\<forall>p. allowed N0 wd us p (N p))"

definition sound :: "nodes \<Rightarrow> string \<Rightarrow> pemFileUpdate list \<Rightarrow> world \<Rightarrow> bool" where
  "sound N0 wd us w \<longleftrightarrow> intact N0 wd us (nodes w) \<and> (\<forall>N\<in>set (history w). intact N0 wd us N) \<and> workdir w = wd \<and> honest w"

lemma sound_quiet: "sound N0 wd us w \<Longrightarrow> quiet w w' \<Longrightarrow> sound N0 wd us w'"
  using quiet_honest by (auto simp: sound_def quiet_def)

lemma temp_path_like: "temp_like (temp_path d b r)"
  using decimal_digits[of "last (decimal r)" r] by (auto simp: temp_like_def temp_path_def)

lemma pick_temp_Some: "pick_temp n d b rs = Some (p, rs') \<Longrightarrow> n p = None \<and> temp_like p"
  by (induction rs) (auto simp: temp_path_like split: if_splits)

lemma intact_temp: "intact N0 wd us N \<Longrightarrow> temp_like t \<Longrightarrow> N0 t = None \<Longrightarrow> intact N0 wd us (N(t := x))"
  by (auto simp: intact_def allowed_def)

lemma intact_absent: "intact N0 wd us N \<Longrightarrow> N t = None \<Longrightarrow> N0 t = None"
  by (auto simp: intact_def allowed_def dest: spec[of _ t])

subsection \<open>Working on one temporary file\<close>

definition on_temp :: "string \<Rightarrow> world \<Rightarrow> world \<Rightarrow> bool" where
  "on_temp t w w' \<longleftrightarrow> (\<exists>x. nodes w' = (nodes w)(t := x)) \<and> (\<forall>N\<in>set (history w'). N \<in> set (history w) \<or> (\<exists>y. N = (nodes w)(t := y)))
     \<and> workdir w' = workdir w \<and> set (faults w') \<subseteq> set (faults w)"

lemma on_temp_quiet: "quiet w w' \<Longrightarrow> on_temp t w w'"
  by (auto simp: on_temp_def quiet_def intro: exI[of _ "nodes w t"])

lemma on_temp_trans: "on_temp t u v \<Longrightarrow> on_temp t v w \<Longrightarrow> on_temp t u w"
  unfolding on_temp_def by fastforce

lemma on_temp_change: "on_temp t w (change ((nodes w)(t := x)) w)"
  by (auto simp: on_temp_def change_def)

lemma on_temp_turn: "turn w = (f, v) \<Longrightarrow> on_temp t w (change ((nodes v)(t := x)) v)"
  using on_temp_trans[OF on_temp_quiet[OF turn_quiet] on_temp_change] .

lemma on_temp_calls:
  "io_Copy t s w = (r, w') \<Longrightarrow> on_temp t w w'" "os_Chmod t m w = (r, w') \<Longrightarrow> on_temp t w w'"
  "os_Remove t w = (r, w') \<Longrightarrow> on_temp t w w'" "settle w = (r, w') \<Longrightarrow> on_temp t w w'"
  by (auto simp: io_Copy_def os_Chmod_def os_Remove_def split: prod.splits option.splits
      dest: on_temp_turn on_temp_quiet[OF turn_quiet] on_temp_quiet[OF settle_quiet])

lemma sound_on_temp:
  assumes "sound N0 wd us w" "on_temp t w w'" "temp_like t" "N0 t = None"
  shows "sound N0 wd us w'"
proof -
  have "intact N0 wd us ((nodes w)(t := x))" for x using intact_temp assms by (simp add: sound_def)
  moreover have "honest w'" using assms(1,2) unfolding sound_def on_temp_def honest_def by blast
  ultimately show ?thesis using assms(1,2) by (auto simp: sound_def on_temp_def)
qed

text \<open>Paths that do not look like temporary files keep their nodes.\<close>

definition same_nodes :: "string set \<Rightarrow> world \<Rightarrow> world \<Rightarrow> bool" where
  "same_nodes P w w' \<longleftrightarrow> (\<forall>p. \<not> temp_like p \<and> p \<notin> P \<longrightarrow> nodes w' p = nodes w p)"

lemma same_nodes_trans: "same_nodes P u v \<Longrightarrow> same_nodes P v w \<Longrightarrow> same_nodes P u w"
  by (simp add: same_nodes_def)

lemma same_nodes_quiet: "quiet w w' \<Longrightarrow> same_nodes P w w'"
  by (simp add: same_nodes_def quiet_def)

lemma same_nodes_temp: "on_temp t w w' \<Longrightarrow> temp_like t \<Longrightarrow> same_nodes P w w'"
  by (auto simp: same_nodes_def on_temp_def)

lemma CreateTemp_cases:
  assumes "os_CreateTemp d b w = (r, w')"
  obtains e where "r = Inl e" "quiet w w'"
  | t i where "r = Inr t" "temp_like t" "nodes w t = None" "on_temp t w w'" "nodes w' t = Some (Regular i [] 384)"
proof -
  obtain f v where t: "turn w = (f, v)" by fastforce
  note q = turn_quiet[OF t]
  show thesis
  proof (cases "pick_temp (nodes v) d b (random v)")
    case None
    then show thesis using that(1) assms q by (auto simp: os_CreateTemp_def t quiet_def split: option.splits)
  next
    case (Some x)
    then obtain p rs where x: "pick_temp (nodes v) d b (random v) = Some (p, rs)" by (cases x) auto
    show thesis
    proof (cases f)
      case None
      let ?n = "(nodes v)(p \<mapsto> Regular (next_inode v) [] 384)"
      have "w' = change ?n (v\<lparr>random := rs, next_inode := next_inode v + 1\<rparr>)" "r = Inr p"
        using assms x None by (simp_all add: os_CreateTemp_def t)
      moreover from this have "on_temp p w w'" using q by (auto simp: on_temp_def change_def quiet_def)
      ultimately show thesis using that(2) pick_temp_Some[OF x] q by (auto simp: change_def quiet_def)
    next
      case (Some y)
      then show thesis using that(1) assms q by (cases y) (auto simp: os_CreateTemp_def t)
    qed
  qed
qed

lemma copy_ok: "io_Copy t s w = (None, w') \<Longrightarrow> nodes w t = Some (Regular i c m) \<Longrightarrow> nodes w' t = Some (Regular i (c @ s) m)"
  by (auto simp: io_Copy_def change_def append_content_def quiet_def split: prod.splits option.splits dest!: turn_quiet)

lemma chmod_ok: "os_Chmod t k w = (None, w') \<Longrightarrow> nodes w t = Some (Regular i c m) \<Longrightarrow> nodes w' t = Some (Regular i c k)"
  by (auto simp: os_Chmod_def change_def set_perm_def quiet_def split: prod.splits option.splits dest!: turn_quiet)

lemma stage_rules:
  assumes "stagePEMContent p c m w = (r, w')" "sound N0 wd us w"
  shows "sound N0 wd us w'" "same_nodes {} w w'"
    "r = Inr t \<Longrightarrow> temp_like t \<and> nodes w t = None \<and> (\<exists>i. nodes w' = (nodes w)(t \<mapsto> Regular i c (m mod 512)))"
proof -
  obtain r1 w1 where c1: "os_CreateTemp (filepath_Dir p) (CHR ''.'' # filepath_Base p @ ''.tmp-'') w = (r1, w1)" by fastforce
  note def = stagePEMContent_def stagePEMReader_def c1
  have all: "sound N0 wd us w' \<and> same_nodes {} w w'
      \<and> (r = Inr t \<longrightarrow> temp_like t \<and> nodes w t = None \<and> (\<exists>i. nodes w' = (nodes w)(t \<mapsto> Regular i c (m mod 512))))"
    using c1
  proof (cases rule: CreateTemp_cases)
    case (1 e)
    then show ?thesis using assms sound_quiet same_nodes_quiet by (auto simp: def)
  next
    case (2 s i)
    obtain e2 w2 where c2: "io_Copy s c w1 = (e2, w2)" by fastforce
    obtain e3 w3 where c3: "os_Chmod s (m mod 512) w2 = (e3, w3)" by fastforce
    obtain e4 w4 where c4: "settle w3 = (e4, w4)" by fastforce
    define e5 where "e5 = (if e2 \<noteq> None then (e2, w2) else if e3 \<noteq> None then (e3, w3) else (e4, w4))"
    obtain e6 w6 where c6: "settle (snd e5) = (e6, w6)" by fastforce
    obtain e7 w7 where c7: "os_Remove s w6 = (e7, w7)" by fastforce
    have s6: "and_then (io_Copy s c w1) (\<lambda>w. and_then (os_Chmod s (m mod 512) w) settle) = e5"
      using c2 c3 c4 by (auto simp: and_then_def e5_def split: option.splits)
    have t2: "on_temp s w w2" using on_temp_trans[OF 2(4) on_temp_calls(1)[OF c2]] .
    then have t3: "on_temp s w w3" using on_temp_trans on_temp_calls(2)[OF c3] by blast
    then have t4: "on_temp s w w4" using on_temp_trans on_temp_calls(4)[OF c4] by blast
    have "on_temp s w (snd e5)" using t2 t3 t4 by (simp add: e5_def)
    from on_temp_trans[OF this on_temp_calls(4)[OF c6]] have t6: "on_temp s w w6" .
    then have t7: "on_temp s w w7" using on_temp_trans on_temp_calls(3)[OF c7] by blast
    have n0: "N0 s = None" using intact_absent assms(2) 2(3) by (auto simp: sound_def)
    have r: "(if (if fst e5 = None then e6 else fst e5) = None then (Inr s, w6) else (Inl (the (if fst e5 = None then e6 else fst e5)), w7)) = (r, w')"
      using assms(1) 2(1) c6 c7 s6 by (auto simp: def Let_def split: prod.splits option.splits if_splits)
    then have on: "on_temp s w w'" using t6 t7 by (auto split: if_splits)
    have "temp_like t \<and> nodes w t = None \<and> (\<exists>i. nodes w' = (nodes w)(t \<mapsto> Regular i c (m mod 512)))" if "r = Inr t"
    proof -
      have eq: "t = s" "w' = w6" "e2 = None" "e3 = None" "e4 = None" using that r by (auto simp: e5_def split: if_splits)
      have "nodes w2 s = Some (Regular i c 384)" using copy_ok[OF c2[unfolded eq] 2(5)] by simp
      from chmod_ok[OF c3[unfolded eq] this] have "nodes w3 s = Some (Regular i c (m mod 512))" .
      moreover have "nodes w6 = nodes w3"
        using settle_quiet[OF c4] settle_quiet[OF c6] eq by (auto simp: quiet_def e5_def)
      ultimately have "nodes w' s = Some (Regular i c (m mod 512))" using eq by simp
      then have "nodes w' = (nodes w)(s \<mapsto> Regular i c (m mod 512))" using on by (auto simp: on_temp_def)
      then show ?thesis using eq(1) 2(2,3) by blast
    qed
    then show ?thesis using sound_on_temp[OF assms(2) on 2(2) n0] same_nodes_temp[OF on 2(2)] by blast
  qed
  then show "sound N0 wd us w'" "same_nodes {} w w'"
    "r = Inr t \<Longrightarrow> temp_like t \<and> nodes w t = None \<and> (\<exists>i. nodes w' = (nodes w)(t \<mapsto> Regular i c (m mod 512)))" by blast+
qed

subsection \<open>Staged files\<close>

text \<open>A staged file belongs to an update, and its snapshot is what was at the target.\<close>

definition entry :: "nodes \<Rightarrow> string \<Rightarrow> pemFileUpdate list \<Rightarrow> stagedPEMFile \<Rightarrow> bool" where
  "entry N0 wd us f \<longleftrightarrow> (\<exists>u\<in>set us. sf_update f = u\<lparr>up_path := target_path wd u\<rparr>)
     \<and> (if existed f then \<exists>j. N0 (sf_path f) = Some (Regular j (originalContent f) (originalMode f)) else N0 (sf_path f) = None)"

definition at_temp :: "nodes \<Rightarrow> nodes \<Rightarrow> stagedPEMFile \<Rightarrow> bool" where
  "at_temp N0 N f \<longleftrightarrow> temp_like (tempPath f) \<and> N0 (tempPath f) = None
     \<and> (\<exists>i. N (tempPath f) = Some (Regular i (up_content (sf_update f)) (up_mode (sf_update f) mod 512)))"

definition staged_ok :: "nodes \<Rightarrow> string \<Rightarrow> pemFileUpdate list \<Rightarrow> stagedPEMFile list \<Rightarrow> nodes \<Rightarrow> bool" where
  "staged_ok N0 wd us fs N \<longleftrightarrow> (\<forall>p. p \<notin> tempPath ` set fs \<longrightarrow> N p = N0 p) \<and> (\<forall>f\<in>set fs. entry N0 wd us f \<and> at_temp N0 N f \<and> \<not> committed f)
     \<and> distinct (map tempPath fs) \<and> distinct (map sf_path fs)"

definition no_temps :: "string \<Rightarrow> pemFileUpdate list \<Rightarrow> bool" where
  "no_temps wd us \<longleftrightarrow> (\<forall>u\<in>set us. \<not> temp_like (target_path wd u))"

lemma entry_path: "entry N0 wd us f \<Longrightarrow> no_temps wd us \<Longrightarrow> \<not> temp_like (sf_path f)"
  by (auto simp: entry_def no_temps_def)

lemma Remove_temp:
  assumes "sound N0 wd us w" "temp_like t" "N0 t = None"
  shows "sound N0 wd us (snd (os_Remove t w))" "same_nodes P w (snd (os_Remove t w))"
  using sound_on_temp[OF assms(1) _ assms(2,3)] same_nodes_temp[OF _ assms(2)] on_temp_calls(3)[of t w]
  by (metis prod.collapse)+

lemma cleanup_rules:
  assumes "sound N0 wd us w" "\<forall>f\<in>set fs. tempPath f = [] \<or> temp_like (tempPath f) \<and> N0 (tempPath f) = None"
  shows "sound N0 wd us (cleanupStagedPEMFiles fs w) \<and> same_nodes P w (cleanupStagedPEMFiles fs w)"
  using assms
proof (induction fs arbitrary: w)
  case (Cons f fs)
  let ?w = "if tempPath f \<noteq> [] then snd (os_Remove (tempPath f) w) else w"
  have "sound N0 wd us ?w \<and> same_nodes P w ?w"
    using Cons.prems Remove_temp[OF Cons.prems(1)] by (auto simp: same_nodes_def)
  then show ?case using Cons.IH[of ?w] Cons.prems(2) same_nodes_trans[of P w ?w] by auto
qed (simp add: same_nodes_def)

lemma cleanup_staged:
  assumes "sound N0 wd us w" "staged_ok N0 wd us fs N"
  shows "sound N0 wd us (cleanupStagedPEMFiles fs w)" "same_nodes P w (cleanupStagedPEMFiles fs w)"
  using cleanup_rules[OF assms(1), of fs P] assms(2) by (auto simp: staged_ok_def at_temp_def)

lemma staged_same: "staged_ok N0 wd us fs N \<Longrightarrow> \<not> temp_like p \<Longrightarrow> N p = N0 p"
proof -
  assume ok: "staged_ok N0 wd us fs N" and p: "\<not> temp_like p"
  then have "p \<notin> tempPath ` set fs" by (auto simp: staged_ok_def at_temp_def)
  then show ?thesis using ok by (simp add: staged_ok_def)
qed

lemma staged_ok_snoc:
  assumes "staged_ok N0 wd us fs N" "entry N0 wd us g" "at_temp N0 N' g" "\<not> committed g"
    and "tempPath g \<notin> tempPath ` set fs" "sf_path g \<notin> sf_path ` set fs" "N' = N(tempPath g \<mapsto> x)"
  shows "staged_ok N0 wd us (fs @ [g]) N'"
proof -
  have "at_temp N0 N' f" if "f \<in> set fs" for f
  proof -
    have "at_temp N0 N f" using assms(1) that by (simp add: staged_ok_def)
    moreover have "tempPath f \<noteq> tempPath g" using assms(5) that by (metis image_eqI)
    ultimately show ?thesis by (simp add: at_temp_def assms(7))
  qed
  then show ?thesis using assms by (auto simp: staged_ok_def)
qed

lemma stage_updates_rules:
  assumes "stage_updates L rest seen staged w = (r, w')" "sound N0 wd us w" "no_temps wd us"
    and "staged_ok N0 wd us staged (nodes w)" "set seen = sf_path ` set staged" "set rest \<subseteq> set us"
  shows "sound N0 wd us w' \<and> (case r of
      Inr fs \<Rightarrow> staged_ok N0 wd us fs (nodes w') \<and> map sf_update fs = map sf_update staged @ map (\<lambda>u. u\<lparr>up_path := target_path wd u\<rparr>) rest
    | Inl e \<Rightarrow> (\<forall>p. \<not> temp_like p \<longrightarrow> nodes w' p = N0 p) \<and> (\<forall>es. e \<noteq> err.Join es))"
  using assms
proof (induction rest arbitrary: seen staged w)
  case (Cons u rest)
  note snd = Cons.prems(2) and nt = Cons.prems(3) and ok = Cons.prems(4)
  obtain v w1 where v: "validateAtomicTarget L (up_path u) seen w = (v, w1)" by fastforce
  note vr = validateAtomicTarget_rules[OF v]
  have wd: "workdir w = wd" using snd by (simp add: sound_def)
  have abort: ?case if q: "quiet w w2" and w': "w' = cleanupStagedPEMFiles staged w2" and r: "r = Inl e" and e: "\<forall>es. e \<noteq> err.Join es" for w2 e
  proof -
    have s2: "sound N0 wd us w2" using sound_quiet snd q by blast
    note c = cleanup_staged(1)[OF s2 ok] cleanup_staged(2)[OF s2 ok, of "{}"]
    have "nodes w' p = N0 p" if "\<not> temp_like p" for p
      using c(2) q staged_same[OF ok that] that by (simp add: w' same_nodes_def quiet_def)
    then show ?thesis using c(1) r e by (simp add: w')
  qed
  show ?case
  proof (cases v)
    case (Inl e)
    then show ?thesis using abort[of w1 e] Cons.prems(1) vr(1) vr(3) by (auto simp: v)
  next
    case (Inr x)
    then obtain p seen' where x: "v = Inr (p, seen')" by (cases x) auto
    then have p: "p = target_path wd u" "p \<notin> set seen" "seen' = p # seen" using vr(2) wd by blast+
    obtain i w2 where i: "inspect_target L p w1 = (i, w2)" by fastforce
    note ir = inspect_rules[OF i]
    have q2: "quiet w w2" using quiet_trans vr(1) ir(1) by blast
    show ?thesis
    proof (cases i)
      case (Inl e)
      then show ?thesis using abort[of w2 e] Cons.prems(1) q2 ir(4) by (auto simp: v x i)
    next
      case (Inr orig)
      let ?f = "staged_file (u\<lparr>up_path := p\<rparr>) orig"
      have s2: "sound N0 wd us w2" using sound_quiet snd q2 by blast
      have np: "\<not> temp_like p" using nt p(1) Cons.prems(6) by (auto simp: no_temps_def)
      have N0p: "nodes w1 p = N0 p" "nodes w2 = nodes w" using vr(1) q2 staged_same[OF ok np] by (auto simp: quiet_def)
      have f: "sf_update ?f = u\<lparr>up_path := p\<rparr>" "tempPath ?f = []" "\<not> committed ?f" by (auto simp: staged_file_def split: option.split)
      have ent: "entry N0 wd us ?f"
      proof (cases orig)
        case None
        moreover have "honest w1" using quiet_honest vr(1) snd by (auto simp: sound_def)
        ultimately show ?thesis using ir(2) Inr N0p(1) p(1) Cons.prems(6) by (auto simp: entry_def staged_file_def)
      next
        case (Some y)
        then obtain c j where y: "orig = Some (c, j)" by (cases y) auto
        then show ?thesis using ir(3)[of c j] Inr N0p(1) p(1) Cons.prems(6) by (auto simp: entry_def staged_file_def)
      qed
      obtain t w3 where t: "stagePEMContent p (up_content u) (up_mode u) w2 = (t, w3)" by fastforce
      note tr = stage_rules[OF t s2]
      show ?thesis
      proof (cases t)
        case (Inl e)
        have fs: "\<forall>f\<in>set (staged @ [?f]). tempPath f = [] \<or> temp_like (tempPath f) \<and> N0 (tempPath f) = None"
          using ok f(2) by (auto simp: staged_ok_def at_temp_def)
        have w': "w' = cleanupStagedPEMFiles (staged @ [?f]) w3" "r = Inl (wrapf ''stage %q: %w'' e)"
          using Cons.prems(1) Inl by (simp_all add: v x i Inr t Let_def)
        note c = cleanup_rules[OF tr(1) fs, of "{}"]
        have "nodes w' q = N0 q" if "\<not> temp_like q" for q
          using c tr(2) staged_same[OF ok that] N0p(2) that by (simp add: w' same_nodes_def)
        then show ?thesis using c w' by (simp add: wrapf_def)
      next
        case (Inr tp)
        obtain k where tp: "temp_like tp" "nodes w tp = None"
          "nodes w3 = (nodes w)(tp \<mapsto> Regular k (up_content u) (up_mode u mod 512))"
          using tr(3)[OF Inr] N0p(2) by auto
        have fresh: "tp \<notin> tempPath ` set staged" using ok tp(2) by (auto simp: staged_ok_def at_temp_def)
        have n0: "N0 tp = None" using intact_absent snd tp(2) by (auto simp: sound_def)
        let ?g = "?f\<lparr>tempPath := tp\<rparr>"
        have ne: "p \<noteq> tp" using np tp(1) by auto
        have "staged_ok N0 wd us (staged @ [?g]) (nodes w3)"
        proof (rule staged_ok_snoc[OF ok])
          show "entry N0 wd us ?g" using ent by (simp add: entry_def)
          show "at_temp N0 (nodes w3) ?g" using tp n0 f(1) by (simp add: at_temp_def)
        qed (use f tp fresh p(2) Cons.prems(5) in simp_all)
        moreover have "set seen' = sf_path ` set (staged @ [?g])" using Cons.prems(5) p(3) f(1) by simp
        moreover have "stage_updates L rest seen' (staged @ [?g]) w3 = (r, w')"
          using Cons.prems(1) Inr \<open>i = Inr orig\<close> by (simp add: v x i t Let_def)
        moreover have "set rest \<subseteq> set us" using Cons.prems(6) by simp
        ultimately have "sound N0 wd us w' \<and> (case r of
            Inr fs \<Rightarrow> staged_ok N0 wd us fs (nodes w')
              \<and> map sf_update fs = map sf_update (staged @ [?g]) @ map (\<lambda>u. u\<lparr>up_path := target_path wd u\<rparr>) rest
          | Inl e \<Rightarrow> (\<forall>p. \<not> temp_like p \<longrightarrow> nodes w' p = N0 p) \<and> (\<forall>es. e \<noteq> err.Join es))"
          using Cons.IH[of seen' "staged @ [?g]" w3] tr(1) nt by blast
        then show ?thesis using f(1) p(1) by (auto split: sum.splits)
      qed
    qed
  qed
qed auto

subsection \<open>Roll-back\<close>

text \<open>The same file as before, possibly under another inode.\<close>

definition same_file :: "node option \<Rightarrow> node option \<Rightarrow> bool" where
  "same_file a b \<longleftrightarrow> a = b \<or> (\<exists>i j c m. a = Some (Regular i c m) \<and> b = Some (Regular j c m))"

lemma same_file_refl [simp]: "same_file a a" by (simp add: same_file_def)

lemma sound_change: "sound N0 wd us w \<Longrightarrow> intact N0 wd us n \<Longrightarrow> sound N0 wd us (change n w)"
  by (auto simp: sound_def change_def honest_def)

lemma intact_update: "intact N0 wd us N \<Longrightarrow> allowed N0 wd us p x \<Longrightarrow> intact N0 wd us (N(p := x))"
  by (simp add: intact_def)

lemma intact_original:
  assumes "intact N0 wd us N" "entry N0 wd us f" "existed f"
  shows "intact N0 wd us (N(sf_path f \<mapsto> Regular i (originalContent f) m))"
proof (rule intact_update[OF assms(1)])
  obtain u j where "u \<in> set us" "sf_path f = target_path wd u" "N0 (sf_path f) = Some (Regular j (originalContent f) (originalMode f))"
    using assms(2,3) by (auto simp: entry_def)
  then show "allowed N0 wd us (sf_path f) (Some (Regular i (originalContent f) m))"
    unfolding allowed_def by (intro disjI2 bexI[of _ u]) auto
qed

lemma Rename_cases:
  assumes "os_Rename a b w = (r, w')" "nodes w a = Some n" "a \<noteq> b"
  obtains e where "r = Some e" "quiet w w'"
  | w1 where "r = None" "quiet w w1" "w' = change ((nodes w)(a := None, b \<mapsto> n)) w1"
proof -
  obtain f v where t: "turn w = (f, v)" by fastforce
  note q = turn_quiet[OF t]
  then have n: "nodes v = nodes w" by (simp add: quiet_def)
  show thesis
  proof (cases f)
    case (Some y)
    then show thesis using that(1) assms(1) q t by (cases y) (auto simp: os_Rename_def)
  next
    case None
    then have "(r = Some (Message ''file exists'') \<and> w' = v) \<or> (r = None \<and> w' = change ((nodes w)(a := None, b \<mapsto> n)) v)"
      using assms n by (simp add: os_Rename_def t split: if_split_asm)
    then show thesis using that q by blast
  qed
qed

lemma Chmod_cases:
  assumes "os_Chmod p m w = (r, w')" "nodes w p = Some n"
  obtains e where "r = Some e" "quiet w w'"
  | w1 where "r = None" "quiet w w1" "w' = change ((nodes w)(p \<mapsto> set_perm m n)) w1"
proof -
  obtain f v where t: "turn w = (f, v)" by fastforce
  note q = turn_quiet[OF t]
  then have n: "nodes v = nodes w" by (simp add: quiet_def)
  show thesis
  proof (cases f)
    case (Some y)
    then show thesis using that(1) assms(1) q t by (cases y) (auto simp: os_Chmod_def)
  next
    case None
    then have "r = None \<and> w' = change ((nodes w)(p \<mapsto> set_perm m n)) v" using assms n by (simp add: os_Chmod_def t)
    then show thesis using that(2) q by blast
  qed
qed

lemma Remove_cases:
  assumes "os_Remove p w = (r, w')" "honest w"
  obtains e where "r = Some e" "quiet w w'" "errors_Is e ErrNotExist \<longrightarrow> nodes w p = None"
  | w1 where "r = None" "quiet w w1" "w' = change ((nodes w)(p := None)) w1"
proof -
  obtain f v where t: "turn w = (f, v)" by fastforce
  note q = turn_quiet[OF t]
  show thesis
  proof (cases f)
    case (Some y)
    then show thesis using that(1) assms q turn_fault[of w _ _ v] t by (cases y) (auto simp: os_Remove_def)
  next
    case None
    then show thesis using that assms q by (auto simp: os_Remove_def t quiet_def split: option.splits)
  qed
qed

lemma rollback_one_rules:
  assumes "rollback_one f w = (r, w')" "sound N0 wd us w" "entry N0 wd us f" "no_temps wd us" "committed f"
  shows "sound N0 wd us w' \<and> same_nodes {sf_path f} w w' \<and> (r = None \<longrightarrow> same_file (nodes w' (sf_path f)) (N0 (sf_path f)))"
proof (cases "existed f")
  case True
  then obtain j where orig: "N0 (sf_path f) = Some (Regular j (originalContent f) (originalMode f))"
    using assms(3) by (auto simp: entry_def)
  obtain t w1 where t: "stagePEMContent (sf_path f) (originalContent f) 384 w = (t, w1)" by fastforce
  note tr = stage_rules[OF t assms(2)]
  have s1: "same_nodes {sf_path f} w w1" using tr(2) by (simp add: same_nodes_def)
  show ?thesis
  proof (cases t)
    case (Inl e)
    then show ?thesis using assms(1,5) True tr(1) s1 by (auto simp: rollback_one_def t)
  next
    case (Inr p)
    then obtain i where p: "temp_like p" "nodes w p = None" "nodes w1 p = Some (Regular i (originalContent f) (384 mod 512))"
      using tr(3) by fastforce
    have n0: "N0 p = None" using intact_absent assms(2) p(2) by (auto simp: sound_def)
    have ne: "p \<noteq> sf_path f" using entry_path[OF assms(3,4)] p(1) by auto
    obtain r2 w2 where r2: "os_Rename p (sf_path f) w1 = (r2, w2)" by fastforce
    from r2 p(3) ne show ?thesis
    proof (cases rule: Rename_cases)
      case (1 e)
      have s2: "sound N0 wd us w2" using sound_quiet tr(1) 1(2) by blast
      note rm = Remove_temp(1)[OF s2 p(1) n0] Remove_temp(2)[OF s2 p(1) n0, of "{sf_path f}"]
      have "same_nodes {sf_path f} w (snd (os_Remove p w2))"
        using same_nodes_trans[OF s1 same_nodes_trans[OF same_nodes_quiet[OF 1(2)] rm(2)]] .
      then show ?thesis using assms(1,5) True Inr 1(1) rm(1) by (auto simp: rollback_one_def t r2)
    next
      case (2 v)
      have "sound N0 wd us v" "nodes v = nodes w1" using sound_quiet tr(1) 2(2) by (auto simp: quiet_def)
      moreover have "intact N0 wd us ((nodes w1)(p := None, sf_path f \<mapsto> Regular i (originalContent f) (384 mod 512)))"
        by (rule intact_original[OF _ assms(3) True]) (use intact_temp p(1) n0 tr(1) in \<open>simp add: sound_def\<close>)
      ultimately have s2: "sound N0 wd us w2" using sound_change 2(3) by simp
      have n2: "nodes w2 (sf_path f) = Some (Regular i (originalContent f) (384 mod 512))" using 2(3) by (simp add: change_def)
      have sm2: "same_nodes {sf_path f} w w2" using s1 p(1) 2(3) by (auto simp: same_nodes_def change_def)
      obtain r3 w3 where r3: "os_Chmod (sf_path f) (originalMode f) w2 = (r3, w3)" by fastforce
      from r3 n2 show ?thesis
      proof (cases rule: Chmod_cases)
        case (1 e)
        then show ?thesis using assms(1,5) True Inr 2(1) s2 sm2 sound_quiet same_nodes_trans[OF sm2 same_nodes_quiet]
          by (auto simp: rollback_one_def t r2 r3)
      next
        case (2 v)
        have "sound N0 wd us v" using sound_quiet s2 2(2) by blast
        moreover have "intact N0 wd us ((nodes w2)(sf_path f \<mapsto> Regular i (originalContent f) (originalMode f)))"
          using intact_original[OF _ assms(3) True] s2 by (simp add: sound_def)
        ultimately have "sound N0 wd us w3" using sound_change 2(3) by (simp add: set_perm_def)
        moreover have "same_nodes {sf_path f} w w3" using sm2 2(3) by (simp add: same_nodes_def change_def)
        moreover have "same_file (nodes w3 (sf_path f)) (N0 (sf_path f))" using 2(3) orig by (simp add: change_def set_perm_def same_file_def)
        moreover have "(r, w') = (None, w3)" using assms(1,5) True Inr 2(1) \<open>r2 = None\<close> by (simp add: rollback_one_def t r2 r3)
        ultimately show ?thesis by simp
      qed
    qed
  qed
next
  case False
  then have n0: "N0 (sf_path f) = None" using assms(3) by (simp add: entry_def)
  obtain r2 w2 where r2: "os_Remove (sf_path f) w = (r2, w2)" by fastforce
  have "honest w" using assms(2) by (simp add: sound_def)
  from r2 this show ?thesis
  proof (cases rule: Remove_cases)
    case (1 e)
    have "sound N0 wd us w2" "nodes w2 = nodes w" using sound_quiet assms(2) 1(2) by (auto simp: quiet_def)
    then show ?thesis using assms(1,5) False 1(1,3) n0 by (auto simp: rollback_one_def r2 same_nodes_def split: if_splits)
  next
    case (2 v)
    have "sound N0 wd us v" using sound_quiet assms(2) 2(2) by blast
    moreover have "intact N0 wd us ((nodes w)(sf_path f := None))"
      using assms(2) n0 by (intro intact_update) (auto simp: sound_def allowed_def)
    ultimately have "sound N0 wd us w2" using sound_change 2(3) by simp
    moreover have "same_nodes {sf_path f} w w2" using 2(3) by (simp add: same_nodes_def change_def)
    moreover have "nodes w2 (sf_path f) = None" using 2(3) by (simp add: change_def)
    ultimately show ?thesis using assms(1,5) False 2(1) n0 by (auto simp: rollback_one_def r2)
  qed
qed

lemma rollback_each_Some: "rollback_each fs (Some a) w = (r, w') \<Longrightarrow> r \<noteq> None"
proof (induction fs arbitrary: a w)
  case (Cons f fs)
  have "errors_Join [Some a, Some e] = Some (err.Join [a, e])" for e by (simp add: errors_Join_def)
  then show ?case using Cons by (auto split: prod.splits option.splits)
qed auto

lemma errors_Join_last [simp]: "errors_Join [acc, Some e] \<noteq> None"
  by simp

lemma rollback_each_rules:
  assumes "rollback_each fs acc w = (r, w')" "sound N0 wd us w" "no_temps wd us"
    and "\<forall>f\<in>set fs. entry N0 wd us f \<and> committed f" "distinct (map sf_path fs)"
  shows "sound N0 wd us w' \<and> same_nodes (sf_path ` set fs) w w'
    \<and> (r = None \<longrightarrow> (\<forall>f\<in>set fs. same_file (nodes w' (sf_path f)) (N0 (sf_path f))))"
  using assms
proof (induction fs arbitrary: acc w)
  case (Cons f fs)
  obtain r1 w1 where r1: "rollback_one f w = (r1, w1)" by fastforce
  have one: "sound N0 wd us w1" "same_nodes {sf_path f} w w1" "r1 = None \<Longrightarrow> same_file (nodes w1 (sf_path f)) (N0 (sf_path f))"
    using rollback_one_rules[OF r1 Cons.prems(2) _ Cons.prems(3)] Cons.prems(4) by auto
  let ?acc = "case r1 of None \<Rightarrow> acc | Some e \<Rightarrow> errors_Join [acc, Some e]"
  have rest: "rollback_each fs ?acc w1 = (r, w')" using Cons.prems(1) by (auto simp: r1 split: option.splits)
  have ih: "sound N0 wd us w'" "same_nodes (sf_path ` set fs) w1 w'"
    "r = None \<Longrightarrow> \<forall>f\<in>set fs. same_file (nodes w' (sf_path f)) (N0 (sf_path f))"
    using Cons.IH[OF rest one(1) Cons.prems(3)] Cons.prems(4,5) by auto
  have "same_file (nodes w' (sf_path f)) (N0 (sf_path f))" if "r = None"
  proof -
    have "?acc = None" using rollback_each_Some[of fs _ w1 r w'] rest that by (cases ?acc) auto
    then have "r1 = None" by (cases r1) simp_all
    moreover have "nodes w' (sf_path f) = nodes w1 (sf_path f)"
      using ih(2) entry_path[of N0 wd us f] Cons.prems(3,4,5) by (auto simp: same_nodes_def)
    ultimately show ?thesis using one(3) by simp
  qed
  moreover have "same_nodes (sf_path ` set (f # fs)) w w'" using one(2) ih(2) by (auto simp: same_nodes_def)
  ultimately show ?case using ih by simp
qed (simp add: same_nodes_def)

lemma rollback_rules:
  assumes "rollbackStagedPEMFiles L fs w = (r, w')" "sound N0 wd us w" "no_temps wd us"
    and "\<forall>f\<in>set fs. entry N0 wd us f \<and> committed f" "distinct (map sf_path fs)"
  shows "sound N0 wd us w' \<and> same_nodes (sf_path ` set fs) w w'
    \<and> (r = None \<longrightarrow> (\<forall>f\<in>set fs. same_file (nodes w' (sf_path f)) (N0 (sf_path f))))"
proof -
  obtain r1 w1 where r1: "rollback_each (rev fs) None w = (r1, w1)" by fastforce
  obtain r2 w2 where r2: "syncUpdateDirectories L fs w1 = (r2, w2)" by fastforce
  have q: "quiet w1 w2" using r2 sync_quiet by (simp add: syncUpdateDirectories_def)
  have "distinct (map sf_path (rev fs))" using assms(5) by (simp add: rev_map[symmetric])
  with rollback_each_rules[OF r1 assms(2,3)] assms(4)
  have "sound N0 wd us w1" "same_nodes (sf_path ` set fs) w w1"
    "r1 = None \<Longrightarrow> \<forall>f\<in>set fs. same_file (nodes w1 (sf_path f)) (N0 (sf_path f))" by auto
  moreover have "r = errors_Join [r1, r2]" "w' = w2" using assms(1) by (simp_all add: rollbackStagedPEMFiles_def r1 r2)
  ultimately show ?thesis using sound_quiet q by (auto simp: quiet_def same_nodes_def)
qed

subsection \<open>Committing\<close>

text \<open>The files of \<open>before\<close> are renamed, those of \<open>rest\<close> still at their temporary paths.\<close>

definition new_file :: "nodes \<Rightarrow> stagedPEMFile \<Rightarrow> bool" where
  "new_file N f \<longleftrightarrow> (\<exists>i. N (sf_path f) = Some (Regular i (up_content (sf_update f)) (up_mode (sf_update f) mod 512)))"

definition commit_ok :: "nodes \<Rightarrow> string \<Rightarrow> pemFileUpdate list \<Rightarrow> stagedPEMFile list \<Rightarrow> stagedPEMFile list \<Rightarrow> nodes \<Rightarrow> bool" where
  "commit_ok N0 wd us before rest N \<longleftrightarrow> (\<forall>p. p \<notin> tempPath ` set rest \<longrightarrow> p \<notin> sf_path ` set before \<longrightarrow> N p = N0 p)
     \<and> (\<forall>f\<in>set rest. entry N0 wd us f \<and> at_temp N0 N f)
     \<and> (\<forall>f\<in>set before. entry N0 wd us f \<and> committed f \<and> tempPath f = [] \<and> new_file N f)
     \<and> distinct (map tempPath rest) \<and> distinct (map sf_path (before @ rest))"

lemma staged_commit: "staged_ok N0 wd us fs N \<Longrightarrow> commit_ok N0 wd us [] fs N"
  by (simp add: staged_ok_def commit_ok_def)

lemma commit_ok_before:
  assumes "commit_ok N0 wd us before rest N"
  shows "\<forall>f\<in>set before. entry N0 wd us f \<and> committed f" "distinct (map sf_path before)"
    "\<forall>f\<in>set rest. tempPath f = [] \<or> temp_like (tempPath f) \<and> N0 (tempPath f) = None"
    "\<not> temp_like p \<Longrightarrow> p \<notin> sf_path ` set before \<Longrightarrow> N p = N0 p"
proof -
  show "\<not> temp_like p \<Longrightarrow> p \<notin> sf_path ` set before \<Longrightarrow> N p = N0 p"
  proof -
    assume p: "\<not> temp_like p" "p \<notin> sf_path ` set before"
    then have "p \<notin> tempPath ` set rest" using assms by (auto simp: commit_ok_def at_temp_def)
    then show ?thesis using assms p(2) by (simp add: commit_ok_def)
  qed
qed (use assms in \<open>auto simp: commit_ok_def at_temp_def\<close>)

lemma commit_ok_step:
  assumes ok: "commit_ok N0 wd us before (f # rest) N" and nt: "no_temps wd us" and t: "N (tempPath f) = Some n"
  shows "commit_ok N0 wd us (before @ [f\<lparr>tempPath := [], committed := True\<rparr>]) rest (N(tempPath f := None, sf_path f \<mapsto> n))"
    (is "commit_ok N0 wd us (before @ [?g]) rest ?N")
proof -
  have f: "entry N0 wd us f" "at_temp N0 N f" using ok by (simp_all add: commit_ok_def)
  have path: "\<not> temp_like (sf_path g)" if "g \<in> set (before @ f # rest)" for g
    using ok entry_path[OF _ nt] that by (auto simp: commit_ok_def)
  have tmp: "temp_like (tempPath g)" if "g \<in> set (f # rest)" for g using ok that by (auto simp: commit_ok_def at_temp_def)
  have "?N p = N0 p" if "p \<notin> tempPath ` set rest" "p \<notin> sf_path ` set (before @ [?g])" for p
    using ok f(2) that by (auto simp: commit_ok_def at_temp_def)
  moreover have "at_temp N0 ?N g" if "g \<in> set rest" for g
  proof -
    have "tempPath g \<noteq> tempPath f" using ok that by (auto simp: commit_ok_def image_iff)
    moreover have "tempPath g \<noteq> sf_path f" using path[of f] tmp[of g] that by auto
    ultimately show ?thesis using ok that by (simp add: commit_ok_def at_temp_def)
  qed
  moreover have "new_file ?N g" if "g \<in> set before" for g
  proof -
    have "sf_path g \<noteq> tempPath f" using path[of g] tmp[of f] that by auto
    moreover have "sf_path g \<noteq> sf_path f" using ok that by (auto simp: commit_ok_def image_iff)
    ultimately show ?thesis using ok that by (simp add: commit_ok_def new_file_def)
  qed
  moreover have "new_file ?N ?g" using f(2) t by (auto simp: new_file_def at_temp_def)
  moreover have "entry N0 wd us ?g" using f(1) by (simp add: entry_def)
  ultimately show ?thesis using ok by (auto simp: commit_ok_def)
qed

lemma intact_commit:
  assumes "intact N0 wd us N" "entry N0 wd us f" "at_temp N0 N f" "N (tempPath f) = Some n"
  shows "intact N0 wd us (N(tempPath f := None, sf_path f \<mapsto> n))"
proof (rule intact_update)
  show "intact N0 wd us (N(tempPath f := None))" using intact_temp assms(1,3) by (simp add: at_temp_def)
  obtain u where "u \<in> set us" "sf_path f = target_path wd u" "up_content (sf_update f) = up_content u"
    using assms(2) by (auto simp: entry_def)
  then show "allowed N0 wd us (sf_path f) (Some n)"
    unfolding allowed_def using assms(3,4) by (intro disjI2 bexI[of _ u]) (auto simp: at_temp_def)
qed

text \<open>After a roll-back and a clean-up that report nothing, everything is as it was.\<close>

definition restored :: "nodes \<Rightarrow> nodes \<Rightarrow> bool" where
  "restored N0 N \<longleftrightarrow> (\<forall>p. \<not> temp_like p \<longrightarrow> same_file (N p) (N0 p))"

lemma undo_rules:
  assumes "commit_ok N0 wd us before rest (nodes w)" "sound N0 wd us w" "no_temps wd us"
    and "rollbackStagedPEMFiles L before w = (r, w1)" "\<forall>f\<in>set fs. tempPath f = [] \<or> temp_like (tempPath f) \<and> N0 (tempPath f) = None"
  shows "sound N0 wd us (cleanupStagedPEMFiles fs w1) \<and> (r = None \<longrightarrow> restored N0 (nodes (cleanupStagedPEMFiles fs w1)))"
proof -
  note cb = commit_ok_before[OF assms(1)]
  note rb = rollback_rules[OF assms(4,2,3) cb(1,2)]
  note cl = cleanup_rules[OF conjunct1[OF rb] assms(5), of "{}"]
  have "same_file (nodes (cleanupStagedPEMFiles fs w1) p) (N0 p)" if "r = None" "\<not> temp_like p" for p
  proof (cases "p \<in> sf_path ` set before")
    case True
    then show ?thesis using rb cl that by (auto simp: same_nodes_def)
  next
    case False
    then have "nodes w1 p = nodes w p" using rb that(2) by (simp add: same_nodes_def)
    then show ?thesis using cl that(2) cb(4)[OF that(2) False] by (simp add: same_nodes_def)
  qed
  then show ?thesis using cl by (simp add: restored_def)
qed

lemma errors_Join_two: "e = the (errors_Join [Some x, r]) \<Longrightarrow> (\<forall>a b. e \<noteq> err.Join [a, b]) \<Longrightarrow> r = None"
  by (cases r) (auto simp: errors_Join_def)

lemma commit_rules:
  assumes "commit_staged L before rest w = (r, w')" "sound N0 wd us w" "no_temps wd us" "commit_ok N0 wd us before rest (nodes w)"
  shows "sound N0 wd us w' \<and> (case r of
      Inr fs \<Rightarrow> commit_ok N0 wd us fs [] (nodes w') \<and> map sf_update fs = map sf_update (before @ rest)
    | Inl e \<Rightarrow> (\<forall>a b. e \<noteq> err.Join [a, b]) \<longrightarrow> restored N0 (nodes w'))"
  using assms
proof (induction rest arbitrary: before w)
  case (Cons f rest)
  note snd = Cons.prems(2) and nt = Cons.prems(3) and ok = Cons.prems(4)
  have f: "entry N0 wd us f" "at_temp N0 (nodes w) f" using ok by (simp_all add: commit_ok_def)
  then obtain n where n: "nodes w (tempPath f) = Some n" by (auto simp: at_temp_def)
  have ne: "tempPath f \<noteq> sf_path f" using f entry_path[OF f(1) nt] by (auto simp: at_temp_def)
  obtain r1 w1 where r1: "os_Rename (tempPath f) (sf_path f) w = (r1, w1)" by fastforce
  from r1 n ne show ?case
  proof (cases rule: Rename_cases)
    case (1 e)
    obtain rb w2 where rb: "rollbackStagedPEMFiles L before w1 = (rb, w2)" by fastforce
    have "sound N0 wd us w1" "nodes w1 = nodes w" using sound_quiet snd 1(2) by (auto simp: quiet_def)
    note u = undo_rules[OF _ this(1) nt rb commit_ok_before(3)[OF ok], unfolded this(2), OF ok]
    have "w' = cleanupStagedPEMFiles (f # rest) w2" "r = Inl (the (errors_Join [Some (wrapf ''commit %q: %w'' e), rb]))"
      using Cons.prems(1) 1(1) by (simp_all add: r1 rb Let_def del: cleanupStagedPEMFiles.simps)
    then show ?thesis using u errors_Join_two[OF refl, of "wrapf ''commit %q: %w'' e" rb] by simp
  next
    case (2 v)
    let ?g = "f\<lparr>tempPath := [], committed := True\<rparr>" and ?N = "(nodes w)(tempPath f := None, sf_path f \<mapsto> n)"
    have w1: "nodes w1 = ?N" using 2(3) by (simp add: change_def)
    have "intact N0 wd us ?N" using intact_commit[OF _ f n] snd by (simp add: sound_def)
    then have s1: "sound N0 wd us w1" using sound_change sound_quiet[OF snd 2(2)] 2(3) by simp
    have "commit_staged L (before @ [?g]) rest w1 = (r, w')" using Cons.prems(1) 2(1) by (simp add: r1)
    from Cons.IH[OF this s1 nt, unfolded w1, OF commit_ok_step[OF ok nt n]] show ?thesis by (auto split: sum.splits)
  qed
qed auto

subsection \<open>The batch\<close>

lemma batch_rules:
  assumes "writePEMFilesAtomically L us w = (r, w')" "honest w" "history w = []" "no_temps (workdir w) us"
  shows "sound (nodes w) (workdir w) us w' \<and> (case r of
      None \<Rightarrow> \<exists>fs. commit_ok (nodes w) (workdir w) us fs [] (nodes w') \<and> map sf_update fs = map (\<lambda>u. u\<lparr>up_path := target_path (workdir w) u\<rparr>) us
    | Some e \<Rightarrow> (\<forall>a b. e \<noteq> err.Join [a, b]) \<longrightarrow> restored (nodes w) (nodes w'))"
proof (cases "us = []")
  case True
  then show ?thesis using assms
    by (auto simp: writePEMFilesAtomically_def writePEMFilesAtomicallyWithSync_def sound_def intact_def allowed_def commit_ok_def)
next
  case False
  let ?N = "nodes w" and ?d = "workdir w"
  note nt = assms(4)
  have s0: "sound ?N ?d us w" using assms(2,3) by (simp add: sound_def intact_def allowed_def)
  obtain st w1 where st: "stage_updates L us [] [] w = (st, w1)" by fastforce
  note def = writePEMFilesAtomically_def writePEMFilesAtomicallyWithSync_def st
  have stage: "sound ?N ?d us w1" "\<And>e. st = Inl e \<Longrightarrow> \<forall>p. \<not> temp_like p \<longrightarrow> nodes w1 p = ?N p"
    "\<And>fs. st = Inr fs \<Longrightarrow> staged_ok ?N ?d us fs (nodes w1) \<and> map sf_update fs = map (\<lambda>u. u\<lparr>up_path := target_path ?d u\<rparr>) us"
    using stage_updates_rules[OF st s0 nt] by (auto simp: staged_ok_def)
  show ?thesis
  proof (cases st)
    case (Inl e)
    then show ?thesis using assms(1) False stage(1,2) by (auto simp: def restored_def)
  next
    case (Inr fs)
    note ok = conjunct1[OF stage(3)[OF Inr]]
    obtain v w2 where v: "validateStagedTargetsUnchanged L fs w1 = (v, w2)" by fastforce
    have s2: "sound ?N ?d us w2" "nodes w2 = nodes w1" using sound_quiet stage(1) validate_quiet[OF v] by (auto simp: quiet_def)
    show ?thesis
    proof (cases v)
      case (Some e)
      note c = cleanup_staged(1)[OF s2(1) ok] cleanup_staged(2)[OF s2(1) ok, of "{}"]
      have "restored ?N (nodes (cleanupStagedPEMFiles fs w2))"
        using c(2) s2(2) staged_same[OF ok] by (simp add: restored_def same_nodes_def)
      then show ?thesis using assms(1) False Inr Some c(1) by (auto simp: def v)
    next
      case None
      obtain c w3 where c: "commit_staged L [] fs w2 = (c, w3)" by fastforce
      note cr = commit_rules[OF c s2(1) nt, unfolded s2(2), OF staged_commit[OF ok]]
      show ?thesis
      proof (cases c)
        case (Inl e)
        then show ?thesis using assms(1) False Inr None cr by (auto simp: def v c)
      next
        case c2: (Inr gs)
        have gs: "sound ?N ?d us w3" "commit_ok ?N ?d us gs [] (nodes w3)" "map sf_update gs = map sf_update fs" using cr c2 by auto
        obtain sy w4 where sy: "syncUpdateDirectories L gs w3 = (sy, w4)" by fastforce
        have s4: "sound ?N ?d us w4" "nodes w4 = nodes w3"
          using sound_quiet gs(1) sync_quiet[OF sy[unfolded syncUpdateDirectories_def]] by (auto simp: quiet_def)
        show ?thesis
        proof (cases sy)
          case None
          then have "r = None" "w' = w4" using assms(1) False Inr \<open>v = None\<close> c2 by (simp_all add: def v c sy)
          then show ?thesis using gs(2,3) s4 stage(3)[OF Inr] by auto
        next
          case (Some e)
          obtain rb w5 where rb: "rollbackStagedPEMFiles L gs w4 = (rb, w5)" by fastforce
          have "\<forall>f\<in>set gs. tempPath f = [] \<or> temp_like (tempPath f) \<and> ?N (tempPath f) = None"
            using gs(2) by (simp add: commit_ok_def)
          note u = undo_rules[OF _ s4(1) nt rb this, unfolded s4(2), OF gs(2)]
          have w': "w' = cleanupStagedPEMFiles gs w5" "r = errors_Join [Some e, rb]"
            using assms(1) False Inr None c2 Some by (simp_all add: def v c sy rb Let_def)
          show ?thesis using u errors_Join_two[OF refl, of e rb] by (auto simp: w' split: option.split)
        qed
      qed
    qed
  qed
qed

text \<open>What the check before the commit accepts: every target has the inode, content and permissions of its snapshot.\<close>

definition as_snapshot :: "nodes \<Rightarrow> stagedPEMFile \<Rightarrow> bool" where
  "as_snapshot N f \<longleftrightarrow> (if existed f
     then \<exists>i. N (sf_path f) = Some (Regular i (originalContent f) (originalMode f)) \<and> i = node_inode (the (originalInfo f))
     else N (sf_path f) = None)"

lemma validate_as_snapshot:
  assumes "validateStagedTargetsUnchanged L fs w = (None, w')" "honest w"
  shows "\<forall>f\<in>set fs. as_snapshot (nodes w) f"
  using assms
proof (induction fs arbitrary: w)
  case (Cons f fs)
  obtain l1 w1 where l: "os_Lstat (sf_path f) w = (l1, w1)" by fastforce
  note lr = Lstat_rules[of "sf_path f" w]
  have h1: "honest w1" "nodes w1 = nodes w" using lr(1)[OF l] quiet_honest Cons.prems(2) by (auto simp: quiet_def)
  show ?case
  proof (cases l1)
    case (Inl e)
    then have "\<not> existed f" "errors_Is e ErrNotExist" "validateStagedTargetsUnchanged L fs w1 = (None, w')"
      using Cons.prems(1) by (auto simp: l split: if_splits)
    then show ?thesis using lr(3)[of e w1] l Inl Cons.IH[of w1] h1 Cons.prems(2) by (simp add: as_snapshot_def)
  next
    case (Inr info)
    obtain s1 w2 where s1: "snapshotExistingFile L (sf_path f) info w1 = (s1, w2)" by fastforce
    have h2: "honest w2" "nodes w2 = nodes w" using snapshot_quiet[OF s1] quiet_honest[OF snapshot_quiet[OF s1]] h1 by (auto simp: quiet_def)
    from Cons.prems(1) Inr obtain c i where a: "existed f" "is_regular info" "os_SameFile (the (originalInfo f)) info" "s1 = Inr (c, i)"
      "node_perm i = originalMode f" "c = originalContent f" "validateStagedTargetsUnchanged L fs w2 = (None, w')"
      by (auto simp: l s1 split: sum.splits if_splits)
    have n: "nodes w (sf_path f) = Some info" using lr(2) l Inr by simp
    from snapshot_Inr[OF s1[unfolded a(4)]] n h1(2) a(2) have "i = info" "c = node_content info" by auto
    then have "as_snapshot (nodes w) f" using a n by (cases info) (simp_all add: as_snapshot_def os_SameFile_def)
    then show ?thesis using Cons.IH[OF a(7) h2(1)] h2(2) by simp
  qed
qed simp

subsection \<open>Properties\<close>

text \<open>Two targets in \<open>/d\<close>, one of which exists, for the concrete runs; the second rename of the failing run fails.\<close>

definition two_targets :: "pemFileUpdate list" where
  "two_targets = [\<lparr>up_path = ''/d/k'', up_content = ''new'', up_mode = 384\<rparr>, \<lparr>up_path = ''/d/p'', up_content = ''pub'', up_mode = 420\<rparr>]"

definition old_world :: "(err \<times> nat) option list \<Rightarrow> world" where
  "old_world fs = \<lparr>nodes = [''/d'' \<mapsto> Directory 1 493, ''/d/k'' \<mapsto> Regular 2 ''old'' 416], next_inode = 3, faults = fs,
     random = [1, 2, 3, 4], workdir = ''/'', history = []\<rparr>"

definition no_link :: "nat \<Rightarrow> node" where "no_link i = Special i 0"

lemmas batch_eval = two_targets_def old_world_def no_link_def target_path_def filepath_Clean_def filepath_IsAbs_def filepath_Dir_def
  filepath_Base_def filepath_Join2_def filepath_Abs_def after_slash_def up_to_slash_def temp_like_def

lemmas call_eval = turn_def change_def os_Getwd_def look_def os_Lstat_def os_Stat_def os_Open_def os_SameFile_def file_Stat_def
  read_limited_def settle_def os_Remove_def os_Rename_def set_perm_def os_Chmod_def temp_path_def os_CreateTemp_def append_content_def
  io_Copy_def and_then_def ErrNotExist_def validateAtomicTarget_def inspect_target_def snapshotExistingFile_def
  maximumAtomicOriginalBytes_def stagePEMContent_def stagePEMReader_def staged_file_def syncUpdateDirectories_def
  rollbackStagedPEMFiles_def rollback_one_def writePEMFilesAtomicallyWithSync_def writePEMFilesAtomically_def
  errors_Join_def wrapf_def Let_def

definition good_run :: "err option \<times> world" where
  "good_run = writePEMFilesAtomically no_link two_targets (old_world [])"

definition late_fault :: "(err \<times> nat) option list" where
  "late_fault = (let five = [None, None, None, None, None]
     in five @ five @ five @ five @ five @ [Some (Message ''input/output error'', 0)])"

definition bad_run :: "err option \<times> world" where
  "bad_run = writePEMFilesAtomically no_link two_targets (old_world late_fault)"

lemma good_run_ok: "fst good_run = None"
  by (simp add: good_run_def batch_eval call_eval)

lemma bad_run_fails: "fst bad_run = Some (err.Join [WrapErr ''commit %q: %w'' [Message ''input/output error'']])"
  by (simp add: bad_run_def late_fault_def batch_eval call_eval)

lemma late_fault_honest: "honest (old_world late_fault)" "honest (old_world [])"
  by (auto simp: honest_def old_world_def late_fault_def ErrNotExist_def Let_def)

lemma old_world_history: "history (old_world fs) = []"
  by (simp add: old_world_def)

lemma two_targets_ok: "no_temps (workdir (old_world fs)) two_targets"
  by (simp add: no_temps_def batch_eval is_digit_def)

text \<open>
  C29: Whatever system calls fail, and wherever the process is killed, every state the file system goes through is intact: at
  each path is what was there, or at a target a regular file with all of the new or all of the old content, or at an unused
  temporary name anything.
\<close>

theorem batch_crash_safe:
  assumes "writePEMFilesAtomically L us w = (r, w')" "honest w" "history w = []" "no_temps (workdir w) us"
    and "N \<in> set (nodes w' # history w')"
  shows "intact (nodes w) (workdir w) us N"
  using batch_rules[OF assms(1-4)] assms(5) by (auto simp: sound_def)

lemma batch_crash_safe_witness:
  "fst bad_run \<noteq> None \<and> intact (nodes (old_world [])) ''/'' two_targets (nodes (snd bad_run))
    \<and> intact (nodes (old_world [])) ''/'' two_targets (last (nodes (snd bad_run) # history (snd bad_run)))"
proof -
  have "writePEMFilesAtomically no_link two_targets (old_world late_fault) = (fst bad_run, snd bad_run)"
    by (simp add: bad_run_def)
  note safe = batch_crash_safe[OF this late_fault_honest(1) old_world_history two_targets_ok]
  have "last (nodes (snd bad_run) # history (snd bad_run)) \<in> set (nodes (snd bad_run) # history (snd bad_run))" by (rule last_in_set) simp
  from safe[OF this] safe[of "nodes (snd bad_run)"] show ?thesis using bad_run_fails by (simp add: old_world_def)
qed

text \<open>
  C30: When the batch succeeds the targets are different files, each is a regular file with all of its new content and the
  permissions asked for, and every other path is as it was: no temporary file is left.
\<close>

theorem batch_complete:
  assumes "writePEMFilesAtomically L us w = (None, w')" "honest w" "history w = []" "no_temps (workdir w) us"
  shows "distinct (map (target_path (workdir w)) us)
    \<and> (\<forall>u\<in>set us. \<exists>i. nodes w' (target_path (workdir w) u) = Some (Regular i (up_content u) (up_mode u mod 512)))
    \<and> (\<forall>p. p \<notin> target_path (workdir w) ` set us \<longrightarrow> nodes w' p = nodes w p)"
proof -
  obtain fs where ok: "commit_ok (nodes w) (workdir w) us fs [] (nodes w')"
    and m: "map sf_update fs = map (\<lambda>u. u\<lparr>up_path := target_path (workdir w) u\<rparr>) us"
    using batch_rules[OF assms] by auto
  have paths: "map sf_path fs = map (target_path (workdir w)) us" using arg_cong[OF m, of "map up_path"] by (simp add: comp_def)
  have "\<exists>i. nodes w' (target_path (workdir w) u) = Some (Regular i (up_content u) (up_mode u mod 512))" if u: "u \<in> set us" for u
  proof -
    have "u\<lparr>up_path := target_path (workdir w) u\<rparr> \<in> set (map sf_update fs)" using u m by simp
    then obtain f where f: "f \<in> set fs" "sf_update f = u\<lparr>up_path := target_path (workdir w) u\<rparr>" by auto
    then have "new_file (nodes w') f" using ok by (simp add: commit_ok_def)
    then show ?thesis using f(2) by (simp add: new_file_def)
  qed
  moreover have "sf_path ` set fs = target_path (workdir w) ` set us" using arg_cong[OF paths, of set] by simp
  ultimately show ?thesis using ok paths by (simp add: commit_ok_def)
qed

lemma batch_complete_witness:
  "(\<exists>i. nodes (snd good_run) ''/d/k'' = Some (Regular i ''new'' 384)) \<and> (\<exists>i. nodes (snd good_run) ''/d/p'' = Some (Regular i ''pub'' 420))"
proof -
  have "writePEMFilesAtomically no_link two_targets (old_world []) = (None, snd good_run)"
    using good_run_ok by (simp add: good_run_def[symmetric] prod_eq_iff)
  from batch_complete[OF this late_fault_honest(2) old_world_history two_targets_ok] show ?thesis
    by (simp add: batch_eval)
qed

text \<open>
  C31: When the batch fails, and the error does not join that of a roll-back to it, every path but temporary names holds the
  file it held, with its content and permissions.
\<close>

theorem batch_undone:
  assumes "writePEMFilesAtomically L us w = (Some e, w')" "honest w" "history w = []" "no_temps (workdir w) us"
    and "\<And>a b. e \<noteq> err.Join [a, b]" "\<not> temp_like p"
  shows "same_file (nodes w' p) (nodes w p)"
  using batch_rules[OF assms(1-4)] assms(5,6) by (simp add: restored_def)

lemma batch_undone_witness: "same_file (nodes (snd bad_run) ''/d/k'') (Some (Regular 2 ''old'' 416))"
proof -
  have "writePEMFilesAtomically no_link two_targets (old_world late_fault)
      = (Some (err.Join [WrapErr ''commit %q: %w'' [Message ''input/output error'']]), snd bad_run)"
    using bad_run_fails by (simp add: bad_run_def[symmetric] prod_eq_iff)
  from batch_undone[OF this late_fault_honest(1) old_world_history two_targets_ok, of "''/d/k''"] show ?thesis
    by (simp add: temp_like_def is_digit_def old_world_def)
qed

text \<open>The check before the commit passes only when every target is still what its snapshot says.\<close>

theorem check_detects_changes:
  assumes "validateStagedTargetsUnchanged L fs w = (None, w')" "honest w" "f \<in> set fs"
  shows "if existed f then \<exists>i. nodes w (sf_path f) = Some (Regular i (originalContent f) (originalMode f))
      \<and> i = node_inode (the (originalInfo f)) else nodes w (sf_path f) = None"
  using validate_as_snapshot[OF assms(1,2)] assms(3) by (simp add: as_snapshot_def)

lemma check_detects_changes_witness: "nodes (old_world []) ''/d/p'' = None"
proof -
  let ?f = "staged_file (two_targets ! 1) None"
  have "validateStagedTargetsUnchanged no_link [?f] (old_world []) = (None, old_world [])"
    by (simp add: batch_eval call_eval)
  from check_detects_changes[OF this late_fault_honest(2), of ?f] show ?thesis
    by (simp add: staged_file_def two_targets_def)
qed

end
