(* ===== verification/Float64.thy ===== *)
theory Float64
  imports Complex_Main "HOL-Library.Log_Nat" Json
begin

text \<open>
  Go's \<open>float64\<close> as far as the repository uses it: finite values are rational numbers, and every operation is the exact one
  followed by \<open>float64\<close>, which rounds to 53 bits (fewer below the normal range), ties to even. Values that would round to
  an infinity only occur when a number is parsed; there they are an error. Negative zero is not kept apart from zero:
  sums and comparisons do not tell them apart.
\<close>

subsection \<open>Rounding\<close>

definition ilog2 :: "rat \<Rightarrow> int" where
  "ilog2 x = (case quotient_of x of (n, d) \<Rightarrow>
     (let k = int (floorlog 2 (nat n)) - int (floorlog 2 (nat d)) in if 2 powi k \<le> x then k else k - 1))"

definition round_even :: "rat \<Rightarrow> int" where
  "round_even x = (let f = \<lfloor>x\<rfloor>; r = x - of_int f in
     if r < 1 / 2 then f else if 1 / 2 < r then f + 1 else if even f then f else f + 1)"

definition ulp :: "rat \<Rightarrow> int" where
  "ulp x = max (ilog2 \<bar>x\<bar> - 52) (- 1074)"

definition float64 :: "rat \<Rightarrow> rat" where
  "float64 x = (if x = 0 then 0 else of_int (round_even (x / 2 powi ulp x)) * 2 powi ulp x)"

lemma ilog2_bounds:
  assumes "0 < x"
  shows "2 powi ilog2 x \<le> x" "x < 2 powi (ilog2 x + 1)"
proof -
  obtain n d where q: "quotient_of x = (n, d)" by fastforce
  then have d: "0 < d" and x: "x = of_int n / of_int d" by (simp_all add: quotient_of_denom_pos quotient_of_div)
  have n: "0 < n" using assms d unfolding x by (simp add: zero_less_divide_iff)
  let ?a = "int (floorlog 2 (nat n))" and ?b = "int (floorlog 2 (nat d))"
  have pow: "(2::rat) powi int k = of_nat (2 ^ k)" for k by simp
  have fl: "(2::rat) powi (int (floorlog 2 (nat m)) - 1) \<le> of_int m" "(of_int m :: rat) < 2 powi int (floorlog 2 (nat m))" if "0 < m" for m
  proof -
    have b: "2 ^ (floorlog 2 (nat m) - 1) \<le> nat m" "nat m < 2 ^ floorlog 2 (nat m)"
      using floorlog_bounds[of "nat m" 2] that by auto
    have p: "0 < floorlog 2 (nat m)" using that by (simp add: floorlog_def)
    have e: "int (floorlog 2 (nat m)) - 1 = int (floorlog 2 (nat m) - 1)" using p by simp
    have m: "(of_int m :: rat) = of_nat (nat m)" using that by simp
    show "(2::rat) powi (int (floorlog 2 (nat m)) - 1) \<le> of_int m" unfolding e pow m using b(1) by (simp only: of_nat_le_iff)
    show "(of_int m :: rat) < 2 powi int (floorlog 2 (nat m))" unfolding pow m using b(2) by (simp only: of_nat_less_iff)
  qed
  have up: "x < 2 powi (?a - ?b + 1)"
  proof -
    have "x < 2 powi ?a / of_int d" unfolding x using fl(2)[OF n] d by (simp add: divide_strict_right_mono)
    also have "\<dots> \<le> 2 powi ?a / 2 powi (?b - 1)" using fl(1)[OF d] d by (intro divide_left_mono) auto
    also have "\<dots> = 2 powi (?a - ?b + 1)" by (simp add: power_int_diff power_int_add)
    finally show ?thesis .
  qed
  have low: "2 powi (?a - ?b - 1) \<le> x"
  proof -
    have "2 powi (?a - ?b - 1) = (2::rat) powi (?a - 1) / 2 powi ?b" by (simp add: power_int_diff)
    also have "\<dots> \<le> of_int n / 2 powi ?b" using fl(1)[OF n] by (intro divide_right_mono) auto
    also have "\<dots> \<le> x" unfolding x using fl(2)[OF d] d n by (intro divide_left_mono) auto
    finally show ?thesis .
  qed
  show "2 powi ilog2 x \<le> x" "x < 2 powi (ilog2 x + 1)"
    using up low by (auto simp: ilog2_def q Let_def)
qed

lemma ilog2_mono:
  assumes "0 < x" "x \<le> y"
  shows "ilog2 x \<le> ilog2 y"
proof (rule ccontr)
  assume "\<not> ilog2 x \<le> ilog2 y"
  then have "(2::rat) powi (ilog2 y + 1) \<le> 2 powi ilog2 x" by (intro power_int_increasing) auto
  then show False using ilog2_bounds[of x] ilog2_bounds[of y] assms by linarith
qed

lemma round_even_of_int [simp]: "round_even (of_int n) = n"
  by (simp add: round_even_def)

lemma round_even_bounds: "\<lfloor>x\<rfloor> \<le> round_even x" "round_even x \<le> \<lfloor>x\<rfloor> + 1"
  by (auto simp: round_even_def Let_def)

lemma round_even_mono:
  assumes "x \<le> y"
  shows "round_even x \<le> round_even y"
proof (cases "\<lfloor>x\<rfloor> = \<lfloor>y\<rfloor>")
  case True
  then show ?thesis using assms by (auto simp: round_even_def Let_def)
next
  case False
  then have "\<lfloor>x\<rfloor> + 1 \<le> \<lfloor>y\<rfloor>" using floor_mono[OF assms] by linarith
  then show ?thesis using round_even_bounds[of x] round_even_bounds[of y] by linarith
qed

lemma round_even_minus [simp]: "round_even (- x) = - round_even x"
proof (cases "x = of_int \<lfloor>x\<rfloor>")
  case True
  then show ?thesis by (metis of_int_minus round_even_of_int)
next
  case False
  then have lt: "of_int \<lfloor>x\<rfloor> < x" using of_int_floor_le[of x] by linarith
  have "x < of_int \<lfloor>x\<rfloor> + 1" by linarith
  then have "\<lfloor>- x\<rfloor> = - \<lfloor>x\<rfloor> - 1" using lt by (intro floor_unique) auto
  then show ?thesis by (auto simp: round_even_def Let_def)
qed

lemma round_even_ge: "of_int n \<le> x \<Longrightarrow> n \<le> round_even x" and round_even_le: "x \<le> of_int n \<Longrightarrow> round_even x \<le> n"
  using round_even_mono[of "of_int n" x] round_even_mono[of x "of_int n"] by simp_all

lemma float64_0 [simp]: "float64 0 = 0" by (simp add: float64_def)

lemma float64_minus [simp]: "float64 (- x) = - float64 x"
  by (simp add: float64_def ulp_def)

lemma power_int_pos2 [simp]: "0 < (2::rat) powi k" by simp

lemma float64_bounds:
  assumes "0 < x"
  shows "float64 x \<le> 2 powi (ulp x + 53)" "ulp x = ilog2 x - 52 \<Longrightarrow> 2 powi (ulp x + 52) \<le> float64 x" "0 \<le> float64 x"
proof -
  have f: "float64 x = of_int (round_even (x / 2 powi ulp x)) * 2 powi ulp x" using assms by (simp add: float64_def)
  have m: "of_int a * (2::rat) powi ulp x \<le> of_int b * 2 powi ulp x" if "a \<le> b" for a b using that by (intro mult_right_mono) auto
  have p: "(2::rat) powi (ulp x + int k) = of_int (2 ^ k) * 2 powi ulp x" for k by (simp add: power_int_add)
  have "ilog2 x + 1 \<le> ulp x + 53" using assms by (simp add: ulp_def)
  then have "(2::rat) powi (ilog2 x + 1) \<le> 2 powi (ulp x + 53)" by (intro power_int_increasing) auto
  then have "x \<le> of_int (2 ^ 53) * 2 powi ulp x" using ilog2_bounds[OF assms] p[of 53] by simp
  then have "x / 2 powi ulp x \<le> of_int (2 ^ 53)" by (simp add: pos_divide_le_eq)
  from m[OF round_even_le[OF this]] show "float64 x \<le> 2 powi (ulp x + 53)" using p[of 53] f by simp
  show "2 powi (ulp x + 52) \<le> float64 x" if u: "ulp x = ilog2 x - 52"
  proof -
    have "of_int (2 ^ 52) * 2 powi ulp x \<le> x" using ilog2_bounds[OF assms] p[of 52] u by simp
    then have "of_int (2 ^ 52) \<le> x / 2 powi ulp x" by (simp add: pos_le_divide_eq)
    from m[OF round_even_ge[OF this]] show ?thesis using p[of 52] f by simp
  qed
  have "0 \<le> round_even (x / 2 powi ulp x)" using assms by (intro round_even_ge) simp
  then show "0 \<le> float64 x" using m[of 0] f by simp
qed

lemma float64_mono_pos:
  assumes "0 < x" "x \<le> y"
  shows "float64 x \<le> float64 y"
proof (cases "ulp x = ulp y")
  case True
  have "round_even (x / 2 powi ulp y) \<le> round_even (y / 2 powi ulp y)" using assms(2) by (intro round_even_mono divide_right_mono) auto
  then show ?thesis using assms True by (simp add: float64_def)
next
  case False
  have l: "ilog2 x \<le> ilog2 y" using assms by (rule ilog2_mono)
  then have u: "ulp x < ulp y" "ulp y = ilog2 y - 52" using False assms by (auto simp: ulp_def)
  then have "(2::rat) powi (ulp x + 53) \<le> 2 powi (ulp y + 52)" by (intro power_int_increasing) auto
  then show ?thesis using float64_bounds(1)[of x] float64_bounds(2)[of y] u assms by linarith
qed

lemma float64_mono: "x \<le> y \<Longrightarrow> float64 x \<le> float64 y"
proof -
  assume xy: "x \<le> y"
  consider "0 < x" | "y < 0" | "x \<le> 0" "0 \<le> y" by linarith
  then show ?thesis
  proof cases
    case 1 then show ?thesis using float64_mono_pos xy by blast
  next
    case 2 then show ?thesis using float64_mono_pos[of "- y" "- x"] xy by simp
  next
    case 3
    have "float64 x \<le> 0" using 3 float64_bounds(3)[of "- x"] by (cases "x = 0") auto
    moreover have "0 \<le> float64 y" using 3 float64_bounds(3)[of y] by (cases "y = 0") auto
    ultimately show ?thesis by linarith
  qed
qed

lemma float64_of_int_pos:
  assumes "0 < n" "n \<le> 2 ^ 53"
  shows "float64 (of_int n) = of_int n"
proof -
  let ?x = "of_int n :: rat"
  have "ilog2 ?x \<le> 53"
  proof (rule ccontr)
    assume "\<not> ilog2 ?x \<le> 53"
    then have "(2::rat) powi 54 \<le> 2 powi ilog2 ?x" by (intro power_int_increasing) auto
    then have "(2::rat) ^ 54 \<le> ?x" using ilog2_bounds(1)[of ?x] assms(1) by simp
    moreover have "?x \<le> of_int (2 ^ 53)" using assms(2) by (simp only: of_int_le_iff)
    ultimately show False by simp
  qed
  then consider "ilog2 ?x = 53" | "ilog2 ?x \<le> 52" by linarith
  then show ?thesis
  proof cases
    case 1
    then have "(2::rat) ^ 53 \<le> ?x" using ilog2_bounds(1)[of ?x] assms(1) by simp
    moreover have "?x \<le> of_int (2 ^ 53)" using assms(2) by (simp only: of_int_le_iff)
    ultimately have e: "?x = 2 ^ 53" by simp
    have "float64 ?x = of_int (round_even (of_int (2 ^ 52))) * 2" using 1 by (simp add: float64_def ulp_def e)
    then show ?thesis unfolding round_even_of_int by (simp add: e)
  next
    case 2
    then have "ulp ?x \<le> 0" using assms(1) by (simp add: ulp_def)
    then have "?x / 2 powi ulp ?x = of_int (n * 2 ^ nat (- ulp ?x))"
      using power_int_minus[of "2::rat" "- ulp ?x"] by (simp add: power_int_def divide_inverse split: if_splits)
    then show ?thesis using assms(1) unfolding float64_def by (metis nonzero_eq_divide_eq of_int_0_less_iff order_less_irrefl
        power_int_pos2 round_even_of_int)
  qed
qed

lemma float64_of_int:
  assumes "\<bar>n\<bar> \<le> 2 ^ 53"
  shows "float64 (of_int n) = of_int n"
proof -
  consider "0 < n" | "n = 0" | "n < 0" by linarith
  then show ?thesis
  proof cases
    case 1 then show ?thesis using assms float64_of_int_pos by simp
  next
    case 3 then show ?thesis using assms float64_of_int_pos[of "- n"] by simp
  qed simp
qed

subsection \<open>Parsing, \<^verbatim>\<open>strconv.ParseFloat\<close> on the numbers of JSON\<close>

text \<open>The exponent stops growing at five digits.\<close>

fun read_exponent :: "nat \<Rightarrow> string \<Rightarrow> nat" where
  "read_exponent e [] = e"
| "read_exponent e (c # cs) = read_exponent (if e < 10000 then e * 10 + (of_char c - of_char (CHR ''0'')) else e) cs"

definition number_value :: "string \<Rightarrow> rat" where
  "number_value s =
     (let negative = (take 1 s = ''-''); body = (if negative then tl s else s);
          whole = takeWhile is_digit body; s1 = dropWhile is_digit body;
          frac = (case s1 of c # r \<Rightarrow> if c = CHR ''.'' then takeWhile is_digit r else [] | [] \<Rightarrow> []);
          s2 = (case s1 of c # r \<Rightarrow> if c = CHR ''.'' then dropWhile is_digit r else s1 | [] \<Rightarrow> []);
          e = (case s2 of [] \<Rightarrow> 0 | _ # r \<Rightarrow> (case r of [] \<Rightarrow> 0 | d # ds \<Rightarrow>
            if d = CHR ''-'' then - int (read_exponent 0 ds) else if d = CHR ''+'' then int (read_exponent 0 ds)
            else int (read_exponent 0 r)));
          v = of_nat (digits_value (whole @ frac)) * 10 powi (e - int (length frac))
      in if negative then - v else v)"

definition ParseFloat :: "string \<Rightarrow> rat option" where
  "ParseFloat s = (if scan_number s \<noteq> Some (s, []) then None
     else (let x = float64 (number_value s) in if 2 ^ 1024 \<le> \<bar>x\<bar> then None else Some x))"

subsection \<open>Whole seconds\<close>

lemma hd_decimal: "hd (decimal n) = CHR ''0'' \<longleftrightarrow> n = 0"
proof (induction n rule: decimal.induct)
  case (1 n)
  show ?case
  proof (cases "n < 10")
    case True
    have "(of_char (CHR ''0'') :: nat) = 48" by simp
    then have "digit n = CHR ''0'' \<longleftrightarrow> (of_char (digit n) :: nat) = 48" by (metis of_char_eq_iff)
    then have "digit n = CHR ''0'' \<longleftrightarrow> n = 0" using True by simp
    then show ?thesis using True by (subst decimal.simps) simp
  next
    case False
    then show ?thesis using 1[OF False] by (subst decimal.simps) simp
  qed
qed

lemma span_decimal:
  assumes "t = [] \<or> \<not> is_digit (hd t)"
  shows "takeWhile is_digit (decimal n @ t) = decimal n" "dropWhile is_digit (decimal n @ t) = t"
proof -
  have t: "takeWhile is_digit t = []" "dropWhile is_digit t = t" using assms by (cases t; simp)+
  have d: "\<forall>c \<in> set (decimal n). is_digit c" using decimal_digits by blast
  show "takeWhile is_digit (decimal n @ t) = decimal n" "dropWhile is_digit (decimal n @ t) = t"
    using takeWhile_append2[of "decimal n" is_digit t] dropWhile_append2[of "decimal n" is_digit t] d t by auto
qed

lemma delimited_cases: "delimited t \<Longrightarrow> t = [] \<or> (\<exists>c r. t = c # r \<and> c \<in> {CHR '','', CHR '']'', CHR ''}''})"
  by (cases t) (auto simp: delimited_def)

lemma scan_number_decimal:
  assumes "delimited t"
  shows "scan_number (decimal n @ t) = Some (decimal n, t)"
proof -
  obtain c r where d: "decimal n = c # r" by (cases "decimal n") auto
  have c: "is_digit c" using decimal_digits[of c n] d by simp
  have nd: "t = [] \<or> \<not> is_digit (hd t)" using delimited_cases[OF assms] by (auto simp: is_digit_def)
  have i: "scan_int (decimal n @ t) = Some (decimal n, t)"
  proof (cases "n = 0")
    case True
    then show ?thesis using hd_decimal[of 0] by (simp add: scan_int_def decimal.simps digit_def)
  next
    case False
    then show ?thesis using hd_decimal[of n] span_decimal[OF nd, of n] d c by (simp add: scan_int_def)
  qed
  have f: "scan_frac t = Some ([], t)" "scan_exp t = Some ([], t)"
    using delimited_cases[OF assms] by (auto simp: scan_frac_def scan_exp_def)
  have "c \<noteq> CHR ''-''" using c by (auto simp: is_digit_def)
  then show ?thesis using i f d by (simp add: scan_number_def)
qed

lemma reads_decimal: "reads (Suc 0) d (decimal n) (JNumber (decimal n))"
proof -
  obtain c r where dc: "decimal n = c # r" by (cases "decimal n") auto
  have c: "is_digit c" using decimal_digits[of c n] dc by simp
  then have ne: "c \<noteq> CHR ''{''" "c \<noteq> CHR ''[''" "c \<noteq> dquote" "c \<noteq> CHR ''n''" "c \<noteq> CHR ''t''" "c \<noteq> CHR ''f''" "\<not> is_ws c"
    by (auto simp: is_digit_def is_ws_def)
  show ?thesis
    unfolding reads_def
  proof (intro conjI allI impI)
    fix t :: string and m :: nat
    assume t: "delimited t" and "Suc 0 \<le> m"
    then obtain k where m: "m = Suc k" by (cases m) auto
    show "parse_value m d (decimal n @ t) = Some (JNumber (decimal n), t)"
      using scan_number_decimal[OF t, of n] ne by (simp add: m dc parse_value.simps)
  qed (use dc ne in auto)
qed

lemma ParseFloat_decimal:
  assumes "n \<le> 2 ^ 53"
  shows "ParseFloat (decimal n) = Some (of_nat n)"
proof -
  obtain c r where d: "decimal n = c # r" by (cases "decimal n") auto
  then have "c \<noteq> CHR ''-''" using decimal_digits[of c n] by (auto simp: is_digit_def)
  then have "number_value (decimal n) = of_nat n"
    using span_decimal[of "[]" n] decimal_value[of n] d by (simp add: number_value_def Let_def)
  moreover have "float64 (of_nat n) = of_nat n" using float64_of_int[of "int n"] assms by simp
  moreover have "(of_nat n :: rat) < 2 ^ 1024"
  proof -
    have "(of_nat n :: rat) \<le> of_nat (2 ^ 53)" using assms by (simp only: of_nat_le_iff)
    also have "\<dots> < 2 ^ 1024" by simp
    finally show ?thesis .
  qed
  moreover have "scan_number (decimal n) = Some (decimal n, [])" using scan_number_decimal[of "[]" n] by (simp add: delimited_def)
  ultimately show ?thesis by (simp add: ParseFloat_def)
qed

end
