(* ===== verification/Jwt.thy ===== *)
theory Jwt
  imports Float64 Encrypt_Local Go_Errors
begin

text \<open>
  Signed tokens, \<^verbatim>\<open>security/auth/jwt/jwt.go\<close>: the signing strategies, the options of a service, creating a token and
  checking one, and the constructors that read their keys from the configuration.

  What lies outside is the record \<open>'t jwt_env\<close>, an extension of the cryptographic primitives: the configuration (viper), the
  file system, the clock and deadlines of contexts. The state \<open>'t\<close> of the world holds everything these, the functions of the
  caller and the destination of \<^verbatim>\<open>json.Unmarshal\<close> can change. A panic is \<open>None\<close>. The arguments of error messages that are not
  errors are left out.
\<close>

subsection \<open>Runs\<close>

type_synonym ('t, 'a) run = "((err + 'a) \<times> 't) option"

definition seq :: "('t, 'a) run \<Rightarrow> ('a \<Rightarrow> 't \<Rightarrow> ('t, 'b) run) \<Rightarrow> ('t, 'b) run" where
  "seq r k = (case r of None \<Rightarrow> None | Some (Inl e, t) \<Rightarrow> Some (Inl e, t) | Some (Inr x, t) \<Rightarrow> k x t)"

definition seq_err :: "(err \<Rightarrow> err) \<Rightarrow> ('t, 'a) run \<Rightarrow> ('t, 'a) run" where
  "seq_err f r = map_option (\<lambda>(x, t). (case x of Inl e \<Rightarrow> Inl (f e) | Inr y \<Rightarrow> Inr y, t)) r"

lemma seq_simps [simp]: "seq None k = None" "seq (Some (Inl e, t)) k = Some (Inl e, t)" "seq (Some (Inr x, t)) k = k x t"
  by (simp_all add: seq_def)

lemma seq_Inr_iff: "seq r k = Some (Inr y, u) \<longleftrightarrow> (\<exists>x t. r = Some (Inr x, t) \<and> k x t = Some (Inr y, u))"
  by (auto simp: seq_def split: option.splits sum.splits)

lemma seq_err_simps [simp]: "seq_err f None = None" "seq_err f (Some (Inl e, t)) = Some (Inl (f e), t)"
  "seq_err f (Some (Inr x, t)) = Some (Inr x, t)"
  by (simp_all add: seq_err_def)

lemma seq_err_Inr [simp]: "seq_err f r = Some (Inr x, t) \<longleftrightarrow> r = Some (Inr x, t)"
proof -
  consider "r = None" | e u where "r = Some (Inl e, u)" | y u where "r = Some (Inr y, u)" by (metis old.sum.exhaust option.exhaust surj_pair)
  then show ?thesis by cases auto
qed

definition context_Canceled :: err where "context_Canceled = Message ''context canceled''"
definition context_DeadlineExceeded :: err where "context_DeadlineExceeded = Message ''context deadline exceeded''"

subsection \<open>Errors\<close>

definition ErrNilStrategy :: err where "ErrNilStrategy = Message ''jwt: signing strategy is required''"
definition ErrMissingSecret :: err where "ErrMissingSecret = Message ''jwt: secret is required''"
definition ErrMissingPrivateKey :: err where "ErrMissingPrivateKey = Message ''jwt: private key is required''"
definition ErrMissingPublicKey :: err where "ErrMissingPublicKey = Message ''jwt: public key is required''"
definition ErrMissingEdDSAPrivateKey :: err where "ErrMissingEdDSAPrivateKey = Message ''jwt: ed25519 private key is required''"
definition ErrMissingEdDSAPublicKey :: err where "ErrMissingEdDSAPublicKey = Message ''jwt: ed25519 public key is required''"
definition ErrInvalidToken :: err where "ErrInvalidToken = Message ''jwt: invalid token format''"
definition ErrInvalidSignature :: err where "ErrInvalidSignature = Message ''jwt: invalid token signature''"
definition ErrUnexpectedAlg :: err where "ErrUnexpectedAlg = Message ''jwt: unexpected algorithm''"
definition ErrNilDestination :: err where "ErrNilDestination = Message ''jwt: destination is required''"
definition ErrNilValidator :: err where "ErrNilValidator = Message ''jwt: validator cannot be nil''"
definition ErrMissingValidation :: err where "ErrMissingValidation = Message ''jwt: validation callback is required''"
definition ErrUnsupportedAlg :: err where "ErrUnsupportedAlg = Message ''jwt: unsupported algorithm''"
definition ErrMissingAlgorithm :: err where "ErrMissingAlgorithm = Message ''jwt: algorithm is required''"
definition ErrMissingSignFunc :: err where "ErrMissingSignFunc = Message ''jwt: custom sign function is required''"
definition ErrMissingVerifyFunc :: err where "ErrMissingVerifyFunc = Message ''jwt: custom verify function is required''"
definition ErrInvalidExpirationClaim :: err where "ErrInvalidExpirationClaim = Message ''jwt: invalid exp claim''"
definition ErrInvalidNotBeforeClaim :: err where "ErrInvalidNotBeforeClaim = Message ''jwt: invalid nbf claim''"
definition ErrTokenExpired :: err where "ErrTokenExpired = Message ''jwt: token is expired''"
definition ErrTokenNotYetValid :: err where "ErrTokenNotYetValid = Message ''jwt: token is not valid yet''"
definition ErrNilClock :: err where "ErrNilClock = Message ''jwt: clock cannot be nil''"
definition ErrInvalidLeeway :: err where "ErrInvalidLeeway = Message ''jwt: leeway cannot be negative''"

subsection \<open>The world outside\<close>

record instant =
  unix :: int
  nanosecond :: int

record 't jwt_env = "'t crypto" +
  viper_GetString :: "string \<Rightarrow> 't \<Rightarrow> string"
  viper_IsSet :: "string \<Rightarrow> 't \<Rightarrow> bool"
  viper_Set :: "string \<Rightarrow> string \<Rightarrow> 't \<Rightarrow> 't"
  viper_SetDefault :: "string \<Rightarrow> string \<Rightarrow> 't \<Rightarrow> 't"
  os_Stat :: "string \<Rightarrow> 't \<Rightarrow> err option"
  time_Now :: "'t \<Rightarrow> instant"
  context_WithTimeout :: "go_ctx \<Rightarrow> int \<Rightarrow> go_ctx"

definition context_Background :: go_ctx where
  "context_Background = \<lparr>ctx_Err = None, ctx_Done = None, picks_Done = False\<rparr>"

definition or_background :: "go_ctx option \<Rightarrow> go_ctx" where
  "or_background ctx = (case ctx of None \<Rightarrow> context_Background | Some c \<Rightarrow> c)"

subsection \<open>Services\<close>

record Header =
  hd_Type :: string
  hd_Algorithm :: string

record Token =
  tk_Raw :: string
  tk_Header :: Header
  tk_Claims :: string
  tk_Signature :: string

type_synonym 't SignFunc = "go_ctx option \<Rightarrow> string \<Rightarrow> 't \<Rightarrow> ('t, string) run"
type_synonym 't VerifyFunc = "go_ctx option \<Rightarrow> string \<Rightarrow> string \<Rightarrow> 't \<Rightarrow> ('t, unit) run"
type_synonym 't Validator = "go_ctx \<Rightarrow> Token \<Rightarrow> 't \<Rightarrow> ('t, unit) run"

text \<open>
  The implementations of \<open>Strategy\<close>. One of the caller's own that takes contexts behaves like \<open>customStrategy\<close> with both
  functions; one that does not is \<open>plainStrategy\<close>.
\<close>

datatype 't Strategy =
    hmacSHA256Strategy string
  | rsaSHA256Strategy "rsa_PrivateKey option" "rsa_PublicKey option"
  | rsaPSSSHA256Strategy "rsa_PrivateKey option" "rsa_PublicKey option"
  | ed25519Strategy string string
  | customStrategy string "'t SignFunc option" "'t VerifyFunc option"
  | plainStrategy string "string \<Rightarrow> 't \<Rightarrow> ('t, string) run" "string \<Rightarrow> string \<Rightarrow> 't \<Rightarrow> ('t, unit) run"

record 't Service =
  strategy :: "'t Strategy option"
  validators :: "'t Validator option list"
  clock :: "('t \<Rightarrow> instant) option"
  leeway :: int
  contextTimeout :: int
  contextTimeoutOn :: bool

type_synonym 't Option = "'t Service \<Rightarrow> err + 't Service"

definition jwt_New :: "('t, 'm) jwt_env_scheme \<Rightarrow> 't Option option list \<Rightarrow> err + 't Service" where
  "jwt_New E options =
     (let zero = \<lparr>strategy = None, validators = [], clock = Some (time_Now E), leeway = 0, contextTimeout = 0, contextTimeoutOn = False\<rparr>;
          applied = foldl (\<lambda>r opt. case opt of None \<Rightarrow> r | Some f \<Rightarrow> sum_bind r f) (Inr zero) options
      in sum_bind applied (\<lambda>service. if strategy service = None then Inl ErrNilStrategy else Inr service))"

definition NewCustomStrategy :: "string \<Rightarrow> 't SignFunc option \<Rightarrow> 't VerifyFunc option \<Rightarrow> err + 't Strategy" where
  "NewCustomStrategy algorithm sign verify =
     (let algorithm = TrimSpace algorithm in
      if algorithm = [] then Inl ErrMissingAlgorithm
      else if sign = None then Inl ErrMissingSignFunc
      else if verify = None then Inl ErrMissingVerifyFunc
      else Inr (customStrategy algorithm sign verify))"

definition WithHMACSHA256 :: "string \<Rightarrow> 't Option" where
  "WithHMACSHA256 secret service =
     (if secret = [] then Inl ErrMissingSecret else Inr (service\<lparr>strategy := Some (hmacSHA256Strategy secret)\<rparr>))"

definition WithRSASHA256 :: "rsa_PrivateKey option \<Rightarrow> rsa_PublicKey option \<Rightarrow> 't Option" where
  "WithRSASHA256 privateKey publicKey service =
     (if privateKey = None then Inl ErrMissingPrivateKey
      else if publicKey = None then Inl ErrMissingPublicKey
      else Inr (service\<lparr>strategy := Some (rsaSHA256Strategy privateKey publicKey)\<rparr>))"

definition WithRSAPSSSHA256 :: "rsa_PrivateKey option \<Rightarrow> rsa_PublicKey option \<Rightarrow> 't Option" where
  "WithRSAPSSSHA256 privateKey publicKey service =
     (if privateKey = None then Inl ErrMissingPrivateKey
      else if publicKey = None then Inl ErrMissingPublicKey
      else Inr (service\<lparr>strategy := Some (rsaPSSSHA256Strategy privateKey publicKey)\<rparr>))"

definition WithEd25519 :: "string \<Rightarrow> string \<Rightarrow> 't Option" where
  "WithEd25519 privateKey publicKey service =
     (if length privateKey = 0 then Inl ErrMissingEdDSAPrivateKey
      else if length publicKey = 0 then Inl ErrMissingEdDSAPublicKey
      else Inr (service\<lparr>strategy := Some (ed25519Strategy privateKey publicKey)\<rparr>))"

definition WithCustomStrategy :: "string \<Rightarrow> 't SignFunc option \<Rightarrow> 't VerifyFunc option \<Rightarrow> 't Option" where
  "WithCustomStrategy algorithm sign verify service =
     sum_bind (NewCustomStrategy algorithm sign verify) (\<lambda>s. Inr (service\<lparr>strategy := Some s\<rparr>))"

definition WithStrategy :: "'t Strategy option \<Rightarrow> 't Option" where
  "WithStrategy s service = (if s = None then Inl ErrNilStrategy else Inr (service\<lparr>strategy := s\<rparr>))"

definition WithValidator :: "'t Validator option \<Rightarrow> 't Option" where
  "WithValidator validator service =
     (if validator = None then Inl ErrNilValidator else Inr (service\<lparr>validators := validators service @ [validator]\<rparr>))"

definition WithClock :: "('t \<Rightarrow> instant) option \<Rightarrow> 't Option" where
  "WithClock c service = (if c = None then Inl ErrNilClock else Inr (service\<lparr>clock := c\<rparr>))"

definition WithLeeway :: "int \<Rightarrow> 't Option" where
  "WithLeeway d service = (if d < 0 then Inl ErrInvalidLeeway else Inr (service\<lparr>leeway := d\<rparr>))"

definition WithContextTimeout :: "int \<Rightarrow> 't Option" where
  "WithContextTimeout timeout service =
     (if timeout \<le> 0 then Inr (service\<lparr>contextTimeout := 0, contextTimeoutOn := False\<rparr>)
      else Inr (service\<lparr>contextTimeout := timeout, contextTimeoutOn := True\<rparr>))"

definition contextFor :: "('t, 'm) jwt_env_scheme \<Rightarrow> 't Service option \<Rightarrow> go_ctx option \<Rightarrow> go_ctx" where
  "contextFor E service ctx =
     (let c = or_background ctx in
      case service of None \<Rightarrow> c
      | Some s \<Rightarrow> if \<not> contextTimeoutOn s then c else context_WithTimeout E c (contextTimeout s))"

subsection \<open>Strategies\<close>

definition Algorithm :: "'t Strategy \<Rightarrow> string" where
  "Algorithm s = (case s of hmacSHA256Strategy _ \<Rightarrow> ''HS256'' | rsaSHA256Strategy _ _ \<Rightarrow> ''RS256''
     | rsaPSSSHA256Strategy _ _ \<Rightarrow> ''PS256'' | ed25519Strategy _ _ \<Rightarrow> ''EdDSA''
     | customStrategy algorithm _ _ \<Rightarrow> algorithm | plainStrategy algorithm _ _ \<Rightarrow> algorithm)"

definition mustMarshalPrivate :: "('t, 'm) crypto_scheme \<Rightarrow> any_private \<Rightarrow> string option" where
  "mustMarshalPrivate C k = (case MarshalPKCS8PrivateKey C k of Inl e \<Rightarrow> None | Inr der \<Rightarrow> Some (std_EncodeToString der))"

definition mustMarshalPublic :: "('t, 'm) crypto_scheme \<Rightarrow> any_public \<Rightarrow> string option" where
  "mustMarshalPublic C k = (case MarshalPKIXPublicKey C k of Inl e \<Rightarrow> None | Inr der \<Rightarrow> Some (std_EncodeToString der))"

text \<open>The argument is marshalled before the call, so a panic comes first.\<close>

definition or_panic :: "string option \<Rightarrow> (string \<Rightarrow> (err + 'a) \<times> 't) \<Rightarrow> ('t, 'a) run" where
  "or_panic key f = map_option f key"

definition decoded :: "('t, string) run \<Rightarrow> ('t, string) run" where
  "decoded r = seq r (\<lambda>b64 t. Some (decode_std b64, t))"

definition hmac_SignContext :: "('t, 'm) crypto_scheme \<Rightarrow> string \<Rightarrow> 't SignFunc" where
  "hmac_SignContext C secret ctx signingInput t =
     (case ctx_Err (or_background ctx) of Some e \<Rightarrow> Some (Inl e, t)
      | None \<Rightarrow> if length secret = 0 then Some (Inl ErrMissingSecret, t)
                else Some (Inr (hmac_SHA256 C secret signingInput), t))"

definition hmac_VerifyContext :: "('t, 'm) crypto_scheme \<Rightarrow> string \<Rightarrow> 't VerifyFunc" where
  "hmac_VerifyContext C secret ctx signingInput signature t =
     seq (hmac_SignContext C secret ctx signingInput t) (\<lambda>expectedSignature t.
       if signature \<noteq> expectedSignature then Some (Inl ErrInvalidSignature, t) else Some (Inr (), t))"

definition signatureError :: "err \<Rightarrow> err" where
  "signatureError e = (if errors_Is e context_Canceled \<or> errors_Is e context_DeadlineExceeded then e else ErrInvalidSignature)"

definition rsa_SignContext :: "('t, 'm) crypto_scheme \<Rightarrow> rsa_PrivateKey option \<Rightarrow> 't SignFunc" where
  "rsa_SignContext C privateKey ctx signingInput t = (case privateKey of None \<Rightarrow> Some (Inl ErrMissingPrivateKey, t)
     | Some k \<Rightarrow> decoded (or_panic (mustMarshalPrivate C (PrivRSA k)) (\<lambda>key. local_Sign_RSA_PKCS1v15_SHA256 C ctx key signingInput t)))"

definition rsa_VerifyContext :: "('t, 'm) crypto_scheme \<Rightarrow> rsa_PublicKey option \<Rightarrow> 't VerifyFunc" where
  "rsa_VerifyContext C publicKey ctx signingInput signature t = (case publicKey of None \<Rightarrow> Some (Inl ErrMissingPublicKey, t)
     | Some k \<Rightarrow> seq_err signatureError (or_panic (mustMarshalPublic C (PubRSA k))
         (\<lambda>key. local_Verify_RSA_PKCS1v15_SHA256 C ctx signingInput key (std_EncodeToString signature) t)))"

definition pss_SignContext :: "('t, 'm) crypto_scheme \<Rightarrow> rsa_PrivateKey option \<Rightarrow> 't SignFunc" where
  "pss_SignContext C privateKey ctx signingInput t = (case privateKey of None \<Rightarrow> Some (Inl ErrMissingPrivateKey, t)
     | Some k \<Rightarrow> decoded (or_panic (mustMarshalPrivate C (PrivRSA k)) (\<lambda>key. local_SignRSAPSS C ctx key signingInput t)))"

definition pss_VerifyContext :: "('t, 'm) crypto_scheme \<Rightarrow> rsa_PublicKey option \<Rightarrow> 't VerifyFunc" where
  "pss_VerifyContext C publicKey ctx signingInput signature t = (case publicKey of None \<Rightarrow> Some (Inl ErrMissingPublicKey, t)
     | Some k \<Rightarrow> seq_err signatureError (or_panic (mustMarshalPublic C (PubRSA k))
         (\<lambda>key. local_VerifyRSAPSS C ctx key signingInput (std_EncodeToString signature) t)))"

definition ed25519_SignContext :: "('t, 'm) crypto_scheme \<Rightarrow> string \<Rightarrow> 't SignFunc" where
  "ed25519_SignContext C privateKey ctx signingInput t =
     (if length privateKey = 0 then Some (Inl ErrMissingEdDSAPrivateKey, t)
      else decoded (or_panic (mustMarshalPrivate C (PrivEd25519 privateKey)) (\<lambda>key. local_SignEd25519 C ctx key signingInput t)))"

definition ed25519_VerifyContext :: "('t, 'm) crypto_scheme \<Rightarrow> string \<Rightarrow> 't VerifyFunc" where
  "ed25519_VerifyContext C publicKey ctx signingInput signature t =
     (if length publicKey = 0 then Some (Inl ErrMissingEdDSAPublicKey, t)
      else seq_err signatureError (or_panic (mustMarshalPublic C (PubEd25519 publicKey))
         (\<lambda>key. local_VerifyEd25519 C ctx key signingInput (std_EncodeToString signature) t)))"

definition custom_SignContext :: "'t SignFunc option \<Rightarrow> 't SignFunc" where
  "custom_SignContext sign ctx signingInput t = (case sign of None \<Rightarrow> Some (Inl ErrMissingSignFunc, t) | Some f \<Rightarrow> f ctx signingInput t)"

definition custom_VerifyContext :: "'t VerifyFunc option \<Rightarrow> 't VerifyFunc" where
  "custom_VerifyContext verify ctx signingInput signature t =
     (case verify of None \<Rightarrow> Some (Inl ErrMissingVerifyFunc, t) | Some f \<Rightarrow> f ctx signingInput signature t)"

text \<open>The function runs in a goroutine of its own, which does its work even when the caller leaves early.\<close>

definition runStrategyWithContext :: "go_ctx option \<Rightarrow> ('t \<Rightarrow> ('t, 'a) run) \<Rightarrow> 't \<Rightarrow> ('t, 'a) run" where
  "runStrategyWithContext ctx fn t =
     (let c = or_background ctx in
      case ctx_Err c of Some e \<Rightarrow> Some (Inl e, t)
      | None \<Rightarrow> (case ctx_Done c of None \<Rightarrow> fn t
        | Some e \<Rightarrow> if picks_Done c then map_option (\<lambda>(_, u). (Inl e, u)) (fn t) else fn t))"

definition signStrategy :: "('t, 'm) crypto_scheme \<Rightarrow> go_ctx option \<Rightarrow> 't Strategy \<Rightarrow> string \<Rightarrow> 't \<Rightarrow> ('t, string) run" where
  "signStrategy C ctx s signingInput t = (case s of
       hmacSHA256Strategy secret \<Rightarrow> hmac_SignContext C secret ctx signingInput t
     | rsaSHA256Strategy privateKey _ \<Rightarrow> rsa_SignContext C privateKey ctx signingInput t
     | rsaPSSSHA256Strategy privateKey _ \<Rightarrow> pss_SignContext C privateKey ctx signingInput t
     | ed25519Strategy privateKey _ \<Rightarrow> ed25519_SignContext C privateKey ctx signingInput t
     | customStrategy _ sign _ \<Rightarrow> custom_SignContext sign ctx signingInput t
     | plainStrategy _ sign _ \<Rightarrow> runStrategyWithContext ctx (sign signingInput) t)"

definition verifyStrategy :: "('t, 'm) crypto_scheme \<Rightarrow> go_ctx option \<Rightarrow> 't Strategy \<Rightarrow> string \<Rightarrow> string \<Rightarrow> 't \<Rightarrow> ('t, unit) run" where
  "verifyStrategy C ctx s signingInput signature t = (case s of
       hmacSHA256Strategy secret \<Rightarrow> hmac_VerifyContext C secret ctx signingInput signature t
     | rsaSHA256Strategy _ publicKey \<Rightarrow> rsa_VerifyContext C publicKey ctx signingInput signature t
     | rsaPSSSHA256Strategy _ publicKey \<Rightarrow> pss_VerifyContext C publicKey ctx signingInput signature t
     | ed25519Strategy _ publicKey \<Rightarrow> ed25519_VerifyContext C publicKey ctx signingInput signature t
     | customStrategy _ _ verify \<Rightarrow> custom_VerifyContext verify ctx signingInput signature t
     | plainStrategy _ _ verify \<Rightarrow> runStrategyWithContext ctx (verify signingInput signature) t)"

text \<open>The methods of \<open>Strategy\<close> itself, which take no context.\<close>

definition Strategy_Sign :: "('t, 'm) crypto_scheme \<Rightarrow> 't Strategy \<Rightarrow> string \<Rightarrow> 't \<Rightarrow> ('t, string) run" where
  "Strategy_Sign C s signingInput t =
     (case s of plainStrategy _ sign _ \<Rightarrow> sign signingInput t | _ \<Rightarrow> signStrategy C (Some context_Background) s signingInput t)"

definition Strategy_Verify :: "('t, 'm) crypto_scheme \<Rightarrow> 't Strategy \<Rightarrow> string \<Rightarrow> string \<Rightarrow> 't \<Rightarrow> ('t, unit) run" where
  "Strategy_Verify C s signingInput signature t =
     (case s of plainStrategy _ _ verify \<Rightarrow> verify signingInput signature t
      | _ \<Rightarrow> verifyStrategy C (Some context_Background) s signingInput signature t)"


subsection \<open>Creating a token\<close>

definition encodeSegment :: "string \<Rightarrow> string" where
  "encodeSegment v = rawurl_EncodeToString v"

definition decodeSegment :: "string \<Rightarrow> err + string" where
  "decodeSegment v = (case rawurl_DecodeString v of Some b \<Rightarrow> Inr b | None \<Rightarrow> Inl (Message ''illegal base64 data''))"

definition header_json :: "Header \<Rightarrow> string" where
  "header_json h = json_object [(''typ'', json_quote (hd_Type h)), (''alg'', json_quote (hd_Algorithm h))]"

text \<open>\<open>claims\<close> is what \<^verbatim>\<open>json.Marshal\<close> makes of the caller's value. Marshalling the header does not fail.\<close>

definition CreateWithContext ::
    "('t, 'm) jwt_env_scheme \<Rightarrow> 't Service option \<Rightarrow> go_ctx option \<Rightarrow> err + string \<Rightarrow> 't \<Rightarrow> ('t, string) run" where
  "CreateWithContext E service ctx claims t =
     (case service of None \<Rightarrow> Some (Inl ErrNilStrategy, t)
      | Some s \<Rightarrow> (case strategy s of None \<Rightarrow> Some (Inl ErrNilStrategy, t)
        | Some st \<Rightarrow>
            (let ctx = contextFor E service ctx;
                 headerJSON = header_json \<lparr>hd_Type = ''JWT'', hd_Algorithm = Algorithm st\<rparr> in
             seq (Some (wrap_error ''jwt: encode claims: %w'' claims, t)) (\<lambda>claimsJSON t.
             let signingInput = encodeSegment headerJSON @ ''.'' @ encodeSegment claimsJSON in
             seq (seq_err (\<lambda>e. WrapErr ''jwt: sign token: %w'' [e]) (signStrategy E (Some ctx) st signingInput t)) (\<lambda>signature t.
               Some (Inr (signingInput @ ''.'' @ encodeSegment signature), t))))))"

definition Create :: "('t, 'm) jwt_env_scheme \<Rightarrow> 't Service option \<Rightarrow> err + string \<Rightarrow> 't \<Rightarrow> ('t, string) run" where
  "Create E service = CreateWithContext E service (Some context_Background)"

subsection \<open>Times in claims\<close>

text \<open>Whether there is a date, and its value.\<close>

definition numericDateClaim :: "string \<Rightarrow> err \<Rightarrow> err + rat option" where
  "numericDateClaim value invalidError =
     (let value = TrimSpace value in
      if length value = 0 then Inr None
      else if hd value \<noteq> CHR ''-'' \<and> \<not> is_digit (hd value) then Inl invalidError
      else (case ParseFloat value of None \<Rightarrow> Inl invalidError | Some seconds \<Rightarrow> Inr (Some seconds)))"

record time_claims =
  Expiration :: string
  NotBefore :: string

definition time_fields :: "time_claims field list" where
  "time_fields = [raw_field ''exp'' (\<lambda>x. Expiration_update (\<lambda>_. x)), raw_field ''nbf'' (\<lambda>x. NotBefore_update (\<lambda>_. x))]"

definition nowSeconds :: "instant \<Rightarrow> rat" where
  "nowSeconds now = float64 (float64 (of_int (unix now)) + float64 (of_int (nanosecond now) / 10 ^ 9))"

text \<open>\<open>Duration.Seconds\<close>, of a duration that is not negative.\<close>

definition Seconds :: "int \<Rightarrow> rat" where
  "Seconds d = float64 (float64 (of_int (d div 10 ^ 9)) + float64 (of_int (d mod 10 ^ 9) / 10 ^ 9))"

definition validateRegisteredTimeClaims :: "('t, 'm) jwt_env_scheme \<Rightarrow> 't Service \<Rightarrow> string \<Rightarrow> 't \<Rightarrow> err option" where
  "validateRegisteredTimeClaims E service claimsBytes t =
     (let trimmedClaims = TrimSpace claimsBytes in
      if json_parse trimmedClaims = None then Some (Message ''jwt: parse claims: invalid JSON'')
      else if length trimmedClaims = 0 \<or> hd trimmedClaims \<noteq> CHR ''{'' then None
      else case json_Unmarshal time_fields trimmedClaims \<lparr>Expiration = [], NotBefore = []\<rparr> of
        Inl e \<Rightarrow> Some (WrapErr ''jwt: parse claims: %w'' [json_err e])
      | Inr claims \<Rightarrow> (case numericDateClaim (Expiration claims) ErrInvalidExpirationClaim of Inl e \<Rightarrow> Some e
      | Inr expiration \<Rightarrow> (case numericDateClaim (NotBefore claims) ErrInvalidNotBeforeClaim of Inl e \<Rightarrow> Some e
      | Inr notBefore \<Rightarrow>
          if expiration = None \<and> notBefore = None then None
          else (let now = nowSeconds ((case clock service of None \<Rightarrow> time_Now E | Some c \<Rightarrow> c) t);
                    leewaySeconds = Seconds (leeway service) in
            if expiration \<noteq> None \<and> now \<ge> float64 (the expiration + leewaySeconds) then Some ErrTokenExpired
            else if notBefore \<noteq> None \<and> float64 (now + leewaySeconds) < the notBefore then Some ErrTokenNotYetValid
            else None))))"

subsection \<open>Checking a token\<close>

definition header_fields :: "Header field list" where
  "header_fields = [string_field ''typ'' (\<lambda>x. hd_Type_update (\<lambda>_. x)), string_field ''alg'' (\<lambda>x. hd_Algorithm_update (\<lambda>_. x))]"

definition parse_header :: "string \<Rightarrow> err + Header" where
  "parse_header part =
     sum_bind (wrap_error ''jwt: decode header: %w'' (decodeSegment part)) (\<lambda>headerBytes.
       wrap_error ''jwt: parse header: %w'' (map_sum json_err (\<lambda>x. x) (json_Unmarshal header_fields headerBytes \<lparr>hd_Type = [], hd_Algorithm = []\<rparr>)))"

definition parseAndValidate :: "('t, 'm) jwt_env_scheme \<Rightarrow> 't Service option \<Rightarrow> go_ctx \<Rightarrow> string \<Rightarrow> 't \<Rightarrow> ('t, Token) run" where
  "parseAndValidate E service ctx token t =
     (case service of None \<Rightarrow> Some (Inl ErrNilStrategy, t)
      | Some s \<Rightarrow> (case strategy s of None \<Rightarrow> Some (Inl ErrNilStrategy, t)
        | Some st \<Rightarrow> (case Split (CHR ''.'') token of
            [p0, p1, p2] \<Rightarrow>
              seq (Some (parse_header p0, t)) (\<lambda>header t.
              if hd_Algorithm header \<noteq> Algorithm st then Some (Inl (WrapErr ''%w: expected %s, got %s'' [ErrUnexpectedAlg]), t)
              else
                seq (Some (wrap_error ''jwt: decode claims: %w'' (decodeSegment p1), t)) (\<lambda>claimsBytes t.
                seq (Some (wrap_error ''jwt: decode signature: %w'' (decodeSegment p2), t)) (\<lambda>signatureBytes t.
                seq (verifyStrategy E (Some ctx) st (p0 @ ''.'' @ p1) signatureBytes t) (\<lambda>_ t.
                  case validateRegisteredTimeClaims E s claimsBytes t of Some e \<Rightarrow> Some (Inl e, t)
                  | None \<Rightarrow> Some (Inr \<lparr>tk_Raw = token, tk_Header = header, tk_Claims = claimsBytes, tk_Signature = p2\<rparr>, t)))))
          | _ \<Rightarrow> Some (Inl ErrInvalidToken, t))))"

definition ValidateSignatureWithContext ::
    "('t, 'm) jwt_env_scheme \<Rightarrow> 't Service option \<Rightarrow> go_ctx option \<Rightarrow> string \<Rightarrow> 't \<Rightarrow> ('t, unit) run" where
  "ValidateSignatureWithContext E service ctx token t =
     seq (parseAndValidate E service (contextFor E service ctx) token t) (\<lambda>_ t. Some (Inr (), t))"

definition ValidateSignature :: "('t, 'm) jwt_env_scheme \<Rightarrow> 't Service option \<Rightarrow> string \<Rightarrow> 't \<Rightarrow> ('t, unit) run" where
  "ValidateSignature E service = ValidateSignatureWithContext E service (Some context_Background)"

fun run_validators :: "go_ctx \<Rightarrow> Token \<Rightarrow> 't Validator option list \<Rightarrow> 't \<Rightarrow> ('t, unit) run" where
  "run_validators ctx tok [] t = Some (Inr (), t)"
| "run_validators ctx tok (None # vs) t = Some (Inl ErrMissingValidation, t)"
| "run_validators ctx tok (Some validator # vs) t = seq (validator ctx tok t) (\<lambda>_ t. run_validators ctx tok vs t)"

text \<open>A destination is what \<^verbatim>\<open>json.Unmarshal\<close> into it does to the world.\<close>

type_synonym 't destination = "string \<Rightarrow> 't \<Rightarrow> (err + unit) \<times> 't"

definition Decode ::
    "('t, 'm) jwt_env_scheme \<Rightarrow> 't Service option \<Rightarrow> go_ctx option \<Rightarrow> string \<Rightarrow> 't destination option \<Rightarrow> 't Validator option list
     \<Rightarrow> 't \<Rightarrow> ('t, Token) run" where
  "Decode E service ctx token destination perCall t =
     (case destination of None \<Rightarrow> Some (Inl ErrNilDestination, t)
      | Some unmarshal \<Rightarrow>
          (let ctx = contextFor E service ctx in
           seq (parseAndValidate E service ctx token t) (\<lambda>parsedToken t.
           seq (seq_err (\<lambda>e. WrapErr ''jwt: decode claims: %w'' [e]) (Some (unmarshal (tk_Claims parsedToken) t))) (\<lambda>_ t.
           seq (run_validators ctx parsedToken (case service of None \<Rightarrow> [] | Some s \<Rightarrow> validators s @ perCall) t) (\<lambda>_ t.
             Some (Inr parsedToken, t))))))"

definition ReadWithContext ::
    "('t, 'm) jwt_env_scheme \<Rightarrow> 't Service option \<Rightarrow> go_ctx option \<Rightarrow> string \<Rightarrow> 't destination option \<Rightarrow> 't \<Rightarrow> ('t, unit) run" where
  "ReadWithContext E service ctx token destination t = seq (Decode E service ctx token destination [] t) (\<lambda>_ t. Some (Inr (), t))"

definition Read :: "('t, 'm) jwt_env_scheme \<Rightarrow> 't Service option \<Rightarrow> string \<Rightarrow> 't destination option \<Rightarrow> 't \<Rightarrow> ('t, unit) run" where
  "Read E service = ReadWithContext E service (Some context_Background)"

subsection \<open>Services from the configuration\<close>

text \<open>
  \<^verbatim>\<open>strings.ToUpper\<close>, exact on the runes it maps to ASCII; it maps no other rune there, and which other rune they become makes
  no difference to the comparisons below.
\<close>

definition upper_rune :: "nat \<Rightarrow> nat" where
  "upper_rune r = (if 0x61 \<le> r \<and> r \<le> 0x7A then r - 32 else if r = 0x17F then 0x53 else if r = 0x131 then 0x49 else r)"

definition ToUpper :: "string \<Rightarrow> string" where
  "ToUpper s = runes_string (map upper_rune (runes s))"

definition DefaultAlgorithmKey :: string where "DefaultAlgorithmKey = ''jwt.algorithm''"
definition DefaultHMACSecretKey :: string where "DefaultHMACSecretKey = ''jwt.hmac.secret''"
definition DefaultJWTPrivateKeyKey :: string where "DefaultJWTPrivateKeyKey = ''jwt.keys.private_key''"
definition DefaultJWTPublicKeyKey :: string where "DefaultJWTPublicKeyKey = ''jwt.keys.public_key''"
definition DefaultRSAPrivateKeyKey :: string where "DefaultRSAPrivateKeyKey = ''jwt.rsa.private_key''"
definition DefaultRSAPublicKeyKey :: string where "DefaultRSAPublicKeyKey = ''jwt.rsa.public_key''"
definition DefaultEdDSAPrivateKeyKey :: string where "DefaultEdDSAPrivateKeyKey = ''jwt.eddsa.private_key''"
definition DefaultEdDSAPublicKeyKey :: string where "DefaultEdDSAPublicKeyKey = ''jwt.eddsa.public_key''"

definition setJWTConfigValue :: "('t, 'm) jwt_env_scheme \<Rightarrow> string \<Rightarrow> string \<Rightarrow> 't \<Rightarrow> 't" where
  "setJWTConfigValue E key value t = (if viper_IsSet E key t then viper_Set E key value t else viper_SetDefault E key value t)"

definition SetJWTAsymmetricKeys :: "('t, 'm) jwt_env_scheme \<Rightarrow> string \<Rightarrow> string \<Rightarrow> string \<Rightarrow> 't \<Rightarrow> (err + unit) \<times> 't" where
  "SetJWTAsymmetricKeys E priv pub alg t =
     (if ToUpper (TrimSpace alg) \<in> {''RSA'', ''RS256'', ''PS256'', ''EDDSA''}
      then (Inr (), setJWTConfigValue E DefaultJWTPublicKeyKey pub (setJWTConfigValue E DefaultJWTPrivateKeyKey priv t))
      else (Inl (WrapErr ''%w: %s'' [ErrUnsupportedAlg]), t))"

definition asymmetricConfigValue :: "('t, 'm) jwt_env_scheme \<Rightarrow> string \<Rightarrow> string \<Rightarrow> 't \<Rightarrow> string \<times> string" where
  "asymmetricConfigValue E primaryKey legacyKey t =
     (let value = viper_GetString E primaryKey t in
      if TrimSpace value \<noteq> [] then (value, primaryKey) else (viper_GetString E legacyKey t, legacyKey))"

text \<open>Only ASCII letters have an ASCII lower case that occurs in the suffix.\<close>

definition shouldReadPEMFile :: "('t, 'm) jwt_env_scheme \<Rightarrow> string \<Rightarrow> 't \<Rightarrow> bool" where
  "shouldReadPEMFile E value t =
     (let value = TrimSpace value in
      if value = [] then False
      else if HasSuffix (map lower_char value) ''.pem'' then True
      else os_Stat E value t = None)"

definition from_config :: "('t, 'm) jwt_env_scheme \<Rightarrow> (string \<Rightarrow> 't \<Rightarrow> (err + 'a) \<times> 't) \<Rightarrow> (string \<Rightarrow> err + 'a) \<Rightarrow> string \<Rightarrow> 't \<Rightarrow> (err + 'a) \<times> 't" where
  "from_config E pem base64 value t =
     (let value = TrimSpace value in if shouldReadPEMFile E value t then pem value t else (base64 value, t))"

definition parseRSAPrivateKeyFromConfig :: "('t, 'm) jwt_env_scheme \<Rightarrow> string \<Rightarrow> 't \<Rightarrow> (err + rsa_PrivateKey) \<times> 't" where
  "parseRSAPrivateKeyFromConfig E = from_config E (ParseRSAPrivateKeyFromPEMFile E) (ParseRSAPrivateKeyFromBase64 E)"

definition parseRSAPublicKeyFromConfig :: "('t, 'm) jwt_env_scheme \<Rightarrow> string \<Rightarrow> 't \<Rightarrow> (err + rsa_PublicKey) \<times> 't" where
  "parseRSAPublicKeyFromConfig E = from_config E (ParseRSAPublicKeyFromPEMFile E) (ParseRSAPublicKeyFromBase64 E)"

definition parseEd25519PrivateKeyFromConfig :: "('t, 'm) jwt_env_scheme \<Rightarrow> string \<Rightarrow> 't \<Rightarrow> (err + string) \<times> 't" where
  "parseEd25519PrivateKeyFromConfig E = from_config E (ParseEd25519PrivateKeyFromPEMFile E) (ParseEd25519PrivateKeyFromBase64 E)"

definition parseEd25519PublicKeyFromConfig :: "('t, 'm) jwt_env_scheme \<Rightarrow> string \<Rightarrow> 't \<Rightarrow> (err + string) \<times> 't" where
  "parseEd25519PublicKeyFromConfig E = from_config E (ParseEd25519PublicKeyFromPEMFile E) (ParseEd25519PublicKeyFromBase64 E)"

text \<open>\<open>validator\<close> is a pointer: \<open>None\<close> is nil, \<open>Some None\<close> points to a nil function.\<close>

definition service_with :: "('t, 'm) jwt_env_scheme \<Rightarrow> 't Option \<Rightarrow> 't Validator option option \<Rightarrow> err + 't Service" where
  "service_with E opt validator =
     jwt_New E ([Some opt] @ (case validator of None \<Rightarrow> [] | Some v \<Rightarrow> [Some (WithValidator v)]))"

definition service_from_keys ::
    "('t, 'm) jwt_env_scheme \<Rightarrow> (string \<Rightarrow> 't \<Rightarrow> (err + 'a) \<times> 't) \<Rightarrow> string \<Rightarrow> (string \<Rightarrow> 't \<Rightarrow> (err + 'b) \<times> 't) \<Rightarrow> string
     \<Rightarrow> string \<Rightarrow> string \<Rightarrow> ('a \<Rightarrow> 'b \<Rightarrow> 't Option) \<Rightarrow> 't Validator option option \<Rightarrow> 't \<Rightarrow> (err + 't Service) \<times> 't" where
  "service_from_keys E parsePrivate privateKind parsePublic publicKind legacyPrivate legacyPublic opt validator t =
     (case parsePrivate (fst (asymmetricConfigValue E DefaultJWTPrivateKeyKey legacyPrivate t)) t of
        (Inl e, t) \<Rightarrow> (Inl (WrapErr (''jwt: parse '' @ privateKind @ '' private key from key %s: %w'') [e]), t)
      | (Inr priv, t) \<Rightarrow> (case parsePublic (fst (asymmetricConfigValue E DefaultJWTPublicKeyKey legacyPublic t)) t of
          (Inl e, t) \<Rightarrow> (Inl (WrapErr (''jwt: parse '' @ publicKind @ '' public key from key %s: %w'') [e]), t)
        | (Inr pub, t) \<Rightarrow> (service_with E (opt priv pub) validator, t)))"

definition NewRSAService :: "('t, 'm) jwt_env_scheme \<Rightarrow> 't Validator option option \<Rightarrow> 't \<Rightarrow> (err + 't Service) \<times> 't" where
  "NewRSAService E = service_from_keys E (parseRSAPrivateKeyFromConfig E) ''rsa'' (parseRSAPublicKeyFromConfig E) ''rsa''
     DefaultRSAPrivateKeyKey DefaultRSAPublicKeyKey (\<lambda>priv pub. WithRSASHA256 (Some priv) (Some pub))"

definition NewRSAPSSService :: "('t, 'm) jwt_env_scheme \<Rightarrow> 't Validator option option \<Rightarrow> 't \<Rightarrow> (err + 't Service) \<times> 't" where
  "NewRSAPSSService E = service_from_keys E (parseRSAPrivateKeyFromConfig E) ''rsa'' (parseRSAPublicKeyFromConfig E) ''rsa''
     DefaultRSAPrivateKeyKey DefaultRSAPublicKeyKey (\<lambda>priv pub. WithRSAPSSSHA256 (Some priv) (Some pub))"

definition NewEd25519Service :: "('t, 'm) jwt_env_scheme \<Rightarrow> 't Validator option option \<Rightarrow> 't \<Rightarrow> (err + 't Service) \<times> 't" where
  "NewEd25519Service E = service_from_keys E (parseEd25519PrivateKeyFromConfig E) ''ed25519'' (parseEd25519PublicKeyFromConfig E) ''ed25519''
     DefaultEdDSAPrivateKeyKey DefaultEdDSAPublicKeyKey WithEd25519"

definition NewHMACService :: "('t, 'm) jwt_env_scheme \<Rightarrow> 't Validator option option \<Rightarrow> 't \<Rightarrow> (err + 't Service) \<times> 't" where
  "NewHMACService E validator t = (service_with E (WithHMACSHA256 (viper_GetString E DefaultHMACSecretKey t)) validator, t)"

definition NewConfiguredService :: "('t, 'm) jwt_env_scheme \<Rightarrow> 't Validator option option \<Rightarrow> 't \<Rightarrow> (err + 't Service) \<times> 't" where
  "NewConfiguredService E validator t =
     (let algorithm = ToUpper (TrimSpace (viper_GetString E DefaultAlgorithmKey t)) in
      if algorithm = [] then (Inl ErrMissingAlgorithm, t)
      else if algorithm = ''HS256'' then NewHMACService E validator t
      else if algorithm = ''RS256'' then NewRSAService E validator t
      else if algorithm = ''PS256'' then NewRSAPSSService E validator t
      else if algorithm = ''EDDSA'' then NewEd25519Service E validator t
      else (Inl (WrapErr ''%w: %s'' [ErrUnsupportedAlg]), t))"

end
