(* ===== verification/Jwt_Guarantees.thy ===== *)
theory Jwt_Guarantees
  imports Jwt
begin

text \<open>
  What tokens guarantee: a created token is accepted by the service that made it, an accepted token has the signature, the
  algorithm and the times the service asks for, and what the lenient Base64 decoder lets through besides.
\<close>

subsection \<open>Segments\<close>

lemma b64_encode_alphabet: "b64_alphabet al \<Longrightarrow> c \<in> set (b64_encode al False s) \<Longrightarrow> c \<in> set al"
proof (induction al False s rule: b64_encode.induct)
  case (4 al a b c rest)
  then show ?case by (auto simp: b64_alphabet_def byte_bounds)
qed (auto simp: b64_alphabet_def byte_bounds)

lemma segment_no_dot [simp]: "CHR ''.'' \<notin> set (encodeSegment v)"
proof
  assume "CHR ''.'' \<in> set (encodeSegment v)"
  then have "CHR ''.'' \<in> set url_alphabet"
    unfolding encodeSegment_def rawurl_EncodeToString_def by (rule b64_encode_alphabet[OF alphabets(2)])
  then show False by (simp add: url_alphabet_def)
qed

lemma segment_roundtrip [simp]: "decodeSegment (encodeSegment v) = Inr v"
  by (simp add: decodeSegment_def encodeSegment_def rawurl64.decode_encode)

lemma Split_three:
  assumes "CHR ''.'' \<notin> set a" "CHR ''.'' \<notin> set b" "CHR ''.'' \<notin> set c"
  shows "Split (CHR ''.'') (a @ ''.'' @ b @ ''.'' @ c) = [a, b, c]"
  using assms by (simp add: Split_append Split_notin)

lemma Split_three_eq:
  assumes "Split (CHR ''.'') token = [a, b, c]"
  shows "token = a @ ''.'' @ b @ ''.'' @ c" "CHR ''.'' \<notin> set a" "CHR ''.'' \<notin> set b" "CHR ''.'' \<notin> set c"
  using assms Join_Split[of "CHR ''.''" token] Split_no_sep[of _ "CHR ''.''" token] by auto

lemma parse_header_json:
  assumes "utf8_Valid typ" "utf8_Valid alg"
  shows "parse_header (encodeSegment (header_json \<lparr>hd_Type = typ, hd_Algorithm = alg\<rparr>)) = Inr \<lparr>hd_Type = typ, hd_Algorithm = alg\<rparr>"
proof -
  have "utf8_Valid ''typ''" "utf8_Valid ''alg''" by (simp_all add: utf8_Valid_ascii ascii_only_def)
  then have "json_parse (string_object [(''typ'', typ), (''alg'', alg)]) = Some (JObject (string_members [(''typ'', typ), (''alg'', alg)]))"
    using assms by (intro string_object_parse) simp
  then show ?thesis
    by (simp add: parse_header_def header_json_def string_object_def string_members_def json_Unmarshal_def decode_struct_def
        header_fields_def lookup_field_def string_field_def)
qed

subsection \<open>What parsing accepts\<close>

lemma parseAndValidate_Inr:
  assumes "parseAndValidate E (Some s) ctx token t = Some (Inr tok, u)"
  obtains st p0 p1 p2 h sig where "strategy s = Some st" "Split (CHR ''.'') token = [p0, p1, p2]" "parse_header p0 = Inr h"
    "hd_Algorithm h = Algorithm st" "decodeSegment p1 = Inr (tk_Claims tok)" "decodeSegment p2 = Inr sig"
    "verifyStrategy E (Some ctx) st (p0 @ ''.'' @ p1) sig t = Some (Inr (), u)"
    "validateRegisteredTimeClaims E s (tk_Claims tok) u = None"
    "tok = \<lparr>tk_Raw = token, tk_Header = h, tk_Claims = tk_Claims tok, tk_Signature = p2\<rparr>"
  using assms by (auto simp: parseAndValidate_def seq_Inr_iff split: option.splits list.splits if_splits)

lemma parseAndValidate_intro:
  assumes "strategy s = Some st" "Split (CHR ''.'') token = [p0, p1, p2]" "parse_header p0 = Inr h"
    "hd_Algorithm h = Algorithm st" "decodeSegment p1 = Inr claims" "decodeSegment p2 = Inr sig"
    "verifyStrategy E (Some ctx) st (p0 @ ''.'' @ p1) sig t = Some (Inr (), u)"
    "validateRegisteredTimeClaims E s claims u = None"
  shows "parseAndValidate E (Some s) ctx token t
    = Some (Inr \<lparr>tk_Raw = token, tk_Header = h, tk_Claims = claims, tk_Signature = p2\<rparr>, u)"
  using assms by (simp add: parseAndValidate_def)

lemma Decode_Inr:
  assumes "Decode E (Some s) ctx token destination perCall t = Some (Inr tok, u)"
  obtains t1 where "parseAndValidate E (Some s) (contextFor E (Some s) ctx) token t = Some (Inr tok, t1)"
  using assms by (auto simp: Decode_def Let_def seq_Inr_iff split: option.splits)

lemma run_validators_not_nil: "run_validators c tok vs w = Some (Inr (), x) \<Longrightarrow> None \<notin> set vs"
proof (induction vs arbitrary: w)
  case (Cons v vs)
  then show ?case by (cases v) (auto simp: seq_Inr_iff)
qed simp

lemma hmac_Verify_Inr:
  "hmac_VerifyContext C secret ctx m sig t = Some (Inr (), u) \<longleftrightarrow>
     ctx_Err (or_background ctx) = None \<and> secret \<noteq> [] \<and> sig = hmac_SHA256 C secret m \<and> u = t"
  by (auto simp: hmac_VerifyContext_def hmac_SignContext_def split: option.splits)

subsection \<open>Signers\<close>

text \<open>
  The contract between a signing strategy and the service: what it signs under one context it accepts under any context that
  is usable, and verifying leaves the world alone.
\<close>

locale token_signer =
  fixes sign :: "go_ctx \<Rightarrow> string \<Rightarrow> 't \<Rightarrow> ('t, string) run"
    and verify :: "go_ctx \<Rightarrow> string \<Rightarrow> string \<Rightarrow> 't \<Rightarrow> ('t, unit) run"
    and usable :: "go_ctx \<Rightarrow> bool"
  assumes verify_sign: "sign c m t = Some (Inr sig, u) \<Longrightarrow> usable c' \<Longrightarrow> verify c' m sig t' = Some (Inr (), t')"
begin

lemma created_token_parses:
  assumes "strategy s = Some st" "utf8_Valid (Algorithm st)"
    and "\<And>c m t. signStrategy E (Some c) st m t = sign c m t" "\<And>c m g t. verifyStrategy E (Some c) st m g t = verify c m g t"
    and "CreateWithContext E (Some s) ctx (Inr claims) t = Some (Inr token, u)"
    and "usable c'" "validateRegisteredTimeClaims E s claims t' = None"
  shows "\<exists>p2. parseAndValidate E (Some s) c' token t'
    = Some (Inr \<lparr>tk_Raw = token, tk_Header = \<lparr>hd_Type = ''JWT'', hd_Algorithm = Algorithm st\<rparr>, tk_Claims = claims, tk_Signature = p2\<rparr>, t')"
proof -
  let ?h = "encodeSegment (header_json \<lparr>hd_Type = ''JWT'', hd_Algorithm = Algorithm st\<rparr>)"
  obtain sig where sig: "sign (contextFor E (Some s) ctx) (?h @ ''.'' @ encodeSegment claims) t = Some (Inr sig, u)"
    "token = ?h @ ''.'' @ encodeSegment claims @ ''.'' @ encodeSegment sig"
    using assms(1,3,5) by (auto simp: CreateWithContext_def Let_def seq_Inr_iff)
  have "utf8_Valid ''JWT''" by (simp add: utf8_Valid_ascii ascii_only_def)
  note h = parse_header_json[OF this assms(2)]
  have sp: "Split (CHR ''.'') token = [?h, encodeSegment claims, encodeSegment sig]"
    unfolding sig(2) by (rule Split_three) simp_all
  have v: "verifyStrategy E (Some c') st (?h @ ''.'' @ encodeSegment claims) sig t' = Some (Inr (), t')"
    unfolding assms(4) by (rule verify_sign[OF sig(1) assms(6)])
  show ?thesis
    using parseAndValidate_intro[OF assms(1) sp h _ segment_roundtrip segment_roundtrip v assms(7)] by simp
qed

end

text \<open>
  What the documentation of \<^verbatim>\<open>crypto/rsa\<close> and \<^verbatim>\<open>crypto/x509\<close> promises: a signature verifies under the public half of the key, and
  RSA keys are marshalled to forms the parsers read back.
\<close>

definition rsa_law :: "('t, 'm) crypto_scheme \<Rightarrow> bool" where
  "rsa_law C \<longleftrightarrow>
     (\<forall>k d sig. rsa_SignPKCS1v15 C k d = Inr sig \<longrightarrow> rsa_VerifyPKCS1v15 C (rsa_Public k) d sig = None)
   \<and> (\<forall>k d t sig u. rsa_SignPSS C k d t = (Inr sig, u) \<longrightarrow> rsa_VerifyPSS C (rsa_Public k) d sig = None)
   \<and> (\<forall>k der. MarshalPKCS8PrivateKey C (PrivRSA k) = Inr der \<longrightarrow> ParsePKCS8PrivateKey C der = Inr (PrivRSA k))
   \<and> (\<forall>p. \<exists>der. MarshalPKIXPublicKey C (PubRSA p) = Inr der \<and> ParsePKIXPublicKey C der = Inr (PubRSA p))"

definition ed25519_pair :: "('t, 'm) crypto_scheme \<Rightarrow> string \<Rightarrow> string \<Rightarrow> bool" where
  "ed25519_pair C priv pub \<longleftrightarrow> ed25519_law C \<and> pub \<noteq> [] \<and> (\<exists>der. MarshalPKIXPublicKey C (PubEd25519 pub) = Inr der)
     \<and> (\<exists>t u. ed25519_GenerateKey C t = (Inr (pub, priv), u))"

lemma rsa_lawD:
  assumes "rsa_law C"
  shows "rsa_SignPKCS1v15 C k d = Inr sig \<Longrightarrow> rsa_VerifyPKCS1v15 C (rsa_Public k) d sig = None"
    "rsa_SignPSS C k d t = (Inr sig, u) \<Longrightarrow> rsa_VerifyPSS C (rsa_Public k) d sig = None"
    "MarshalPKCS8PrivateKey C (PrivRSA k) = Inr der \<Longrightarrow> ParseRSAPrivateKeyFromBase64 C (std_EncodeToString der) = Inr k"
    "\<exists>b64. mustMarshalPublic C (PubRSA p) = Some b64 \<and> ParseRSAPublicKeyFromBase64 C b64 = Inr p"
proof -
  show "rsa_SignPKCS1v15 C k d = Inr sig \<Longrightarrow> rsa_VerifyPKCS1v15 C (rsa_Public k) d sig = None"
    "rsa_SignPSS C k d t = (Inr sig, u) \<Longrightarrow> rsa_VerifyPSS C (rsa_Public k) d sig = None"
    using assms unfolding rsa_law_def by blast+
  show "MarshalPKCS8PrivateKey C (PrivRSA k) = Inr der \<Longrightarrow> ParseRSAPrivateKeyFromBase64 C (std_EncodeToString der) = Inr k"
    using assms by (auto simp: rsa_law_def ParseRSAPrivateKeyFromBase64_def decode_private_def parse_private_def rsa_private_of_def)
  obtain der where "MarshalPKIXPublicKey C (PubRSA p) = Inr der" "ParsePKIXPublicKey C der = Inr (PubRSA p)"
    using assms unfolding rsa_law_def by blast
  then show "\<exists>b64. mustMarshalPublic C (PubRSA p) = Some b64 \<and> ParseRSAPublicKeyFromBase64 C b64 = Inr p"
    by (auto simp: mustMarshalPublic_def ParseRSAPublicKeyFromBase64_def decode_public_def parse_public_def rsa_public_of_def)
qed

lemma decoded_Inr_iff: "decoded r = Some (Inr x, u) \<longleftrightarrow> (\<exists>b. r = Some (Inr b, u) \<and> decode_std b = Inr x)"
  by (auto simp: decoded_def seq_Inr_iff)

lemma mustMarshalPrivate_Some: "mustMarshalPrivate C k = Some b \<longleftrightarrow> (\<exists>der. MarshalPKCS8PrivateKey C k = Inr der \<and> b = std_EncodeToString der)"
  by (auto simp: mustMarshalPrivate_def split: sum.splits)

interpretation hs256: token_signer "\<lambda>c. hmac_SignContext C secret (Some c)" "\<lambda>c. hmac_VerifyContext C secret (Some c)" "\<lambda>c. ctx_Err c = None"
  for C secret
  by unfold_locales (auto simp: hmac_VerifyContext_def hmac_SignContext_def or_background_def split: option.splits if_splits)

interpretation rs256: token_signer "\<lambda>c. rsa_SignContext C (Some k) (Some c)" "\<lambda>c. rsa_VerifyContext C (Some (rsa_Public k)) (Some c)"
  "\<lambda>c. live (Some c) \<and> rsa_law C" for C k
proof
  fix c m t sig u c' t'
  assume sign: "rsa_SignContext C (Some k) (Some c) m t = Some (Inr sig, u)" and use: "live (Some c') \<and> rsa_law C"
  note law = rsa_lawD[OF conjunct2[OF use]]
  obtain der where "MarshalPKCS8PrivateKey C (PrivRSA k) = Inr der" "rsa_SignPKCS1v15 C k (sha256_Sum256 C m) = Inr sig"
    using sign by (auto simp: rsa_SignContext_def decoded_Inr_iff or_panic_def mustMarshalPrivate_Some local_Sign_RSA_PKCS1v15_SHA256_def
        runWithContext_Inr pure_def law(3) sum_bind_Inr_iff)
  moreover obtain b64 where "mustMarshalPublic C (PubRSA (rsa_Public k)) = Some b64" "ParseRSAPublicKeyFromBase64 C b64 = Inr (rsa_Public k)"
    using law(4) by blast
  ultimately show "rsa_VerifyContext C (Some (rsa_Public k)) (Some c') m sig t' = Some (Inr (), t')"
    using use law(1) by (simp add: rsa_VerifyContext_def or_panic_def local_Verify_RSA_PKCS1v15_SHA256_def pure_def verdict_def)
qed

interpretation ps256: token_signer "\<lambda>c. pss_SignContext C (Some k) (Some c)" "\<lambda>c. pss_VerifyContext C (Some (rsa_Public k)) (Some c)"
  "\<lambda>c. live (Some c) \<and> rsa_law C" for C k
proof
  fix c m t sig u c' t'
  assume sign: "pss_SignContext C (Some k) (Some c) m t = Some (Inr sig, u)" and use: "live (Some c') \<and> rsa_law C"
  note law = rsa_lawD[OF conjunct2[OF use]]
  obtain der where "MarshalPKCS8PrivateKey C (PrivRSA k) = Inr der" "rsa_SignPSS C k (sha256_Sum256 C m) t = (Inr sig, u)"
    using sign by (auto simp: pss_SignContext_def decoded_Inr_iff or_panic_def mustMarshalPrivate_Some local_SignRSAPSS_def
        runWithContext_Inr law(3) attempt_Inr_iff)
  moreover obtain b64 where "mustMarshalPublic C (PubRSA (rsa_Public k)) = Some b64" "ParseRSAPublicKeyFromBase64 C b64 = Inr (rsa_Public k)"
    using law(4) by blast
  ultimately show "pss_VerifyContext C (Some (rsa_Public k)) (Some c') m sig t' = Some (Inr (), t')"
    using use law(2) by (simp add: pss_VerifyContext_def or_panic_def local_VerifyRSAPSS_def pure_def verdict_def)
qed

interpretation eddsa: token_signer "\<lambda>c. ed25519_SignContext C priv (Some c)" "\<lambda>c. ed25519_VerifyContext C pub (Some c)"
  "\<lambda>c. live (Some c) \<and> ed25519_pair C priv pub" for C priv pub
proof
  fix c m t sig u c' t'
  assume sign: "ed25519_SignContext C priv (Some c) m t = Some (Inr sig, u)" and use: "live (Some c') \<and> ed25519_pair C priv pub"
  then have law: "ed25519_law C" and pub: "pub \<noteq> []" by (simp_all add: ed25519_pair_def)
  obtain der where der: "MarshalPKIXPublicKey C (PubEd25519 pub) = Inr der" using use by (auto simp: ed25519_pair_def)
  have "ParsePKCS8PrivateKey C x = Inr (PrivEd25519 priv)" if "MarshalPKCS8PrivateKey C (PrivEd25519 priv) = Inr x" for x
    using law that by (simp add: ed25519_law_def)
  then have "sig = ed25519_Sign C priv m"
    using sign by (auto simp: ed25519_SignContext_def decoded_Inr_iff or_panic_def mustMarshalPrivate_Some local_SignEd25519_def
        runWithContext_Inr pure_def sum_bind_Inr_iff ParseEd25519PrivateKeyFromBase64_def decode_private_def parse_private_def
        ed25519_private_of_def split: if_splits)
  moreover have "ed25519_Verify C pub m (ed25519_Sign C priv m)"
    using use law unfolding ed25519_pair_def ed25519_law_def by blast
  moreover have "ParsePKIXPublicKey C der = Inr (PubEd25519 pub)" using law der by (simp add: ed25519_law_def)
  ultimately show "ed25519_VerifyContext C pub (Some c') m sig t' = Some (Inr (), t')"
    using use der pub by (simp add: ed25519_VerifyContext_def or_panic_def mustMarshalPublic_def local_VerifyEd25519_def pure_def
        ParseEd25519PublicKeyFromBase64_def decode_public_def parse_public_def ed25519_public_of_def)
qed

text \<open>The shipped strategies with keys that belong together.\<close>

definition key_pair :: "('t, 'm) crypto_scheme \<Rightarrow> 't Strategy \<Rightarrow> bool" where
  "key_pair C st = (case st of hmacSHA256Strategy _ \<Rightarrow> True
     | rsaSHA256Strategy (Some k) (Some p) \<Rightarrow> p = rsa_Public k \<and> rsa_law C
     | rsaPSSSHA256Strategy (Some k) (Some p) \<Rightarrow> p = rsa_Public k \<and> rsa_law C
     | ed25519Strategy priv pub \<Rightarrow> ed25519_pair C priv pub
     | _ \<Rightarrow> False)"

lemma shipped_token_parses:
  assumes "strategy s = Some st" "key_pair E st"
    and "CreateWithContext E (Some s) ctx (Inr claims) t = Some (Inr token, u)"
    and "live (Some c')" "validateRegisteredTimeClaims E s claims t' = None"
  shows "\<exists>p2. parseAndValidate E (Some s) c' token t'
    = Some (Inr \<lparr>tk_Raw = token, tk_Header = \<lparr>hd_Type = ''JWT'', hd_Algorithm = Algorithm st\<rparr>, tk_Claims = claims, tk_Signature = p2\<rparr>, t')"
proof -
  have u: "utf8_Valid ''HS256''" "utf8_Valid ''RS256''" "utf8_Valid ''PS256''" "utf8_Valid ''EdDSA''" by (simp_all add: utf8_Valid_ascii ascii_only_def)
  note rest = assms(3) _ assms(5)
  consider secret where "st = hmacSHA256Strategy secret"
    | k where "st = rsaSHA256Strategy (Some k) (Some (rsa_Public k))" "rsa_law E"
    | k where "st = rsaPSSSHA256Strategy (Some k) (Some (rsa_Public k))" "rsa_law E"
    | priv pub where "st = ed25519Strategy priv pub" "ed25519_pair E priv pub"
    using assms(2) by (auto simp: key_pair_def split: Strategy.splits option.splits)
  then show ?thesis
  proof cases
    case 1
    then show ?thesis using u assms(4)
      by (intro hs256.created_token_parses[OF assms(1) _ _ _ rest]) (auto simp: Algorithm_def signStrategy_def verifyStrategy_def live_def)
  next
    case 2
    then show ?thesis using u assms(4)
      by (intro rs256.created_token_parses[OF assms(1) _ _ _ rest]) (auto simp: Algorithm_def signStrategy_def verifyStrategy_def)
  next
    case 3
    then show ?thesis using u assms(4)
      by (intro ps256.created_token_parses[OF assms(1) _ _ _ rest]) (auto simp: Algorithm_def signStrategy_def verifyStrategy_def)
  next
    case 4
    then show ?thesis using u assms(4)
      by (intro eddsa.created_token_parses[OF assms(1) _ _ _ rest]) (auto simp: Algorithm_def signStrategy_def verifyStrategy_def)
  qed
qed

subsection \<open>Times\<close>

lemma round_sum_zero: "float64 (0 / 10 ^ 9) = 0" by simp

lemma whole_instant: "\<bar>n\<bar> \<le> 2 ^ 53 \<Longrightarrow> nowSeconds \<lparr>unix = n, nanosecond = 0\<rparr> = of_int n"
  by (simp add: nowSeconds_def float64_of_int)

lemma whole_Seconds: "\<bar>k\<bar> \<le> 2 ^ 53 \<Longrightarrow> Seconds (10 ^ 9 * k) = of_int k"
  by (simp add: Seconds_def float64_of_int)

lemma now_at_least:
  assumes "\<bar>unix i\<bar> \<le> 2 ^ 53" "0 \<le> nanosecond i"
  shows "of_int (unix i) \<le> nowSeconds i"
proof -
  have "0 \<le> float64 (of_int (nanosecond i) / 10 ^ 9)" using float64_mono[of 0 "of_int (nanosecond i) / 10 ^ 9"] assms(2) by simp
  then have "float64 (of_int (unix i)) \<le> float64 (of_int (unix i) + float64 (of_int (nanosecond i) / 10 ^ 9))"
    by (intro float64_mono) simp
  then show ?thesis using assms(1) by (simp add: nowSeconds_def float64_of_int)
qed

text \<open>The text of claims with an expiration and a start in whole seconds.\<close>

definition window_claims :: "nat \<Rightarrow> nat \<Rightarrow> string" where
  "window_claims e n = json_object [(''exp'', decimal e), (''nbf'', decimal n)]"

lemma window_parse:
  "json_parse (window_claims e n) = Some (JObject [(''exp'', decimal e, JNumber (decimal e)), (''nbf'', decimal n, JNumber (decimal n))])"
proof -
  have "utf8_Valid ''exp''" "utf8_Valid ''nbf''" by (simp_all add: utf8_Valid_ascii ascii_only_def)
  then show ?thesis
    using json_parse_object[of "[(''exp'', decimal e, JNumber (decimal e)), (''nbf'', decimal n, JNumber (decimal n))]" "Suc 0"]
    by (simp add: window_claims_def reads_decimal)
qed

lemma TrimSpace_decimal: "TrimSpace (decimal n) = decimal n"
proof (rule TrimSpace_graphic)
  show "graphic (hd (decimal n))" "graphic (last (decimal n))"
    using decimal_digits[of "hd (decimal n)" n] decimal_digits[of "last (decimal n)" n] by (auto simp: graphic_def is_digit_def)
qed simp

lemma numericDate_decimal: "n \<le> 2 ^ 53 \<Longrightarrow> numericDateClaim (decimal n) e = Inr (Some (of_nat n))"
  using decimal_digits[of "hd (decimal n)" n] by (simp add: numericDateClaim_def Let_def TrimSpace_decimal ParseFloat_decimal)

lemma window_read:
  assumes "e \<le> 2 ^ 53" "n \<le> 2 ^ 53"
  shows "TrimSpace (window_claims e n) = window_claims e n" "window_claims e n \<noteq> []" "hd (window_claims e n) = CHR ''{''"
    "json_Unmarshal time_fields (window_claims e n) \<lparr>Expiration = [], NotBefore = []\<rparr> = Inr \<lparr>Expiration = decimal e, NotBefore = decimal n\<rparr>"
proof -
  show "TrimSpace (window_claims e n) = window_claims e n"
    by (rule TrimSpace_graphic) (simp_all add: window_claims_def json_object_def graphic_def)
  show "json_Unmarshal time_fields (window_claims e n) \<lparr>Expiration = [], NotBefore = []\<rparr> = Inr \<lparr>Expiration = decimal e, NotBefore = decimal n\<rparr>"
    by (simp add: json_Unmarshal_def window_parse decode_struct_def time_fields_def lookup_field_def raw_field_def)
qed (simp_all add: window_claims_def json_object_def)

subsection \<open>Newlines\<close>

lemma decodeSegment_newline: "decodeSegment (p @ [CHR 0x0A]) = decodeSegment p"
  by (simp add: decodeSegment_def rawurl_DecodeString_def b64_decode_def is_newline_def)

subsection \<open>Configured services\<close>

lemma service_with_Inr:
  assumes "service_with E opt validator = Inr s" and "\<And>z z'. opt z = Inr z' \<Longrightarrow> P \<and> z' = z\<lparr>strategy := Some st\<rparr>"
  shows "P \<and> strategy s = Some st \<and> clock s = Some (time_Now E) \<and> leeway s = 0 \<and> \<not> contextTimeoutOn s
    \<and> validators s = (case validator of None \<Rightarrow> [] | Some v \<Rightarrow> [v]) \<and> None \<notin> set (validators s)"
proof -
  let ?z = "\<lparr>strategy = None, validators = [], clock = Some (time_Now E), leeway = 0, contextTimeout = 0, contextTimeoutOn = False\<rparr>"
  obtain z' where "opt ?z = Inr z'" "sum_bind (Inr z') (\<lambda>z'. case validator of None \<Rightarrow> Inr z' | Some v \<Rightarrow> WithValidator v z') = Inr s"
    using assms(1) by (auto simp: service_with_def jwt_New_def Let_def sum_bind_Inr_iff split: option.splits if_splits)
  moreover from assms(2)[OF this(1)] have "P" "z' = ?z\<lparr>strategy := Some st\<rparr>" by simp_all
  ultimately show ?thesis by (auto simp: WithValidator_def split: option.splits if_splits)
qed

lemma service_from_keys_Inr:
  assumes "fst (service_from_keys E f a g b l1 l2 opt validator t) = Inr s"
  shows "\<exists>priv pub. service_with E (opt priv pub) validator = Inr s"
  using assms by (auto simp: service_from_keys_def split: prod.splits sum.splits)

subsection \<open>An environment for the witnesses\<close>

definition toy_env :: "nat jwt_env" where
  "toy_env = crypto.extend (toy_crypto\<lparr>hmac_SHA256 := (\<lambda>k m. take 4 k @ take 4 m)\<rparr>)
     (jwt_env.fields (\<lambda>key t. if key = DefaultAlgorithmKey then '' hs256 '' else if key = DefaultHMACSecretKey then ''secret'' else [])
       (\<lambda>key t. False) (\<lambda>key v t. t) (\<lambda>key v t. t) (\<lambda>p t. Some (Message ''no such file'')) (\<lambda>t. \<lparr>unix = int (min t 9999), nanosecond = 0\<rparr>) (\<lambda>c d. c))"

definition toy_service :: "nat Service" where
  "toy_service = \<lparr>strategy = Some (hmacSHA256Strategy ''secret''), validators = [], clock = Some (time_Now toy_env), leeway = 0,
     contextTimeout = 0, contextTimeoutOn = False\<rparr>"

lemma toy_facts:
  "strategy toy_service = Some (hmacSHA256Strategy ''secret'')" "key_pair toy_env (hmacSHA256Strategy ''secret'')"
  "live (Some (contextFor toy_env (Some toy_service) None))"
  "validateRegisteredTimeClaims toy_env toy_service (window_claims 2000 1000) 1500 = None"
proof -
  have clk: "time_Now toy_env 1500 = \<lparr>unix = 1500, nanosecond = 0\<rparr>" by (simp add: toy_env_def crypto.defs jwt_env.defs)
  show "validateRegisteredTimeClaims toy_env toy_service (window_claims 2000 1000) 1500 = None"
    using window_read[of 2000 1000] whole_instant[of 1500] whole_Seconds[of 0] float64_of_int[of 2000] float64_of_int[of 1500]
    by (simp add: validateRegisteredTimeClaims_def window_parse numericDate_decimal toy_service_def clk)
qed (simp_all add: toy_service_def key_pair_def contextFor_def or_background_def live_def context_Background_def)

lemma toy_create: "\<exists>token. CreateWithContext toy_env (Some toy_service) None (Inr (window_claims 2000 1000)) 5 = Some (Inr token, 5)"
  by (simp add: CreateWithContext_def toy_service_def signStrategy_def hmac_SignContext_def contextFor_def or_background_def
      context_Background_def Let_def)

text \<open>A token of the service, accepted at the time 1500.\<close>

lemma toy_token:
  "\<exists>token tok. parseAndValidate toy_env (Some toy_service) (contextFor toy_env (Some toy_service) None) token 1500 = Some (Inr tok, 1500)
    \<and> Decode toy_env (Some toy_service) None token (Some (\<lambda>c t. (Inr (), t))) [] 1500 = Some (Inr tok, 1500)
    \<and> tk_Claims tok = window_claims 2000 1000"
proof -
  obtain token where "CreateWithContext toy_env (Some toy_service) None (Inr (window_claims 2000 1000)) 5 = Some (Inr token, 5)"
    using toy_create by blast
  from shipped_token_parses[OF toy_facts(1,2) this toy_facts(3,4)]
  obtain tok where "parseAndValidate toy_env (Some toy_service) (contextFor toy_env (Some toy_service) None) token 1500 = Some (Inr tok, 1500)"
    "tk_Claims tok = window_claims 2000 1000" by auto
  moreover from this(1) have "Decode toy_env (Some toy_service) None token (Some (\<lambda>c t. (Inr (), t))) [] 1500 = Some (Inr tok, 1500)"
    by (simp add: Decode_def Let_def toy_service_def)
  ultimately show ?thesis by blast
qed

subsection \<open>Properties\<close>



text \<open>What an accepted HS256 token is.\<close>

lemma HS256_Decode:
  assumes "strategy s = Some (hmacSHA256Strategy secret)"
    and "Decode E (Some s) ctx token destination perCall t = Some (Inr tok, u)"
  shows "\<exists>p0 p1 p2. token = p0 @ ''.'' @ p1 @ ''.'' @ p2 \<and> CHR ''.'' \<notin> set p0 \<and> CHR ''.'' \<notin> set p1 \<and> CHR ''.'' \<notin> set p2
    \<and> secret \<noteq> [] \<and> decodeSegment p2 = Inr (hmac_SHA256 E secret (p0 @ ''.'' @ p1))
    \<and> parse_header p0 = Inr (tk_Header tok) \<and> hd_Algorithm (tk_Header tok) = ''HS256''
    \<and> decodeSegment p1 = Inr (tk_Claims tok) \<and> tk_Raw tok = token \<and> destination \<noteq> None \<and> None \<notin> set (validators s @ perCall)"
proof -
  obtain t1 where p: "parseAndValidate E (Some s) (contextFor E (Some s) ctx) token t = Some (Inr tok, t1)"
    using assms(2) by (rule Decode_Inr)
  have d: "destination \<noteq> None" using assms(2) by (cases destination) (auto simp: Decode_def)
  obtain c w x where "run_validators c tok (validators s @ perCall) w = Some (Inr (), x)"
    using assms(2) p by (auto simp: Decode_def Let_def seq_Inr_iff split: option.splits)
  then have v: "None \<notin> set (validators s @ perCall)" by (rule run_validators_not_nil)
  from p show ?thesis
  proof (rule parseAndValidate_Inr)
    fix st p0 p1 p2 h sig
    assume *: "strategy s = Some st" "Split (CHR ''.'') token = [p0, p1, p2]" "parse_header p0 = Inr h"
      "hd_Algorithm h = Algorithm st" "decodeSegment p1 = Inr (tk_Claims tok)" "decodeSegment p2 = Inr sig"
      "verifyStrategy E (Some (contextFor E (Some s) ctx)) st (p0 @ ''.'' @ p1) sig t = Some (Inr (), t1)"
      "tok = \<lparr>tk_Raw = token, tk_Header = h, tk_Claims = tk_Claims tok, tk_Signature = p2\<rparr>"
    then have "st = hmacSHA256Strategy secret" using assms(1) by simp
    with * have "sig = hmac_SHA256 E secret (p0 @ ''.'' @ p1)" "secret \<noteq> []" "hd_Algorithm h = ''HS256''"
      by (simp_all add: verifyStrategy_def hmac_Verify_Inr Algorithm_def)
    moreover have "tk_Header tok = h" "tk_Raw tok = token" using *(8) by (metis Token.select_convs(2), metis Token.select_convs(1))
    ultimately show ?thesis using Split_three_eq[OF *(2)] * d v by metis
  qed
qed





text \<open>
  C28: The window of a token in whole seconds, exactly: it opens at \<open>nbf\<close> less the leeway, that second included, and closes at
  \<open>exp\<close> plus the leeway, that second excluded; the floating point arithmetic does not move the ends.\<close>
theorem validity_window:
  assumes "e + k \<le> 2 ^ 53" "n \<le> 2 ^ 53" "now + k \<le> 2 ^ 53"
    and "leeway s = 10 ^ 9 * int k" "clock s = Some (\<lambda>w. \<lparr>unix = int now, nanosecond = 0\<rparr>)"
  shows "validateRegisteredTimeClaims E s (window_claims e n) t
    = (if e + k \<le> now then Some ErrTokenExpired else if now + k < n then Some ErrTokenNotYetValid else None)"
proof -
  have "nowSeconds \<lparr>unix = int now, nanosecond = 0\<rparr> = of_nat now" "Seconds (leeway s) = of_nat k"
    using whole_instant[of "int now"] whole_Seconds[of "int k"] assms by simp_all
  moreover have "float64 (of_nat e + of_nat k) = of_nat (e + k)" "float64 (of_nat now + of_nat k) = of_nat (now + k)"
    using float64_of_int[of "int (e + k)"] float64_of_int[of "int (now + k)"] assms by simp_all
  moreover have "e \<le> 2 ^ 53" using assms(1) by simp
  moreover have "(of_nat (e + k) \<le> (of_nat now :: rat)) = (e + k \<le> now)" "((of_nat (now + k) :: rat) < of_nat n) = (now + k < n)"
    by (simp_all only: of_nat_le_iff of_nat_less_iff)
  ultimately show ?thesis
    using window_read[of e n] assms(2,5) by (simp add: validateRegisteredTimeClaims_def window_parse numericDate_decimal)
qed

theorem validity_window_witness:
  "validateRegisteredTimeClaims toy_env (toy_service\<lparr>clock := Some (\<lambda>w. \<lparr>unix = int 2000, nanosecond = 0\<rparr>)\<rparr>) (window_claims 2000 1000) 0
     = Some ErrTokenExpired"
  using validity_window[of 2000 0 1000 2000 "toy_service\<lparr>clock := Some (\<lambda>w. \<lparr>unix = int 2000, nanosecond = 0\<rparr>)\<rparr>" toy_env 0]
  by (simp add: toy_service_def)

text \<open>
  The text of a token is not unique: the Base64 decoder skips line breaks, so a line feed after the signature of any
  accepted token gives another text that is accepted with the same header and claims, and needs no key.\<close>
theorem newline_accepted:
  assumes "parseAndValidate E (Some s) ctx token t = Some (Inr tok, u)"
  shows "token @ [CHR 0x0A] \<noteq> token \<and> parseAndValidate E (Some s) ctx (token @ [CHR 0x0A]) t
    = Some (Inr (tok\<lparr>tk_Raw := token @ [CHR 0x0A], tk_Signature := tk_Signature tok @ [CHR 0x0A]\<rparr>), u)"
  using assms
proof (rule parseAndValidate_Inr)
  fix st p0 p1 p2 h sig
  assume *: "strategy s = Some st" "Split (CHR ''.'') token = [p0, p1, p2]" "parse_header p0 = Inr h"
    "hd_Algorithm h = Algorithm st" "decodeSegment p1 = Inr (tk_Claims tok)" "decodeSegment p2 = Inr sig"
    "verifyStrategy E (Some ctx) st (p0 @ ''.'' @ p1) sig t = Some (Inr (), u)"
    "validateRegisteredTimeClaims E s (tk_Claims tok) u = None"
    "tok = \<lparr>tk_Raw = token, tk_Header = h, tk_Claims = tk_Claims tok, tk_Signature = p2\<rparr>"
  note sp = Split_three_eq[OF *(2)]
  have "Split (CHR ''.'') (token @ [CHR 0x0A]) = [p0, p1, p2 @ [CHR 0x0A]]"
    using Split_three[of p0 p1 "p2 @ [CHR 0x0A]"] sp by simp
  from parseAndValidate_intro[OF *(1) this *(3,4,5) trans[OF decodeSegment_newline *(6)] *(7,8)]
  have p: "parseAndValidate E (Some s) ctx (token @ [CHR 0x0A]) t
    = Some (Inr \<lparr>tk_Raw = token @ [CHR 0x0A], tk_Header = h, tk_Claims = tk_Claims tok, tk_Signature = p2 @ [CHR 0x0A]\<rparr>, u)" .
  obtain a b c d where "tok = \<lparr>tk_Raw = a, tk_Header = b, tk_Claims = c, tk_Signature = d\<rparr>" by (cases tok)
  with *(9) p show ?thesis by simp
qed

theorem newline_accepted_witness:
  "\<exists>token tok. parseAndValidate toy_env (Some toy_service) (contextFor toy_env (Some toy_service) None) token 1500 = Some (Inr tok, 1500)
    \<and> (\<exists>tok2. parseAndValidate toy_env (Some toy_service) (contextFor toy_env (Some toy_service) None) (token @ [CHR 0x0A]) 1500
         = Some (Inr tok2, 1500) \<and> tk_Claims tok2 = tk_Claims tok)"
proof -
  obtain token tok where p: "parseAndValidate toy_env (Some toy_service) (contextFor toy_env (Some toy_service) None) token 1500
    = Some (Inr tok, 1500)" using toy_token by blast
  note q = conjunct2[OF newline_accepted[OF p]]
  show ?thesis by (rule exI[of _ token], rule exI[of _ tok], rule conjI[OF p], rule exI, rule conjI[OF q]) simp
qed

text \<open>
  A service built from the configuration uses the algorithm the configuration names and no other, with keys that are
  there, the clock of the host, no leeway and just the validator it was given.\<close>
theorem configured_service:
  assumes "fst (NewConfiguredService E validator t) = Inr s"
  shows "(\<exists>st. strategy s = Some st \<and> ToUpper (TrimSpace (viper_GetString E DefaultAlgorithmKey t)) =
        (if Algorithm st = ''EdDSA'' then ''EDDSA'' else Algorithm st)
      \<and> (case st of hmacSHA256Strategy secret \<Rightarrow> secret \<noteq> [] \<and> secret = viper_GetString E DefaultHMACSecretKey t
           | rsaSHA256Strategy priv pub \<Rightarrow> priv \<noteq> None \<and> pub \<noteq> None
           | rsaPSSSHA256Strategy priv pub \<Rightarrow> priv \<noteq> None \<and> pub \<noteq> None
           | ed25519Strategy priv pub \<Rightarrow> priv \<noteq> [] \<and> pub \<noteq> [] | _ \<Rightarrow> False))
    \<and> clock s = Some (time_Now E) \<and> leeway s = 0 \<and> \<not> contextTimeoutOn s
    \<and> validators s = (case validator of None \<Rightarrow> [] | Some v \<Rightarrow> [v]) \<and> None \<notin> set (validators s)"
proof -
  let ?a = "ToUpper (TrimSpace (viper_GetString E DefaultAlgorithmKey t))"
  consider "?a = ''HS256''" "service_with E (WithHMACSHA256 (viper_GetString E DefaultHMACSecretKey t)) validator = Inr s"
    | priv pub where "?a = ''RS256''" "service_with E (WithRSASHA256 (Some priv) (Some pub)) validator = Inr s"
    | priv pub where "?a = ''PS256''" "service_with E (WithRSAPSSSHA256 (Some priv) (Some pub)) validator = Inr s"
    | priv pub where "?a = ''EDDSA''" "service_with E (WithEd25519 priv pub) validator = Inr s"
    using assms by (auto simp: NewConfiguredService_def Let_def NewHMACService_def NewRSAService_def NewRSAPSSService_def
        NewEd25519Service_def dest!: service_from_keys_Inr split: if_splits)
  then show ?thesis
  proof cases
    case 1
    let ?x = "viper_GetString E DefaultHMACSecretKey t"
    have "WithHMACSHA256 ?x z = Inr z' \<Longrightarrow> ?x \<noteq> [] \<and> z' = z\<lparr>strategy := Some (hmacSHA256Strategy ?x)\<rparr>" for z z' :: "'a Service"
      by (auto simp: WithHMACSHA256_def split: if_splits)
    from service_with_Inr[OF 1(2) this] 1(1) show ?thesis by (auto simp: Algorithm_def)
  next
    case 2
    have "WithRSASHA256 (Some priv) (Some pub) z = Inr z' \<Longrightarrow> True \<and> z' = z\<lparr>strategy := Some (rsaSHA256Strategy (Some priv) (Some pub))\<rparr>"
      for z z' :: "'a Service" by (simp add: WithRSASHA256_def)
    from service_with_Inr[OF 2(2) this] 2(1) show ?thesis by (auto simp: Algorithm_def)
  next
    case 3
    have "WithRSAPSSSHA256 (Some priv) (Some pub) z = Inr z' \<Longrightarrow> True \<and> z' = z\<lparr>strategy := Some (rsaPSSSHA256Strategy (Some priv) (Some pub))\<rparr>"
      for z z' :: "'a Service" by (simp add: WithRSAPSSSHA256_def)
    from service_with_Inr[OF 3(2) this] 3(1) show ?thesis by (auto simp: Algorithm_def)
  next
    case 4
    have "WithEd25519 priv pub z = Inr z' \<Longrightarrow> (priv \<noteq> [] \<and> pub \<noteq> []) \<and> z' = z\<lparr>strategy := Some (ed25519Strategy priv pub)\<rparr>"
      for z z' :: "'a Service" by (auto simp: WithEd25519_def split: if_splits)
    from service_with_Inr[OF 4(2) this] 4(1) show ?thesis by (auto simp: Algorithm_def)
  qed
qed

theorem configured_service_witness:
  "\<exists>s. fst (NewConfiguredService toy_env None 0) = Inr s \<and> strategy s = Some (hmacSHA256Strategy ''secret'')"
proof -
  have a: "ToUpper (TrimSpace (viper_GetString toy_env DefaultAlgorithmKey 0)) = ''HS256''"
  proof -
    have g: "viper_GetString toy_env DefaultAlgorithmKey 0 = '' hs256 ''" by (simp add: toy_env_def crypto.defs jwt_env.defs)
    have "TrimSpace '' hs256 '' = ''hs256''" by code_simp
    moreover have "map upper_rune (runes ''hs256'') = runes ''HS256''" by (simp add: runes_def rune_pieces_ascii upper_rune_def)
    moreover have "utf8_Valid ''HS256''" by (simp add: utf8_Valid_ascii ascii_only_def)
    ultimately have "ToUpper ''hs256'' = ''HS256''" by (simp add: ToUpper_def utf8_Valid_runes_string_id)
    moreover note \<open>TrimSpace '' hs256 '' = ''hs256''\<close>
    ultimately show ?thesis by (simp add: g)
  qed
  have k: "viper_GetString toy_env DefaultHMACSecretKey 0 = ''secret''"
    by (simp add: toy_env_def crypto.defs jwt_env.defs DefaultAlgorithmKey_def DefaultHMACSecretKey_def)
  have "\<exists>s. fst (NewConfiguredService toy_env None 0) = Inr s"
    by (simp add: NewConfiguredService_def a NewHMACService_def k service_with_def jwt_New_def WithHMACSHA256_def)
  then obtain s where s: "fst (NewConfiguredService toy_env None 0) = Inr s" by blast
  note c = conjunct1[OF configured_service[OF s], unfolded a k]
  have "strategy s = Some (hmacSHA256Strategy ''secret'')"
    using c
  proof (elim exE conjE)
    fix st
    assume "strategy s = Some st" "''HS256'' = (if Algorithm st = ''EdDSA'' then ''EDDSA'' else Algorithm st)"
      "case st of hmacSHA256Strategy secret \<Rightarrow> secret \<noteq> [] \<and> secret = ''secret'' | rsaSHA256Strategy priv pub \<Rightarrow> priv \<noteq> None \<and> pub \<noteq> None
        | rsaPSSSHA256Strategy priv pub \<Rightarrow> priv \<noteq> None \<and> pub \<noteq> None | ed25519Strategy priv pub \<Rightarrow> priv \<noteq> [] \<and> pub \<noteq> [] | _ \<Rightarrow> False"
    then show ?thesis by (cases st) (simp_all add: Algorithm_def)
  qed
  with s show ?thesis by blast
qed

end
