(* ===== verification/Cookies.thy ===== *)
theory Cookies
  imports Jwt
begin

text \<open>
  Tokens in cookies, \<^verbatim>\<open>security/auth/cookies/cookies.go\<close>: how \<^verbatim>\<open>net/http\<close> reads the cookies of a request, and the service that
  takes the token from the configured one and hands it to the service of \<open>Jwt\<close>. The world is the one of \<open>Jwt\<close>; building a
  service from the configuration writes to it.
\<close>

subsection \<open>Cookies of a request\<close>

text \<open>The fields \<^verbatim>\<open>Cookie\<close> of the header of a request, one text each.\<close>

record http_Request =
  Cookie_lines :: "string list"

definition ErrNoCookie :: err where "ErrNoCookie = Message ''http: named cookie not present''"

definition TrimString :: "string \<Rightarrow> string" where
  "TrimString s = rev (dropWhile is_ws (rev (dropWhile is_ws s)))"

definition token_char :: "char \<Rightarrow> bool" where
  "token_char c \<longleftrightarrow> is_digit c \<or> (0x41 \<le> byte c \<and> byte c \<le> 0x5A) \<or> (0x61 \<le> byte c \<and> byte c \<le> 0x7A)
     \<or> c \<in> set (''!#$%&*+-.^_`|~'' @ [CHR 0x27])"

definition isToken :: "string \<Rightarrow> bool" where
  "isToken s \<longleftrightarrow> s \<noteq> [] \<and> list_all token_char s"

definition validCookieValueByte :: "char \<Rightarrow> bool" where
  "validCookieValueByte b \<longleftrightarrow> 0x20 \<le> byte b \<and> byte b < 0x7F \<and> b \<noteq> dquote \<and> b \<noteq> CHR '';'' \<and> b \<noteq> backslash"

definition parseCookieValue :: "string \<Rightarrow> string option" where
  "parseCookieValue raw =
     (let v = (if 1 < length raw \<and> hd raw = dquote \<and> last raw = dquote then butlast (tl raw) else raw)
      in if list_all validCookieValueByte v then Some v else None)"

definition read_part :: "string \<Rightarrow> string \<Rightarrow> (string \<times> string) option" where
  "read_part filter_name p =
     (let part = TrimString p in
      if part = [] then None
      else (case Cut (CHR ''='') part of (n, v, _) \<Rightarrow>
        (let name = TrimString n in
         if \<not> isToken name then None
         else if filter_name \<noteq> [] \<and> filter_name \<noteq> name then None
         else map_option (Pair name) (parseCookieValue v))))"

definition cookieMaxNum :: nat where "cookieMaxNum = 3000"

text \<open>A part that is empty is skipped, so that cutting the line part by part is splitting it.\<close>

definition readCookies :: "string list \<Rightarrow> string \<Rightarrow> (string \<times> string) list" where
  "readCookies ls filter_name =
     (if cookieMaxNum < sum_list (map (\<lambda>l. length (filter (\<lambda>c. c = CHR '';'') l) + 1) ls) then []
      else concat (map (\<lambda>line. List.map_filter (read_part filter_name) (Split (CHR '';'') (TrimString line))) ls))"

definition Request_Cookie :: "http_Request \<Rightarrow> string \<Rightarrow> err + string" where
  "Request_Cookie request name =
     (if name = [] then Inl ErrNoCookie
      else (case readCookies (Cookie_lines request) name of [] \<Rightarrow> Inl ErrNoCookie | c # _ \<Rightarrow> Inr (snd c)))"

subsection \<open>The service\<close>

definition cookies_ErrNilJWTService :: err where "cookies_ErrNilJWTService = Message ''cookies: jwt service is required''"
definition ErrMissingCookieKey :: err where "ErrMissingCookieKey = Message ''cookies: cookie name is required''"
definition ErrNilRequest :: err where "ErrNilRequest = Message ''cookies: request is required''"
definition ErrMissingCookie :: err where "ErrMissingCookie = Message ''cookies: auth cookie is required''"

definition DefaultCookieName :: string where "DefaultCookieName = ''access_token''"
definition DefaultCookieNameKey :: string where "DefaultCookieNameKey = ''jwt.cookie.name''"

record 't cookies_Service =
  jwtService :: "'t Service option"
  cookieName :: string

type_synonym 't cookies_Option = "'t cookies_Service \<Rightarrow> err + 't cookies_Service"

record 't JWTConfigServiceInput =
  in_Algorithm :: string
  in_HMACSecret :: string
  in_RSAPrivateKey :: string
  in_RSAPublicKey :: string
  in_EdDSAPrivateKey :: string
  in_EdDSAPublicKey :: string
  in_HMACSecretKey :: "string option"
  in_RSAPrivateKeyKey :: "string option"
  in_RSAPublicKeyKey :: "string option"
  in_EdDSAPrivateKeyKey :: "string option"
  in_EdDSAPublicKeyKey :: "string option"
  in_Validator :: "'t Validator option"

record 't ConfigServiceInput =
  in_CookieName :: string
  in_CookieNameKey :: string
  in_JWT :: "'t JWTConfigServiceInput"

definition cookies_New :: "'t cookies_Option option list \<Rightarrow> err + 't cookies_Service" where
  "cookies_New options =
     sum_bind (foldl (\<lambda>r opt. case opt of None \<Rightarrow> r | Some f \<Rightarrow> sum_bind r f) (Inr \<lparr>jwtService = None, cookieName = []\<rparr>) options)
       (\<lambda>service.
          if jwtService service = None then Inl cookies_ErrNilJWTService
          else if TrimSpace (cookieName service) = [] then Inl ErrMissingCookieKey
          else Inr service)"

definition cookies_WithJWTService :: "'t Service option \<Rightarrow> 't cookies_Option" where
  "cookies_WithJWTService service config =
     (if service = None then Inl cookies_ErrNilJWTService else Inr (config\<lparr>jwtService := service\<rparr>))"

definition WithCookieName :: "string \<Rightarrow> 't cookies_Option" where
  "WithCookieName name config =
     (let name = TrimSpace name in if name = [] then Inl ErrMissingCookieKey else Inr (config\<lparr>cookieName := name\<rparr>))"

definition stringOrDefault :: "string \<Rightarrow> string \<Rightarrow> string" where
  "stringOrDefault value fallback = (if value \<noteq> [] then value else fallback)"

definition jwtValidatorPtr :: "'t Validator option \<Rightarrow> 't Validator option option" where
  "jwtValidatorPtr validator = (case validator of None \<Rightarrow> None | Some v \<Rightarrow> Some (Some v))"

subsection \<open>The configuration\<close>

text \<open>The two kinds of step of \<open>applyJWTConfig\<close>: a value, and the name of a key that holds one.\<close>

definition set_value :: "('t, 'm) jwt_env_scheme \<Rightarrow> string \<Rightarrow> string \<Rightarrow> 't \<Rightarrow> 't" where
  "set_value E key value t = (if TrimSpace value \<noteq> [] then viper_Set E key value t else t)"

definition set_from :: "('t, 'm) jwt_env_scheme \<Rightarrow> string \<Rightarrow> string option \<Rightarrow> 't \<Rightarrow> 't" where
  "set_from E key source t =
     (case source of None \<Rightarrow> t
      | Some k \<Rightarrow> (let value = viper_GetString E (TrimSpace k) t in if value \<noteq> [] then viper_Set E key value t else t))"

definition applyJWTConfig :: "('t, 'm) jwt_env_scheme \<Rightarrow> 't JWTConfigServiceInput \<Rightarrow> 't \<Rightarrow> 't" where
  "applyJWTConfig E input = fold (\<lambda>f. f)
     [set_value E DefaultAlgorithmKey (in_Algorithm input),
      set_value E DefaultHMACSecretKey (in_HMACSecret input),
      set_from E DefaultHMACSecretKey (in_HMACSecretKey input),
      set_value E DefaultJWTPrivateKeyKey (in_RSAPrivateKey input),
      set_value E DefaultJWTPublicKeyKey (in_RSAPublicKey input),
      set_from E DefaultJWTPrivateKeyKey (in_RSAPrivateKeyKey input),
      set_from E DefaultJWTPublicKeyKey (in_RSAPublicKeyKey input),
      set_value E DefaultJWTPrivateKeyKey (in_EdDSAPrivateKey input),
      set_value E DefaultJWTPublicKeyKey (in_EdDSAPublicKey input),
      set_from E DefaultJWTPrivateKeyKey (in_EdDSAPrivateKeyKey input),
      set_from E DefaultJWTPublicKeyKey (in_EdDSAPublicKeyKey input)]"

definition configured_cookieName :: "('t, 'm) jwt_env_scheme \<Rightarrow> 't ConfigServiceInput \<Rightarrow> 't \<Rightarrow> string" where
  "configured_cookieName E input t =
     (let name = TrimSpace (in_CookieName input);
          name = (if name = [] then TrimSpace (viper_GetString E (stringOrDefault (in_CookieNameKey input) DefaultCookieNameKey) t) else name)
      in if name = [] then DefaultCookieName else name)"

definition cookies_NewConfiguredService ::
    "('t, 'm) jwt_env_scheme \<Rightarrow> 't ConfigServiceInput \<Rightarrow> 't \<Rightarrow> (err + 't cookies_Service) \<times> 't" where
  "cookies_NewConfiguredService E input t =
     (case NewConfiguredService E (jwtValidatorPtr (in_Validator (in_JWT input))) (applyJWTConfig E (in_JWT input) t) of
        (Inl e, t) \<Rightarrow> (Inl e, t)
      | (Inr service, t) \<Rightarrow>
          (cookies_New [Some (cookies_WithJWTService (Some service)), Some (WithCookieName (configured_cookieName E input t))], t))"

subsection \<open>Reading a request\<close>

definition CookieName :: "'t cookies_Service option \<Rightarrow> string" where
  "CookieName service = (case service of None \<Rightarrow> [] | Some s \<Rightarrow> cookieName s)"

definition TokenFromRequest :: "'t cookies_Service option \<Rightarrow> http_Request option \<Rightarrow> err + string" where
  "TokenFromRequest service request =
     (case service of None \<Rightarrow> Inl cookies_ErrNilJWTService
      | Some s \<Rightarrow>
         (if jwtService s = None then Inl cookies_ErrNilJWTService
          else (case request of None \<Rightarrow> Inl ErrNilRequest
            | Some r \<Rightarrow>
               (case Request_Cookie r (cookieName s) of
                  Inl e \<Rightarrow> if errors_Is e ErrNoCookie then Inl ErrMissingCookie else Inl e
                | Inr value \<Rightarrow>
                   (let token = TrimSpace value in if token = [] then Inl ErrMissingCookie else Inr token)))))"

definition ValidateRequest :: "('t, 'm) jwt_env_scheme \<Rightarrow> 't cookies_Service option \<Rightarrow> http_Request option \<Rightarrow> 't \<Rightarrow> ('t, unit) run" where
  "ValidateRequest E service request t =
     (case TokenFromRequest service request of Inl e \<Rightarrow> Some (Inl e, t)
      | Inr token \<Rightarrow> ValidateSignature E (Option.bind service jwtService) token t)"

definition cookies_Decode ::
    "('t, 'm) jwt_env_scheme \<Rightarrow> 't cookies_Service option \<Rightarrow> go_ctx option \<Rightarrow> http_Request option \<Rightarrow> 't destination option
     \<Rightarrow> 't Validator option list \<Rightarrow> 't \<Rightarrow> ('t, Token) run" where
  "cookies_Decode E service ctx request destination perCall t =
     (case TokenFromRequest service request of Inl e \<Rightarrow> Some (Inl e, t)
      | Inr token \<Rightarrow> Decode E (Option.bind service jwtService) ctx token destination perCall t)"

definition cookies_ReadWithContext ::
    "('t, 'm) jwt_env_scheme \<Rightarrow> 't cookies_Service option \<Rightarrow> go_ctx option \<Rightarrow> http_Request option \<Rightarrow> 't destination option
     \<Rightarrow> 't \<Rightarrow> ('t, unit) run" where
  "cookies_ReadWithContext E service ctx request destination t =
     seq (cookies_Decode E service ctx request destination [] t) (\<lambda>_ t. Some (Inr (), t))"

definition cookies_Read ::
    "('t, 'm) jwt_env_scheme \<Rightarrow> 't cookies_Service option \<Rightarrow> http_Request option \<Rightarrow> 't destination option \<Rightarrow> 't \<Rightarrow> ('t, unit) run" where
  "cookies_Read E service = cookies_ReadWithContext E service (Some context_Background)"

end
