(* ===== verification/Jwt_Middlewares.thy ===== *)
theory Jwt_Middlewares
  imports Cookies
begin

text \<open>
  The middlewares of \<^verbatim>\<open>security/middlewares\<close>: for gin the bearer token (\<^verbatim>\<open>jwt.go\<close>), the token in a cookie (\<^verbatim>\<open>cookies.go\<close>) and
  the security headers (\<^verbatim>\<open>headers.go\<close>); for gRPC the interceptors (\<^verbatim>\<open>grpc_jwt.go\<close>).

  A gin handler is modelled by the calls it makes on its \<^verbatim>\<open>*gin.Context\<close>, in their order, and what it does to the world; gin
  itself is outside. A gRPC handler is a function of its context. A panic is \<open>None\<close>.
\<close>

record 't web_env = "'t jwt_env" +
  viper_GetBool :: "string \<Rightarrow> 't \<Rightarrow> bool"

definition jwt_disabled :: "('t, 'm) web_env_scheme \<Rightarrow> 't \<Rightarrow> bool" where
  "jwt_disabled E t \<longleftrightarrow> viper_IsSet E ''jwt.enable'' t \<and> \<not> viper_GetBool E ''jwt.enable'' t"

subsection \<open>Claims\<close>

text \<open>
  What \<^verbatim>\<open>json.Unmarshal\<close> makes of a value when the type of the destination is \<^verbatim>\<open>any\<close>: \<open>None\<close> if a number does not fit a
  float64. A map is the list of its entries, the key of each once; the last member of a name gives its value.
\<close>

datatype any_value = ANil | ABool bool | AFloat rat | AString string | ASlice "any_value list" | AMap "(string \<times> any_value) list"

fun decode_any :: "json \<Rightarrow> any_value option" where
  "decode_any JNull = Some ANil"
| "decode_any (JBool b) = Some (ABool b)"
| "decode_any (JNumber s) = map_option AFloat (ParseFloat s)"
| "decode_any (JString s) = Some (AString s)"
| "decode_any (JArray vs) = map_option ASlice (those (map decode_any vs))"
| "decode_any (JObject ms) =
     map_option (\<lambda>xs. AMap (fold (\<lambda>(k, x). AList.update k x) xs [])) (those (map (\<lambda>(k, raw, v). map_option (Pair k) (decode_any v)) ms))"

text \<open>
  Decoding into a pointer to a fresh \<^verbatim>\<open>map[string]any\<close>: the entries of the map the middleware keeps. \<^verbatim>\<open>null\<close> makes the pointer
  point to a nil map and leaves that map as it was.
\<close>

definition decode_claims :: "string \<Rightarrow> json_error + (string \<times> any_value) list" where
  "decode_claims s =
     (case json_parse s of None \<Rightarrow> Inl JSyntax
      | Some JNull \<Rightarrow> Inr []
      | Some (JObject ms) \<Rightarrow> (case decode_any (JObject ms) of Some (AMap m) \<Rightarrow> Inr m | _ \<Rightarrow> Inl JType)
      | Some _ \<Rightarrow> Inl JType)"

datatype claims = ClaimsMap "(string \<times> any_value) list" | ClaimsAny "nat option"

text \<open>A factory returns nil or a pointer, with what unmarshalling into it does.\<close>

type_synonym 't ClaimsFactory = "'t \<Rightarrow> ((nat \<times> 't destination) option \<times> 't) option"

definition new_claims :: "'t ClaimsFactory option \<Rightarrow> 't \<Rightarrow> (((Token \<Rightarrow> claims) \<times> 't destination option) \<times> 't) option" where
  "new_claims factory t =
     (case factory of
        None \<Rightarrow> Some ((\<lambda>tok. ClaimsMap (case decode_claims (tk_Claims tok) of Inl _ \<Rightarrow> [] | Inr m \<Rightarrow> m),
                       Some (\<lambda>s t. (map_sum json_err (\<lambda>_. ()) (decode_claims s), t))), t)
      | Some f \<Rightarrow> map_option (\<lambda>(d, t). ((\<lambda>_. ClaimsAny (map_option fst d), map_option snd d), t)) (f t))"

subsection \<open>Gin\<close>

text \<open>A request as the middlewares read it: \<^verbatim>\<open>c.GetHeader\<close>, \<^verbatim>\<open>c.Request.Context()\<close> and the cookies of \<^verbatim>\<open>c.Request\<close>.\<close>

record gin_request = http_Request +
  GetHeader :: "string \<Rightarrow> string"
  Request_Context :: go_ctx

datatype context_value = TokenValue Token | ClaimsValue claims

datatype gin_call =
    Set string context_value
  | Next
  | Abort
  | AbortWithStatusJSON nat "(string \<times> err) list"
  | Respond nat string
  | SetHeader string string

type_synonym 't HandlerFunc = "gin_request \<Rightarrow> 't \<Rightarrow> (gin_call list \<times> 't) option"
type_synonym 't unauthorized = "err \<Rightarrow> 't HandlerFunc"

definition defaultAuthorizationHeader :: string where "defaultAuthorizationHeader = ''Authorization''"
definition defaultBearerPrefix :: string where "defaultBearerPrefix = ''Bearer ''"

definition JWTTokenContextKey :: string where "JWTTokenContextKey = ''jwt.token''"
definition JWTClaimsContextKey :: string where "JWTClaimsContextKey = ''jwt.claims''"

definition ErrNilJWTService :: err where "ErrNilJWTService = Message ''middlewares: jwt service is required''"
definition ErrMissingAuthorization :: err where "ErrMissingAuthorization = Message ''middlewares: authorization header is required''"
definition ErrInvalidAuthorizationType :: err where
  "ErrInvalidAuthorizationType = Message ''middlewares: authorization header must use Bearer scheme''"

definition abort_unauthorized :: "'t unauthorized" where
  "abort_unauthorized e req t = Some ([AbortWithStatusJSON 401 [(''error'', e)]], t)"

definition pass_on :: "'t HandlerFunc" where
  "pass_on req t = Some ([Next], t)"

subsection \<open>The bearer token\<close>

record 't jwtMiddlewareConfig =
  headerName :: string
  bearerPrefix :: string
  tokenContextKey :: string
  claimsContextKey :: string
  claimsFactory :: "'t ClaimsFactory option"
  config_validator :: "'t Validator option"
  config_service :: "'t Service option"
  unauthorizedHandler :: "'t unauthorized"

type_synonym 't JWTMiddlewareOption = "'t jwtMiddlewareConfig \<Rightarrow> 't jwtMiddlewareConfig"

definition apply_options :: "('c \<Rightarrow> 'c) option list \<Rightarrow> 'c \<Rightarrow> 'c" where
  "apply_options options config = foldl (\<lambda>c opt. case opt of None \<Rightarrow> c | Some f \<Rightarrow> f c) config options"

definition WithJWTService :: "'t Service option \<Rightarrow> 't JWTMiddlewareOption" where
  "WithJWTService service config = (if service \<noteq> None then config\<lparr>config_service := service\<rparr> else config)"

definition WithJWTValidator :: "'t Validator option \<Rightarrow> 't JWTMiddlewareOption" where
  "WithJWTValidator v config = config\<lparr>config_validator := v\<rparr>"

definition WithJWTClaimsFactory :: "'t ClaimsFactory option \<Rightarrow> 't JWTMiddlewareOption" where
  "WithJWTClaimsFactory factory config = config\<lparr>claimsFactory := factory\<rparr>"

definition WithJWTContextKeys :: "string \<Rightarrow> string \<Rightarrow> 't JWTMiddlewareOption" where
  "WithJWTContextKeys tokenKey claimsKey config =
     (let config = (if tokenKey \<noteq> [] then config\<lparr>tokenContextKey := tokenKey\<rparr> else config)
      in if claimsKey \<noteq> [] then config\<lparr>claimsContextKey := claimsKey\<rparr> else config)"

definition WithJWTUnauthorizedHandler :: "'t unauthorized option \<Rightarrow> 't JWTMiddlewareOption" where
  "WithJWTUnauthorizedHandler handler config = (case handler of None \<Rightarrow> config | Some h \<Rightarrow> config\<lparr>unauthorizedHandler := h\<rparr>)"

definition extractBearerToken :: "string \<Rightarrow> string \<Rightarrow> err + string" where
  "extractBearerToken headerValue pre =
     (if headerValue = [] then Inl ErrMissingAuthorization
      else if \<not> HasPrefix headerValue pre then Inl ErrInvalidAuthorizationType
      else (let token = TrimSpace (TrimPrefix headerValue pre) in
        if token = [] then Inl ErrMissingAuthorization else Inr token))"

definition newConfiguredJWTService :: "('t, 'm) web_env_scheme \<Rightarrow> 't Validator option option \<Rightarrow> 't \<Rightarrow> (err + 't Service) \<times> 't" where
  "newConfiguredJWTService E validator = NewConfiguredService E validator"

text \<open>The end of both gin middlewares: the result of decoding.\<close>

definition respond ::
    "'t unauthorized \<Rightarrow> string \<Rightarrow> string \<Rightarrow> (Token \<Rightarrow> claims) \<Rightarrow> gin_request \<Rightarrow> ('t, Token) run \<Rightarrow> (gin_call list \<times> 't) option" where
  "respond unauthorized tokenKey claimsKey stored req r =
     (case r of None \<Rightarrow> None
      | Some (Inl e, t) \<Rightarrow> unauthorized e req t
      | Some (Inr parsedToken, t) \<Rightarrow>
          Some ([Set tokenKey (TokenValue parsedToken), Set claimsKey (ClaimsValue (stored parsedToken)), Next], t))"

definition serve_JWT :: "('t, 'm) web_env_scheme \<Rightarrow> 't jwtMiddlewareConfig \<Rightarrow> 't Service option \<Rightarrow> 't HandlerFunc" where
  "serve_JWT E config service req t =
     (if service = None then unauthorizedHandler config ErrNilJWTService req t
      else (case extractBearerToken (GetHeader req (headerName config)) (bearerPrefix config) of
          Inl e \<Rightarrow> unauthorizedHandler config e req t
        | Inr token \<Rightarrow> (case new_claims (claimsFactory config) t of None \<Rightarrow> None
            | Some ((stored, destination), t) \<Rightarrow>
                respond (unauthorizedHandler config) (tokenContextKey config) (claimsContextKey config) stored req
                  (Decode E service (Some (Request_Context req)) token destination [] t))))"

definition jwtMiddlewareDefaults :: "'t jwtMiddlewareConfig" where
  "jwtMiddlewareDefaults = \<lparr>headerName = defaultAuthorizationHeader, bearerPrefix = defaultBearerPrefix,
     tokenContextKey = JWTTokenContextKey, claimsContextKey = JWTClaimsContextKey, claimsFactory = None, config_validator = None,
     config_service = None, unauthorizedHandler = abort_unauthorized\<rparr>"

definition RequireJWT :: "('t, 'm) web_env_scheme \<Rightarrow> 't JWTMiddlewareOption option list \<Rightarrow> 't \<Rightarrow> 't HandlerFunc \<times> 't" where
  "RequireJWT E options t =
     (if jwt_disabled E t then (pass_on, t)
      else (let config = apply_options options jwtMiddlewareDefaults in
        (case config_service config of
           Some s \<Rightarrow> (serve_JWT E config (Some s), t)
         | None \<Rightarrow> (case newConfiguredJWTService E (jwtValidatorPtr (config_validator config)) t of
               (Inl e, t) \<Rightarrow> (unauthorizedHandler config e, t)
             | (Inr s, t) \<Rightarrow> (serve_JWT E config (Some s), t)))))"

subsection \<open>The token in a cookie\<close>

record 't cookieMiddlewareConfig =
  ck_tokenContextKey :: string
  ck_claimsContextKey :: string
  ck_claimsFactory :: "'t ClaimsFactory option"
  ck_validator :: "'t Validator option"
  serviceConfig :: "'t ConfigServiceInput"
  ck_serviceFactory :: "'t ConfigServiceInput \<Rightarrow> 't \<Rightarrow> (err + 't cookies_Service) \<times> 't"
  ck_unauthorizedHandler :: "'t unauthorized"

type_synonym 't CookieMiddlewareOption = "'t cookieMiddlewareConfig \<Rightarrow> 't cookieMiddlewareConfig"

definition WithJWTCookieServiceConfig :: "'t ConfigServiceInput \<Rightarrow> 't CookieMiddlewareOption" where
  "WithJWTCookieServiceConfig input config = config\<lparr>serviceConfig := input\<rparr>"

definition WithJWTCookieValidator :: "'t Validator option \<Rightarrow> 't CookieMiddlewareOption" where
  "WithJWTCookieValidator v config = config\<lparr>ck_validator := v\<rparr>"

definition WithJWTCookieClaimsFactory :: "'t ClaimsFactory option \<Rightarrow> 't CookieMiddlewareOption" where
  "WithJWTCookieClaimsFactory factory config = config\<lparr>ck_claimsFactory := factory\<rparr>"

definition WithJWTCookieContextKeys :: "string \<Rightarrow> string \<Rightarrow> 't CookieMiddlewareOption" where
  "WithJWTCookieContextKeys tokenKey claimsKey config =
     (let config = (if tokenKey \<noteq> [] then config\<lparr>ck_tokenContextKey := tokenKey\<rparr> else config)
      in if claimsKey \<noteq> [] then config\<lparr>ck_claimsContextKey := claimsKey\<rparr> else config)"

definition WithJWTCookieUnauthorizedHandler :: "'t unauthorized option \<Rightarrow> 't CookieMiddlewareOption" where
  "WithJWTCookieUnauthorizedHandler handler config =
     (case handler of None \<Rightarrow> config | Some h \<Rightarrow> config\<lparr>ck_unauthorizedHandler := h\<rparr>)"

definition zero_ConfigServiceInput :: "'t ConfigServiceInput" where
  "zero_ConfigServiceInput = \<lparr>in_CookieName = [], in_CookieNameKey = [], in_JWT = \<lparr>in_Algorithm = [], in_HMACSecret = [],
     in_RSAPrivateKey = [], in_RSAPublicKey = [], in_EdDSAPrivateKey = [], in_EdDSAPublicKey = [], in_HMACSecretKey = None,
     in_RSAPrivateKeyKey = None, in_RSAPublicKeyKey = None, in_EdDSAPrivateKeyKey = None, in_EdDSAPublicKeyKey = None,
     in_Validator = None\<rparr>\<rparr>"

definition cookieMiddlewareDefaults :: "('t, 'm) web_env_scheme \<Rightarrow> 't cookieMiddlewareConfig" where
  "cookieMiddlewareDefaults E = \<lparr>ck_tokenContextKey = JWTTokenContextKey, ck_claimsContextKey = JWTClaimsContextKey,
     ck_claimsFactory = None, ck_validator = None, serviceConfig = zero_ConfigServiceInput,
     ck_serviceFactory = cookies_NewConfiguredService E, ck_unauthorizedHandler = abort_unauthorized\<rparr>"

definition serve_cookie :: "('t, 'm) web_env_scheme \<Rightarrow> 't cookieMiddlewareConfig \<Rightarrow> 't cookies_Service \<Rightarrow> 't HandlerFunc" where
  "serve_cookie E config service req t =
     (case new_claims (ck_claimsFactory config) t of None \<Rightarrow> None
      | Some ((stored, destination), t) \<Rightarrow>
          respond (ck_unauthorizedHandler config) (ck_tokenContextKey config) (ck_claimsContextKey config) stored req
            (cookies_Decode E (Some service) (Some (Request_Context req)) (Some (http_Request.truncate req)) destination [] t))"

definition cookie_serviceConfig :: "'t cookieMiddlewareConfig \<Rightarrow> 't ConfigServiceInput" where
  "cookie_serviceConfig config =
     (if ck_validator config \<noteq> None
      then (serviceConfig config)\<lparr>in_JWT := (in_JWT (serviceConfig config))\<lparr>in_Validator := ck_validator config\<rparr>\<rparr>
      else serviceConfig config)"

definition RequireJWTCookie :: "('t, 'm) web_env_scheme \<Rightarrow> 't CookieMiddlewareOption option list \<Rightarrow> 't \<Rightarrow> 't HandlerFunc \<times> 't" where
  "RequireJWTCookie E options t =
     (if jwt_disabled E t then (pass_on, t)
      else (let config = apply_options options (cookieMiddlewareDefaults E) in
        (case ck_serviceFactory config (cookie_serviceConfig config) t of
           (Inl e, t) \<Rightarrow> (ck_unauthorizedHandler config e, t)
         | (Inr s, t) \<Rightarrow> (serve_cookie E config s, t))))"

subsection \<open>Security headers\<close>

definition SecurityHeaders :: "'t HandlerFunc" where
  "SecurityHeaders req t = Some (
     [SetHeader ''X-Frame-Options'' ''DENY'',
      SetHeader ''Content-Security-Policy''
        (''default-src '' @ [CHR 0x27] @ ''self'' @ [CHR 0x27] @ ''; connect-src *; font-src *; script-src-elem * '' @ [CHR 0x27]
         @ ''unsafe-inline'' @ [CHR 0x27] @ ''; img-src * data:; style-src * '' @ [CHR 0x27] @ ''unsafe-inline'' @ [CHR 0x27] @ '';''),
      SetHeader ''X-XSS-Protection'' ''1; mode=block'',
      SetHeader ''Strict-Transport-Security'' ''max-age=31536000; includeSubDomains'',
      SetHeader ''Referrer-Policy'' ''strict-origin'',
      SetHeader ''X-Content-Type-Options'' ''nosniff'',
      SetHeader ''Permissions-Policy'' (''geolocation=(),midi=(),sync-xhr=(),microphone=(),camera=(),magnetometer=(),gyroscope=(),''
         @ ''fullscreen=(self),payment=()''),
      Next], t)"

end
