(* ===== verification/Jwt_Interceptors.thy ===== *)
theory Jwt_Interceptors
  imports Jwt_Middlewares
begin

text \<open>
  The gRPC interceptors, \<^verbatim>\<open>security/middlewares/grpc_jwt.go\<close>. The service is built on the first request that needs it and
  kept with its error, so that every operation takes the configuration and returns it. The metadata of a request is outside:
  a function from a name to its values. Handlers are parameters; \<open>Status\<close> is \<^verbatim>\<open>status.Error\<close>, which keeps the text of the error.
\<close>

definition defaultGRPCAuthorizationMetadata :: string where "defaultGRPCAuthorizationMetadata = ''authorization''"

definition jwtTokenContextKey :: string where "jwtTokenContextKey = ''jwt.token''"
definition jwtClaimsContextKey :: string where "jwtClaimsContextKey = ''jwt.claims''"

text \<open>A context: when it ends, the incoming metadata, and the values of the keys of type \<open>jwtContextKey\<close>, the newest first.\<close>

record rpc_ctx =
  ends :: go_ctx
  incoming :: "(string \<Rightarrow> string list) option"
  ctx_values :: "(string \<times> context_value) list"

definition WithValue :: "rpc_ctx \<Rightarrow> string \<Rightarrow> context_value \<Rightarrow> rpc_ctx" where
  "WithValue ctx key v = ctx\<lparr>ctx_values := (key, v) # ctx_values ctx\<rparr>"

definition JWTTokenFromContext :: "rpc_ctx \<Rightarrow> Token option" where
  "JWTTokenFromContext ctx = (case map_of (ctx_values ctx) jwtTokenContextKey of Some (TokenValue token) \<Rightarrow> Some token | _ \<Rightarrow> None)"

definition JWTClaimsFromContext :: "rpc_ctx \<Rightarrow> context_value option" where
  "JWTClaimsFromContext ctx =
     (case map_of (ctx_values ctx) jwtClaimsContextKey of Some (ClaimsValue (ClaimsAny None)) \<Rightarrow> None | r \<Rightarrow> r)"

type_synonym 't serviceFactory = "'t Validator option option \<Rightarrow> 't \<Rightarrow> (('t Service option \<times> err option) \<times> 't) option"

record 't jwtGRPCConfig =
  metadataName :: string
  rpc_bearerPrefix :: string
  rpc_claimsFactory :: "'t ClaimsFactory option"
  rpc_validator :: "'t Validator option"
  serviceFactory :: "'t serviceFactory"
  service_resolved :: bool
  rpc_service :: "'t Service option"
  serviceErr :: "err option"

type_synonym 't JWTGRPCOption = "'t jwtGRPCConfig \<Rightarrow> 't jwtGRPCConfig"

definition WithGRPCJWTServiceFactory :: "'t serviceFactory option \<Rightarrow> 't JWTGRPCOption" where
  "WithGRPCJWTServiceFactory factory config = (case factory of None \<Rightarrow> config | Some f \<Rightarrow> config\<lparr>serviceFactory := f\<rparr>)"

definition WithGRPCJWTValidator :: "'t Validator option \<Rightarrow> 't JWTGRPCOption" where
  "WithGRPCJWTValidator v config = config\<lparr>rpc_validator := v\<rparr>"

definition WithGRPCJWTClaimsFactory :: "'t ClaimsFactory option \<Rightarrow> 't JWTGRPCOption" where
  "WithGRPCJWTClaimsFactory factory config = config\<lparr>rpc_claimsFactory := factory\<rparr>"

definition configured_factory :: "('t, 'm) web_env_scheme \<Rightarrow> 't serviceFactory" where
  "configured_factory E validator t =
     (case newConfiguredJWTService E validator t of
        (Inl e, t) \<Rightarrow> Some ((None, Some e), t) | (Inr s, t) \<Rightarrow> Some ((Some s, None), t))"

definition newJWTGRPCConfig :: "('t, 'm) web_env_scheme \<Rightarrow> 't JWTGRPCOption option list \<Rightarrow> 't jwtGRPCConfig" where
  "newJWTGRPCConfig E options = apply_options options
     \<lparr>metadataName = defaultGRPCAuthorizationMetadata, rpc_bearerPrefix = defaultBearerPrefix, rpc_claimsFactory = None,
      rpc_validator = None, serviceFactory = configured_factory E, service_resolved = False, rpc_service = None, serviceErr = None\<rparr>"

definition resolveService :: "'t jwtGRPCConfig \<Rightarrow> 't \<Rightarrow> (('t Service option \<times> err option) \<times> 't jwtGRPCConfig \<times> 't) option" where
  "resolveService config t =
     (if service_resolved config then Some ((rpc_service config, serviceErr config), config, t)
      else map_option (\<lambda>((s, e), t). ((s, e), config\<lparr>service_resolved := True, rpc_service := s, serviceErr := e\<rparr>, t))
        (serviceFactory config (jwtValidatorPtr (rpc_validator config)) t))"

definition tokenFromIncomingMetadata :: "rpc_ctx \<Rightarrow> string \<Rightarrow> string \<Rightarrow> err + string" where
  "tokenFromIncomingMetadata ctx name pre =
     (case incoming ctx of None \<Rightarrow> Inl ErrMissingAuthorization
      | Some md \<Rightarrow> (case md (map lower_char (TrimSpace name)) of
          [] \<Rightarrow> Inl ErrMissingAuthorization | value # _ \<Rightarrow> extractBearerToken value pre))"

definition authenticate ::
    "('t, 'm) web_env_scheme \<Rightarrow> 't jwtGRPCConfig \<Rightarrow> rpc_ctx \<Rightarrow> 't \<Rightarrow> ((err + rpc_ctx) \<times> 't jwtGRPCConfig \<times> 't) option" where
  "authenticate E config ctx t =
     (case resolveService config t of None \<Rightarrow> None
      | Some ((resolved, failure), config, t) \<Rightarrow>
         (case failure of Some e \<Rightarrow> Some (Inl e, config, t)
          | None \<Rightarrow> (case resolved of None \<Rightarrow> Some (Inl ErrNilJWTService, config, t)
            | Some s \<Rightarrow>
               (case tokenFromIncomingMetadata ctx (metadataName config) (rpc_bearerPrefix config) of
                  Inl e \<Rightarrow> Some (Inl e, config, t)
                | Inr token \<Rightarrow> (case new_claims (rpc_claimsFactory config) t of None \<Rightarrow> None
                    | Some ((stored, destination), t) \<Rightarrow>
                       (case Decode E (Some s) (Some (ends ctx)) token destination [] t of None \<Rightarrow> None
                        | Some (Inl e, t) \<Rightarrow> Some (Inl e, config, t)
                        | Some (Inr parsedToken, t) \<Rightarrow>
                            Some (Inr (WithValue (WithValue ctx jwtTokenContextKey (TokenValue parsedToken))
                              jwtClaimsContextKey (ClaimsValue (stored parsedToken))), config, t)))))))"

subsection \<open>Interceptors\<close>

datatype rpc_error = Status nat err | Returned err

definition Unauthenticated :: nat where "Unauthenticated = 16"

definition grpcJWTError :: "err \<Rightarrow> rpc_error" where
  "grpcJWTError e = Status Unauthenticated e"

type_synonym ('t, 'q, 'r) UnaryHandler = "rpc_ctx \<Rightarrow> 'q \<Rightarrow> 't \<Rightarrow> ((rpc_error + 'r) \<times> 't) option"

definition RequireJWTUnaryServerInterceptor ::
    "('t, 'm) web_env_scheme \<Rightarrow> 't jwtGRPCConfig \<Rightarrow> rpc_ctx \<Rightarrow> 'q \<Rightarrow> ('t, 'q, 'r) UnaryHandler \<Rightarrow> 't
     \<Rightarrow> ((rpc_error + 'r) \<times> 't jwtGRPCConfig \<times> 't) option" where
  "RequireJWTUnaryServerInterceptor E config ctx req handler t =
     (if jwt_disabled E t then map_option (\<lambda>(r, t). (r, config, t)) (handler ctx req t)
      else (case authenticate E config ctx t of None \<Rightarrow> None
        | Some (Inl e, config, t) \<Rightarrow> Some (Inl (grpcJWTError e), config, t)
        | Some (Inr authCtx, config, t) \<Rightarrow> map_option (\<lambda>(r, t). (r, config, t)) (handler authCtx req t)))"

text \<open>A stream is its context and whatever else it offers; \<open>jwtServerStream\<close> replaces the context.\<close>

record 's server_stream =
  ServerStream :: 's
  stream_Context :: rpc_ctx

definition jwtServerStream :: "'s server_stream \<Rightarrow> rpc_ctx \<Rightarrow> 's server_stream" where
  "jwtServerStream stream ctx = stream\<lparr>stream_Context := ctx\<rparr>"

type_synonym ('t, 'q, 's) StreamHandler = "'q \<Rightarrow> 's server_stream \<Rightarrow> 't \<Rightarrow> (rpc_error option \<times> 't) option"

definition RequireJWTStreamServerInterceptor ::
    "('t, 'm) web_env_scheme \<Rightarrow> 't jwtGRPCConfig \<Rightarrow> 'q \<Rightarrow> 's server_stream \<Rightarrow> ('t, 'q, 's) StreamHandler \<Rightarrow> 't
     \<Rightarrow> (rpc_error option \<times> 't jwtGRPCConfig \<times> 't) option" where
  "RequireJWTStreamServerInterceptor E config srv stream handler t =
     (if jwt_disabled E t then map_option (\<lambda>(r, t). (r, config, t)) (handler srv stream t)
      else (case authenticate E config (stream_Context stream) t of None \<Rightarrow> None
        | Some (Inl e, config, t) \<Rightarrow> Some (Some (grpcJWTError e), config, t)
        | Some (Inr authCtx, config, t) \<Rightarrow>
            map_option (\<lambda>(r, t). (r, config, t)) (handler srv (jwtServerStream stream authCtx) t)))"

end
