(* ===== verification/Middleware_Guarantees.thy ===== *)
theory Middleware_Guarantees
  imports Jwt_Interceptors Jwt_Guarantees
begin

text \<open>
  What the middlewares guarantee: a protected handler runs only for a request whose token the service accepts, reads exactly the
  signed claims, and finds the token in its cookie; and where the guarantee ends, at a handler for refusals that does not abort.
\<close>

subsection \<open>The chain of handlers\<close>

text \<open>
  The documentation of gin: the pending handlers run when a handler calls \<open>Next\<close>, or else after it returns, unless it has
  aborted before. \<open>reaches\<close> says of the calls of one middleware that the handlers behind it run.
\<close>

definition is_abort :: "gin_call \<Rightarrow> bool" where
  "is_abort c = (case c of Abort \<Rightarrow> True | AbortWithStatusJSON _ _ \<Rightarrow> True | _ \<Rightarrow> False)"

definition aborts :: "gin_call list \<Rightarrow> bool" where
  "aborts calls = list_ex is_abort (takeWhile (\<lambda>c. c \<noteq> Next) calls)"

definition gin_law :: "(gin_call list \<Rightarrow> bool) \<Rightarrow> bool" where
  "gin_law reaches \<longleftrightarrow> (\<forall>calls. reaches calls \<longleftrightarrow> \<not> aborts calls)"

definition always_aborts :: "'t unauthorized \<Rightarrow> bool" where
  "always_aborts h \<longleftrightarrow> (\<forall>e req t calls u. h e req t = Some (calls, u) \<longrightarrow> aborts calls)"

lemma always_abortsD: "always_aborts h \<Longrightarrow> h e req t = Some (calls, u) \<Longrightarrow> aborts calls"
  unfolding always_aborts_def by blast

lemma default_aborts [simp]: "always_aborts abort_unauthorized"
  by (simp add: always_aborts_def abort_unauthorized_def aborts_def is_abort_def)

lemma admitted_not_aborts [simp]: "\<not> aborts [Set k v, Set k' v', Next]"
  by (simp add: aborts_def is_abort_def)

subsection \<open>Handlers behind a guard\<close>

text \<open>
  The contract of the gin middlewares: a request is refused through the unauthorized handler or else admitted, with its token
  and claims set. With a handler that aborts, what lies behind runs for an admitted request only.
\<close>

locale guarded_handler =
  fixes serve :: "'t HandlerFunc" and unauthorized :: "'t unauthorized" and tokenKey claimsKey :: string
    and accepted :: "gin_request \<Rightarrow> 't \<Rightarrow> Token \<Rightarrow> claims \<Rightarrow> 't \<Rightarrow> bool"
  assumes verdict: "serve req t = Some (calls, u) \<Longrightarrow>
      (\<exists>e v. unauthorized e req v = Some (calls, u))
    \<or> (\<exists>tok c. accepted req t tok c u \<and> calls = [Set tokenKey (TokenValue tok), Set claimsKey (ClaimsValue c), Next])"
begin

lemma reached_accepted:
  assumes "always_aborts unauthorized" "serve req t = Some (calls, u)" "\<not> aborts calls"
  shows "\<exists>tok c. accepted req t tok c u \<and> calls = [Set tokenKey (TokenValue tok), Set claimsKey (ClaimsValue c), Next]"
  using verdict[OF assms(2)] always_abortsD[OF assms(1)] assms(3) by blast

end

lemma respond_cases:
  assumes "respond h k k' stored req r = Some (calls, u)"
  shows "(\<exists>e v. h e req v = Some (calls, u))
    \<or> (\<exists>tok. r = Some (Inr tok, u) \<and> calls = [Set k (TokenValue tok), Set k' (ClaimsValue (stored tok)), Next])"
  using assms by (auto simp: respond_def split: option.splits prod.splits sum.splits)

definition bearer_accepted ::
    "('t, 'm) web_env_scheme \<Rightarrow> 't jwtMiddlewareConfig \<Rightarrow> 't Service \<Rightarrow> gin_request \<Rightarrow> 't \<Rightarrow> Token \<Rightarrow> claims \<Rightarrow> 't \<Rightarrow> bool" where
  "bearer_accepted E config s req t tok c u \<longleftrightarrow>
     (\<exists>token stored destination t1. extractBearerToken (GetHeader req (headerName config)) (bearerPrefix config) = Inr token
        \<and> new_claims (claimsFactory config) t = Some ((stored, destination), t1)
        \<and> Decode E (Some s) (Some (Request_Context req)) token destination [] t1 = Some (Inr tok, u) \<and> c = stored tok)"

definition cookie_accepted ::
    "('t, 'm) web_env_scheme \<Rightarrow> 't cookieMiddlewareConfig \<Rightarrow> 't cookies_Service \<Rightarrow> gin_request \<Rightarrow> 't \<Rightarrow> Token \<Rightarrow> claims \<Rightarrow> 't \<Rightarrow> bool" where
  "cookie_accepted E config s req t tok c u \<longleftrightarrow>
     (\<exists>stored destination t1. new_claims (ck_claimsFactory config) t = Some ((stored, destination), t1)
        \<and> cookies_Decode E (Some s) (Some (Request_Context req)) (Some (http_Request.truncate req)) destination [] t1 = Some (Inr tok, u)
        \<and> c = stored tok)"

interpretation bearer: guarded_handler "serve_JWT E config (Some s)" "unauthorizedHandler config" "tokenContextKey config"
  "claimsContextKey config" "bearer_accepted E config s" for E config s
proof
  fix req t calls u
  assume "serve_JWT E config (Some s) req t = Some (calls, u)"
  then show "(\<exists>e v. unauthorizedHandler config e req v = Some (calls, u))
    \<or> (\<exists>tok c. bearer_accepted E config s req t tok c u
        \<and> calls = [Set (tokenContextKey config) (TokenValue tok), Set (claimsContextKey config) (ClaimsValue c), Next])"
    by (auto simp: serve_JWT_def bearer_accepted_def split: sum.splits option.splits dest!: respond_cases)
qed

interpretation cookie: guarded_handler "serve_cookie E config s" "ck_unauthorizedHandler config" "ck_tokenContextKey config"
  "ck_claimsContextKey config" "cookie_accepted E config s" for E config s
proof
  fix req t calls u
  assume "serve_cookie E config s req t = Some (calls, u)"
  then show "(\<exists>e v. ck_unauthorizedHandler config e req v = Some (calls, u))
    \<or> (\<exists>tok c. cookie_accepted E config s req t tok c u
        \<and> calls = [Set (ck_tokenContextKey config) (TokenValue tok), Set (ck_claimsContextKey config) (ClaimsValue c), Next])"
    by (auto simp: serve_cookie_def cookie_accepted_def split: option.splits dest!: respond_cases)
qed

subsection \<open>Configured middlewares\<close>

text \<open>A service for HS256 from the configuration holds the configured secret.\<close>

lemma configured_HS256:
  assumes "ToUpper (TrimSpace (viper_GetString E DefaultAlgorithmKey t)) = ''HS256''"
    and "NewConfiguredService E validator t = (Inr s, u)"
  shows "strategy s = Some (hmacSHA256Strategy (viper_GetString E DefaultHMACSecretKey t))" and "u = t"
proof -
  let ?x = "viper_GetString E DefaultHMACSecretKey t"
  show "u = t" using assms by (auto simp: NewConfiguredService_def NewHMACService_def)
  have "service_with E (WithHMACSHA256 ?x) validator = Inr s"
    using assms by (auto simp: NewConfiguredService_def NewHMACService_def)
  moreover have "WithHMACSHA256 ?x z = Inr z' \<Longrightarrow> True \<and> z' = z\<lparr>strategy := Some (hmacSHA256Strategy ?x)\<rparr>" for z z' :: "'a Service"
    by (auto simp: WithHMACSHA256_def split: if_splits)
  ultimately show "strategy s = Some (hmacSHA256Strategy ?x)" by (blast dest: service_with_Inr)
qed

lemma RequireJWT_cases:
  assumes "\<not> jwt_disabled E t0" "config_service config = None" "config = apply_options options jwtMiddlewareDefaults"
  obtains e t1 where "RequireJWT E options t0 = (unauthorizedHandler config e, t1)"
  | s t1 where "NewConfiguredService E (jwtValidatorPtr (config_validator config)) t0 = (Inr s, t1)"
      "RequireJWT E options t0 = (serve_JWT E config (Some s), t1)"
proof -
  obtain r u where r: "NewConfiguredService E (jwtValidatorPtr (config_validator config)) t0 = (r, u)" by force
  show thesis
    using that r assms by (cases r) (auto simp: RequireJWT_def newConfiguredJWTService_def Let_def)
qed

lemma RequireJWTCookie_cases:
  assumes "\<not> jwt_disabled E t0" "config = apply_options options (cookieMiddlewareDefaults E)"
  obtains e t1 where "RequireJWTCookie E options t0 = (ck_unauthorizedHandler config e, t1)"
  | s t1 where "ck_serviceFactory config (cookie_serviceConfig config) t0 = (Inr s, t1)"
      "RequireJWTCookie E options t0 = (serve_cookie E config s, t1)"
proof -
  obtain r u where r: "ck_serviceFactory config (cookie_serviceConfig config) t0 = (r, u)" by force
  show thesis
    using that r assms by (cases r) (auto simp: RequireJWTCookie_def Let_def)
qed

lemma extractBearerToken_Inr:
  "extractBearerToken h p = Inr token \<longleftrightarrow> h \<noteq> [] \<and> HasPrefix h p \<and> token = TrimSpace (TrimPrefix h p) \<and> token \<noteq> []"
  by (auto simp: extractBearerToken_def Let_def)

subsection \<open>An environment for the witnesses\<close>

definition toy_web :: "nat web_env" where
  "toy_web = jwt_env.extend toy_env (web_env.fields (\<lambda>key t. False))"
lemma toy_web_facts:
  "viper_GetString toy_web = viper_GetString toy_env" "\<not> jwt_disabled toy_web t" "time_Now toy_web = time_Now toy_env"
  "hmac_SHA256 toy_web = hmac_SHA256 toy_env"
  by (simp_all add: toy_web_def toy_env_def crypto.defs jwt_env.defs web_env.defs jwt_disabled_def)

lemma toy_algorithm: "ToUpper (TrimSpace (viper_GetString toy_web DefaultAlgorithmKey t)) = ''HS256''"
proof -
  have "viper_GetString toy_env DefaultAlgorithmKey t = '' hs256 ''" by (simp add: toy_env_def crypto.defs jwt_env.defs)
  moreover have t: "TrimSpace '' hs256 '' = ''hs256''" by code_simp
  moreover have "map upper_rune (runes ''hs256'') = runes ''HS256''" by (simp add: runes_def rune_pieces_ascii upper_rune_def)
  moreover have "utf8_Valid ''HS256''" by (simp add: utf8_Valid_ascii ascii_only_def)
  ultimately show ?thesis by (simp add: ToUpper_def utf8_Valid_runes_string_id toy_web_facts)
qed

lemma toy_secret: "viper_GetString toy_web DefaultHMACSecretKey t = ''secret''"
  by (simp add: toy_web_facts toy_env_def crypto.defs jwt_env.defs DefaultAlgorithmKey_def DefaultHMACSecretKey_def)

lemma toy_configured: "NewConfiguredService toy_web None t = (Inr toy_service, t)"
  by (simp add: NewConfiguredService_def toy_algorithm NewHMACService_def toy_secret service_with_def jwt_New_def WithHMACSHA256_def
      toy_service_def toy_web_facts(3))

lemma segment_chars: "list_all (\<lambda>b. graphic b \<and> validCookieValueByte b) (encodeSegment v)"
proof -
  have "list_all (\<lambda>b. graphic b \<and> validCookieValueByte b) url_alphabet"
    by (simp add: url_alphabet_def graphic_def validCookieValueByte_def)
  moreover have "c \<in> set url_alphabet" if "c \<in> set (encodeSegment v)" for c
    using that unfolding encodeSegment_def rawurl_EncodeToString_def by (rule b64_encode_alphabet[OF alphabets(2)])
  ultimately show ?thesis by (simp add: list_all_iff)
qed

text \<open>The token of a client, and the request that carries it.\<close>

lemma web_token:
  "\<exists>token tok. list_all (\<lambda>b. graphic b \<and> validCookieValueByte b) token \<and> token \<noteq> [] \<and> tk_Claims tok = window_claims 2000 1000
    \<and> parseAndValidate toy_web (Some toy_service) (contextFor toy_web (Some toy_service) (Some context_Background)) token 1500 = Some (Inr tok, 1500)"
proof -
  have "CreateWithContext toy_web (Some toy_service) None (Inr (window_claims 2000 1000)) 5 = Some (Inr (x @ ''.'' @ y @ ''.'' @ encodeSegment (hmac_SHA256 toy_web ''secret'' (x @ ''.'' @ y))), 5)"
    if "x = encodeSegment (header_json \<lparr>hd_Type = ''JWT'', hd_Algorithm = ''HS256''\<rparr>)" "y = encodeSegment (window_claims 2000 1000)" for x y
    using that by (simp add: CreateWithContext_def toy_service_def signStrategy_def hmac_SignContext_def contextFor_def or_background_def
        context_Background_def Let_def Algorithm_def)
  then obtain token where tok: "CreateWithContext toy_web (Some toy_service) None (Inr (window_claims 2000 1000)) 5 = Some (Inr token, 5)"
    "list_all (\<lambda>b. graphic b \<and> validCookieValueByte b) token" "token \<noteq> []"
    using segment_chars by (fastforce simp: graphic_def validCookieValueByte_def)
  have "key_pair toy_web (hmacSHA256Strategy ''secret'')" by (simp add: key_pair_def)
  moreover have "live (Some (contextFor toy_web (Some toy_service) (Some context_Background)))"
    by (simp add: toy_service_def contextFor_def or_background_def live_def context_Background_def)
  moreover have "validateRegisteredTimeClaims toy_web toy_service (window_claims 2000 1000) 1500 = None"
    using toy_facts(4) by (simp only: validateRegisteredTimeClaims_def toy_web_facts(3))
  ultimately show ?thesis
    using shipped_token_parses[OF toy_facts(1) _ tok(1), of "contextFor toy_web (Some toy_service) (Some context_Background)" 1500] tok(2,3) by fastforce
qed
lemma map_destination_window:
  "decode_claims (window_claims 2000 1000) = Inr [(''exp'', AFloat 2000), (''nbf'', AFloat 1000)]"
  by (simp add: decode_claims_def window_parse ParseFloat_decimal float64_of_int)

definition toy_request :: "string \<Rightarrow> gin_request" where
  "toy_request h = \<lparr>Cookie_lines = [], GetHeader = (\<lambda>k. if k = ''Authorization'' then h else []), Request_Context = context_Background\<rparr>"

lemma toy_served:
  "\<exists>token tok. tk_Claims tok = window_claims 2000 1000
    \<and> fst (RequireJWT toy_web [] 3) (toy_request (''Bearer '' @ token)) 1500
       = Some ([Set ''jwt.token'' (TokenValue tok), Set ''jwt.claims'' (ClaimsValue (ClaimsMap [(''exp'', AFloat 2000), (''nbf'', AFloat 1000)])),
           Next], 1500)"
proof -
  obtain token tok where t: "list_all (\<lambda>b. graphic b \<and> validCookieValueByte b) token" "token \<noteq> []" "tk_Claims tok = window_claims 2000 1000"
    "parseAndValidate toy_web (Some toy_service) (contextFor toy_web (Some toy_service) (Some context_Background)) token 1500 = Some (Inr tok, 1500)"
    using web_token by blast
  have "graphic (hd token)" "graphic (last token)" using t(1,2) by (simp_all add: list_all_iff)
  then have "TrimSpace token = token" using t(2) by (rule TrimSpace_graphic[rotated])
  then have x: "extractBearerToken (''Bearer '' @ token) ''Bearer '' = Inr token"
    using t(2) by (simp add: extractBearerToken_Inr HasPrefix_def TrimPrefix_def)
  have "RequireJWT toy_web [] 3 = (serve_JWT toy_web jwtMiddlewareDefaults (Some toy_service), 3)"
    by (simp add: RequireJWT_def toy_web_facts apply_options_def jwtMiddlewareDefaults_def newConfiguredJWTService_def jwtValidatorPtr_def toy_configured)
  then show ?thesis
    using t(3,4) x map_destination_window
    by (intro exI[of _ token] exI[of _ tok]) (simp add: serve_JWT_def toy_request_def jwtMiddlewareDefaults_def defaultAuthorizationHeader_def
        defaultBearerPrefix_def new_claims_def respond_def Decode_def toy_service_def JWTTokenContextKey_def JWTClaimsContextKey_def)
qed

subsection \<open>Properties\<close>

text \<open>
  C36: Behind \<open>RequireJWT\<close> with a configured HS256 service, whatever the options, as long as the handler for refusals aborts: a
  protected handler runs only for a request whose header is the prefix and a token with the HMAC of its first two segments
  under the configured secret, and that token and its claims are what the handler finds in the context.\<close>
theorem protected_needs_signature:
  assumes "gin_law reaches" "\<not> jwt_disabled E t0" "config = apply_options options jwtMiddlewareDefaults"
    and "config_service config = None" "ToUpper (TrimSpace (viper_GetString E DefaultAlgorithmKey t0)) = ''HS256''"
    and "always_aborts (unauthorizedHandler config)"
    and "fst (RequireJWT E options t0) req t = Some (calls, u)" "reaches calls"
  shows "\<exists>tok c p0 p1 p2. calls = [Set (tokenContextKey config) (TokenValue tok), Set (claimsContextKey config) (ClaimsValue c), Next]
    \<and> HasPrefix (GetHeader req (headerName config)) (bearerPrefix config)
    \<and> TrimSpace (TrimPrefix (GetHeader req (headerName config)) (bearerPrefix config)) = p0 @ ''.'' @ p1 @ ''.'' @ p2
    \<and> decodeSegment p2 = Inr (hmac_SHA256 E (viper_GetString E DefaultHMACSecretKey t0) (p0 @ ''.'' @ p1))
    \<and> viper_GetString E DefaultHMACSecretKey t0 \<noteq> [] \<and> parse_header p0 = Inr (tk_Header tok)
    \<and> hd_Algorithm (tk_Header tok) = ''HS256'' \<and> decodeSegment p1 = Inr (tk_Claims tok)"
proof -
  have r: "\<not> aborts calls" using assms(1,8) by (simp add: gin_law_def)
  from assms(2,4,3) show ?thesis
  proof (cases rule: RequireJWT_cases)
    case (1 e t1)
    then show ?thesis using assms(6,7) r by (auto dest: always_abortsD)
  next
    case (2 s t1)
    then obtain tok c where acc: "bearer_accepted E config s req t tok c u"
      "calls = [Set (tokenContextKey config) (TokenValue tok), Set (claimsContextKey config) (ClaimsValue c), Next]"
      using bearer.reached_accepted[OF assms(6) _ r] assms(7) by (metis fst_conv)
    then obtain token stored destination t1 where
      "extractBearerToken (GetHeader req (headerName config)) (bearerPrefix config) = Inr token"
      "Decode E (Some s) (Some (Request_Context req)) token destination [] t1 = Some (Inr tok, u)"
      unfolding bearer_accepted_def by blast
    then show ?thesis
      using HS256_Decode[OF configured_HS256(1)[OF assms(5) 2(1)]] acc(2) by (simp add: extractBearerToken_Inr) blast
  qed
qed

theorem protected_needs_signature_witness:
  "\<exists>h calls p0 p1 p2. (fst (RequireJWT toy_web [] 3) (toy_request h) 1500 = Some (calls, 1500) \<and> \<not> aborts calls)
    \<and> TrimSpace (TrimPrefix h ''Bearer '') = p0 @ ''.'' @ p1 @ ''.'' @ p2
    \<and> decodeSegment p2 = Inr (hmac_SHA256 toy_web ''secret'' (p0 @ ''.'' @ p1))"
proof -
  obtain token calls where s: "fst (RequireJWT toy_web [] 3) (toy_request (''Bearer '' @ token)) 1500 = Some (calls, 1500)" "\<not> aborts calls"
    using toy_served admitted_not_aborts by metis
  have "gin_law (\<lambda>calls. \<not> aborts calls)" by (simp add: gin_law_def)
  from protected_needs_signature[OF this toy_web_facts(2) refl _ toy_algorithm _ s]
  obtain p0 p1 p2 where "TrimSpace (TrimPrefix (''Bearer '' @ token) ''Bearer '') = p0 @ ''.'' @ p1 @ ''.'' @ p2"
    "decodeSegment p2 = Inr (hmac_SHA256 toy_web ''secret'' (p0 @ ''.'' @ p1))"
    by (auto simp: apply_options_def jwtMiddlewareDefaults_def toy_secret toy_request_def defaultAuthorizationHeader_def defaultBearerPrefix_def)
  with s show ?thesis by blast
qed
text \<open>
  C40: The handler for refusals decides alone: one that responds without aborting lets a request that carries no token at all reach
  the protected handler, whatever the keys, the validator and the other options are.\<close>
theorem refusal_without_abort_reaches:
  assumes "gin_law reaches" "\<not> jwt_disabled E t0" "config = apply_options options jwtMiddlewareDefaults"
    and "GetHeader req (headerName config) = []"
    and "\<And>e w. \<exists>calls u. unauthorizedHandler config e req w = Some (calls, u) \<and> \<not> aborts calls"
  shows "\<exists>calls u. fst (RequireJWT E options t0) req t = Some (calls, u) \<and> reaches calls"
proof -
  have "\<exists>e. fst (RequireJWT E options t0) req t = unauthorizedHandler config e req t"
  proof (cases "config_service config")
    case None
    with assms(2) show ?thesis using assms(3)
      by (cases rule: RequireJWT_cases) (use assms(4) in \<open>auto simp: serve_JWT_def extractBearerToken_def\<close>)
  next
    case (Some s)
    then show ?thesis using assms(2-4) by (auto simp: RequireJWT_def serve_JWT_def extractBearerToken_def Let_def)
  qed
  then show ?thesis using assms(1,5) unfolding gin_law_def by metis
qed

theorem refusal_without_abort_reaches_witness:
  "\<exists>calls u. fst (RequireJWT toy_web [Some (WithJWTUnauthorizedHandler (Some (\<lambda>e req t. Some ([Respond 401 ''denied''], t))))] 3) (toy_request []) 9
    = Some (calls, u) \<and> \<not> aborts calls"
  by (rule refusal_without_abort_reaches[OF _ toy_web_facts(2) refl])
    (auto simp: gin_law_def apply_options_def jwtMiddlewareDefaults_def toy_request_def WithJWTUnauthorizedHandler_def aborts_def is_abort_def)

subsection \<open>Claims\<close>

lemma update_members:
  "distinct (map fst m) \<Longrightarrow> distinct (map fst (fold (\<lambda>(k, x). AList.update k x) xs m))
    \<and> (\<forall>k. map_of (fold (\<lambda>(k, x). AList.update k x) xs m) k = (case map_of (rev xs) k of None \<Rightarrow> map_of m k | Some x \<Rightarrow> Some x))"
proof (induction xs arbitrary: m)
  case (Cons p xs)
  obtain k x where p: "p = (k, x)" by force
  have "distinct (map fst (AList.update k x m))" using Cons.prems by (rule distinct_update)
  from Cons.IH[OF this] show ?case by (auto simp: p update_conv map_add_def split: option.splits)
qed simp

lemma case_option_same: "(case r of None \<Rightarrow> map_of [] k | Some x \<Rightarrow> Some x) = r"
  by (cases r) simp_all

lemma those_Some: "those xs = Some ys \<longleftrightarrow> xs = map Some ys"
  by (induction xs arbitrary: ys) (auto split: option.splits simp: map_eq_Cons_conv Cons_eq_map_conv)

lemma members_decoded:
  assumes "those (map (\<lambda>(k, raw, v). map_option (Pair k) (decode_any v)) ms) = Some xs"
  shows "map_of (rev xs) k = Option.bind (map_of (rev (map (\<lambda>(k, raw, v). (k, v)) ms)) k) decode_any"
    and "\<And>k raw v. (k, raw, v) \<in> set ms \<Longrightarrow> decode_any v \<noteq> None"
proof -
  have e: "map (\<lambda>(k, raw, v). map_option (Pair k) (decode_any v)) ms = map Some xs" using assms by (simp add: those_Some)
  then show "map_of (rev xs) k = Option.bind (map_of (rev (map (\<lambda>(k, raw, v). (k, v)) ms)) k) decode_any"
  proof (induction ms arbitrary: xs rule: rev_induct)
    case (snoc m ms)
    then show ?case by (cases xs rule: rev_cases) (auto split: prod.splits)
  qed simp
  show "decode_any v \<noteq> None" if "(k, raw, v) \<in> set ms" for k raw v
  proof
    assume "decode_any v = None"
    then have "None \<in> set (map (\<lambda>(k, raw, v). map_option (Pair k) (decode_any v)) ms)" using that by force
    then show False unfolding e by auto
  qed
qed

lemma decode_claims_Inr:
  assumes "decode_claims s = Inr m"
  shows "json_parse s = Some JNull \<and> m = []
    \<or> (\<exists>ms. json_parse s = Some (JObject ms) \<and> distinct (map fst m)
        \<and> (\<forall>k. map_of m k = Option.bind (map_of (rev (map (\<lambda>(k, raw, v). (k, v)) ms)) k) decode_any))"
proof (cases "json_parse s")
  case (Some v)
  show ?thesis
  proof (cases v)
    case (JObject ms)
    then obtain xs where xs: "those (map (\<lambda>(k, raw, v). map_option (Pair k) (decode_any v)) ms) = Some xs"
      "m = fold (\<lambda>(k, x). AList.update k x) xs []"
      using assms Some by (auto simp: decode_claims_def split: option.splits)
    have "distinct (map fst m)" "\<And>k. map_of m k = map_of (rev xs) k"
      using update_members[of "[]" xs] by (simp_all add: xs(2) case_option_same)
    then show ?thesis using Some JObject members_decoded(1)[OF xs(1)] by simp
  qed (use assms Some in \<open>auto simp: decode_claims_def\<close>)
qed (use assms in \<open>simp add: decode_claims_def\<close>)

subsection \<open>Cookies\<close>

text \<open>The line a client sends for its cookies, RFC 6265, section 5.4.\<close>

definition cookie_line :: "(string \<times> string) list \<Rightarrow> string" where
  "cookie_line cs = Go_Strings.Join (map (\<lambda>(n, v). n @ ''='' @ v) cs) ''; ''"

definition sendable :: "string \<times> string \<Rightarrow> bool" where
  "sendable c \<longleftrightarrow> isToken (fst c) \<and> list_all (\<lambda>b. graphic b \<and> validCookieValueByte b) (snd c)"

lemma TrimString_id:
  assumes "s \<noteq> []" "\<not> is_ws (hd s)" "\<not> is_ws (last s)"
  shows "TrimString s = s"
proof -
  have "dropWhile is_ws s = s" using assms(1,2) by (cases s) auto
  moreover have "dropWhile is_ws (rev s) = rev s" using assms(1,3) by (cases s rule: rev_cases) auto
  ultimately show ?thesis by (simp add: TrimString_def)
qed

lemma TrimString_space: "TrimString (CHR '' '' # s) = TrimString s"
  by (simp add: TrimString_def is_ws_def)

lemma token_char_graphic: "token_char c \<Longrightarrow> graphic c \<and> c \<noteq> CHR ''='' \<and> c \<noteq> CHR '';''"
  by (auto simp: token_char_def graphic_def is_digit_def)

lemma graphic_not_ws: "graphic c \<Longrightarrow> \<not> is_ws c"
  by (auto simp: graphic_def is_ws_def)

lemma sendable_part:
  assumes "sendable (n, v)"
  shows "TrimString (n @ ''='' @ v) = n @ ''='' @ v" "CHR '';'' \<notin> set (n @ ''='' @ v)" "TrimString n = n" "parseCookieValue v = Some v"
proof -
  have n: "n \<noteq> []" "\<And>c. c \<in> set n \<Longrightarrow> graphic c \<and> c \<noteq> CHR ''='' \<and> c \<noteq> CHR '';''"
    using assms token_char_graphic by (auto simp: sendable_def isToken_def list_all_iff)
  have v: "\<And>c. c \<in> set v \<Longrightarrow> graphic c \<and> validCookieValueByte c" using assms by (simp add: sendable_def list_all_iff)
  have eq: "\<not> is_ws (CHR ''='')" by (simp add: is_ws_def)
  show "TrimString (n @ ''='' @ v) = n @ ''='' @ v"
  proof (rule TrimString_id)
    show "\<not> is_ws (hd (n @ ''='' @ v))" using n graphic_not_ws by (cases n) auto
    show "\<not> is_ws (last (n @ ''='' @ v))" using v graphic_not_ws eq by (cases v rule: rev_cases) auto
  qed simp
  show "CHR '';'' \<notin> set (n @ ''='' @ v)" using n(2) v by (auto simp: validCookieValueByte_def)
  show "TrimString n = n" using n graphic_not_ws by (intro TrimString_id) auto
  have "hd v \<noteq> dquote" if "v \<noteq> []" using v[of "hd v"] that by (auto simp: validCookieValueByte_def)
  then show "parseCookieValue v = Some v" using v by (cases v) (auto simp: parseCookieValue_def list_all_iff)
qed

lemma read_sendable:
  assumes "sendable (n, v)" "f \<noteq> []"
  shows "read_part f (n @ ''='' @ v) = (if n = f then Some (n, v) else None)"
    "read_part f (CHR '' '' # n @ ''='' @ v) = (if n = f then Some (n, v) else None)"
proof -
  have "isToken n" using assms by (simp add: sendable_def)
  moreover from this have "CHR ''='' \<notin> set n" using token_char_graphic by (auto simp: isToken_def list_all_iff)
  ultimately show "read_part f (n @ ''='' @ v) = (if n = f then Some (n, v) else None)"
    using sendable_part[OF assms(1)] assms(2) Cut_append[of "CHR ''=''" n v] by (auto simp: read_part_def Let_def)
  then show "read_part f (CHR '' '' # n @ ''='' @ v) = (if n = f then Some (n, v) else None)"
    by (simp add: read_part_def TrimString_space)
qed

lemma Split_space: "Split (CHR '';'') (CHR '' '' # s) = (CHR '' '' # hd (Split (CHR '';'') s)) # tl (Split (CHR '';'') s)"
  by (cases "Split (CHR '';'') s") (auto simp: Split_not_Nil)

lemma read_line:
  assumes "list_all sendable cs" "f \<noteq> []" "cs \<noteq> []"
  shows "List.map_filter (read_part f) (Split (CHR '';'') (cookie_line cs)) = filter (\<lambda>c. fst c = f) cs"
    and "List.map_filter (read_part f) (Split (CHR '';'') (CHR '' '' # cookie_line cs)) = filter (\<lambda>c. fst c = f) cs"
proof -
  have "List.map_filter (read_part f) (Split (CHR '';'') (cookie_line cs)) = filter (\<lambda>c. fst c = f) cs
    \<and> List.map_filter (read_part f) (Split (CHR '';'') (CHR '' '' # cookie_line cs)) = filter (\<lambda>c. fst c = f) cs"
    using assms(1,3)
  proof (induction cs)
    case (Cons c cs)
    obtain n v where c: "c = (n, v)" by force
    note p = sendable_part[of n v] read_sendable[of n v f]
    have s: "sendable (n, v)" using Cons.prems c by simp
    have sp: "CHR '';'' \<notin> set (CHR '' '' # n @ ''='' @ v)" using p(2)[OF s] by simp
    show ?case
    proof (cases cs)
      case Nil
      then show ?thesis using p(5,6)[OF s assms(2)] Split_notin[OF p(2)[OF s]] Split_notin[OF sp]
        by (cases "n = f") (simp_all add: c cookie_line_def List.map_filter_def del: Split.simps)
    next
      case (Cons d ds)
      have l: "cookie_line (c # cs) = (n @ ''='' @ v) @ CHR '';'' # CHR '' '' # cookie_line cs"
        by (simp add: c Cons cookie_line_def)
      have "Split (CHR '';'') (cookie_line (c # cs)) = (n @ ''='' @ v) # Split (CHR '';'') (CHR '' '' # cookie_line cs)"
        unfolding l by (rule Split_append[OF p(2)[OF s]])
      moreover have "Split (CHR '';'') (CHR '' '' # cookie_line (c # cs)) = (CHR '' '' # n @ ''='' @ v) # Split (CHR '';'') (CHR '' '' # cookie_line cs)"
        unfolding l using Split_append[OF sp] by simp
      ultimately show ?thesis using Cons.IH Cons p(5,6)[OF s assms(2)] Cons.prems c
        by (cases "n = f") (simp_all add: List.map_filter_def del: Split.simps)
    qed
  qed simp
  then show "List.map_filter (read_part f) (Split (CHR '';'') (cookie_line cs)) = filter (\<lambda>c. fst c = f) cs"
    "List.map_filter (read_part f) (Split (CHR '';'') (CHR '' '' # cookie_line cs)) = filter (\<lambda>c. fst c = f) cs" by blast+
qed
definition count_semicolons :: "string \<Rightarrow> nat" where
  "count_semicolons s = length (filter (\<lambda>c. c = CHR '';'') s)"

lemma cookie_line_count: "list_all sendable cs \<Longrightarrow> cs \<noteq> [] \<Longrightarrow> count_semicolons (cookie_line cs) + 1 = length cs"
proof (induction cs)
  case (Cons c cs)
  obtain n v where c: "c = (n, v)" by force
  then have "CHR '';'' \<notin> set (n @ ''='' @ v)" using Cons.prems sendable_part(2)[of n v] by simp
  then have z: "count_semicolons (n @ ''='' @ v) = 0" by (auto simp: count_semicolons_def filter_empty_conv)
  show ?case
  proof (cases cs)
    case Nil
    then show ?thesis using z by (simp add: c cookie_line_def)
  next
    case (Cons d ds)
    then have "cookie_line (c # cs) = (n @ ''='' @ v) @ CHR '';'' # CHR '' '' # cookie_line cs" by (simp add: c cookie_line_def)
    then have "count_semicolons (cookie_line (c # cs)) = count_semicolons (n @ ''='' @ v) + 1 + count_semicolons (cookie_line cs)"
      by (simp add: count_semicolons_def)
    then show ?thesis using z Cons Cons.prems \<open>list_all sendable cs \<Longrightarrow> cs \<noteq> [] \<Longrightarrow> count_semicolons (cookie_line cs) + 1 = length cs\<close> by simp
  qed
qed simp

lemma TrimString_line:
  assumes "list_all sendable cs" "cs \<noteq> []"
  shows "TrimString (cookie_line cs) = cookie_line cs"
proof -
  have ends: "\<exists>a b. cookie_line cs = a # b \<and> graphic a" if a: "list_all sendable cs" and b: "cs \<noteq> []" for cs
  proof -
    obtain n v ds where c: "cs = (n, v) # ds" using b by (metis neq_Nil_conv surj_pair)
    then obtain x y where "n = x # y" "token_char x" using a by (cases n) (auto simp: sendable_def isToken_def)
    then show ?thesis using token_char_graphic by (cases ds) (auto simp: c cookie_line_def)
  qed
  have last: "\<exists>a b. cookie_line cs = a @ [b] \<and> graphic b" if "list_all sendable cs" "cs \<noteq> []"
    using that
  proof (induction cs)
    case (Cons c cs)
    show ?case
    proof (cases cs)
      case Nil
      obtain n v where c: "c = (n, v)" by force
      have "graphic (CHR ''='')" by (simp add: graphic_def)
      then show ?thesis using Cons.prems Nil
        by (cases v rule: rev_cases) (auto simp: c cookie_line_def sendable_def)
    next
      case (Cons d ds)
      then obtain a b where "cookie_line cs = a @ [b]" "graphic b" using Cons.IH Cons.prems by auto
      moreover have "cookie_line (c # cs) = (fst c @ ''='' @ snd c) @ ''; '' @ cookie_line cs"
        using Cons by (simp add: cookie_line_def case_prod_unfold)
      ultimately show ?thesis by (metis append.assoc)
    qed
  qed simp
  obtain x y where x: "cookie_line cs = x # y" "graphic x" using ends[OF assms] by blast
  obtain u w where u: "cookie_line cs = u @ [w]" "graphic w" using last[OF assms] by blast
  show ?thesis
  proof (rule TrimString_id)
    show "\<not> is_ws (hd (cookie_line cs))" using x(2) by (simp add: x(1) graphic_not_ws)
    show "\<not> is_ws (last (cookie_line cs))" using u(2) by (simp add: u(1) graphic_not_ws)
  qed (simp add: x(1))
qed

text \<open>
  From the line a client sends for its cookies the service takes the first cookie of the configured name, exact to the byte, and
  finds none when there is none; other cookies do not matter.
\<close>

lemma TokenFromRequest_line:
  assumes "list_all sendable cs" "cs \<noteq> []" "length cs \<le> 3000" "jwtService s = Some j" "cookieName s \<noteq> []"
    and "\<And>v. map_of cs (cookieName s) = Some v \<Longrightarrow> v \<noteq> []"
  shows "TokenFromRequest (Some s) (Some \<lparr>Cookie_lines = [cookie_line cs]\<rparr>)
    = (case map_of cs (cookieName s) of None \<Rightarrow> Inl ErrMissingCookie | Some token \<Rightarrow> Inr token)"
proof -
  have f: "filter (\<lambda>c. fst c = x) cs = [] \<longleftrightarrow> map_of cs x = None" "filter (\<lambda>c. fst c = x) cs = c # r \<Longrightarrow> map_of cs x = Some (snd c)" for x c r
    by (induction cs) (auto split: if_splits)
  have "readCookies [cookie_line cs] (cookieName s) = filter (\<lambda>c. fst c = cookieName s) cs"
    using cookie_line_count[OF assms(1,2)] assms(3) read_line(1)[OF assms(1,5,2)] TrimString_line[OF assms(1,2)]
    by (simp add: readCookies_def cookieMaxNum_def count_semicolons_def)
  then have r: "Request_Cookie \<lparr>Cookie_lines = [cookie_line cs]\<rparr> (cookieName s)
    = (case map_of cs (cookieName s) of None \<Rightarrow> Inl ErrNoCookie | Some v \<Rightarrow> Inr v)"
    using assms(5) f[of "cookieName s"] by (auto simp: Request_Cookie_def split: list.splits option.splits)
  have "TrimSpace v = v" if "map_of cs (cookieName s) = Some v" for v
  proof -
    have "(cookieName s, v) \<in> set cs" using that by (rule map_of_SomeD)
    then have "list_all graphic v" using assms(1) by (auto simp: list_all_iff sendable_def)
    then show ?thesis using assms(6)[OF that] by (intro TrimSpace_graphic) (auto simp: list_all_iff)
  qed
  moreover have "errors_Is ErrNoCookie ErrNoCookie" by (simp add: ErrNoCookie_def)
  ultimately show ?thesis using r assms(4,6) by (auto simp: TokenFromRequest_def Let_def split: option.splits)
qed

subsection \<open>Interceptors\<close>

text \<open>What \<open>authenticate\<close> admits.\<close>

lemma authenticate_Inr:
  assumes "authenticate E config ctx t = Some (Inr authCtx, config', u)"
  obtains s token stored destination tok w where
    "tokenFromIncomingMetadata ctx (metadataName config') (rpc_bearerPrefix config') = Inr token"
    "rpc_service config' = Some s" "serviceErr config' = None" "service_resolved config'"
    "Decode E (Some s) (Some (ends ctx)) token destination [] w = Some (Inr tok, u)"
    "JWTTokenFromContext authCtx = Some tok" "map_of (ctx_values authCtx) jwtClaimsContextKey = Some (ClaimsValue (stored tok))"
    "ends authCtx = ends ctx" "incoming authCtx = incoming ctx"
  using assms
  by (auto simp: authenticate_def resolveService_def WithValue_def JWTTokenFromContext_def jwtTokenContextKey_def jwtClaimsContextKey_def
      split: option.splits prod.splits sum.splits if_splits)

text \<open>A configuration whose service is there keeps it.\<close>

lemma resolved_kept:
  assumes "service_resolved config"
  shows "resolveService config t = Some ((rpc_service config, serviceErr config), config, t)"
    and "authenticate E config ctx t = Some (r, config', u) \<Longrightarrow> config' = config"
  using assms by (auto simp: resolveService_def authenticate_def split: option.splits prod.splits sum.splits)

lemma failed_kept:
  assumes "service_resolved config" "serviceErr config = Some e" "\<not> jwt_disabled E t"
  shows "RequireJWTUnaryServerInterceptor E config ctx req handler t = Some (Inl (Status Unauthenticated e), config, t)"
  using assms by (simp add: RequireJWTUnaryServerInterceptor_def authenticate_def resolveService_def grpcJWTError_def)

text \<open>Calls one after another; before each, the world changes as it likes.\<close>

fun serve_calls ::
    "('t, 'm) web_env_scheme \<Rightarrow> ('t, 'q, 'r) UnaryHandler \<Rightarrow> 't jwtGRPCConfig \<Rightarrow> (('t \<Rightarrow> 't) \<times> rpc_ctx \<times> 'q) list \<Rightarrow> 't
     \<Rightarrow> ((rpc_error + 'r) list \<times> 't jwtGRPCConfig \<times> 't) option" where
  "serve_calls E handler config [] t = Some ([], config, t)"
| "serve_calls E handler config ((change, ctx, req) # cs) t =
     (case RequireJWTUnaryServerInterceptor E config ctx req handler (change t) of None \<Rightarrow> None
      | Some (r, config, t) \<Rightarrow> map_option (\<lambda>(rs, config, t). (r # rs, config, t)) (serve_calls E handler config cs t))"

lemma failed_calls:
  assumes "service_resolved config" "serviceErr config = Some e" "\<And>w. \<not> jwt_disabled E w"
  shows "serve_calls E handler config cs t
    = Some (replicate (length cs) (Inl (Status Unauthenticated e)), config, fold (\<lambda>c. fst c) cs t)"
proof (induction cs arbitrary: t)
  case (Cons c cs)
  obtain change ctx req where "c = (change, ctx, req)" by (cases c)
  then show ?case using Cons.IH assms by (simp add: failed_kept)
qed simp

text \<open>
  One attempt to build the service is all there is: when the first call of an interceptor finds a configuration its service
  cannot be built from, every later call is refused with the same error, whatever the configuration and the tokens are by then,
  and no handler ever runs.\<close>
theorem failed_service_is_final:
  assumes "\<And>w. \<not> jwt_disabled E w" "\<not> service_resolved config"
    and "serviceFactory config (jwtValidatorPtr (rpc_validator config)) (change t) = Some ((s, Some e), u)"
  shows "\<exists>config'. serve_calls E handler config ((change, ctx, req) # cs) t
    = Some (replicate (Suc (length cs)) (Inl (Status Unauthenticated e)), config', fold (\<lambda>c. fst c) cs u)"
proof -
  let ?c = "config\<lparr>service_resolved := True, rpc_service := s, serviceErr := Some e\<rparr>"
  have "RequireJWTUnaryServerInterceptor E config ctx req handler (change t) = Some (Inl (Status Unauthenticated e), ?c, u)"
    using assms by (simp add: RequireJWTUnaryServerInterceptor_def authenticate_def resolveService_def grpcJWTError_def)
  then show ?thesis using failed_calls[of ?c e E handler cs u] assms(1) by simp
qed

text \<open>
  C38: A handler behind an interceptor runs only for a call whose first \<^verbatim>\<open>authorization\<close> value is the prefix and a token the service
  accepts, with that token in its context; every other call is answered \<^verbatim>\<open>Unauthenticated\<close>, for unary calls and streams alike.\<close>
theorem interceptor_admits:
  assumes "\<not> jwt_disabled E t" "RequireJWTUnaryServerInterceptor E config ctx req handler t = Some (r, config', u)"
    and "RequireJWTStreamServerInterceptor E config req \<lparr>ServerStream = x, stream_Context = ctx\<rparr> shandler t = Some (sr, sconfig, su)"
  shows "(\<exists>e. r = Inl (Status 16 e) \<and> sr = Some (Status 16 e) \<and> su = u)
    \<or> (\<exists>s value rest token destination tok authCtx w w'.
          Option.bind (incoming ctx) (\<lambda>md. Some (md (map lower_char (TrimSpace (metadataName config'))))) = Some (value # rest)
        \<and> extractBearerToken value (rpc_bearerPrefix config') = Inr token \<and> rpc_service config' = Some s
        \<and> Decode E (Some s) (Some (ends ctx)) token destination [] w = Some (Inr tok, w') \<and> JWTTokenFromContext authCtx = Some tok
        \<and> handler authCtx req w' = Some (r, u)
        \<and> shandler req \<lparr>ServerStream = x, stream_Context = authCtx\<rparr> w' = Some (sr, su))"
proof -
  obtain a c v where a: "authenticate E config ctx t = Some (a, c, v)"
    using assms(1,2) by (cases "authenticate E config ctx t") (auto simp: RequireJWTUnaryServerInterceptor_def)
  show ?thesis
  proof (cases a)
    case (Inl e)
    then show ?thesis using a assms
      by (auto simp: RequireJWTUnaryServerInterceptor_def RequireJWTStreamServerInterceptor_def grpcJWTError_def Unauthenticated_def)
  next
    case (Inr authCtx)
    have h: "config' = c" "handler authCtx req v = Some (r, u)"
      "shandler req \<lparr>ServerStream = x, stream_Context = authCtx\<rparr> v = Some (sr, su)"
      using a Inr assms by (auto simp: RequireJWTUnaryServerInterceptor_def RequireJWTStreamServerInterceptor_def jwtServerStream_def)
    from a Inr have "authenticate E config ctx t = Some (Inr authCtx, c, v)" by simp
    then show ?thesis
    proof (rule authenticate_Inr)
      fix s token stored destination tok w
      assume *: "tokenFromIncomingMetadata ctx (metadataName c) (rpc_bearerPrefix c) = Inr token" "rpc_service c = Some s"
        "Decode E (Some s) (Some (ends ctx)) token destination [] w = Some (Inr tok, v)" "JWTTokenFromContext authCtx = Some tok"
      from *(1) obtain md va rest where "incoming ctx = Some md" "md (map lower_char (TrimSpace (metadataName c))) = va # rest"
        "extractBearerToken va (rpc_bearerPrefix c) = Inr token"
        by (auto simp: tokenFromIncomingMetadata_def split: option.splits list.splits)
      then show ?thesis using *(2-4) h by (intro disjI2) (simp, blast)
    qed
  qed
qed

text \<open>A factory that knows no key, as the configuration gives it while \<^verbatim>\<open>jwt.algorithm\<close> is missing.\<close>

definition toy_rpc :: "nat jwtGRPCConfig" where
  "toy_rpc = newJWTGRPCConfig toy_web [Some (WithGRPCJWTServiceFactory (Some (\<lambda>v t. if t < 9 then Some ((None, Some ErrMissingAlgorithm), t)
     else configured_factory toy_web v t)))]"

lemma toy_rpc_facts:
  "serviceFactory toy_rpc v t = (if t < 9 then Some ((None, Some ErrMissingAlgorithm), t) else configured_factory toy_web v t)"
  "\<not> service_resolved toy_rpc" "rpc_bearerPrefix toy_rpc = ''Bearer ''" "rpc_claimsFactory toy_rpc = None" "rpc_validator toy_rpc = None"
  by (simp_all add: toy_rpc_def newJWTGRPCConfig_def apply_options_def WithGRPCJWTServiceFactory_def defaultBearerPrefix_def)

theorem failed_service_is_final_witness:
  "\<exists>config'. serve_calls toy_web (\<lambda>ctx req t. Some (Inr req, t)) toy_rpc
     [(\<lambda>t. t, \<lparr>ends = context_Background, incoming = None, ctx_values = []\<rparr>, 1 :: nat),
      (\<lambda>t. 1500, \<lparr>ends = context_Background, incoming = None, ctx_values = []\<rparr>, 2)] 3
    = Some (replicate (Suc 1) (Inl (Status Unauthenticated ErrMissingAlgorithm)), config', 1500)"
  using failed_service_is_final[of toy_web toy_rpc "\<lambda>t. t" 3 None ErrMissingAlgorithm 3 "\<lambda>ctx req t. Some (Inr req, t)"
      "\<lparr>ends = context_Background, incoming = None, ctx_values = []\<rparr>" "1 :: nat"
      "[(\<lambda>t. 1500, \<lparr>ends = context_Background, incoming = None, ctx_values = []\<rparr>, 2)]"]
  by (simp add: toy_web_facts toy_rpc_facts)

theorem interceptor_admits_witness:
  "\<exists>token tok config' w. RequireJWTUnaryServerInterceptor toy_web toy_rpc
      \<lparr>ends = context_Background, incoming = Some (\<lambda>k. if k = ''authorization'' then [''Bearer '' @ token] else []), ctx_values = []\<rparr> ()
      (\<lambda>ctx req t. Some (Inr (JWTTokenFromContext ctx), t)) 1500 = Some (Inr (Some tok), config', 1500)
    \<and> (\<exists>destination. Decode toy_web (rpc_service config') (Some context_Background) token destination [] w = Some (Inr tok, 1500))"
proof -
  obtain token tok where t: "list_all (\<lambda>b. graphic b \<and> validCookieValueByte b) token" "token \<noteq> []" "tk_Claims tok = window_claims 2000 1000"
    "parseAndValidate toy_web (Some toy_service) (contextFor toy_web (Some toy_service) (Some context_Background)) token 1500 = Some (Inr tok, 1500)"
    using web_token by blast
  have "graphic (hd token)" "graphic (last token)" using t(1,2) by (simp_all add: list_all_iff)
  then have "TrimSpace token = token" using t(2) by (rule TrimSpace_graphic[rotated])
  then have x: "extractBearerToken (''Bearer '' @ token) ''Bearer '' = Inr token"
    using t(2) by (simp add: extractBearerToken_Inr HasPrefix_def TrimPrefix_def)
  let ?ctx = "\<lparr>ends = context_Background, incoming = Some (\<lambda>k. if k = ''authorization'' then [''Bearer '' @ token] else []), ctx_values = []\<rparr>"
  let ?c = "toy_rpc\<lparr>service_resolved := True, rpc_service := Some toy_service, serviceErr := None\<rparr>"
  have "metadataName toy_rpc = ''authorization''"
    by (simp add: toy_rpc_def newJWTGRPCConfig_def apply_options_def WithGRPCJWTServiceFactory_def defaultGRPCAuthorizationMetadata_def)
  moreover have "map lower_char (TrimSpace ''authorization'') = ''authorization''" by code_simp
  ultimately have "\<exists>authCtx. authenticate toy_web toy_rpc ?ctx 1500 = Some (Inr authCtx, ?c, 1500) \<and> JWTTokenFromContext authCtx = Some tok"
    using t(3,4) x map_destination_window
    by (simp add: authenticate_def resolveService_def toy_rpc_facts configured_factory_def newConfiguredJWTService_def jwtValidatorPtr_def
        toy_configured tokenFromIncomingMetadata_def new_claims_def Decode_def toy_service_def WithValue_def JWTTokenFromContext_def
        jwtTokenContextKey_def jwtClaimsContextKey_def)
  then have u: "RequireJWTUnaryServerInterceptor toy_web toy_rpc ?ctx () (\<lambda>ctx req t. Some (Inr (JWTTokenFromContext ctx), t)) 1500
      = Some (Inr (Some tok), ?c, 1500)"
    "RequireJWTStreamServerInterceptor toy_web toy_rpc () \<lparr>ServerStream = (), stream_Context = ?ctx\<rparr> (\<lambda>req s t. Some (None, t)) 1500
      = Some (None, ?c, 1500)"
    by (auto simp: RequireJWTUnaryServerInterceptor_def RequireJWTStreamServerInterceptor_def toy_web_facts)
  from interceptor_admits[OF toy_web_facts(2) u] obtain s va rest token' destination tok' authCtx w w' where
    "va # rest = [''Bearer '' @ token]" "extractBearerToken va ''Bearer '' = Inr token'" "rpc_service ?c = Some s"
    "Decode toy_web (Some s) (Some context_Background) token' destination [] w = Some (Inr tok', w')"
    "JWTTokenFromContext authCtx = Some tok'" "Some (Inr (JWTTokenFromContext authCtx) :: rpc_error + Token option, w') = Some (Inr (Some tok), 1500)"
    by (auto simp: \<open>metadataName toy_rpc = ''authorization''\<close> \<open>map lower_char (TrimSpace ''authorization'') = ''authorization''\<close> toy_rpc_facts)
  then have "\<exists>destination w. Decode toy_web (rpc_service ?c) (Some context_Background) token destination [] w = Some (Inr tok, 1500)"
    using x by auto
  with u(1) show ?thesis by blast
qed
subsection \<open>The cookie's token\<close>

lemma configured_cookieName_trimmed:
  "TrimSpace (configured_cookieName E input t) = configured_cookieName E input t" "configured_cookieName E input t \<noteq> []"
proof -
  have "TrimSpace DefaultCookieName = DefaultCookieName" unfolding DefaultCookieName_def by code_simp
  moreover have "DefaultCookieName \<noteq> []" by (simp add: DefaultCookieName_def)
  ultimately show "TrimSpace (configured_cookieName E input t) = configured_cookieName E input t" "configured_cookieName E input t \<noteq> []"
    by (simp_all add: configured_cookieName_def Let_def)
qed

lemma cookies_configured:
  assumes "cookies_NewConfiguredService E input t = (Inr cs, u)"
  obtains s where "NewConfiguredService E (jwtValidatorPtr (in_Validator (in_JWT input))) (applyJWTConfig E (in_JWT input) t) = (Inr s, u)"
    "jwtService cs = Some s" "cookieName cs = configured_cookieName E input u"
  using assms by (auto simp: cookies_NewConfiguredService_def cookies_New_def cookies_WithJWTService_def WithCookieName_def Let_def
      sum_bind_Inr_iff configured_cookieName_trimmed split: prod.splits sum.splits if_splits)

lemma TokenFromRequest_Inr:
  assumes "TokenFromRequest (Some cs) (Some r) = Inr token"
  obtains v where "Request_Cookie r (cookieName cs) = Inr v" "TrimSpace v = token"
  using assms by (auto simp: TokenFromRequest_def Let_def split: sum.splits if_splits)


definition toy_cookie_request :: "string \<Rightarrow> gin_request" where
  "toy_cookie_request token = http_Request.extend \<lparr>Cookie_lines = [cookie_line [(''access_token'', token)]]\<rparr>
     (gin_request.fields (\<lambda>k. []) context_Background)"

lemma toy_cookie_served:
  "\<exists>token tok. tk_Claims tok = window_claims 2000 1000
    \<and> fst (RequireJWTCookie toy_web [] 3) (toy_cookie_request token) 1500
       = Some ([Set ''jwt.token'' (TokenValue tok), Set ''jwt.claims'' (ClaimsValue (ClaimsMap [(''exp'', AFloat 2000), (''nbf'', AFloat 1000)])),
           Next], 1500)"
proof -
  let ?cs = "\<lparr>jwtService = Some toy_service, cookieName = ''access_token''\<rparr>"
  obtain token tok where t: "list_all (\<lambda>b. graphic b \<and> validCookieValueByte b) token" "token \<noteq> []" "tk_Claims tok = window_claims 2000 1000"
    "parseAndValidate toy_web (Some toy_service) (contextFor toy_web (Some toy_service) (Some context_Background)) token 1500 = Some (Inr tok, 1500)"
    using web_token by blast
  have "list_all sendable [(''access_token'', token)]" using t(1) by (simp add: sendable_def isToken_def token_char_def is_digit_def)
  from TokenFromRequest_line[OF this, of ?cs toy_service] t(2)
  have tk: "TokenFromRequest (Some ?cs) (Some (http_Request.truncate (toy_cookie_request token))) = Inr token"
    by (simp add: toy_cookie_request_def http_Request.defs split: if_splits)
  have n: "TrimSpace ''access_token'' = ''access_token''" by code_simp
  have "viper_GetString toy_web DefaultCookieNameKey 3 = []"
    by (simp add: toy_web_facts toy_env_def crypto.defs jwt_env.defs DefaultAlgorithmKey_def DefaultHMACSecretKey_def DefaultCookieNameKey_def)
  then have "cookies_NewConfiguredService toy_web zero_ConfigServiceInput 3 = (Inr ?cs, 3)"
    by (simp add: cookies_NewConfiguredService_def zero_ConfigServiceInput_def applyJWTConfig_def set_value_def set_from_def jwtValidatorPtr_def
        toy_configured configured_cookieName_def stringOrDefault_def cookies_New_def cookies_WithJWTService_def WithCookieName_def
        DefaultCookieName_def n)
  then have "RequireJWTCookie toy_web [] 3 = (serve_cookie toy_web (cookieMiddlewareDefaults toy_web) ?cs, 3)"
    by (simp add: RequireJWTCookie_def toy_web_facts apply_options_def cookieMiddlewareDefaults_def cookie_serviceConfig_def)
  moreover have "Request_Context (toy_cookie_request token) = context_Background" by (simp add: toy_cookie_request_def http_Request.defs gin_request.defs)
  ultimately show ?thesis using t(3,4) tk map_destination_window
    by (intro exI[of _ token] exI[of _ tok]) (simp add: serve_cookie_def cookieMiddlewareDefaults_def new_claims_def respond_def
        cookies_Decode_def Decode_def toy_service_def JWTTokenContextKey_def JWTClaimsContextKey_def)
qed


end
