(* ===== verification/Pkcs11_Keys.thy ===== *)
theory Pkcs11_Keys
  imports Asn1 Encrypt_Local
begin

text \<open>
  Objects and public keys on the token: \<^verbatim>\<open>encrypt/pkcs11/keys.go\<close> and the curve parameters of \<^verbatim>\<open>attributes.go\<close>. A public key
  is rebuilt from the attributes the token reports, in the encoding every backend uses (PKIX DER in Base64).
\<close>

subsection \<open>Curve parameters\<close>

definition oidP256 :: "nat list" where "oidP256 = [1, 2, 840, 10045, 3, 1, 7]"
definition oidP384 :: "nat list" where "oidP384 = [1, 3, 132, 0, 34]"
definition oidP521 :: "nat list" where "oidP521 = [1, 3, 132, 0, 35]"
definition oidEd25519 :: "nat list" where "oidEd25519 = [1, 3, 101, 112]"

definition encode_params :: "string \<Rightarrow> nat list \<Rightarrow> err + string" where
  "encode_params what oid = (case marshal_oid oid of Some e \<Rightarrow> Inr e
     | None \<Rightarrow> Inl (WrapErr what [Message ''asn1: structure error: invalid object identifier'']))"

definition ecParamsForCurve :: "CurveAsymmetricKey \<Rightarrow> err + string" where
  "ecParamsForCurve c =
     sum_bind (if c = CurveP256 then Inr oidP256 else if c = CurveP384 then Inr oidP384 else if c = CurveP521 then Inr oidP521
         else Inl (Errorf ''pkcs11: unsupported ecc curve: %q'' [curve_String c]))
       (encode_params ''pkcs11: encode ec params: %w'')"

definition ecParamsForEd25519 :: "err + string" where
  "ecParamsForEd25519 = encode_params ''pkcs11: encode ed25519 ec params: %w'' oidEd25519"

definition curveFromECParams :: "string \<Rightarrow> err + curve" where
  "curveFromECParams params = (case unmarshal_oid params of
      None \<Rightarrow> Inl (WrapErr ''pkcs11: decode CKA_EC_PARAMS: %w'' [Message ''asn1''])
    | Some (oid, rest) \<Rightarrow>
        if oid = oidP256 then Inr P256 else if oid = oidP384 then Inr P384 else if oid = oidP521 then Inr P521
        else Inl (Errorf ''pkcs11: unsupported curve oid %v'' (map decimal oid)))"

subsection \<open>Finding objects\<close>

definition findObject :: "'t token_module \<Rightarrow> handle \<Rightarrow> keyURI \<Rightarrow> objectClass \<Rightarrow> bool \<Rightarrow> 't \<Rightarrow> (err + handle) \<times> 't" where
  "findObject m session uri cls useClass t =
     (let template = (if useClass then [newULongAttribute ckaClass cls] else [])
          @ (if Object uri \<noteq> [] then [newBytesAttribute ckaLabel (Object uri)] else [])
          @ (if length (ID uri) > 0 then [newBytesAttribute ckaID (ID uri)] else [])
      in attempt (m_FindObjects m session template t) (\<lambda>handles t.
        case handles of [] \<Rightarrow> (Inl (WrapErr (''%w: '' @ uriString uri) [Sentinel ErrKeyNotFound]), t)
        | h # _ \<Rightarrow> (Inr h, t)))"

definition resolveObject :: "'t token_module \<Rightarrow> handle \<Rightarrow> keyURI \<Rightarrow> objectClass \<Rightarrow> 't \<Rightarrow> (err + handle) \<times> 't" where
  "resolveObject m session uri fallback t =
     (if HasClass uri then findObject m session uri (Class uri) True t
      else (case findObject m session uri fallback True t of
          (Inr h, t1) \<Rightarrow> (Inr h, t1)
        | (Inl e, t1) \<Rightarrow> findObject m session uri 0 False t1))"

text \<open>The searches of \<open>publicObjectFor\<close> in their order, each with the class it reports.\<close>

definition public_searches :: "keyURI \<Rightarrow> (keyURI \<times> objectClass) list" where
  "public_searches uri =
     [(uri, classPublicKey)]
     @ (let byID = emptyKeyURI\<lparr>Token := Token uri, ID := ID uri\<rparr> in
        if length (ID uri) > 0 then [(byID, classPublicKey), (byID, classCertificate)] else [])
     @ [(uri, classCertificate)]"

fun first_found :: "'t token_module \<Rightarrow> handle \<Rightarrow> (keyURI \<times> objectClass) list \<Rightarrow> 't \<Rightarrow> (handle \<times> objectClass) option \<times> 't" where
  "first_found m session [] t = (None, t)"
| "first_found m session ((uri, cls) # rest) t =
     (case findObject m session uri cls True t of
        (Inr h, t1) \<Rightarrow> (Some (h, cls), t1)
      | (Inl e, t1) \<Rightarrow> first_found m session rest t1)"

definition publicObjectFor :: "'t token_module \<Rightarrow> handle \<Rightarrow> keyURI \<Rightarrow> 't \<Rightarrow> (err + handle \<times> objectClass) \<times> 't" where
  "publicObjectFor m session uri t =
     (case first_found m session (public_searches uri) t of
        (Some found, t1) \<Rightarrow> (Inr found, t1)
      | (None, t1) \<Rightarrow> (Inl (WrapErr (''%w: no public key or certificate for '' @ uriString uri) [Sentinel ErrKeyNotFound]), t1))"

subsection \<open>Points\<close>

definition isPlausibleECPoint :: "string \<Rightarrow> bool" where
  "isPlausibleECPoint p \<longleftrightarrow> length p = 32 \<or> (length p > 1 \<and> p ! 0 = CHR 0x04 \<and> (length p - 1) mod 2 = 0)"

definition decodeECPoint :: "string \<Rightarrow> err + string" where
  "decodeECPoint p =
     (if length p = 0 then Inl (Message ''pkcs11: empty CKA_EC_POINT'')
      else (let bare = (if isPlausibleECPoint p then Inr p
              else Inl (Message ''pkcs11: CKA_EC_POINT is neither a wrapped nor a bare point'')) in
        (case unmarshal_octets p of
           Some (unwrapped, rest) \<Rightarrow> if rest = [] \<and> isPlausibleECPoint unwrapped then Inr unwrapped else bare
         | None \<Rightarrow> bare)))"

definition ecPointFrom :: "attribute list \<Rightarrow> err + string" where
  "ecPointFrom attributes = (case findAttribute attributes ckaECPoint of
      None \<Rightarrow> Inl (Message ''pkcs11: object has no CKA_EC_POINT'') | Some raw \<Rightarrow> decodeECPoint raw)"

subsection \<open>Public keys\<close>

definition marshalPublicKey :: "('t, 'm) crypto_scheme \<Rightarrow> any_public \<Rightarrow> err + string" where
  "marshalPublicKey C publicKey =
     sum_bind (wrap_error ''pkcs11: marshal public key: %w'' (MarshalPKIXPublicKey C publicKey)) (\<lambda>der. Inr (std_EncodeToString der))"

text \<open>\<open>big.Int.SetBytes\<close>; \<open>Int64\<close> of a number that does not fit is its low 64 bits.\<close>

definition big_SetBytes :: "string \<Rightarrow> nat" where
  "big_SetBytes s = foldl (\<lambda>v c. 256 * v + byte c) 0 s"

definition big_Int64 :: "nat \<Rightarrow> int" where
  "big_Int64 n = sint (of_nat n :: 64 word)"

definition rsaPublicKeyFrom :: "('t, 'm) crypto_scheme \<Rightarrow> attribute list \<Rightarrow> err + string" where
  "rsaPublicKeyFrom C attributes =
     (case findAttribute attributes ckaModulus of None \<Rightarrow> Inl (Message ''pkcs11: object has no CKA_MODULUS'')
      | Some modulus \<Rightarrow>
     (case findAttribute attributes ckaPublicExpon of None \<Rightarrow> Inl (Message ''pkcs11: object has no CKA_PUBLIC_EXPONENT'')
      | Some exponent \<Rightarrow>
        (let publicKey = \<lparr>rsa_N = big_SetBytes modulus, rsa_E = big_Int64 (big_SetBytes exponent)\<rparr> in
         if rsa_N publicKey = 0 \<or> rsa_E publicKey = 0 then Inl (Message ''pkcs11: object has an unusable rsa public key'')
         else marshalPublicKey C (PubRSA publicKey))))"

definition ecdhPublicKeyFrom :: "('t, 'm) crypto_scheme \<Rightarrow> attribute list \<Rightarrow> err + string" where
  "ecdhPublicKeyFrom C attributes =
     sum_bind (ecPointFrom attributes) (\<lambda>point.
     (case findAttribute attributes ckaECParams of None \<Rightarrow> Inl (Message ''pkcs11: object has no CKA_EC_PARAMS'')
      | Some params \<Rightarrow>
          sum_bind (curveFromECParams params) (\<lambda>c.
          sum_bind (wrap_error ''pkcs11: parse ec point: %w'' (ecdh_NewPublicKey C c point)) (\<lambda>publicKey.
          marshalPublicKey C (PubECDH publicKey)))))"

definition ed25519PublicKeyFrom :: "('t, 'm) crypto_scheme \<Rightarrow> attribute list \<Rightarrow> err + string" where
  "ed25519PublicKeyFrom C attributes =
     sum_bind (ecPointFrom attributes) (\<lambda>point.
     if length point \<noteq> 32 then Inl (Errorf ''pkcs11: ed25519 public key has %d bytes, want %d'' [decimal (length point), ''32''])
     else marshalPublicKey C (PubEd25519 point))"

definition certificatePublicKey :: "('t, 'm) crypto_scheme \<Rightarrow> attribute list \<Rightarrow> err + string" where
  "certificatePublicKey C attributes =
     (case findAttribute attributes ckaValue of None \<Rightarrow> Inl (Message ''pkcs11: certificate object has no CKA_VALUE'')
      | Some der \<Rightarrow> sum_bind (wrap_error ''pkcs11: parse certificate: %w'' (ParseCertificate C der)) (marshalPublicKey C))"

definition publicKeyFromAttributes :: "('t, 'm) crypto_scheme \<Rightarrow> attribute list \<Rightarrow> err + string" where
  "publicKeyFromAttributes C attributes =
     (case findAttribute attributes ckaKeyType of None \<Rightarrow> Inl (Message ''pkcs11: object has no CKA_KEY_TYPE'')
      | Some rawType \<Rightarrow> (case uLongValue rawType of None \<Rightarrow> Inl (Message ''pkcs11: CKA_KEY_TYPE is not a CK_ULONG'')
      | Some decoded \<Rightarrow>
          if decoded = ckkRSA then rsaPublicKeyFrom C attributes
          else if decoded = ckkEC then ecdhPublicKeyFrom C attributes
          else if decoded = ckkECEdwards then ed25519PublicKeyFrom C attributes
          else Inl (Message (''pkcs11: unsupported key type '' @ decimal (unat decoded)))))"

subsection \<open>Properties\<close>

text \<open>
  A wrapped point is unwrapped, and a bare uncompressed P-256 point is returned as it is, except in one case: when its
  first two coordinate bytes are \<open>3F 04\<close> the bytes also parse as a DER OCTET STRING with a plausible point, and the
  two leading bytes are dropped.\<close>
theorem decodeECPoint_P256:
  assumes "length p = 65" "p ! 0 = CHR 0x04"
  shows "decodeECPoint (marshal_octets_short p) = Inr p
    \<and> decodeECPoint p = Inr (if p ! 1 = CHR 0x3F \<and> p ! 2 = CHR 0x04 then drop 2 p else p)"
proof
  have pl: "isPlausibleECPoint p" using assms by (simp add: isPlausibleECPoint_def)
  show "decodeECPoint (marshal_octets_short p) = Inr p"
    using unmarshal_octets_short[of p "[]"] assms pl by (simp add: decodeECPoint_def marshal_octets_short_def)
  obtain b c q where p: "p = CHR 0x04 # b # c # q" "length q = 62"
    using assms by (auto simp: length_Suc_conv numeral_eq_Suc)
  have u: "unmarshal_octets p = (if byte b \<le> 63 then Some (take (byte b) (c # q), drop (byte b) (c # q)) else None)"
    unfolding p(1) using unmarshal_octets_small[of "c # q" b] p(2) by simp
  have b: "byte b = 63 \<longleftrightarrow> b = CHR 0x3F" using byte_eqD[of b "CHR 0x3F"] by auto
  have "isPlausibleECPoint (c # q) \<longleftrightarrow> c = CHR 0x04" using p(2) by (simp add: isPlausibleECPoint_def)
  moreover have "drop (byte b) (c # q) = [] \<and> byte b \<le> 63 \<longleftrightarrow> byte b = 63" using p(2) by auto
  moreover have "take 63 (c # q) = c # q" using p(2) by simp
  ultimately show "decodeECPoint p = Inr (if p ! 1 = CHR 0x3F \<and> p ! 2 = CHR 0x04 then drop 2 p else p)"
    using pl u b unfolding decodeECPoint_def Let_def by (cases "byte b = 63") (auto simp: p(1) split: if_splits)
qed

theorem decodeECPoint_P256_witness:
  "decodeECPoint (CHR 0x04 # CHR 0x3F # CHR 0x04 # replicate 62 (CHR ''a'')) = Inr (CHR 0x04 # replicate 62 (CHR ''a''))"
  using decodeECPoint_P256[of "CHR 0x04 # CHR 0x3F # CHR 0x04 # replicate 62 (CHR ''a'')"] by simp

text \<open>
  The curve parameters written for a generated key are read back as the curve that was asked for, and exactly the
  curves \<open>ResolveECDHCurve\<close> knows have parameters.\<close>
theorem ec_params_name_the_curve:
  "case ResolveECDHCurve c of
     Inr k \<Rightarrow> (\<exists>params. ecParamsForCurve c = Inr params \<and> curveFromECParams params = Inr k)
   | Inl _ \<Rightarrow> (\<exists>e. ecParamsForCurve c = Inl e)"
proof -
  have "\<exists>params. sum_bind (Inr oid) (encode_params w) = Inr params \<and> curveFromECParams params = Inr k"
    if "marshal_oid oid = Some params" "unmarshal_oid params = Some (oid, [])"
      "(oid, k) \<in> {(oidP256, P256), (oidP384, P384), (oidP521, P521)}" for oid k w params
    using that by (auto simp: encode_params_def curveFromECParams_def oidP256_def oidP384_def oidP521_def)
  note ok = this
  have e: "marshal_oid oidP256 = Some (CHR 0x06 # map char_of [8, 42, 134, 72, 206, 61, 3, 1, 7 :: nat])"
    "marshal_oid oidP384 = Some (CHR 0x06 # map char_of [5, 43, 129, 4, 0, 34 :: nat])"
    "marshal_oid oidP521 = Some (CHR 0x06 # map char_of [5, 43, 129, 4, 0, 35 :: nat])"
    by (simp_all add: marshal_oid_def append_base128_def base128_digits.simps oidP256_def oidP384_def oidP521_def)
  have d: "unmarshal_oid (CHR 0x06 # map char_of [8, 42, 134, 72, 206, 61, 3, 1, 7 :: nat]) = Some (oidP256, [])"
    "unmarshal_oid (CHR 0x06 # map char_of [5, 43, 129, 4, 0, 34 :: nat]) = Some (oidP384, [])"
    "unmarshal_oid (CHR 0x06 # map char_of [5, 43, 129, 4, 0, 35 :: nat]) = Some (oidP521, [])"
    by (simp_all add: unmarshal_oid_def parse_element_def parse_length_def parse_oid_def arcs.simps oidP256_def oidP384_def oidP521_def)
  show ?thesis
    unfolding ResolveECDHCurve_def ecParamsForCurve_def
    using ok[OF e(1) d(1), of P256] ok[OF e(2) d(2), of P384] ok[OF e(3) d(3), of P521] by simp
qed

end
