(* ===== verification/Pkcs11_Repository.thy ===== *)
theory Pkcs11_Repository
  imports Pkcs11_Keys
begin

text \<open>
  The token-backed repository, \<^verbatim>\<open>encrypt/pkcs11/repository.go\<close>. A \<open>backend\<close> bundles what the operations of one repository
  share: its configuration, how library paths resolve and load, the software primitives and the clock. An operation
  works on the process state; its result is \<open>None\<close> only if a call blocks for ever, which \<open>withSession_brackets\<close>
  excludes for quiescent processes. A call that uses its context at several points takes one \<open>go_ctx\<close> per use, so that the
  context may end in between.
\<close>

subsection \<open>Plumbing\<close>

record 't backend =
  be_cfg :: "'t config"
  be_resolve :: "string \<Rightarrow> string"
  be_loader :: "'t loader"
  be_crypto :: "'t crypto"
  be_UnixNano :: "'t \<Rightarrow> int \<times> 't"

type_synonym ('t, 'a) outcome = "((err + 'a) \<times> 't proc) option"

definition and_then :: "('t, 'a) outcome \<Rightarrow> ('a \<Rightarrow> 't proc \<Rightarrow> ('t, 'b) outcome) \<Rightarrow> ('t, 'b) outcome" where
  "and_then r k = (case r of None \<Rightarrow> None | Some (Inl e, p) \<Rightarrow> Some (Inl e, p) | Some (Inr x, p) \<Rightarrow> k x p)"

definition give :: "err + 'a \<Rightarrow> 't proc \<Rightarrow> ('t, 'a) outcome" where
  "give r p = Some (r, p)"

definition outside_op :: "('t \<Rightarrow> (err + 'a) \<times> 't) \<Rightarrow> 't proc \<Rightarrow> ('t, 'a) outcome" where
  "outside_op f p = (case f (outside p) of (r, t) \<Rightarrow> Some (r, p\<lparr>outside := t\<rparr>))"

definition with_session :: "'t backend \<Rightarrow> go_ctx \<Rightarrow> ('t, 'a) tokenOp \<Rightarrow> 't proc \<Rightarrow> ('t, 'a) outcome" where
  "with_session b ctx op p = withSession (be_resolve b) (be_loader b) ctx (be_cfg b) op p"

lemma and_then_simps [simp]: "and_then None k = None" "and_then (Some (Inl e, p)) k = Some (Inl e, p)"
  "and_then (Some (Inr x, p)) k = k x p"
  by (simp_all add: and_then_def)

lemma and_then_Inr:
  "and_then r k = Some (Inr y, p') \<longleftrightarrow> (\<exists>x p. r = Some (Inr x, p) \<and> k x p = Some (Inr y, p'))"
  by (auto simp: and_then_def split: option.splits sum.splits)

lemma give_simps [simp]: "give r p = Some (r, p)"
  by (simp add: give_def)

definition require :: "slotState \<Rightarrow> mechanism \<Rightarrow> 't \<Rightarrow> err option \<times> 't" where
  "require slot mech t = (requireMechanism (supports slot) mech, t)"

lemma require_InrE:
  assumes "check (require slot mech t) k = (Inr y, t')"
  obtains "supports slot mech" "k t = (Inr y, t')"
  using assms by (auto simp: require_def requireMechanism_def check_def split: if_splits)

text \<open>\<open>string(plaintext)\<close> of a slice that may be nil.\<close>

definition bytes_string :: "string option \<Rightarrow> string" where
  "bytes_string v = (case v of None \<Rightarrow> [] | Some s \<Rightarrow> s)"

definition isMechanismParamError :: "err \<Rightarrow> bool" where
  "isMechanismParamError e = (case errors_As_token e of None \<Rightarrow> False
     | Some (f, code) \<Rightarrow> code = ckrMechanismParamInval \<or> code = ckrArgumentsBad)"

subsection \<open>Labels, ids and templates\<close>

definition FormatInt :: "int \<Rightarrow> string" where
  "FormatInt n = (if n < 0 then ''-'' @ decimal (nat (- n)) else decimal (nat n))"

definition newObjectID :: "'t backend \<Rightarrow> 't proc \<Rightarrow> ('t, string) outcome" where
  "newObjectID b = outside_op (\<lambda>t. wrap_state ''pkcs11: generate key id: %w'' (rand_Read (be_crypto b) 16 t))"

definition object_label :: "'t backend \<Rightarrow> string \<Rightarrow> string \<Rightarrow> 't \<Rightarrow> string \<times> 't" where
  "object_label b pref uid t = (if uid \<noteq> [] then (pref @ ''-'' @ uid, t)
     else (case be_UnixNano b t of (n, t1) \<Rightarrow> (pref @ ''-'' @ FormatInt n, t1)))"

definition newObjectLabel :: "'t backend \<Rightarrow> string \<Rightarrow> string \<Rightarrow> 't proc \<Rightarrow> ('t, string) outcome" where
  "newObjectLabel b pref uid = outside_op (\<lambda>t. map_prod Inr (\<lambda>t. t) (object_label b pref uid t))"

definition tokenKeyTemplate :: "string \<Rightarrow> string \<Rightarrow> attribute list" where
  "tokenKeyTemplate label i =
     [newBoolAttribute ckaToken True, newBoolAttribute ckaPrivate True, newBoolAttribute ckaSensitive True,
      newBoolAttribute ckaExtractable False, newBytesAttribute ckaLabel label, newBytesAttribute ckaID i]"

definition publicKeyTemplate :: "string \<Rightarrow> string \<Rightarrow> attribute list" where
  "publicKeyTemplate label i =
     [newBoolAttribute ckaToken True, newBoolAttribute ckaPrivate False, newBytesAttribute ckaLabel label,
      newBytesAttribute ckaID i]"

definition aesKeyTemplate :: "string \<Rightarrow> string \<Rightarrow> 64 word \<Rightarrow> attribute list" where
  "aesKeyTemplate label i valueLen = tokenKeyTemplate label i @
     [newULongAttribute ckaKeyType ckkAES, newULongAttribute ckaClass classSecretKey, newULongAttribute ckaValueLen valueLen,
      newBoolAttribute ckaEncrypt True, newBoolAttribute ckaDecrypt True]"

definition publicExponent :: string where
  "publicExponent = [CHR 0x01, CHR 0x00, CHR 0x01]"

definition generated_uri :: "string \<Rightarrow> string \<Rightarrow> objectClass \<Rightarrow> keyURI" where
  "generated_uri label i cls = emptyKeyURI\<lparr>Object := label, ID := i, Class := cls, HasClass := True\<rparr>"

subsection \<open>Symmetric keys\<close>

definition GenerateSymetrycKeys :: "'t backend \<Rightarrow> go_ctx \<Rightarrow> GenerateSymmetricKeyRequest \<Rightarrow> 't proc \<Rightarrow> ('t, KeyData) outcome" where
  "GenerateSymetrycKeys b ctx input p =
     and_then (give (aesValueLen (gsk_Size input)) p) (\<lambda>valueLen p.
     and_then (newObjectID b p) (\<lambda>i p.
     and_then (newObjectLabel b symmetricKeyPrefix (gsk_UID input) p) (\<lambda>label p.
     and_then (with_session b ctx (\<lambda>m slot session t.
         check (require slot ckmAESKeyGen t) (m_GenerateKey m session ckmAESKeyGen (aesKeyTemplate label i valueLen))) p) (\<lambda>h p.
       give (Inr (keyDataFor (generated_uri label i classSecretKey) [])) p))))"

definition EncryptAES :: "'t backend \<Rightarrow> go_ctx \<Rightarrow> EncryptAESRequest \<Rightarrow> 't proc \<Rightarrow> ('t, string) outcome" where
  "EncryptAES b ctx input p =
     (if IsLocalAESKey (enc_SecretKey input) then outside_op (local_EncryptAES (be_crypto b) (Some ctx) input) p
      else
        and_then (give (resolveKeyURI (be_cfg b) (enc_SecretKey input)) p) (\<lambda>uri p.
        and_then (outside_op (\<lambda>t. wrap_state ''pkcs11: generate nonce: %w'' (rand_Read (be_crypto b) gcmNonceLength t)) p) (\<lambda>nonce p.
        and_then (with_session b ctx (\<lambda>m slot session t.
            check (require slot ckmAESGCM t) (\<lambda>t.
            attempt (resolveObject m session uri classSecretKey t) (\<lambda>h t.
              m_Encrypt m session ckmAESGCM (GcmParams nonce (BytesFromOptionalString (enc_Additional input)) gcmTagBits)
                h (enc_Value input) t))) p) (\<lambda>ciphertext p.
          give (Inr (std_EncodeToString (nonce @ ciphertext))) p))))"

definition decode_ciphertext :: "string \<Rightarrow> err + string" where
  "decode_ciphertext s = wrap_error ''pkcs11: decode base64 ciphertext: %w'' (decode_std s)"

definition split_nonce :: "string \<Rightarrow> err + string" where
  "split_nonce raw = (if length raw \<le> gcmNonceLength then Inl (Message ''pkcs11: ciphertext is shorter than the nonce'') else Inr raw)"

definition DecryptAES :: "'t backend \<Rightarrow> go_ctx \<Rightarrow> DecryptAESRequest \<Rightarrow> 't proc \<Rightarrow> ('t, string) outcome" where
  "DecryptAES b ctx input p =
     (if IsLocalAESKey (dec_SecretKey input) then outside_op (local_DecryptAES (be_crypto b) (Some ctx) input) p
      else
        and_then (give (resolveKeyURI (be_cfg b) (dec_SecretKey input)) p) (\<lambda>uri p.
        and_then (give (sum_bind (decode_ciphertext (dec_CipherValue input)) split_nonce) p) (\<lambda>raw p.
        and_then (with_session b ctx (\<lambda>m slot session t.
            check (require slot ckmAESGCM t) (\<lambda>t.
            attempt (resolveObject m session uri classSecretKey t) (\<lambda>h t.
              m_Decrypt m session ckmAESGCM (GcmParams (take gcmNonceLength raw) (BytesFromOptionalString (dec_Additional input)) gcmTagBits)
                h (drop gcmNonceLength raw) t))) p) (\<lambda>plaintext p.
          give (Inr (bytes_string plaintext)) p))))"

subsection \<open>Key pairs\<close>

text \<open>The closure the three generators share: generate, read the public half back, build the public key.\<close>

definition generate_pair ::
    "mechanism \<Rightarrow> attribute list \<Rightarrow> attribute list \<Rightarrow> attributeType list \<Rightarrow> (attribute list \<Rightarrow> err + string) \<Rightarrow> ('t, string) tokenOp" where
  "generate_pair mech public private kinds build m slot session t =
     check (require slot mech t) (\<lambda>t.
     attempt (m_GenerateKeyPair m session mech public private t) (\<lambda>(publicHandle, privateHandle) t.
     attempt (m_GetAttributes m session publicHandle kinds t) (\<lambda>attributes t. (build attributes, t))))"

definition generate_on_token ::
    "'t backend \<Rightarrow> go_ctx \<Rightarrow> string \<Rightarrow> string \<Rightarrow> (string \<Rightarrow> string \<Rightarrow> ('t, string) tokenOp) \<Rightarrow> 't proc \<Rightarrow> ('t, KeyData) outcome" where
  "generate_on_token b ctx pref uid op p =
     and_then (newObjectID b p) (\<lambda>i p.
     and_then (newObjectLabel b pref uid p) (\<lambda>label p.
     and_then (with_session b ctx (op label i) p) (\<lambda>publicKey p.
       give (Inr (keyDataFor (generated_uri label i classPrivateKey) publicKey)) p)))"

definition GenerateRSAKeys :: "'t backend \<Rightarrow> go_ctx \<Rightarrow> GenerateRSAKeyRequest \<Rightarrow> 't proc \<Rightarrow> ('t, KeyData) outcome" where
  "GenerateRSAKeys b ctx input p =
     and_then (give (rsaModulusBits (grk_Size input)) p) (\<lambda>modulusBits p.
       generate_on_token b ctx rsaKeyPrefix (grk_UID input) (\<lambda>label i.
         generate_pair ckmRSAPKCSKeyPairGen
           (publicKeyTemplate label i @ [newULongAttribute ckaModulusBits modulusBits, newBytesAttribute ckaPublicExpon publicExponent,
              newBoolAttribute ckaEncrypt True, newBoolAttribute ckaVerify True, newBoolAttribute ckaWrap True])
           (tokenKeyTemplate label i @ [newBoolAttribute ckaDecrypt True, newBoolAttribute ckaSign True, newBoolAttribute ckaUnwrap True])
           [ckaModulus, ckaPublicExpon] (rsaPublicKeyFrom (be_crypto b))) p)"

definition GenerateECDHCurveKeys :: "'t backend \<Rightarrow> go_ctx \<Rightarrow> GenerateECDHCurveKeyRequest \<Rightarrow> 't proc \<Rightarrow> ('t, KeyData) outcome" where
  "GenerateECDHCurveKeys b ctx input p =
     and_then (give (ecParamsForCurve (gek_Curve input)) p) (\<lambda>ecParams p.
       generate_on_token b ctx ecdhKeyPrefix (gek_UID input) (\<lambda>label i.
         generate_pair ckmECKeyPairGen
           (publicKeyTemplate label i @ [newBytesAttribute ckaECParams ecParams])
           (tokenKeyTemplate label i @ [newBoolAttribute ckaDerive True])
           [ckaECPoint, ckaECParams] (ecdhPublicKeyFrom (be_crypto b))) p)"

definition GenerateEd255Keys :: "'t backend \<Rightarrow> go_ctx \<Rightarrow> 't proc \<Rightarrow> ('t, KeyData) outcome" where
  "GenerateEd255Keys b ctx p =
     and_then (give ecParamsForEd25519 p) (\<lambda>ecParams p.
       generate_on_token b ctx ed25519KeyPrefix [] (\<lambda>label i.
         generate_pair ckmECEdwardsKeyPairGe
           (publicKeyTemplate label i @ [newBytesAttribute ckaECParams ecParams, newBoolAttribute ckaVerify True])
           (tokenKeyTemplate label i @ [newBoolAttribute ckaSign True])
           [ckaECPoint] (ed25519PublicKeyFrom (be_crypto b))) p)"

subsection \<open>Public keys on the token\<close>

definition fetchPublicKey :: "'t backend \<Rightarrow> go_ctx \<Rightarrow> keyURI \<Rightarrow> 't proc \<Rightarrow> ('t, string) outcome" where
  "fetchPublicKey b ctx uri = with_session b ctx (\<lambda>m slot session t.
     attempt (publicObjectFor m session uri t) (\<lambda>(h, cls) t.
       if cls = classCertificate then
         attempt (m_GetAttributes m session h [ckaValue] t) (\<lambda>attributes t. (certificatePublicKey (be_crypto b) attributes, t))
       else
         attempt (m_GetAttributes m session h [ckaKeyType, ckaModulus, ckaPublicExpon, ckaECPoint, ckaECParams] t)
           (\<lambda>attributes t. (publicKeyFromAttributes (be_crypto b) attributes, t))))"

definition is_ok :: "'e + 'a \<Rightarrow> bool" where
  "is_ok r = (case r of Inr _ \<Rightarrow> True | Inl _ \<Rightarrow> False)"

definition RSA_OAEP_Encode :: "'t backend \<Rightarrow> go_ctx \<Rightarrow> go_ctx \<Rightarrow> RSAOAEPEncodeRequest \<Rightarrow> 't proc \<Rightarrow> ('t, string) outcome" where
  "RSA_OAEP_Encode b ctx ctx2 input p =
     (if is_ok (ParseRSAPublicKeyFromBase64 (be_crypto b) (oaepe_PublicKey input))
      then outside_op (local_RSA_OAEP_Encode (be_crypto b) (Some ctx) input) p
      else
        and_then (give (resolveKeyURI (be_cfg b) (oaepe_PublicKey input)) p) (\<lambda>uri p.
        and_then (fetchPublicKey b ctx uri p) (\<lambda>publicKey p.
          outside_op (local_RSA_OAEP_Encode (be_crypto b) (Some ctx2) (input\<lparr>oaepe_PublicKey := publicKey\<rparr>)) p)))"

definition RSA_OAEP_Decode :: "'t backend \<Rightarrow> go_ctx \<Rightarrow> RSAOAEPDecodeRequest \<Rightarrow> 't proc \<Rightarrow> ('t, string) outcome" where
  "RSA_OAEP_Decode b ctx input p =
     (if is_ok (ParseRSAPrivateKeyFromBase64 (be_crypto b) (oaepd_PrivateKey input))
      then outside_op (local_RSA_OAEP_Decode (be_crypto b) (Some ctx) input) p
      else
        and_then (give (resolveKeyURI (be_cfg b) (oaepd_PrivateKey input)) p) (\<lambda>uri p.
        and_then (give (decode_ciphertext (oaepd_CipherText input)) p) (\<lambda>ciphertext p.
        and_then (with_session b ctx (\<lambda>m slot session t.
            check (require slot ckmRSAPKCSOAEP t) (\<lambda>t.
            attempt (resolveObject m session uri classPrivateKey t) (\<lambda>h t.
              case m_Decrypt m session ckmRSAPKCSOAEP (OaepParams ckmSHA256 ckgMGF1SHA256 ckzDataSpecified) h ciphertext t of
                (Inl e, t) \<Rightarrow> (Inl (if isMechanismParamError e then WrapErr ''%w: %w'' [Sentinel ErrOAEPHashUnsupported, e] else e), t)
              | (Inr plaintext, t) \<Rightarrow> (Inr plaintext, t)))) p) (\<lambda>plaintext p.
          give (Inr (bytes_string plaintext)) p))))"

definition ECDH_Encode :: "'t backend \<Rightarrow> go_ctx \<Rightarrow> go_ctx \<Rightarrow> ECDHEncodeRequest \<Rightarrow> 't proc \<Rightarrow> ('t, string) outcome" where
  "ECDH_Encode b ctx ctx2 input p =
     (if is_ok (ParseECDHPublicKeyFromBase64 (be_crypto b) (ecdhe_PublicKey input))
      then outside_op (local_ECDH_Encode (be_crypto b) (Some ctx) input) p
      else
        and_then (give (resolveKeyURI (be_cfg b) (ecdhe_PublicKey input)) p) (\<lambda>uri p.
        and_then (fetchPublicKey b ctx uri p) (\<lambda>publicKey p.
          outside_op (local_ECDH_Encode (be_crypto b) (Some ctx2) (input\<lparr>ecdhe_PublicKey := publicKey\<rparr>)) p)))"

subsection \<open>ECDH on the token\<close>

definition ecdhPeerPoint :: "'t backend \<Rightarrow> string \<Rightarrow> err + string" where
  "ecdhPeerPoint b encoded = sum_bind (wrap_error ''pkcs11: parse ephemeral public key: %w'' (ParseECDHPublicKeyFromBase64 (be_crypto b) encoded))
     (\<lambda>publicKey. Inr (pub_Bytes publicKey))"

text \<open>A deferred \<open>DestroyObject\<close> runs after the result is known; its error is dropped.\<close>

definition then_destroy :: "'t token_module \<Rightarrow> handle \<Rightarrow> handle \<Rightarrow> (err + 'a) \<times> 't \<Rightarrow> (err + 'a) \<times> 't" where
  "then_destroy m session h r = (case r of (x, t) \<Rightarrow> (x, snd (m_DestroyObject m session h t)))"

definition derived_secret_template :: "bool \<Rightarrow> attribute list" where
  "derived_secret_template extractable =
     [newULongAttribute ckaClass classSecretKey, newULongAttribute ckaKeyType ckkGenericSecret, newBoolAttribute ckaToken False,
      newBoolAttribute ckaSensitive (\<not> extractable), newBoolAttribute ckaExtractable extractable]
     @ (if extractable then [] else [newBoolAttribute ckaDerive True])"

definition derived_aes_template :: "attribute list" where
  "derived_aes_template =
     [newULongAttribute ckaClass classSecretKey, newULongAttribute ckaKeyType ckkAES, newULongAttribute ckaValueLen Key256Bits,
      newBoolAttribute ckaToken False, newBoolAttribute ckaSensitive True, newBoolAttribute ckaExtractable False,
      newBoolAttribute ckaDecrypt True]"

definition decryptECDHInHardware ::
    "'t token_module \<Rightarrow> handle \<Rightarrow> handle \<Rightarrow> string \<Rightarrow> string \<Rightarrow> string \<Rightarrow> string \<Rightarrow> 't \<Rightarrow> (err + string option) \<times> 't" where
  "decryptECDHInHardware m session private peerPoint info curve raw t =
     attempt (m_DeriveKey m session ckmECDH1Derive (Ecdh1Params ckdNULL [] peerPoint) private (derived_secret_template False) t)
       (\<lambda>secretHandle t.
     then_destroy m session secretHandle
       (attempt (m_DeriveKey m session ckmHKDFDerive (HkdfParams True True ckmSHA256 ckfHKDFSaltNull info) secretHandle derived_aes_template t)
         (\<lambda>aesHandle t.
       then_destroy m session aesHandle
         (m_Decrypt m session ckmAESGCM (GcmParams (take gcmNonceLength raw) curve gcmTagBits) aesHandle (drop gcmNonceLength raw) t))))"

definition deriveExtractableSecret :: "'t token_module \<Rightarrow> handle \<Rightarrow> handle \<Rightarrow> string \<Rightarrow> 't \<Rightarrow> (err + string) \<times> 't" where
  "deriveExtractableSecret m session private peerPoint t =
     attempt (m_DeriveKey m session ckmECDH1Derive (Ecdh1Params ckdNULL [] peerPoint) private (derived_secret_template True) t)
       (\<lambda>h t.
     then_destroy m session h
       (attempt (m_GetAttributes m session h [ckaValue] t) (\<lambda>attributes t.
         case findAttribute attributes ckaValue of
           None \<Rightarrow> (Inl (Sentinel ErrSecretNotExtractable), t)
         | Some secret \<Rightarrow> if length secret = 0 then (Inl (Sentinel ErrSecretNotExtractable), t) else (Inr secret, t))))"

text \<open>
  The closure of \<open>ECDH_Decode\<close>: it leaves the plaintext (nil unless the hardware path succeeded) and the shared
  secret in the captured variables.
\<close>

definition ecdh_decode_op :: "'t config \<Rightarrow> keyURI \<Rightarrow> string \<Rightarrow> string \<Rightarrow> string \<Rightarrow> ('t, string option \<times> string) tokenOp" where
  "ecdh_decode_op cfg uri peerPoint curve raw m slot session t =
     check (require slot ckmECDH1Derive t) (\<lambda>t.
     attempt (resolveObject m session uri classPrivateKey t) (\<lambda>private t.
       (let extract = (\<lambda>t. if \<not> allowSecretExtraction cfg then
               (Inl (WrapErr ''%w: token lacks CKM_HKDF_DERIVE and extraction is disabled'' [Sentinel ErrSecretNotExtractable]), t)
             else attempt (deriveExtractableSecret m session private peerPoint t) (\<lambda>secret t. (Inr (None, secret), t)))
        in if supportsInHardwareECDH (supports slot) then
             (case decryptECDHInHardware m session private peerPoint (eccHKDFInfoPrefix @ curve) curve raw t of
                (Inr plaintext, t) \<Rightarrow> (Inr (plaintext, []), t)
              | (Inl e, t) \<Rightarrow> if \<not> allowSecretExtraction cfg then (Inl e, t) else extract t)
           else extract t)))"

definition ECDH_Decode :: "'t backend \<Rightarrow> go_ctx \<Rightarrow> go_ctx \<Rightarrow> ECDHDecodeRequest \<Rightarrow> 't proc \<Rightarrow> ('t, string) outcome" where
  "ECDH_Decode b ctx ctx2 input p =
     (if is_ok (ParseECDHPrivateKeyFromBase64 (be_crypto b) (ecdhd_PrivateKey input))
      then outside_op (local_ECDH_Decode (be_crypto b) (Some ctx) input) p
      else
        and_then (give (resolveKeyURI (be_cfg b) (ecdhd_PrivateKey input)) p) (\<lambda>uri p.
        and_then (give (DecodeECCCipherPayload (ecdhd_CipherText input)) p) (\<lambda>payload p.
        and_then (give (ecdhPeerPoint b (pl_EphemeralPublicKey payload)) p) (\<lambda>peerPoint p.
        and_then (give (sum_bind (decode_ciphertext (pl_Ciphertext payload)) split_nonce) p) (\<lambda>raw p.
        and_then (with_session b ctx (ecdh_decode_op (be_cfg b) uri peerPoint (pl_Curve payload) raw) p) (\<lambda>(plaintext, sharedSecret) p.
          case plaintext of
            Some s \<Rightarrow> give (Inr s) p
          | None \<Rightarrow>
              and_then (give (DeriveECCAESKey (be_crypto b) sharedSecret (pl_Curve payload)) p) (\<lambda>derivedKey p.
                outside_op (local_DecryptAES (be_crypto b) (Some ctx2)
                  \<lparr>dec_UID = ecdhd_UID input, dec_SecretKey = std_EncodeToString derivedKey, dec_CipherValue = pl_Ciphertext payload,
                   dec_Additional = Some (pl_Curve payload)\<rparr>) p)))))))"

subsection \<open>Rotation, lookup, deactivation\<close>

definition label_or :: "attribute list \<Rightarrow> keyURI \<Rightarrow> string" where
  "label_or attributes uri = (case findAttribute attributes ckaLabel of
      Some raw \<Rightarrow> if length raw > 0 then raw else Object uri | None \<Rightarrow> Object uri)"

definition rotationLabelBase :: "attribute list \<Rightarrow> keyURI \<Rightarrow> string" where
  "rotationLabelBase attributes uri =
     (let label = label_or attributes uri in
      case find (\<lambda>pref. HasPrefix label pref) [symmetricKeyPrefix, rsaKeyPrefix, ecdhKeyPrefix, ed25519KeyPrefix, hmacKeyPrefix] of
        Some pref \<Rightarrow> pref | None \<Rightarrow> label)"

text \<open>A CK_ULONG attribute that is there, well formed and positive, or else the default.\<close>

definition ulong_or :: "64 word \<Rightarrow> attribute list \<Rightarrow> attributeType \<Rightarrow> 64 word" where
  "ulong_or fallback attributes kind = (case findAttribute attributes kind of None \<Rightarrow> fallback
     | Some raw \<Rightarrow> (case uLongValue raw of None \<Rightarrow> fallback | Some parsed \<Rightarrow> if parsed > 0 then parsed else fallback))"

definition generateReplacement ::
    "('t, 'm) crypto_scheme \<Rightarrow> attribute list \<Rightarrow> string \<Rightarrow> string \<Rightarrow> ('t, KeyData) tokenOp" where
  "generateReplacement C attributes label i m slot session t =
     (case findAttribute attributes ckaKeyType of None \<Rightarrow> (Inl (Message ''pkcs11: cannot rotate an object without CKA_KEY_TYPE''), t)
      | Some rawType \<Rightarrow> (case uLongValue rawType of None \<Rightarrow> (Inl (Message ''pkcs11: CKA_KEY_TYPE is not a CK_ULONG''), t)
      | Some decoded \<Rightarrow>
        if decoded = ckkAES then
          check (require slot ckmAESKeyGen t) (\<lambda>t.
          attempt (m_GenerateKey m session ckmAESKeyGen (aesKeyTemplate label i (ulong_or Key256Bits attributes ckaValueLen)) t) (\<lambda>h t.
            (Inr (keyDataFor (generated_uri label i classSecretKey) []), t)))
        else if decoded = ckkRSA then
          attempt (generate_pair ckmRSAPKCSKeyPairGen
              (publicKeyTemplate label i @ [newULongAttribute ckaModulusBits (ulong_or Key2048Bits attributes ckaModulusBits),
                 newBytesAttribute ckaPublicExpon publicExponent, newBoolAttribute ckaEncrypt True, newBoolAttribute ckaVerify True])
              (tokenKeyTemplate label i @ [newBoolAttribute ckaDecrypt True, newBoolAttribute ckaSign True])
              [ckaModulus, ckaPublicExpon] (rsaPublicKeyFrom C) m slot session t) (\<lambda>publicKey t.
            (Inr (keyDataFor (generated_uri label i classPrivateKey) publicKey), t))
        else if decoded = ckkEC \<or> decoded = ckkECEdwards then
          (case findAttribute attributes ckaECParams of
             None \<Rightarrow> (Inl (Message ''pkcs11: cannot rotate an ec key without CKA_EC_PARAMS''), t)
           | Some ecParams \<Rightarrow>
               attempt (generate_pair (if decoded = ckkECEdwards then ckmECEdwardsKeyPairGe else ckmECKeyPairGen)
                   (publicKeyTemplate label i @ [newBytesAttribute ckaECParams ecParams])
                   (tokenKeyTemplate label i @ [newBoolAttribute ckaDerive (decoded = ckkEC), newBoolAttribute ckaSign (decoded = ckkECEdwards)])
                   [ckaECPoint, ckaECParams]
                   (if decoded = ckkECEdwards then ed25519PublicKeyFrom C else ecdhPublicKeyFrom C) m slot session t) (\<lambda>publicKey t.
                 (Inr (keyDataFor (generated_uri label i classPrivateKey) publicKey), t)))
        else (Inl (Message (''pkcs11: cannot rotate key type '' @ decimal (unat decoded))), t)))"

definition deactivatableAttributes :: "attributeType list" where
  "deactivatableAttributes = [ckaEncrypt, ckaDecrypt, ckaSign, ckaVerify, ckaWrap, ckaUnwrap, ckaDerive]"

definition disable_template :: "attribute list \<Rightarrow> attribute list" where
  "disable_template present = map (\<lambda>kind. newBoolAttribute kind False) (filter (hasAttribute present) deactivatableAttributes)"

text \<open>Operations that return an error only give \<open>Inr ()\<close> for nil.\<close>

definition ok_unless :: "err option \<times> 't \<Rightarrow> (err + unit) \<times> 't" where
  "ok_unless r = (case r of (Some e, t) \<Rightarrow> (Inl e, t) | (None, t) \<Rightarrow> (Inr (), t))"

definition disableObject :: "'t token_module \<Rightarrow> handle \<Rightarrow> handle \<Rightarrow> 't \<Rightarrow> (err + unit) \<times> 't" where
  "disableObject m session h t =
     attempt (m_GetAttributes m session h deactivatableAttributes t) (\<lambda>present t.
       if disable_template present = [] then (Inl (Message ''pkcs11: object carries no usage attribute to clear''), t)
       else ok_unless (m_SetAttributes m session h (disable_template present) t))"

definition rotate_op :: "'t backend \<Rightarrow> string \<Rightarrow> keyURI \<Rightarrow> string \<Rightarrow> ('t, KeyData) tokenOp" where
  "rotate_op b uid uri i m slot session t =
     attempt (resolveObject m session uri classPrivateKey t) (\<lambda>h t.
     attempt (m_GetAttributes m session h [ckaClass, ckaKeyType, ckaLabel, ckaValueLen, ckaModulusBits, ckaECParams] t) (\<lambda>attributes t.
     case object_label b (rotationLabelBase attributes uri) uid t of (label, t) \<Rightarrow>
     attempt (generateReplacement (be_crypto b) attributes label i m slot session t) (\<lambda>rotated t.
       if rotateDisablesPrev (be_cfg b) then attempt (disableObject m session h t) (\<lambda>_ t. (Inr rotated, t))
       else (Inr rotated, t))))"

definition RotateKey :: "'t backend \<Rightarrow> go_ctx \<Rightarrow> RotateKeyRequest \<Rightarrow> 't proc \<Rightarrow> ('t, KeyData) outcome" where
  "RotateKey b ctx input p =
     and_then (give (resolveKeyURI (be_cfg b) (rot_KeyID input)) p) (\<lambda>uri p.
     and_then (newObjectID b p) (\<lambda>i p. with_session b ctx (rotate_op b (rot_UID input) uri i) p))"

definition lookup_op :: "keyURI \<Rightarrow> ('t, keyURI) tokenOp" where
  "lookup_op uri m slot session t =
     attempt (resolveObject m session uri classPrivateKey t) (\<lambda>h t.
     attempt (m_GetAttributes m session h [ckaLabel, ckaID, ckaClass] t) (\<lambda>attributes t.
       (let r1 = (case findAttribute attributes ckaLabel of Some raw \<Rightarrow> if length raw > 0 then uri\<lparr>Object := raw\<rparr> else uri | None \<Rightarrow> uri);
            r2 = (case findAttribute attributes ckaID of Some raw \<Rightarrow> if length raw > 0 then r1\<lparr>ID := raw\<rparr> else r1 | None \<Rightarrow> r1)
        in (Inr r2, t))))"

definition GetKey :: "'t backend \<Rightarrow> go_ctx \<Rightarrow> go_ctx \<Rightarrow> GetKeyRequest \<Rightarrow> 't proc \<Rightarrow> ('t, KeyData) outcome" where
  "GetKey b ctx ctx2 input p =
     and_then (give (resolveKeyURI (be_cfg b) (get_KeyID input)) p) (\<lambda>uri p.
     and_then (with_session b ctx (lookup_op uri) p) (\<lambda>resolved p.
       case fetchPublicKey b ctx2 resolved p of
         None \<Rightarrow> None
       | Some (Inr fetched, p) \<Rightarrow> give (Inr (keyDataFor resolved fetched)) p
       | Some (Inl e, p) \<Rightarrow> give (Inr (keyDataFor resolved [])) p))"

definition deactivate_op :: "'t config \<Rightarrow> keyURI \<Rightarrow> ('t, unit) tokenOp" where
  "deactivate_op cfg uri m slot session t =
     attempt (resolveObject m session uri classPrivateKey t) (\<lambda>h t.
       case disableObject m session h t of
         (Inr u, t) \<Rightarrow> (Inr (), t)
       | (Inl e, t) \<Rightarrow> if \<not> deactivateDestroys cfg then (Inl e, t) else ok_unless (m_DestroyObject m session h t))"

definition DeactivateKey :: "'t backend \<Rightarrow> go_ctx \<Rightarrow> DeactivateKeyRequest \<Rightarrow> 't proc \<Rightarrow> ('t, unit) outcome" where
  "DeactivateKey b ctx input p =
     and_then (give (resolveKeyURI (be_cfg b) (deact_KeyID input)) p) (\<lambda>uri p.
       with_session b ctx (deactivate_op (be_cfg b) uri) p)"

subsection \<open>Hashes\<close>

text \<open>These return a string only; the empty one stands for every failure.\<close>

definition string_outcome :: "('t, string) outcome \<Rightarrow> (string \<times> 't proc) option" where
  "string_outcome r = (case r of None \<Rightarrow> None | Some (Inl e, p) \<Rightarrow> Some ([], p) | Some (Inr s, p) \<Rightarrow> Some (s, p))"

definition string_op :: "('t \<Rightarrow> string \<times> 't) \<Rightarrow> 't proc \<Rightarrow> (string \<times> 't proc) option" where
  "string_op f p = (case f (outside p) of (s, t) \<Rightarrow> Some (s, p\<lparr>outside := t\<rparr>))"

definition HMAC :: "'t backend \<Rightarrow> go_ctx \<Rightarrow> string \<Rightarrow> string \<Rightarrow> 't proc \<Rightarrow> (string \<times> 't proc) option" where
  "HMAC b ctx secretKey message p =
     (if \<not> isKeyURI secretKey then string_op (local_HMAC (be_crypto b) (Some ctx) secretKey message) p
      else string_outcome (
        and_then (give (resolveKeyURI (be_cfg b) secretKey) p) (\<lambda>uri p.
        and_then (with_session b ctx (\<lambda>m slot session t.
            check (require slot ckmSHA256HMAC t) (\<lambda>t.
            attempt (resolveObject m session uri classSecretKey t) (\<lambda>h t.
              m_Sign m session ckmSHA256HMAC None h message t))) p) (\<lambda>signature p.
          give (Inr (std_EncodeToString signature)) p))))"

definition Sha256Hex :: "'t backend \<Rightarrow> go_ctx \<Rightarrow> string \<Rightarrow> 't proc \<Rightarrow> (string \<times> 't proc) option" where
  "Sha256Hex b ctx message = string_op (local_Sha256Hex (be_crypto b) (Some ctx) message)"

definition Blake3 :: "'t backend \<Rightarrow> go_ctx \<Rightarrow> string \<Rightarrow> 't proc \<Rightarrow> (string \<times> 't proc) option" where
  "Blake3 b ctx message = string_op (local_Blake3 (be_crypto b) (Some ctx) message)"

subsection \<open>Signatures\<close>

definition sign_op :: "((mechanism \<Rightarrow> bool) \<Rightarrow> err + signPlan) \<Rightarrow> keyURI \<Rightarrow> string \<Rightarrow> ('t, string) tokenOp" where
  "sign_op plan uri message m slot session t =
     attempt (plan (supports slot), t) (\<lambda>chosen t.
     attempt (resolveObject m session uri classPrivateKey t) (\<lambda>h t.
       (let payload = prepare chosen message in
        case m_Sign m session (plan_mechanism chosen) (plan_params chosen) h payload t of
          (Inr signature, t) \<Rightarrow> (Inr signature, t)
        | (Inl e, t) \<Rightarrow> if retryParams chosen \<noteq> None \<and> isMechanismParamError e
            then m_Sign m session (plan_mechanism chosen) (retryParams chosen) h payload t
            else (Inl e, t))))"

definition signWithToken ::
    "'t backend \<Rightarrow> go_ctx \<Rightarrow> string \<Rightarrow> string \<Rightarrow> ((mechanism \<Rightarrow> bool) \<Rightarrow> err + signPlan) \<Rightarrow> 't proc \<Rightarrow> ('t, string) outcome" where
  "signWithToken b ctx reference message plan p =
     and_then (give (resolveKeyURI (be_cfg b) reference) p) (\<lambda>uri p.
     and_then (with_session b ctx (sign_op plan uri message) p) (\<lambda>signature p.
       give (Inr (std_EncodeToString signature)) p))"

definition fetchVerificationKey :: "'t backend \<Rightarrow> go_ctx \<Rightarrow> string \<Rightarrow> 't proc \<Rightarrow> ('t, string) outcome" where
  "fetchVerificationKey b ctx reference p =
     and_then (give (resolveKeyURI (be_cfg b) reference) p) (\<lambda>uri p. fetchPublicKey b ctx uri p)"

definition SignEd25519 :: "'t backend \<Rightarrow> go_ctx \<Rightarrow> string \<Rightarrow> string \<Rightarrow> 't proc \<Rightarrow> ('t, string) outcome" where
  "SignEd25519 b ctx privateKey msg p =
     (if is_ok (ParseEd25519PrivateKeyFromBase64 (be_crypto b) privateKey)
      then outside_op (local_SignEd25519 (be_crypto b) (Some ctx) privateKey msg) p
      else signWithToken b ctx privateKey msg planEd25519 p)"

definition VerifyEd25519 :: "'t backend \<Rightarrow> go_ctx \<Rightarrow> go_ctx \<Rightarrow> string \<Rightarrow> string \<Rightarrow> string \<Rightarrow> 't proc \<Rightarrow> ('t, unit) outcome" where
  "VerifyEd25519 b ctx ctx2 publicKey msg signature p =
     (if is_ok (ParseEd25519PublicKeyFromBase64 (be_crypto b) publicKey)
      then outside_op (local_VerifyEd25519 (be_crypto b) (Some ctx) publicKey msg signature) p
      else
        and_then (give (resolveKeyURI (be_cfg b) publicKey) p) (\<lambda>uri p.
        and_then (fetchPublicKey b ctx uri p) (\<lambda>fetched p.
          outside_op (local_VerifyEd25519 (be_crypto b) (Some ctx2) fetched msg signature) p)))"

definition SignRSAPSS :: "'t backend \<Rightarrow> go_ctx \<Rightarrow> string \<Rightarrow> string \<Rightarrow> 't proc \<Rightarrow> ('t, string) outcome" where
  "SignRSAPSS b ctx privateKey msg p =
     (if is_ok (ParseRSAPrivateKeyFromBase64 (be_crypto b) privateKey)
      then outside_op (local_SignRSAPSS (be_crypto b) (Some ctx) privateKey msg) p
      else signWithToken b ctx privateKey msg (planRSAPSS (sha256_Sum256 (be_crypto b))) p)"

definition VerifyRSAPSS :: "'t backend \<Rightarrow> go_ctx \<Rightarrow> go_ctx \<Rightarrow> string \<Rightarrow> string \<Rightarrow> string \<Rightarrow> 't proc \<Rightarrow> ('t, unit) outcome" where
  "VerifyRSAPSS b ctx ctx2 publicKey msg signature p =
     (if is_ok (ParseRSAPublicKeyFromBase64 (be_crypto b) publicKey)
      then outside_op (local_VerifyRSAPSS (be_crypto b) (Some ctx) publicKey msg signature) p
      else
        and_then (fetchVerificationKey b ctx publicKey p) (\<lambda>fetched p.
          outside_op (local_VerifyRSAPSS (be_crypto b) (Some ctx2) fetched msg signature) p))"

definition Sign_RSA_PKCS1v15_SHA256 :: "'t backend \<Rightarrow> go_ctx \<Rightarrow> string \<Rightarrow> string \<Rightarrow> 't proc \<Rightarrow> ('t, string) outcome" where
  "Sign_RSA_PKCS1v15_SHA256 b ctx privateKey msg p =
     (if privateKey \<noteq> [] \<and> \<not> isKeyURI privateKey
      then outside_op (local_Sign_RSA_PKCS1v15_SHA256 (be_crypto b) (Some ctx) privateKey msg) p
      else signWithToken b ctx privateKey msg (planRSAPKCS1v15 (sha256_Sum256 (be_crypto b))) p)"

definition Verify_RSA_PKCS1v15_SHA256 :: "'t backend \<Rightarrow> go_ctx \<Rightarrow> go_ctx \<Rightarrow> string \<Rightarrow> string \<Rightarrow> string \<Rightarrow> 't proc \<Rightarrow> ('t, unit) outcome" where
  "Verify_RSA_PKCS1v15_SHA256 b ctx ctx2 msg publicKey signature p =
     (if publicKey \<noteq> [] \<and> \<not> isKeyURI publicKey
      then outside_op (local_Verify_RSA_PKCS1v15_SHA256 (be_crypto b) (Some ctx) msg publicKey signature) p
      else
        and_then (fetchVerificationKey b ctx publicKey p) (\<lambda>fetched p.
          outside_op (local_Verify_RSA_PKCS1v15_SHA256 (be_crypto b) (Some ctx2) msg fetched signature) p))"

end
