(* ===== verification/Pkcs11_Guarantees.thy ===== *)
theory Pkcs11_Guarantees
  imports Pkcs11_Repository Pkcs11_Rules
begin

text \<open>
  What the token-backed repository guarantees: which changes a call may ask the token for, that its calls come back and
  leave the process quiescent, that its ciphertexts and signatures agree with the local backend, and that the references it
  hands out can be used.
\<close>

subsection \<open>What a call may ask of the token\<close>

datatype effect = Create "attribute list" | Derive "attribute list" | SetAttrs "attribute list" | Destroy

text \<open>
  The library keeps \<open>I\<close> under everything that only reads, and under the effects in \<open>ok\<close>. The template of \<open>Create\<close> is that of
  the secret or private key.
\<close>

definition allows :: "('t \<Rightarrow> bool) \<Rightarrow> (effect \<Rightarrow> bool) \<Rightarrow> 't token_module \<Rightarrow> bool" where
  "allows I ok m \<longleftrightarrow> reads_keep I m
     \<and> (\<forall>tp. ok (Create tp) \<longrightarrow> (\<forall>s mech. keeps I (m_GenerateKey m s mech tp)))
     \<and> (\<forall>tp. ok (Create tp) \<longrightarrow> (\<forall>s mech public. keeps I (m_GenerateKeyPair m s mech public tp)))
     \<and> (\<forall>tp. ok (Derive tp) \<longrightarrow> (\<forall>s mech ps h. keeps I (m_DeriveKey m s mech ps h tp)))
     \<and> (\<forall>tp. ok (SetAttrs tp) \<longrightarrow> (\<forall>s h. keeps I (m_SetAttributes m s h tp)))
     \<and> (ok Destroy \<longrightarrow> (\<forall>s h. keeps I (m_DestroyObject m s h)))"

definition nonextractable :: "attribute list \<Rightarrow> bool" where
  "nonextractable tp \<longleftrightarrow> findAttribute tp ckaSensitive = Some [CHR 0x01] \<and> findAttribute tp ckaExtractable = Some [CHR 0x00]"

definition clears_usage :: "attribute list \<Rightarrow> bool" where
  "clears_usage tp \<longleftrightarrow> list_all (\<lambda>a. Type a \<in> set deactivatableAttributes \<and> boolValue (Value a) = Some False) tp"

text \<open>The calls of the repository.\<close>

datatype call =
    Call_GenerateSymetrycKeys GenerateSymmetricKeyRequest | Call_EncryptAES EncryptAESRequest | Call_DecryptAES DecryptAESRequest
  | Call_GenerateRSAKeys GenerateRSAKeyRequest | Call_GenerateECDHCurveKeys GenerateECDHCurveKeyRequest
  | Call_RSA_OAEP_Encode RSAOAEPEncodeRequest | Call_RSA_OAEP_Decode RSAOAEPDecodeRequest
  | Call_ECDH_Encode ECDHEncodeRequest | Call_ECDH_Decode ECDHDecodeRequest
  | Call_RotateKey RotateKeyRequest | Call_GetKey GetKeyRequest | Call_DeactivateKey DeactivateKeyRequest
  | Call_HMAC string string | Call_Sha256Hex string | Call_Blake3 string | Call_GenerateEd255Keys
  | Call_SignEd25519 string string | Call_VerifyEd25519 string string string
  | Call_SignRSAPSS string string | Call_VerifyRSAPSS string string string
  | Call_Sign_RSA_PKCS1v15_SHA256 string string | Call_Verify_RSA_PKCS1v15_SHA256 string string string

fun perform :: "'t backend \<Rightarrow> go_ctx \<Rightarrow> go_ctx \<Rightarrow> call \<Rightarrow> 't proc \<Rightarrow> 't proc option" where
  "perform b ctx ctx2 (Call_GenerateSymetrycKeys r) p = map_option snd (GenerateSymetrycKeys b ctx r p)"
| "perform b ctx ctx2 (Call_EncryptAES r) p = map_option snd (EncryptAES b ctx r p)"
| "perform b ctx ctx2 (Call_DecryptAES r) p = map_option snd (DecryptAES b ctx r p)"
| "perform b ctx ctx2 (Call_GenerateRSAKeys r) p = map_option snd (GenerateRSAKeys b ctx r p)"
| "perform b ctx ctx2 (Call_GenerateECDHCurveKeys r) p = map_option snd (GenerateECDHCurveKeys b ctx r p)"
| "perform b ctx ctx2 (Call_RSA_OAEP_Encode r) p = map_option snd (RSA_OAEP_Encode b ctx ctx2 r p)"
| "perform b ctx ctx2 (Call_RSA_OAEP_Decode r) p = map_option snd (RSA_OAEP_Decode b ctx r p)"
| "perform b ctx ctx2 (Call_ECDH_Encode r) p = map_option snd (ECDH_Encode b ctx ctx2 r p)"
| "perform b ctx ctx2 (Call_ECDH_Decode r) p = map_option snd (ECDH_Decode b ctx ctx2 r p)"
| "perform b ctx ctx2 (Call_RotateKey r) p = map_option snd (RotateKey b ctx r p)"
| "perform b ctx ctx2 (Call_GetKey r) p = map_option snd (GetKey b ctx ctx2 r p)"
| "perform b ctx ctx2 (Call_DeactivateKey r) p = map_option snd (DeactivateKey b ctx r p)"
| "perform b ctx ctx2 (Call_HMAC key m) p = map_option snd (HMAC b ctx key m p)"
| "perform b ctx ctx2 (Call_Sha256Hex m) p = map_option snd (Sha256Hex b ctx m p)"
| "perform b ctx ctx2 (Call_Blake3 m) p = map_option snd (Blake3 b ctx m p)"
| "perform b ctx ctx2 Call_GenerateEd255Keys p = map_option snd (GenerateEd255Keys b ctx p)"
| "perform b ctx ctx2 (Call_SignEd25519 key m) p = map_option snd (SignEd25519 b ctx key m p)"
| "perform b ctx ctx2 (Call_VerifyEd25519 key m s) p = map_option snd (VerifyEd25519 b ctx ctx2 key m s p)"
| "perform b ctx ctx2 (Call_SignRSAPSS key m) p = map_option snd (SignRSAPSS b ctx key m p)"
| "perform b ctx ctx2 (Call_VerifyRSAPSS key m s) p = map_option snd (VerifyRSAPSS b ctx ctx2 key m s p)"
| "perform b ctx ctx2 (Call_Sign_RSA_PKCS1v15_SHA256 key m) p = map_option snd (Sign_RSA_PKCS1v15_SHA256 b ctx key m p)"
| "perform b ctx ctx2 (Call_Verify_RSA_PKCS1v15_SHA256 m key s) p = map_option snd (Verify_RSA_PKCS1v15_SHA256 b ctx ctx2 m key s p)"

text \<open>The policy: what each call may ask for under a configuration. Everything else it may only read.\<close>

fun policy :: "'t config \<Rightarrow> call \<Rightarrow> effect \<Rightarrow> bool" where
  "policy cfg (Call_GenerateSymetrycKeys r) (Create tp) = nonextractable tp"
| "policy cfg (Call_GenerateRSAKeys r) (Create tp) = nonextractable tp"
| "policy cfg (Call_GenerateECDHCurveKeys r) (Create tp) = nonextractable tp"
| "policy cfg Call_GenerateEd255Keys (Create tp) = nonextractable tp"
| "policy cfg (Call_RotateKey r) (Create tp) = nonextractable tp"
| "policy cfg (Call_RotateKey r) (SetAttrs tp) = (rotateDisablesPrev cfg \<and> clears_usage tp)"
| "policy cfg (Call_DeactivateKey r) (SetAttrs tp) = clears_usage tp"
| "policy cfg (Call_DeactivateKey r) Destroy = deactivateDestroys cfg"
| "policy cfg (Call_ECDH_Decode r) (Derive tp) = (nonextractable tp \<or> allowSecretExtraction cfg)"
| "policy cfg (Call_ECDH_Decode r) Destroy = True"
| "policy cfg c e = False"

text \<open>The rest of the outside world: the loader, the PIN provider, randomness and the clock keep \<open>I\<close>.\<close>

definition crypto_keeps :: "('t \<Rightarrow> bool) \<Rightarrow> 't crypto \<Rightarrow> bool" where
  "crypto_keeps I C \<longleftrightarrow> (\<forall>n. keeps I (rand_Read C n)) \<and> (\<forall>k m. keeps I (rsa_EncryptOAEP C k m))
     \<and> (\<forall>k m. keeps I (rsa_SignPSS C k m)) \<and> (\<forall>c. keeps I (ecdh_GenerateKey C c))"

definition surroundings_keep :: "('t \<Rightarrow> bool) \<Rightarrow> ('t token_module \<Rightarrow> bool) \<Rightarrow> 't backend \<Rightarrow> bool" where
  "surroundings_keep I P b \<longleftrightarrow> loader_ok I P (be_loader b) \<and> pin_ok I (be_cfg b) \<and> crypto_keeps I (be_crypto b) \<and> keeps I (be_UnixNano b)"

subsection \<open>Calls that keep a property\<close>

definition okeeps :: "('t \<Rightarrow> bool) \<Rightarrow> ('t token_module \<Rightarrow> bool) \<Rightarrow> ('t proc \<Rightarrow> ('r \<times> 't proc) option) \<Rightarrow> bool" where
  "okeeps I P f \<longleftrightarrow> (\<forall>p r p'. I (outside p) \<and> mods_ok P p \<longrightarrow> f p = Some (r, p') \<longrightarrow> I (outside p') \<and> mods_ok P p')"

lemma okeepsD: "okeeps I P f \<Longrightarrow> I (outside p) \<Longrightarrow> mods_ok P p \<Longrightarrow> f p = Some (r, p') \<Longrightarrow> I (outside p') \<and> mods_ok P p'"
  unfolding okeeps_def by blast

lemma okeeps_give [keeps_intros]: "okeeps I P (give r)"
  by (simp add: okeeps_def)

lemma okeeps_then [keeps_intros]:
  assumes "okeeps I P f" "\<And>x. okeeps I P (k x)"
  shows "okeeps I P (\<lambda>p. and_then (f p) k)"
  unfolding okeeps_def
proof (intro allI impI)
  fix p r p' assume i: "I (outside p) \<and> mods_ok P p" and "and_then (f p) k = Some (r, p')"
  then obtain q p1 where f: "f p = Some (q, p1)" by (auto simp: and_then_def split: option.splits)
  have "I (outside p1) \<and> mods_ok P p1" using okeepsD[OF assms(1) _ _ f] i by blast
  then show "I (outside p') \<and> mods_ok P p'"
    using \<open>and_then (f p) k = Some (r, p')\<close> f okeepsD[OF assms(2)] by (cases q) auto
qed

lemma okeeps_outside [keeps_intros]: "keeps I f \<Longrightarrow> okeeps I P (outside_op f)"
  by (auto simp: okeeps_def outside_op_def keeps_def split: prod.splits)

lemma okeeps_string_op [keeps_intros]: "keeps I f \<Longrightarrow> okeeps I P (string_op f)"
  by (auto simp: okeeps_def string_op_def keeps_def split: prod.splits)

lemma okeeps_string_outcome [keeps_intros]:
  assumes "okeeps I P f"
  shows "okeeps I P (\<lambda>p. string_outcome (f p))"
  unfolding okeeps_def
proof (intro allI impI)
  fix p r p' assume i: "I (outside p) \<and> mods_ok P p" and s: "string_outcome (f p) = Some (r, p')"
  then obtain q where "f p = Some (q, p')" by (auto simp: string_outcome_def split: option.splits sum.splits)
  then show "I (outside p') \<and> mods_ok P p'" using okeepsD[OF assms] i by blast
qed

lemma okeeps_if [keeps_intros]: "(c \<Longrightarrow> okeeps I P f) \<Longrightarrow> (\<not> c \<Longrightarrow> okeeps I P g) \<Longrightarrow> okeeps I P (\<lambda>p. if c then f p else g p)"
  by (cases c) simp_all

lemma okeeps_session:
  assumes "surroundings_keep I P b" "\<And>m. P m \<Longrightarrow> reads_keep I m" "\<And>m s h. P m \<Longrightarrow> keeps I (op m s h)"
  shows "okeeps I P (with_session b ctx op)"
  unfolding okeeps_def with_session_def
proof (intro allI impI)
  fix p r p' assume "I (outside p) \<and> mods_ok P p"
    and w: "withSession (be_resolve b) (be_loader b) ctx (be_cfg b) op p = Some (r, p')"
  have s: "loader_ok I P (be_loader b)" "pin_ok I (be_cfg b)" using assms(1) by (simp_all add: surroundings_keep_def)
  have "I (outside p)" "mods_ok P p" using \<open>I (outside p) \<and> mods_ok P p\<close> by simp_all
  from withSession_rule[OF w s(1) assms(2) s(2) assms(3) this] show "I (outside p') \<and> mods_ok P p'" by blast
qed

lemma keeps_runWithContext [keeps_intros]: "keeps I f \<Longrightarrow> keeps I (runWithContext ctx f)"
  by (auto simp: keeps_def runWithContext_def split: option.splits)

lemma keeps_pure [keeps_intros]: "keeps I (pure r)"
  by (simp add: keeps_def pure_def)

lemma keeps_wrap_state [keeps_intros]: "keeps I f \<Longrightarrow> keeps I (\<lambda>t. wrap_state w (f t))"
  by (auto simp: keeps_def wrap_state_def split: prod.splits)

lemma keeps_or_empty [keeps_intros]: "keeps I f \<Longrightarrow> keeps I (\<lambda>t. or_empty (f t))"
  by (auto simp: keeps_def or_empty_def split: prod.splits sum.splits)

lemma keeps_map_prod [keeps_intros]: "keeps I f \<Longrightarrow> keeps I (\<lambda>t. map_prod g (\<lambda>t. t) (f t))"
  by (auto simp: keeps_def map_prod_def split: prod.splits)

lemma keeps_require [keeps_intros]: "keeps I (require slot mech)"
  by (simp add: keeps_def require_def)

lemma keeps_then_destroy [keeps_intros]:
  assumes "keeps I f" "keeps I (m_DestroyObject m s h)"
  shows "keeps I (\<lambda>t. then_destroy m s h (f t))"
  using assms by (auto simp: keeps_def then_destroy_def split: prod.splits)

lemma keeps_ok_unless [keeps_intros]: "keeps I f \<Longrightarrow> keeps I (\<lambda>t. ok_unless (f t))"
  by (auto simp: keeps_def ok_unless_def split: prod.splits option.splits)

lemma keeps_Let [keeps_intros]: "(\<And>x. x = v \<Longrightarrow> keeps I (f x)) \<Longrightarrow> keeps I (\<lambda>t. let x = v in f x t)"
  by (simp add: Let_def)

subsection \<open>The local backend and the token operations keep what they may not change\<close>

lemma crypto_keepsD [keeps_intros]:
  assumes "crypto_keeps I C"
  shows "keeps I (rand_Read C n)" "keeps I (rsa_EncryptOAEP C k m)" "keeps I (rsa_SignPSS C k2 m)" "keeps I (ecdh_GenerateKey C c)"
  using assms by (simp_all add: crypto_keeps_def)

lemma keeps_local:
  assumes "crypto_keeps I C"
  shows "keeps I (local_EncryptAES C ctx i1)" "keeps I (local_DecryptAES C ctx i2)" "keeps I (local_RSA_OAEP_Encode C ctx i3)"
    "keeps I (local_RSA_OAEP_Decode C ctx i4)" "keeps I (local_ECDH_Encode C ctx i5)" "keeps I (local_ECDH_Decode C ctx i6)"
    "keeps I (local_SignEd25519 C ctx x y)" "keeps I (local_VerifyEd25519 C ctx x y z)" "keeps I (local_SignRSAPSS C ctx x y)"
    "keeps I (local_VerifyRSAPSS C ctx x y z)" "keeps I (local_Sign_RSA_PKCS1v15_SHA256 C ctx x y)"
    "keeps I (local_Verify_RSA_PKCS1v15_SHA256 C ctx x y z)" "keeps I (local_HMAC C ctx x y)" "keeps I (local_Sha256Hex C ctx x)"
    "keeps I (local_Blake3 C ctx x)"
  using assms
  unfolding local_EncryptAES_def local_DecryptAES_def local_RSA_OAEP_Encode_def local_RSA_OAEP_Decode_def local_ECDH_Encode_def
    local_ECDH_Decode_def local_SignEd25519_def local_VerifyEd25519_def local_SignRSAPSS_def local_VerifyRSAPSS_def
    local_Sign_RSA_PKCS1v15_SHA256_def local_Verify_RSA_PKCS1v15_SHA256_def local_HMAC_def[abs_def] local_Sha256Hex_def[abs_def]
    local_Blake3_def[abs_def] encryptAES_def[abs_def]
  by (intro keeps_intros; assumption?)+
subsection \<open>The token operations\<close>

lemma keeps_findObject: "reads_keep I m \<Longrightarrow> keeps I (findObject m s uri cls b)"
  unfolding findObject_def[abs_def] Let_def by (intro keeps_intros; assumption?)

lemma keeps_resolveObject [keeps_intros]: "reads_keep I m \<Longrightarrow> keeps I (resolveObject m s uri cls)"
  unfolding resolveObject_def[abs_def] by (intro keeps_intros keeps_findObject; assumption?)

lemma keeps_first_found: "reads_keep I m \<Longrightarrow> keeps I (first_found m s searches)"
proof (induction searches)
  case Nil
  then show ?case by (simp add: keeps_def)
next
  case (Cons a rest)
  obtain u c where a: "a = (u, c)" by fastforce
  have "I (snd (first_found m s (a # rest) t))" if "I t" for t
  proof -
    obtain r t1 where f: "findObject m s u c True t = (r, t1)" by fastforce
    have "I t1" by (rule keepsD[OF keeps_findObject[OF Cons.prems] that f])
    then show ?thesis using Cons f a by (cases r) (auto simp: keeps_def)
  qed
  then show ?case by (simp add: keeps_def)
qed

lemma keeps_publicObjectFor [keeps_intros]:
  assumes "reads_keep I m"
  shows "keeps I (publicObjectFor m s uri)"
  using keeps_first_found[OF assms, of s "public_searches uri"]
  by (auto simp: keeps_def publicObjectFor_def split: prod.splits option.splits)

lemma allowsD:
  assumes "allows I ok m"
  shows "reads_keep I m" "ok (Create tp) \<Longrightarrow> keeps I (m_GenerateKey m s mech tp)"
    "ok (Create tp) \<Longrightarrow> keeps I (m_GenerateKeyPair m s mech public tp)"
    "ok (Derive tp) \<Longrightarrow> keeps I (m_DeriveKey m s mech ps h tp)" "ok (SetAttrs tp) \<Longrightarrow> keeps I (m_SetAttributes m s h tp)"
    "ok Destroy \<Longrightarrow> keeps I (m_DestroyObject m s h)"
  using assms by (auto simp: allows_def)

lemma nonextractable_templates:
  "nonextractable (aesKeyTemplate label i n)" "nonextractable (tokenKeyTemplate label i @ others)"
  "nonextractable (derived_secret_template False)" "nonextractable derived_aes_template"
  by (simp_all add: nonextractable_def aesKeyTemplate_def tokenKeyTemplate_def derived_secret_template_def derived_aes_template_def
      newBoolAttribute_def newBytesAttribute_def newULongAttribute_def cka_defs)

lemma disable_template_clears: "clears_usage (disable_template present)"
  by (auto simp: clears_usage_def disable_template_def newBoolAttribute_def boolValue_def list_all_iff)

lemma keeps_generate_pair [keeps_intros]:
  assumes "allows I ok m" "ok (Create tp)"
  shows "keeps I (generate_pair mech public tp kinds build m slot s)"
proof -
  note reads = reads_keepD(8)[OF allowsD(1)[OF assms(1)]]
  have "keeps I (\<lambda>t. attempt (m_GenerateKeyPair m s mech public tp t)
      (\<lambda>(publicHandle, privateHandle) t. attempt (m_GetAttributes m s publicHandle kinds t) (\<lambda>attributes t. (build attributes, t))))"
    by (rule keeps_attempt[OF allowsD(3)[OF assms]])
      (simp only: split_beta, intro keeps_attempt reads keeps_return)
  then show ?thesis unfolding generate_pair_def[abs_def] by (intro keeps_check keeps_require)
qed

lemma keeps_disableObject:
  assumes "allows I ok m" "\<And>tp. clears_usage tp \<Longrightarrow> ok (SetAttrs tp)"
  shows "keeps I (disableObject m s h)"
  unfolding disableObject_def[abs_def]
  by (intro keeps_attempt reads_keepD(8)[OF allowsD(1)[OF assms(1)]] keeps_if keeps_return keeps_ok_unless
      allowsD(5)[OF assms(1)] assms(2) disable_template_clears)

lemma keeps_generateReplacement:
  assumes "allows I ok m" "\<And>tp. nonextractable tp \<Longrightarrow> ok (Create tp)"
  shows "keeps I (generateReplacement C attributes label i m slot s)"
  unfolding generateReplacement_def[abs_def]
  by (intro keeps_case_option keeps_if keeps_return keeps_check keeps_require keeps_attempt allowsD(2)[OF assms(1)] assms(2)
      nonextractable_templates keeps_generate_pair[OF assms(1)])

lemma keeps_object_label:
  assumes "keeps I (be_UnixNano b)"
  shows "keeps I (object_label b pref uid)"
  using assms by (auto simp: keeps_def object_label_def split: prod.splits)

lemma keeps_rotate_op:
  assumes m: "allows I ok m" and create: "\<And>tp. nonextractable tp \<Longrightarrow> ok (Create tp)"
    and set: "\<And>tp. rotateDisablesPrev (be_cfg b) \<Longrightarrow> clears_usage tp \<Longrightarrow> ok (SetAttrs tp)" and clock: "keeps I (be_UnixNano b)"
  shows "keeps I (rotate_op b uid uri i m slot s)"
proof -
  note reads = allowsD(1)[OF m]
  have "keeps I (\<lambda>t. case object_label b (rotationLabelBase attributes uri) uid t of (label, t) \<Rightarrow>
      attempt (generateReplacement (be_crypto b) attributes label i m slot s t) (\<lambda>rotated t.
        if rotateDisablesPrev (be_cfg b) then attempt (disableObject m s h t) (\<lambda>_ t. (Inr rotated, t)) else (Inr rotated, t)))"
    (is "keeps I (\<lambda>t. case _ of (label, t) \<Rightarrow> ?rest label t)") for attributes h
  proof -
    have rest: "keeps I (?rest label)" for label
      by (intro keeps_attempt keeps_generateReplacement[OF m create] keeps_if keeps_return keeps_disableObject[OF m] set)
    show ?thesis
      unfolding keeps_def
    proof (intro allI impI)
      fix t assume "I t"
      obtain label t1 where l: "object_label b (rotationLabelBase attributes uri) uid t = (label, t1)" by fastforce
      then have "I t1" using keepsD[OF keeps_object_label[OF clock] \<open>I t\<close>] by blast
      then show "I (snd (case object_label b (rotationLabelBase attributes uri) uid t of (label, t) \<Rightarrow> ?rest label t))"
        using rest[of label] l by (simp add: keeps_def)
    qed
  qed
  then show ?thesis
    unfolding rotate_op_def[abs_def] by (intro keeps_attempt keeps_resolveObject reads reads_keepD(8)[OF reads])
qed

lemma keeps_deactivate_op:
  assumes m: "allows I ok m" and set: "\<And>tp. clears_usage tp \<Longrightarrow> ok (SetAttrs tp)" and destroy: "deactivateDestroys cfg \<Longrightarrow> ok Destroy"
  shows "keeps I (deactivate_op cfg uri m slot s)"
proof -
  have "keeps I (\<lambda>t. case disableObject m s h t of (Inl e, t1) \<Rightarrow> (if \<not> deactivateDestroys cfg then (Inl e, t1)
      else ok_unless (m_DestroyObject m s h t1)) | (Inr u, t1) \<Rightarrow> (Inr (), t1))" for h
    by (intro keeps_case_sum keeps_disableObject[OF m] set keeps_if keeps_return keeps_ok_unless allowsD(6)[OF m] destroy) simp_all
  then show ?thesis
    unfolding deactivate_op_def[abs_def]
    by (intro keeps_attempt keeps_resolveObject allowsD(1)[OF m]) (auto simp: keeps_def split: sum.splits prod.splits)
qed

lemma keeps_ecdh_decode_op:
  assumes m: "allows I ok m" and derive: "\<And>tp. nonextractable tp \<or> allowSecretExtraction cfg \<Longrightarrow> ok (Derive tp)" and destroy: "ok Destroy"
  shows "keeps I (ecdh_decode_op cfg uri peer curve raw m slot s)"
proof -
  note reads = allowsD(1)[OF m]
  have hw: "keeps I (decryptECDHInHardware m s k peer info curve raw)" for k info
    unfolding decryptECDHInHardware_def[abs_def]
    by (intro keeps_attempt keeps_then_destroy allowsD(4)[OF m] allowsD(6)[OF m destroy] reads_keepD(10)[OF reads] derive
        disjI1 nonextractable_templates)
  have ex: "keeps I (deriveExtractableSecret m s k peer)" if "allowSecretExtraction cfg" for k
    unfolding deriveExtractableSecret_def[abs_def]
    by (intro keeps_attempt keeps_then_destroy allowsD(4)[OF m] allowsD(6)[OF m destroy] reads_keepD(8)[OF reads]
        derive disjI2 that keeps_case_option keeps_if keeps_return)
  define pull where "pull k = (\<lambda>t. if \<not> allowSecretExtraction cfg then
      (Inl (WrapErr ''%w: token lacks CKM_HKDF_DERIVE and extraction is disabled'' [Sentinel ErrSecretNotExtractable]), t)
    else attempt (deriveExtractableSecret m s k peer t) (\<lambda>secret t. (Inr (None :: string option, secret), t)))" for k
  have e: "keeps I (pull k)" for k unfolding pull_def by (intro keeps_if keeps_return keeps_attempt ex) simp
  have "keeps I (\<lambda>t. case decryptECDHInHardware m s k peer info curve raw t of
      (Inl e, t) \<Rightarrow> (if \<not> allowSecretExtraction cfg then (Inl e, t) else pull k t)
    | (Inr plaintext, t) \<Rightarrow> (Inr (plaintext, []), t))" for k info
    by (intro keeps_case_sum hw keeps_if keeps_return e)
  then have "keeps I (\<lambda>t. if supportsInHardwareECDH (supports slot) then
      (case decryptECDHInHardware m s k peer (eccHKDFInfoPrefix @ curve) curve raw t of
         (Inl e, t) \<Rightarrow> (if \<not> allowSecretExtraction cfg then (Inl e, t) else pull k t)
       | (Inr plaintext, t) \<Rightarrow> (Inr (plaintext, []), t)) else pull k t)" for k
    by (intro keeps_if e)
  then show ?thesis
    unfolding ecdh_decode_op_def[abs_def] Let_def pull_def
    by (intro keeps_check keeps_require keeps_attempt keeps_resolveObject reads)
qed
subsection \<open>The calls\<close>

lemma okeeps_outside_simp: "keeps I f \<Longrightarrow> okeeps I P (\<lambda>p. outside_op f p)"
  by (rule okeeps_outside)

lemma okeeps_case_option [keeps_intros]:
  assumes "c = None \<Longrightarrow> okeeps I P f" "\<And>x. c = Some x \<Longrightarrow> okeeps I P (g x)"
  shows "okeeps I P (\<lambda>p. case c of None \<Rightarrow> f p | Some x \<Rightarrow> g x p)"
  using assms by (cases c) simp_all

lemma okeeps_perform: "okeeps I P f \<Longrightarrow> I (outside p) \<Longrightarrow> mods_ok P p \<Longrightarrow> map_option snd (f p) = Some p' \<Longrightarrow> I (outside p') \<and> mods_ok P p'"
  by (auto dest: okeepsD)

lemma surroundings_crypto: "surroundings_keep I P b \<Longrightarrow> crypto_keeps I (be_crypto b)"
  and surroundings_clock: "surroundings_keep I P b \<Longrightarrow> keeps I (be_UnixNano b)"
  by (simp_all add: surroundings_keep_def)

lemma okeeps_token:
  assumes "surroundings_keep I (allows I ok) b" "\<And>m s h. allows I ok m \<Longrightarrow> keeps I (op m s h)"
  shows "okeeps I (allows I ok) (with_session b ctx op)"
  by (rule okeeps_session[OF assms(1) _ assms(2)]) (rule allowsD(1))

lemma okeeps_newObjectID: "surroundings_keep I P b \<Longrightarrow> okeeps I P (newObjectID b)"
  unfolding newObjectID_def by (intro okeeps_outside keeps_wrap_state crypto_keepsD) (rule surroundings_crypto)

lemma okeeps_newObjectLabel: "surroundings_keep I P b \<Longrightarrow> okeeps I P (newObjectLabel b pref uid)"
  unfolding newObjectLabel_def by (intro okeeps_outside keeps_map_prod keeps_object_label) (rule surroundings_clock)

lemma okeeps_fetchPublicKey:
  assumes "surroundings_keep I (allows I ok) b"
  shows "okeeps I (allows I ok) (fetchPublicKey b ctx uri)"
  unfolding fetchPublicKey_def
proof (rule okeeps_token[OF assms])
  fix m slot s assume "allows I ok m"
  note reads = allowsD(1)[OF this]
  show "keeps I (\<lambda>t. attempt (publicObjectFor m s uri t) (\<lambda>(h, cls) t.
     if cls = classCertificate then
       attempt (m_GetAttributes m s h [ckaValue] t) (\<lambda>attributes t. (certificatePublicKey (be_crypto b) attributes, t))
     else attempt (m_GetAttributes m s h [ckaKeyType, ckaModulus, ckaPublicExpon, ckaECPoint, ckaECParams] t)
         (\<lambda>attributes t. (publicKeyFromAttributes (be_crypto b) attributes, t))))"
    by (rule keeps_attempt[OF keeps_publicObjectFor[OF reads]])
      (simp only: split_beta, intro keeps_attempt keeps_if reads_keepD(8)[OF reads] keeps_return)
qed

lemma okeeps_generate:
  assumes "surroundings_keep I (allows I ok) b" "\<And>m s h label i. allows I ok m \<Longrightarrow> keeps I (op label i m s h)"
  shows "okeeps I (allows I ok) (generate_on_token b ctx pref uid op)"
  unfolding generate_on_token_def[abs_def]
  by (intro okeeps_then okeeps_newObjectID[OF assms(1)] okeeps_newObjectLabel[OF assms(1)] okeeps_token[OF assms] okeeps_give)
lemmas call_intros = okeeps_then okeeps_give okeeps_outside okeeps_string_op okeeps_string_outcome okeeps_if okeeps_case_option
  keeps_check keeps_require keeps_attempt keeps_return keeps_resolveObject keeps_local keeps_wrap_state reads_keepD allowsD(1)

lemma okeeps_reading_calls:
  assumes s: "surroundings_keep I (allows I ok) b"
  shows "okeeps I (allows I ok) (EncryptAES b ctx i1)" "okeeps I (allows I ok) (DecryptAES b ctx i2)"
    "okeeps I (allows I ok) (RSA_OAEP_Encode b ctx ctx2 i3)" "okeeps I (allows I ok) (ECDH_Encode b ctx ctx2 i4)"
    "okeeps I (allows I ok) (HMAC b ctx x y)" "okeeps I (allows I ok) (Sha256Hex b ctx x)" "okeeps I (allows I ok) (Blake3 b ctx x)"
    "okeeps I (allows I ok) (signWithToken b ctx x y plan)" "okeeps I (allows I ok) (fetchVerificationKey b ctx x)"
    "okeeps I (allows I ok) (RSA_OAEP_Decode b ctx i5)"
proof -
  note cr = surroundings_crypto[OF s]
  note token = okeeps_token[OF s] and fetch = okeeps_fetchPublicKey[OF s]
  show "okeeps I (allows I ok) (EncryptAES b ctx i1)"
    unfolding EncryptAES_def[abs_def] by (intro call_intros token crypto_keepsD cr; assumption?)
  show "okeeps I (allows I ok) (DecryptAES b ctx i2)"
    unfolding DecryptAES_def[abs_def] by (intro call_intros token cr; assumption?)
  show "okeeps I (allows I ok) (RSA_OAEP_Encode b ctx ctx2 i3)"
    unfolding RSA_OAEP_Encode_def[abs_def] by (intro call_intros fetch cr)
  show "okeeps I (allows I ok) (ECDH_Encode b ctx ctx2 i4)"
    unfolding ECDH_Encode_def[abs_def] by (intro call_intros fetch cr)
  show "okeeps I (allows I ok) (HMAC b ctx x y)"
    unfolding HMAC_def[abs_def] by (intro call_intros token cr; assumption?)
  show "okeeps I (allows I ok) (Sha256Hex b ctx x)" "okeeps I (allows I ok) (Blake3 b ctx x)"
    unfolding Sha256Hex_def Blake3_def by (intro call_intros cr)+
  show "okeeps I (allows I ok) (fetchVerificationKey b ctx x)"
    unfolding fetchVerificationKey_def[abs_def] by (intro call_intros fetch)
  have sign: "keeps I (sign_op plan uri y m slot h)" if "allows I ok m" for uri m slot h
    unfolding sign_op_def[abs_def] Let_def
    by (intro keeps_attempt keeps_return keeps_resolveObject keeps_case_sum keeps_if reads_keepD(11) allowsD(1)[OF that])
  show "okeeps I (allows I ok) (signWithToken b ctx x y plan)"
    unfolding signWithToken_def[abs_def] by (intro call_intros token sign)
  have dec: "keeps I (\<lambda>t. case m_Decrypt m h mech ps k y t of
      (Inl e, t) \<Rightarrow> (Inl (if isMechanismParamError e then WrapErr ''%w: %w'' [Sentinel ErrOAEPHashUnsupported, e] else e), t)
    | (Inr plaintext, t) \<Rightarrow> (Inr plaintext, t))" if "allows I ok m" for m h mech ps k y
    by (intro keeps_case_sum keeps_return reads_keepD(10) allowsD(1)[OF that])
  show "okeeps I (allows I ok) (RSA_OAEP_Decode b ctx i5)"
    unfolding RSA_OAEP_Decode_def[abs_def]
    by (intro okeeps_if okeeps_then okeeps_give okeeps_outside keeps_local keeps_check keeps_require keeps_attempt keeps_resolveObject
        allowsD(1)[where ok = ok] token dec cr; assumption?)
qed

lemma okeeps_signatures:
  assumes s: "surroundings_keep I (allows I ok) b"
  shows "okeeps I (allows I ok) (SignEd25519 b ctx x y)" "okeeps I (allows I ok) (VerifyEd25519 b ctx ctx2 x y z)"
    "okeeps I (allows I ok) (SignRSAPSS b ctx x y)" "okeeps I (allows I ok) (VerifyRSAPSS b ctx ctx2 x y z)"
    "okeeps I (allows I ok) (Sign_RSA_PKCS1v15_SHA256 b ctx x y)" "okeeps I (allows I ok) (Verify_RSA_PKCS1v15_SHA256 b ctx ctx2 x y z)"
  unfolding SignEd25519_def[abs_def] VerifyEd25519_def[abs_def] SignRSAPSS_def[abs_def] VerifyRSAPSS_def[abs_def]
    Sign_RSA_PKCS1v15_SHA256_def[abs_def] Verify_RSA_PKCS1v15_SHA256_def[abs_def]
  by (intro call_intros okeeps_reading_calls[OF s] okeeps_fetchPublicKey[OF s] surroundings_crypto[OF s])+

lemma okeeps_GetKey:
  assumes s: "surroundings_keep I (allows I ok) b"
  shows "okeeps I (allows I ok) (GetKey b ctx ctx2 input)"
proof -
  have fetch: "okeeps I (allows I ok) (\<lambda>p. case fetchPublicKey b ctx2 resolved p of None \<Rightarrow> None
      | Some (Inr fetched, p) \<Rightarrow> give (Inr (keyDataFor resolved fetched)) p
      | Some (Inl e, p) \<Rightarrow> give (Inr (keyDataFor resolved [])) p)" for resolved
    unfolding okeeps_def
  proof (intro allI impI)
    fix p r p' assume i: "I (outside p) \<and> mods_ok (allows I ok) p"
      and "(case fetchPublicKey b ctx2 resolved p of None \<Rightarrow> None
        | Some (Inr fetched, p) \<Rightarrow> give (Inr (keyDataFor resolved fetched)) p
        | Some (Inl e, p) \<Rightarrow> give (Inr (keyDataFor resolved [])) p) = Some (r, p')"
    then obtain q where "fetchPublicKey b ctx2 resolved p = Some (q, p')" by (auto split: option.splits sum.splits)
    from okeepsD[OF okeeps_fetchPublicKey[OF s] _ _ this] i show "I (outside p') \<and> mods_ok (allows I ok) p'" by blast
  qed
  have "keeps I (lookup_op uri m slot h)" if "allows I ok m" for uri m slot h
    unfolding lookup_op_def[abs_def] Let_def
    by (intro keeps_attempt keeps_return keeps_resolveObject reads_keepD(8) allowsD(1)[OF that])
  then show ?thesis
    unfolding GetKey_def[abs_def] by (intro okeeps_then okeeps_give okeeps_token[OF s] fetch)
qed

lemma okeeps_generators:
  assumes s: "surroundings_keep I (allows I ok) b" and create: "\<And>tp. nonextractable tp \<Longrightarrow> ok (Create tp)"
  shows "okeeps I (allows I ok) (GenerateSymetrycKeys b ctx i1)" "okeeps I (allows I ok) (GenerateRSAKeys b ctx i2)"
    "okeeps I (allows I ok) (GenerateECDHCurveKeys b ctx i3)" "okeeps I (allows I ok) (GenerateEd255Keys b ctx)"
proof -
  have pair: "okeeps I (allows I ok) (generate_on_token b ctx pref uid (\<lambda>label i. generate_pair mech (public label i)
      (tokenKeyTemplate label i @ others) kinds build))" for pref uid mech public others kinds build
    by (intro okeeps_generate[OF s] keeps_generate_pair[where ok = ok] create nonextractable_templates)
  show "okeeps I (allows I ok) (GenerateSymetrycKeys b ctx i1)"
    unfolding GenerateSymetrycKeys_def[abs_def]
    by (intro okeeps_then okeeps_give okeeps_newObjectID[OF s] okeeps_newObjectLabel[OF s] okeeps_token[OF s] keeps_check keeps_require
        allowsD(2)[where ok = ok] create nonextractable_templates)
  show "okeeps I (allows I ok) (GenerateRSAKeys b ctx i2)"
    unfolding GenerateRSAKeys_def[abs_def] by (intro okeeps_then okeeps_give pair)
  show "okeeps I (allows I ok) (GenerateECDHCurveKeys b ctx i3)"
    unfolding GenerateECDHCurveKeys_def[abs_def] by (intro okeeps_then okeeps_give pair)
  show "okeeps I (allows I ok) (GenerateEd255Keys b ctx)"
    unfolding GenerateEd255Keys_def[abs_def] by (intro okeeps_then okeeps_give pair)
qed

lemma okeeps_RotateKey:
  assumes s: "surroundings_keep I (allows I ok) b" and create: "\<And>tp. nonextractable tp \<Longrightarrow> ok (Create tp)"
    and set: "\<And>tp. rotateDisablesPrev (be_cfg b) \<Longrightarrow> clears_usage tp \<Longrightarrow> ok (SetAttrs tp)"
  shows "okeeps I (allows I ok) (RotateKey b ctx input)"
  unfolding RotateKey_def[abs_def]
  by (intro okeeps_then okeeps_give okeeps_newObjectID[OF s] okeeps_token[OF s] keeps_rotate_op[where ok = ok] create set
      surroundings_clock[OF s])

lemma okeeps_DeactivateKey:
  assumes s: "surroundings_keep I (allows I ok) b"
    and set: "\<And>tp. clears_usage tp \<Longrightarrow> ok (SetAttrs tp)" and destroy: "deactivateDestroys (be_cfg b) \<Longrightarrow> ok Destroy"
  shows "okeeps I (allows I ok) (DeactivateKey b ctx input)"
  unfolding DeactivateKey_def[abs_def]
  by (intro okeeps_then okeeps_give okeeps_token[OF s] keeps_deactivate_op[where ok = ok] set destroy)

lemma okeeps_ECDH_Decode:
  assumes s: "surroundings_keep I (allows I ok) b"
    and derive: "\<And>tp. nonextractable tp \<or> allowSecretExtraction (be_cfg b) \<Longrightarrow> ok (Derive tp)" and destroy: "ok Destroy"
  shows "okeeps I (allows I ok) (ECDH_Decode b ctx ctx2 input)"
proof -
  have "okeeps I (allows I ok) (\<lambda>p. case plaintext of Some s \<Rightarrow> give (Inr s) p
      | None \<Rightarrow> and_then (give (DeriveECCAESKey (be_crypto b) secret c) p) (\<lambda>key p.
          outside_op (local_DecryptAES (be_crypto b) (Some ctx2) (req key)) p))" for plaintext secret c req
    by (intro call_intros surroundings_crypto[OF s])
  then show ?thesis
    unfolding ECDH_Decode_def[abs_def]
    by (intro okeeps_if okeeps_outside keeps_local surroundings_crypto[OF s] okeeps_then okeeps_give okeeps_token[OF s]
        keeps_ecdh_decode_op[where ok = ok] derive destroy; (assumption | simp only: split_beta)?)
qed
subsection \<open>Calls that come back\<close>

definition returns :: "('t proc \<Rightarrow> ('r \<times> 't proc) option) \<Rightarrow> bool" where
  "returns f \<longleftrightarrow> (\<forall>p. wf_proc p \<longrightarrow> (\<exists>r p'. f p = Some (r, p') \<and> wf_proc p'))"

lemma returnsD: "returns f \<Longrightarrow> wf_proc p \<Longrightarrow> \<exists>r p'. f p = Some (r, p') \<and> wf_proc p'"
  by (simp add: returns_def)

lemma returns_give: "returns (give r)"
  by (simp add: returns_def)

lemma returns_then:
  assumes "returns f" "\<And>x. returns (k x)"
  shows "returns (\<lambda>p. and_then (f p) k)"
  unfolding returns_def
proof (intro allI impI)
  fix p :: "'a proc" assume "wf_proc p"
  then obtain r p1 where "f p = Some (r, p1)" "wf_proc p1" using returnsD[OF assms(1)] by blast
  then show "\<exists>r p'. and_then (f p) k = Some (r, p') \<and> wf_proc p'" using returnsD[OF assms(2)] by (cases r) auto
qed

lemma returns_outside: "returns (outside_op f)" and returns_string_op: "returns (string_op g)"
  by (auto simp: returns_def outside_op_def string_op_def split: prod.splits)

lemma returns_string_outcome: "returns f \<Longrightarrow> returns (\<lambda>p. string_outcome (f p))"
  by (fastforce simp: returns_def string_outcome_def split: sum.splits)

lemma returns_if: "returns f \<Longrightarrow> returns g \<Longrightarrow> returns (\<lambda>p. if c then f p else g p)"
  by (cases c) simp_all

lemma returns_case_option: "returns f \<Longrightarrow> (\<And>x. returns (g x)) \<Longrightarrow> returns (\<lambda>p. case c of None \<Rightarrow> f p | Some x \<Rightarrow> g x p)"
  by (cases c) simp_all

lemma returns_case_prod: "(\<And>x y. returns (f x y)) \<Longrightarrow> returns (case c of (x, y) \<Rightarrow> f x y)"
  by (cases c) simp

lemma returns_session: "returns (with_session b ctx op)"
  unfolding returns_def with_session_def
proof (intro allI impI)
  fix p :: "'a proc" assume "wf_proc p"
  from withSession_bracketed[OF this, of "be_resolve b" "be_loader b" ctx "be_cfg b" op]
  show "\<exists>r p'. withSession (be_resolve b) (be_loader b) ctx (be_cfg b) op p = Some (r, p') \<and> wf_proc p'" by blast
qed

lemma returns_GetKey: "returns (GetKey b ctx ctx2 input)"
proof -
  have "returns (fetchPublicKey b ctx2 resolved)" for resolved by (simp add: fetchPublicKey_def returns_session)
  then have "returns (\<lambda>p. case fetchPublicKey b ctx2 resolved p of None \<Rightarrow> None
      | Some (Inr fetched, p) \<Rightarrow> give (Inr (keyDataFor resolved fetched)) p
      | Some (Inl e, p) \<Rightarrow> give (Inr (keyDataFor resolved [])) p)" for resolved
    unfolding returns_def
  proof (intro allI impI)
    fix p :: "'a proc" assume "wf_proc p"
    then obtain r p1 where "fetchPublicKey b ctx2 resolved p = Some (r, p1)" "wf_proc p1"
      using returnsD[OF \<open>\<And>resolved. returns (fetchPublicKey b ctx2 resolved)\<close>] by blast
    then show "\<exists>r p'. (case fetchPublicKey b ctx2 resolved p of None \<Rightarrow> None
        | Some (Inr fetched, p) \<Rightarrow> give (Inr (keyDataFor resolved fetched)) p
        | Some (Inl e, p) \<Rightarrow> give (Inr (keyDataFor resolved [])) p) = Some (r, p') \<and> wf_proc p'" by (cases r) auto
  qed
  then show ?thesis
    unfolding GetKey_def[abs_def] by (intro returns_then returns_give returns_session)
qed

lemmas returns_intros = returns_give returns_then returns_outside returns_string_op returns_string_outcome returns_if
  returns_case_option returns_case_prod returns_session returns_GetKey

lemma returns_calls:
  "returns (GenerateSymetrycKeys b ctx i1)" "returns (EncryptAES b ctx i2)" "returns (DecryptAES b ctx i3)"
  "returns (GenerateRSAKeys b ctx i4)" "returns (GenerateECDHCurveKeys b ctx i5)" "returns (GenerateEd255Keys b ctx)"
  "returns (RSA_OAEP_Encode b ctx ctx2 i6)" "returns (RSA_OAEP_Decode b ctx i7)" "returns (ECDH_Encode b ctx ctx2 i8)"
  "returns (ECDH_Decode b ctx ctx2 i9)" "returns (RotateKey b ctx i10)" "returns (DeactivateKey b ctx i11)"
  "returns (HMAC b ctx x y)" "returns (Sha256Hex b ctx x)" "returns (Blake3 b ctx x)" "returns (SignEd25519 b ctx x y)"
  "returns (VerifyEd25519 b ctx ctx2 x y z)" "returns (SignRSAPSS b ctx x y)" "returns (VerifyRSAPSS b ctx ctx2 x y z)"
  "returns (Sign_RSA_PKCS1v15_SHA256 b ctx x y)" "returns (Verify_RSA_PKCS1v15_SHA256 b ctx ctx2 x y z)"
  unfolding GenerateSymetrycKeys_def[abs_def] EncryptAES_def[abs_def] DecryptAES_def[abs_def] GenerateRSAKeys_def[abs_def]
    GenerateECDHCurveKeys_def[abs_def] GenerateEd255Keys_def[abs_def] generate_on_token_def[abs_def] newObjectID_def newObjectLabel_def
    RSA_OAEP_Encode_def[abs_def] RSA_OAEP_Decode_def[abs_def] ECDH_Encode_def[abs_def] ECDH_Decode_def[abs_def]
    fetchPublicKey_def RotateKey_def[abs_def] DeactivateKey_def[abs_def] HMAC_def[abs_def] Sha256Hex_def Blake3_def
    SignEd25519_def[abs_def] VerifyEd25519_def[abs_def] SignRSAPSS_def[abs_def] VerifyRSAPSS_def[abs_def]
    Sign_RSA_PKCS1v15_SHA256_def[abs_def] Verify_RSA_PKCS1v15_SHA256_def[abs_def] signWithToken_def[abs_def]
    fetchVerificationKey_def[abs_def]
  by (intro returns_intros)+

lemma perform_returns:
  assumes "wf_proc p"
  obtains p' where "perform b ctx ctx2 c p = Some p'" "wf_proc p'"
proof -
  have *: "\<exists>p'. map_option snd (f p) = Some p' \<and> wf_proc p'" if "returns f" for f :: "'a proc \<Rightarrow> ('r \<times> 'a proc) option"
    using returnsD[OF that assms] by auto
  have "\<exists>p'. perform b ctx ctx2 c p = Some p' \<and> wf_proc p'"
    by (cases c) (simp_all only: perform.simps, (rule * returns_calls returns_GetKey)+)
  then show ?thesis using that by blast
qed

lemma perform_keeps:
  assumes s: "surroundings_keep I (allows I (policy (be_cfg b) c)) b" and "I (outside p)" "mods_ok (allows I (policy (be_cfg b) c)) p"
    "perform b ctx ctx2 c p = Some p'"
  shows "I (outside p') \<and> mods_ok (allows I (policy (be_cfg b) c)) p'"
  using assms
  by (cases c) (simp_all only: perform.simps, (erule okeeps_perform[rotated -1], (rule okeeps_reading_calls okeeps_signatures
    okeeps_GetKey okeeps_generators okeeps_RotateKey okeeps_DeactivateKey okeeps_ECDH_Decode; simp)?, assumption+)+)
subsection \<open>Objects with known key material\<close>

text \<open>
  A module whose object for \<open>uri\<close> is the AES key \<open>key\<close>: its GCM is that of \<open>crypto/cipher\<close> under this key. This is what PKCS#11
  says of \<open>CKM_AES_GCM\<close>; \<open>None\<close> stands for the empty plaintext.
\<close>

definition stores :: "'t crypto \<Rightarrow> keyURI \<Rightarrow> string \<Rightarrow> 't token_module \<Rightarrow> bool" where
  "stores C uri key m \<longleftrightarrow>
     (\<forall>s t h t1 nonce aad x t2 ct t3. resolveObject m s uri classSecretKey t = (Inr h, t1)
        \<and> m_Encrypt m s ckmAESGCM (GcmParams nonce aad gcmTagBits) h x t2 = (Inr ct, t3) \<longrightarrow> ct = gcm_Seal C key nonce x aad)
   \<and> (\<forall>s t h t1 nonce aad ct t2 x t3. resolveObject m s uri classSecretKey t = (Inr h, t1)
        \<and> m_Decrypt m s ckmAESGCM (GcmParams nonce aad gcmTagBits) h ct t2 = (Inr x, t3)
        \<longrightarrow> gcm_Open C key nonce ct aad = Inr (bytes_string x))"

definition provides :: "('t token_module \<Rightarrow> bool) \<Rightarrow> 't backend \<Rightarrow> 't proc \<Rightarrow> bool" where
  "provides P b p \<longleftrightarrow> mods_ok P p \<and> (\<forall>pth t m t'. be_loader b pth t = (Inr m, t') \<longrightarrow> P m)"

lemma with_session_provides:
  assumes "with_session b ctx op p = Some (Inr x, p')" "provides P b p"
  shows "\<exists>m s h t t'. P m \<and> op m s h t = (Inr x, t')"
proof -
  have "loader_ok (\<lambda>_. True) P (be_loader b)" "pin_ok (\<lambda>_. True) (be_cfg b)" "mods_ok P p"
    using assms(2) by (simp_all add: provides_def loader_ok_def pin_ok_def keeps_def)
  from withSession_rule[OF assms(1)[unfolded with_session_def] this(1) _ this(2) _ _ this(3)] show ?thesis
    by (simp add: reads_keep_def keeps_def)
qed

lemma provides_outside [simp]: "provides P b (p\<lparr>outside := t\<rparr>) = provides P b p"
  by (simp add: provides_def)

lemma EncryptAES_token_Inr:
  assumes "EncryptAES b ctx input p = Some (Inr c, p')" "\<not> IsLocalAESKey (enc_SecretKey input)"
    "resolveKeyURI (be_cfg b) (enc_SecretKey input) = Inr uri" "provides (stores (be_crypto b) uri key) b p" "rand_law (be_crypto b)"
  obtains nonce where "length nonce = gcmNonceLength"
    "c = std_EncodeToString (nonce @ gcm_Seal (be_crypto b) key nonce (enc_Value input) (BytesFromOptionalString (enc_Additional input)))"
proof -
  let ?C = "be_crypto b" and ?aad = "BytesFromOptionalString (enc_Additional input)"
  obtain nonce p1 ct p2 where n: "outside_op (\<lambda>t. wrap_state ''pkcs11: generate nonce: %w'' (rand_Read ?C gcmNonceLength t)) p = Some (Inr nonce, p1)"
    and w: "with_session b ctx (\<lambda>m slot session t. check (require slot ckmAESGCM t) (\<lambda>t. attempt (resolveObject m session uri classSecretKey t)
        (\<lambda>h t. m_Encrypt m session ckmAESGCM (GcmParams nonce ?aad gcmTagBits) h (enc_Value input) t))) p1 = Some (Inr ct, p2)"
    and c: "c = std_EncodeToString (nonce @ ct)"
    using assms(1,2,3) by (auto simp: EncryptAES_def and_then_Inr)
  have "length nonce = gcmNonceLength" "provides (stores ?C uri key) b p1"
    using n assms(4,5) by (auto simp: outside_op_def wrap_state_def rand_law_def split: prod.splits sum.splits)
  then obtain m s h t t' where "stores ?C uri key m"
    "check (require s ckmAESGCM t) (\<lambda>t. attempt (resolveObject m h uri classSecretKey t)
        (\<lambda>k t. m_Encrypt m h ckmAESGCM (GcmParams nonce ?aad gcmTagBits) k (enc_Value input) t)) = (Inr ct, t')"
    using with_session_provides[OF w] by blast
  then have "ct = gcm_Seal ?C key nonce (enc_Value input) ?aad"
    unfolding stores_def by (elim conjE require_InrE attempt_InrE) blast
  then show ?thesis using that \<open>length nonce = gcmNonceLength\<close> c by blast
qed

lemma DecryptAES_token_Inr:
  assumes "DecryptAES b ctx input p = Some (Inr x, p')" "\<not> IsLocalAESKey (dec_SecretKey input)"
    "resolveKeyURI (be_cfg b) (dec_SecretKey input) = Inr uri" "provides (stores (be_crypto b) uri key) b p"
    "length key \<in> {16, 24, 32}"
  shows "decryptAES (be_crypto b) (std_EncodeToString key) (dec_CipherValue input) (dec_Additional input) = Inr x"
proof -
  let ?C = "be_crypto b" and ?aad = "BytesFromOptionalString (dec_Additional input)"
  obtain raw plaintext p1 where r: "decode_std (dec_CipherValue input) = Inr raw" "gcmNonceLength < length raw"
    and w: "with_session b ctx (\<lambda>m slot session t. check (require slot ckmAESGCM t) (\<lambda>t. attempt (resolveObject m session uri classSecretKey t)
        (\<lambda>h t. m_Decrypt m session ckmAESGCM (GcmParams (take gcmNonceLength raw) ?aad gcmTagBits) h (drop gcmNonceLength raw) t))) p
        = Some (Inr plaintext, p1)"
    and x: "x = bytes_string plaintext"
    using assms(1,2,3)
    by (auto simp: DecryptAES_def and_then_Inr decode_ciphertext_def split_nonce_def wrap_error_def sum_bind_def
        split: sum.splits if_splits)
  obtain m s h t t' where "stores ?C uri key m"
    "check (require s ckmAESGCM t) (\<lambda>t. attempt (resolveObject m h uri classSecretKey t)
        (\<lambda>k t. m_Decrypt m h ckmAESGCM (GcmParams (take gcmNonceLength raw) ?aad gcmTagBits) k (drop gcmNonceLength raw) t)) = (Inr plaintext, t')"
    using with_session_provides[OF w assms(4)] by blast
  then have "gcm_Open ?C key (take gcmNonceLength raw) (drop gcmNonceLength raw) ?aad = Inr x"
    unfolding x stores_def by (elim conjE require_InrE attempt_InrE) blast
  then show ?thesis
    using r assms(5) by (simp add: decryptAES_def aes_NewCipher_def gcmNonceLength_def gcm_NonceSize_def wrap_error_def sum_bind_def)
qed


subsection \<open>A small backend for the witnesses\<close>

definition sample_backend :: "nat backend" where
  "sample_backend = \<lparr>be_cfg = sample_config, be_resolve = (\<lambda>x. x), be_loader = sample_loader, be_crypto = toy_crypto,
     be_UnixNano = (\<lambda>t. (int t, t))\<rparr>"

definition sample_world :: "nat proc" where
  "sample_world = \<lparr>outside = 1, entries = []\<rparr>"

lemma sample_world_wf: "wf_proc sample_world"
  by (simp add: wf_proc_def sample_world_def)

text \<open>A token that drops the outside counter to zero when it is asked for a key that may leave it.\<close>

definition watchful_token :: "nat token_module" where
  "watchful_token = sample_token\<lparr>m_GenerateKey := (\<lambda>s mech tp t. (Inr 5, if nonextractable tp then t else 0))\<rparr>"

definition watchful_backend :: "nat backend" where
  "watchful_backend = sample_backend\<lparr>be_loader := (\<lambda>_ t. (Inr watchful_token, t))\<rparr>"

lemma sample_reference: "parseKeyURI ''pkcs11:object=k'' = Inr (emptyKeyURI\<lparr>Object := ''k''\<rparr>)"
  "TrimSpace ''pkcs11:object=k'' = ''pkcs11:object=k''" "std_DecodeString ''pkcs11:object=k'' = None"
  by code_simp+

lemma sample_key_uri: "resolveKeyURI sample_config ''pkcs11:object=k'' = Inr (emptyKeyURI\<lparr>Object := ''k''\<rparr>)"
  "\<not> IsLocalAESKey ''pkcs11:object=k''"
  by (simp_all add: resolveKeyURI_def IsLocalAESKey_def sample_reference)

lemma sample_provides: "provides (stores toy_crypto uri key) sample_backend sample_world"
proof -
  have "stores toy_crypto uri key sample_token"
    unfolding stores_def
    by (simp only: sample_token_def toy_crypto_def token_module.simps crypto.simps) (auto simp: bytes_string_def split: if_splits)
  then show ?thesis by (auto simp: provides_def mods_ok_def sample_world_def sample_backend_def sample_loader_def)
qed

lemma sample_fields [simp]: "be_cfg sample_backend = sample_config" "be_crypto sample_backend = toy_crypto"
  "be_resolve sample_backend = (\<lambda>x. x)" "be_loader sample_backend = sample_loader"
  "rand_Read toy_crypto n t = (Inr (replicate n (char_of t)), t + 1)"
  "validate sample_config = None" "modulePath sample_config = ''/hsm.so''" "tokenLabel sample_config = ''hsm''"
  "pin sample_config = Some (\<lambda>t. (Inr ''1234'', t))" "maxSession sample_config = 8"
  by (simp_all add: sample_backend_def toy_crypto_def validate_def sample_config_def newConfig_def Let_def defaultMaxSessions_def)

definition sample_slot :: slotState where
  "sample_slot = \<lparr>slot_id = 1, mechanisms = [ckmAESGCM, ckmAESKeyGen, ckmRSAPKCS, ckmRSAPKCSKeyPairGen],
     pool = \<lparr>pool_slot = 1, pool_cap = 4, sem = 1, idle = []\<rparr>, loggedIn = True\<rparr>"

lemma sample_session:
  assumes "op sample_token sample_slot 9 t = (Inr x, t)"
  shows "\<exists>p'. with_session sample_backend sample_ctx op \<lparr>outside = t, entries = []\<rparr> = Some (Inr x, p')"
  using assms
  by (simp add: with_session_def withSession_def acquireModule_def load_entry_def fresh_entry_def slotFor_def resolveSlotID_def
      poolSize_def newSessionPool_def use_slot_def acquire_def enter_sem_def take_idle_def runLoggedIn_def login_def
      pool_release_def put_idle_def leave_sem_def sessionIsDead_def err_of_def set_entry_def Let_def sample_slot_def
      sample_loader_def sample_ctx_def sample_token_def)

lemma sample_runs:
  "\<exists>p'. EncryptAES sample_backend sample_ctx \<lparr>enc_UID = [], enc_SecretKey = ''pkcs11:object=k'', enc_Value = ''hi'',
      enc_Additional = None\<rparr> sample_world = Some (Inr (std_EncodeToString (replicate 12 (CHR 0x01) @ ''hi'' @ replicate 16 (CHR 0x00))), p')"
  "\<exists>p'. DecryptAES sample_backend sample_ctx \<lparr>dec_UID = [], dec_SecretKey = ''pkcs11:object=k'',
      dec_CipherValue = std_EncodeToString (replicate 12 (CHR 0x01) @ ''hi'' @ replicate 16 (CHR 0x00)), dec_Additional = None\<rparr> sample_world
    = Some (Inr ''hi'', p')"
proof -
  let ?uri = "emptyKeyURI\<lparr>Object := ''k''\<rparr>"
  let ?enc = "\<lambda>m slot session t. check (require slot ckmAESGCM t) (\<lambda>t. attempt (resolveObject m session ?uri classSecretKey t)
    (\<lambda>h t. m_Encrypt m session ckmAESGCM (GcmParams (replicate 12 (CHR 0x01)) [] gcmTagBits) h ''hi'' t))"
  let ?dec = "\<lambda>m slot session t. check (require slot ckmAESGCM t) (\<lambda>t. attempt (resolveObject m session ?uri classSecretKey t)
    (\<lambda>h t. m_Decrypt m session ckmAESGCM (GcmParams (replicate 12 (CHR 0x01)) [] gcmTagBits) h (''hi'' @ replicate 16 (CHR 0x00)) t))"
  have "?enc sample_token sample_slot 9 2 = (Inr (''hi'' @ replicate 16 (CHR 0x00)), 2::nat)"
    "?dec sample_token sample_slot 9 1 = (Inr (Some ''hi''), 1::nat)"
    by (simp_all add: require_def requireMechanism_def supports_def sample_slot_def resolveObject_def findObject_def emptyKeyURI_def
        sample_token_def)
  from sample_session[of ?enc, OF this(1)] sample_session[of ?dec, OF this(2)]
  have runs: "\<exists>p'. with_session sample_backend sample_ctx ?enc \<lparr>outside = 2, entries = []\<rparr> = Some (Inr (''hi'' @ replicate 16 (CHR 0x00)), p')"
    "\<exists>p'. with_session sample_backend sample_ctx ?dec \<lparr>outside = 1, entries = []\<rparr> = Some (Inr (Some ''hi''), p')" .
  have byte: "char_of (Suc 0) = CHR 0x01" by code_simp
  show "\<exists>p'. EncryptAES sample_backend sample_ctx \<lparr>enc_UID = [], enc_SecretKey = ''pkcs11:object=k'', enc_Value = ''hi'',
      enc_Additional = None\<rparr> sample_world = Some (Inr (std_EncodeToString (replicate 12 (CHR 0x01) @ ''hi'' @ replicate 16 (CHR 0x00))), p')"
    using runs(1)
    by (auto simp: EncryptAES_def sample_key_uri outside_op_def wrap_state_def wrap_error_def sample_world_def gcmNonceLength_def
        BytesFromOptionalString_def byte numeral_2_eq_2)
  show "\<exists>p'. DecryptAES sample_backend sample_ctx \<lparr>dec_UID = [], dec_SecretKey = ''pkcs11:object=k'',
      dec_CipherValue = std_EncodeToString (replicate 12 (CHR 0x01) @ ''hi'' @ replicate 16 (CHR 0x00)), dec_Additional = None\<rparr> sample_world
    = Some (Inr ''hi'', p')"
    using runs(2)
    by (auto simp: DecryptAES_def sample_key_uri decode_ciphertext_def wrap_error_def sum_bind_def split_nonce_def sample_world_def
        gcmNonceLength_def BytesFromOptionalString_def bytes_string_def)
qed

subsection \<open>Properties\<close>



text \<open>
  C16: What a call may ask of the token: keys are only created sensitive and not extractable, attributes are only set by
  a deactivation or a rotation that disables the old key, and only to clear usage flags, keys are only destroyed by a
  deactivation configured to do so or as the temporary keys of an ECDH decode, and a secret is derived extractable only if the
  configuration allows it. So a property of the token that survives these effects survives every call.\<close>
theorem token_policy:
  assumes "surroundings_keep I (allows I (policy (be_cfg b) c)) b" "mods_ok (allows I (policy (be_cfg b) c)) p" "I (outside p)"
    and "perform b ctx ctx2 c p = Some p'"
  shows "I (outside p')"
  using perform_keeps[OF assms(1,3,2,4)] by blast

theorem token_policy_witness:
  "\<exists>p'. perform watchful_backend sample_ctx sample_ctx (Call_GenerateSymetrycKeys \<lparr>gsk_UID = ''u'', gsk_Size = 32\<rparr>) sample_world = Some p'
    \<and> 0 < outside p'"
proof -
  let ?c = "Call_GenerateSymetrycKeys \<lparr>gsk_UID = ''u'', gsk_Size = 32\<rparr>" and ?I = "\<lambda>t::nat. 0 < t"
  obtain p' where p': "perform watchful_backend sample_ctx sample_ctx ?c sample_world = Some p'"
    using perform_returns[OF sample_world_wf] by metis
  have "allows ?I (policy (be_cfg watchful_backend) ?c) watchful_token"
    by (auto simp: allows_def reads_keep_def keeps_def watchful_token_def sample_token_def)
  then have "surroundings_keep ?I (allows ?I (policy (be_cfg watchful_backend) ?c)) watchful_backend"
    by (auto simp: surroundings_keep_def loader_ok_def pin_ok_def keeps_def crypto_keeps_def watchful_backend_def sample_backend_def
        toy_crypto_def sample_config_def newConfig_def Let_def)
  from token_policy[OF this _ _ p'] show ?thesis using p' by (auto simp: sample_world_def mods_ok_def)
qed

text \<open>
  C18: \<open>DecryptAES\<close> on the token implements the local backend's: what it returns for a ciphertext, the local backend
  returns for the same ciphertext under the key material the token holds.\<close>
theorem token_DecryptAES_refines_local:
  assumes "\<not> IsLocalAESKey (dec_SecretKey input)" "resolveKeyURI (be_cfg b) (dec_SecretKey input) = Inr uri"
    "provides (stores (be_crypto b) uri key) b p" "length key \<in> {16, 24, 32}" "live lctx"
    and "DecryptAES b ctx input p = Some (Inr x, p')"
  shows "local_DecryptAES (be_crypto b) lctx (input\<lparr>dec_SecretKey := std_EncodeToString key\<rparr>) t = (Inr x, t)"
  using DecryptAES_token_Inr[OF assms(6,1,2,3,4)] assms(5) by (simp add: local_DecryptAES_def pure_def)

theorem token_DecryptAES_refines_local_witness:
  "\<exists>p'. DecryptAES sample_backend sample_ctx \<lparr>dec_UID = [], dec_SecretKey = ''pkcs11:object=k'',
      dec_CipherValue = std_EncodeToString (replicate 12 (CHR 0x01) @ ''hi'' @ replicate 16 (CHR 0x00)), dec_Additional = None\<rparr> sample_world
      = Some (Inr ''hi'', p')
    \<and> local_DecryptAES toy_crypto toy_ctx \<lparr>dec_UID = [], dec_SecretKey = std_EncodeToString (replicate 16 (CHR ''k'')),
        dec_CipherValue = std_EncodeToString (replicate 12 (CHR 0x01) @ ''hi'' @ replicate 16 (CHR 0x00)), dec_Additional = None\<rparr> 7 = (Inr ''hi'', 7)"
proof -
  let ?in = "\<lparr>dec_UID = [], dec_SecretKey = ''pkcs11:object=k'',
    dec_CipherValue = std_EncodeToString (replicate 12 (CHR 0x01) @ ''hi'' @ replicate 16 (CHR 0x00)), dec_Additional = None\<rparr>"
  have "resolveKeyURI (be_cfg sample_backend) (dec_SecretKey ?in) = Inr (emptyKeyURI\<lparr>Object := ''k''\<rparr>)"
    using sample_key_uri(1) by (simp add: sample_backend_def)
  moreover have "\<exists>p'. DecryptAES sample_backend sample_ctx ?in sample_world = Some (Inr ''hi'', p')"
    by (rule sample_runs(2))
  ultimately show ?thesis
    using token_DecryptAES_refines_local[of ?in sample_backend _ "replicate 16 (CHR ''k'')" sample_world toy_ctx sample_ctx "''hi''" _ 7]
      sample_key_uri(2) sample_provides by (auto simp: sample_backend_def)
qed

text \<open>
  What the token encrypts under a key reference, the local backend decrypts under the same key material, nonce and
  encoding included.\<close>
theorem token_EncryptAES_decrypts_locally:
  assumes "gcm_law (be_crypto b)" "rand_law (be_crypto b)" "\<not> IsLocalAESKey ref" "resolveKeyURI (be_cfg b) ref = Inr uri"
    "provides (stores (be_crypto b) uri key) b p" "length key \<in> {16, 24, 32}" "live lctx"
    and "EncryptAES b ctx \<lparr>enc_UID = u, enc_SecretKey = ref, enc_Value = plain, enc_Additional = additional\<rparr> p = Some (Inr c, p')"
  shows "local_DecryptAES (be_crypto b) lctx
      \<lparr>dec_UID = u, dec_SecretKey = std_EncodeToString key, dec_CipherValue = c, dec_Additional = additional\<rparr> t = (Inr plain, t)"
proof -
  obtain nonce where n: "length nonce = gcmNonceLength"
    "c = std_EncodeToString (nonce @ gcm_Seal (be_crypto b) key nonce plain (BytesFromOptionalString additional))"
    using EncryptAES_token_Inr[OF assms(8) _ _ assms(5,2)] assms(3,4) by auto
  have "decryptAES (be_crypto b) (std_EncodeToString key) c additional = Inr plain"
    using n assms(6) assms(1)[unfolded gcm_law_def, rule_format, OF assms(6), of nonce]
    by (simp add: decryptAES_def aes_NewCipher_def gcmNonceLength_def gcm_NonceSize_def wrap_error_def sum_bind_def)
  then show ?thesis using assms(7) by (simp add: local_DecryptAES_def pure_def)
qed

theorem token_EncryptAES_decrypts_locally_witness:
  "\<exists>c p'. EncryptAES sample_backend sample_ctx \<lparr>enc_UID = [], enc_SecretKey = ''pkcs11:object=k'', enc_Value = ''hi'', enc_Additional = None\<rparr>
      sample_world = Some (Inr c, p')
    \<and> local_DecryptAES toy_crypto toy_ctx \<lparr>dec_UID = [], dec_SecretKey = std_EncodeToString (replicate 16 (CHR ''k'')),
        dec_CipherValue = c, dec_Additional = None\<rparr> 7 = (Inr ''hi'', 7)"
proof -
  let ?in = "\<lparr>enc_UID = [], enc_SecretKey = ''pkcs11:object=k'', enc_Value = ''hi'', enc_Additional = None\<rparr>"
  have "\<exists>c p'. EncryptAES sample_backend sample_ctx ?in sample_world = Some (Inr c, p')" using sample_runs(1) by blast
  then obtain c p' where c: "EncryptAES sample_backend sample_ctx ?in sample_world = Some (Inr c, p')" by blast
  show ?thesis
    using c token_EncryptAES_decrypts_locally[OF _ _ sample_key_uri(2) _ _ _ _ c, of "emptyKeyURI\<lparr>Object := ''k''\<rparr>" "replicate 16 (CHR ''k'')" toy_ctx 7]
      sample_key_uri sample_provides toy_laws by (auto simp: sample_backend_def)
qed
subsection \<open>References to generated keys\<close>

lemma generated_uri_resolves:
  assumes "label \<noteq> []" "cls = classPrivateKey \<or> cls = classSecretKey"
  shows "resolveKeyURI cfg (kd_KeyRef (keyDataFor (generated_uri label i cls) pub)) = Inr (generated_uri label i cls)"
proof -
  have "\<exists>v. classFromType v = Inr cls" 
    using assms(2) type_class_inverse[of classPrivateKey] type_class_inverse[of classSecretKey]
    by (auto simp: typeFromClass_def class_defs)
  then have v: "valid_uri (generated_uri label i cls)" using assms(1) by (simp add: valid_uri_def generated_uri_def)
  have "uriString (generated_uri label i cls) \<noteq> []" by (simp add: uriString_def uriScheme_def)
  then show ?thesis using v by (simp add: keyDataFor_def resolveKeyURI_def TrimSpace_uriString parse_uriString)
qed

text \<open>What the four generators return.\<close>

definition generated_data :: "KeyData \<Rightarrow> bool" where
  "generated_data data \<longleftrightarrow> (\<exists>label i cls pub. data = keyDataFor (generated_uri label i cls) pub \<and> label \<noteq> [] \<and> length i = 16
     \<and> (cls = classPrivateKey \<or> cls = classSecretKey))"

lemma newObjectID_Inr: "newObjectID b p = Some (Inr i, p') \<Longrightarrow> rand_law (be_crypto b) \<Longrightarrow> length i = 16"
  by (auto simp: newObjectID_def outside_op_def wrap_state_def rand_law_def split: prod.splits sum.splits)

lemma newObjectLabel_Inr: "newObjectLabel b pref uid p = Some (Inr label, p') \<Longrightarrow> label \<noteq> []"
  by (auto simp: newObjectLabel_def outside_op_def object_label_def split: prod.splits if_splits)

lemma generate_on_token_data:
  assumes "generate_on_token b ctx pref uid op p = Some (Inr data, p')" "rand_law (be_crypto b)"
  shows "generated_data data"
proof -
  obtain i p1 label p2 pub where "newObjectID b p = Some (Inr i, p1)" "newObjectLabel b pref uid p1 = Some (Inr label, p2)"
    "data = keyDataFor (generated_uri label i classPrivateKey) pub"
    using assms(1) by (auto simp: generate_on_token_def and_then_Inr)
  with newObjectID_Inr newObjectLabel_Inr assms(2) show ?thesis unfolding generated_data_def by blast
qed

lemma generators_data:
  assumes "rand_law (be_crypto b)"
  shows "GenerateSymetrycKeys b ctx r1 p = Some (Inr data, p') \<Longrightarrow> generated_data data"
    "GenerateRSAKeys b ctx r2 p = Some (Inr data, p') \<Longrightarrow> generated_data data"
    "GenerateECDHCurveKeys b ctx r3 p = Some (Inr data, p') \<Longrightarrow> generated_data data"
    "GenerateEd255Keys b ctx p = Some (Inr data, p') \<Longrightarrow> generated_data data"
proof -
  assume "GenerateSymetrycKeys b ctx r1 p = Some (Inr data, p')"
  then obtain i p1 label p2 where "newObjectID b p = Some (Inr i, p1)"
    "newObjectLabel b symmetricKeyPrefix (gsk_UID r1) p1 = Some (Inr label, p2)"
    "data = keyDataFor (generated_uri label i classSecretKey) []"
    by (auto simp: GenerateSymetrycKeys_def and_then_Inr)
  with newObjectID_Inr newObjectLabel_Inr assms show "generated_data data" unfolding generated_data_def by blast
next
  assume "GenerateRSAKeys b ctx r2 p = Some (Inr data, p')"
  then show "generated_data data"
    by (auto simp: GenerateRSAKeys_def and_then_Inr intro: generate_on_token_data[OF _ assms])
next
  assume "GenerateECDHCurveKeys b ctx r3 p = Some (Inr data, p')"
  then show "generated_data data"
    by (auto simp: GenerateECDHCurveKeys_def and_then_Inr intro: generate_on_token_data[OF _ assms])
next
  assume "GenerateEd255Keys b ctx p = Some (Inr data, p')"
  then show "generated_data data"
    by (auto simp: GenerateEd255Keys_def and_then_Inr intro: generate_on_token_data[OF _ assms])
qed

text \<open>
  The reference a generator returns resolves, under any configuration, to one URI with the sixteen identifier bytes
  of the new object, its class and a label, and the key id is the hexadecimal form of these bytes: a generated key can be used
  by every later call.\<close>
theorem generated_reference_resolves:
  assumes "rand_law (be_crypto b)"
    and "GenerateSymetrycKeys b ctx r1 p = Some (Inr data, p') \<or> GenerateRSAKeys b ctx r2 p = Some (Inr data, p')
      \<or> GenerateECDHCurveKeys b ctx r3 p = Some (Inr data, p') \<or> GenerateEd255Keys b ctx p = Some (Inr data, p')"
  shows "\<exists>u. resolveKeyURI cfg (kd_KeyRef data) = Inr u \<and> length (ID u) = 16 \<and> Object u \<noteq> [] \<and> HasClass u
    \<and> Class u \<in> {classPrivateKey, classSecretKey} \<and> kd_KeyID data = hexID u"
proof -
  have "generated_data data" using assms generators_data by metis
  then obtain label i cls pub where d: "data = keyDataFor (generated_uri label i cls) pub" "label \<noteq> []" "length i = 16"
    "cls = classPrivateKey \<or> cls = classSecretKey" unfolding generated_data_def by blast
  have "resolveKeyURI cfg (kd_KeyRef data) = Inr (generated_uri label i cls)" unfolding d(1) by (rule generated_uri_resolves[OF d(2,4)])
  then show ?thesis using d by (auto simp: generated_uri_def keyDataFor_def)
qed

lemma sample_generate:
  "\<exists>data p'. GenerateSymetrycKeys sample_backend sample_ctx \<lparr>gsk_UID = ''u'', gsk_Size = 32\<rparr> sample_world = Some (Inr data, p')"
proof -
  let ?op = "\<lambda>m slot session t. check (require slot ckmAESKeyGen t)
    (m_GenerateKey m session ckmAESKeyGen (aesKeyTemplate ''GoForge-symmetric-u'' (replicate 16 (char_of (Suc 0))) 32))"
  have "?op sample_token sample_slot 9 2 = (Inr 5, 2::nat)"
    by (simp add: require_def requireMechanism_def supports_def sample_slot_def sample_token_def)
  from sample_session[of ?op, OF this] show ?thesis
    by (auto simp: GenerateSymetrycKeys_def aesValueLen_def newObjectID_def newObjectLabel_def object_label_def outside_op_def wrap_state_def
        sample_world_def symmetricKeyPrefix_def numeral_2_eq_2)
qed

theorem generated_reference_resolves_witness:
  "\<exists>data p' u. GenerateSymetrycKeys sample_backend sample_ctx \<lparr>gsk_UID = ''u'', gsk_Size = 32\<rparr> sample_world = Some (Inr data, p')
    \<and> resolveKeyURI (sample_config :: nat config) (kd_KeyRef data) = Inr u \<and> length (ID u) = 16"
proof -
  have l: "rand_law (be_crypto sample_backend)" using toy_laws by simp
  obtain data p' where "GenerateSymetrycKeys sample_backend sample_ctx \<lparr>gsk_UID = ''u'', gsk_Size = 32\<rparr> sample_world = Some (Inr data, p')"
    using sample_generate by blast
  with generated_reference_resolves[OF l disjI1[OF this], of sample_config] show ?thesis by blast
qed

subsection \<open>Signing mechanisms\<close>

text \<open>What PKCS#11 says of the mechanisms that hash on the token and of those that do not.\<close>

definition signature_mechanisms :: "(string \<Rightarrow> string) \<Rightarrow> 't token_module \<Rightarrow> bool" where
  "signature_mechanisms sha m \<longleftrightarrow>
     (\<forall>s h x t. m_Sign m s ckmSHA256RSAPKCS None h x t = m_Sign m s ckmRSAPKCS None h (sha256DigestInfoPrefix @ sha x) t)
   \<and> (\<forall>s h x t. m_Sign m s ckmSHA256RSAPKCSPSS (Some pss_block) h x t = m_Sign m s ckmRSAPKCSPSS (Some pss_block) h (sha x) t)"

lemma sign_op_once:
  assumes "plan (supports slot) = Inr chosen" "retryParams chosen = None"
  shows "sign_op plan uri message m slot session t = attempt (resolveObject m session uri classPrivateKey t)
    (\<lambda>h t. m_Sign m session (plan_mechanism chosen) (plan_params chosen) h (prepare chosen message) t)"
  using assms by (auto simp: sign_op_def Let_def intro!: arg_cong[where f = "attempt _"] ext split: prod.splits sum.splits)

text \<open>
  Which signing mechanism a token offers does not show in the signature: on slots that hash on the token and on slots
  that only have the raw mechanism the library asks for the same signature, for PKCS#1 v1.5 and for PSS, errors included.\<close>
theorem signing_plans_equivalent:
  assumes "signature_mechanisms sha m"
    and "supports slot1 ckmSHA256RSAPKCS" "\<not> supports slot2 ckmSHA256RSAPKCS" "supports slot2 ckmRSAPKCS"
    and "supports slot1 ckmSHA256RSAPKCSPSS" "\<not> supports slot2 ckmSHA256RSAPKCSPSS" "supports slot2 ckmRSAPKCSPSS"
  shows "sign_op (planRSAPKCS1v15 sha) uri message m slot1 session t = sign_op (planRSAPKCS1v15 sha) uri message m slot2 session t
    \<and> sign_op (planRSAPSS sha) uri message m slot1 session t = sign_op (planRSAPSS sha) uri message m slot2 session t"
proof -
  have "planRSAPKCS1v15 sha (supports slot1) = Inr \<lparr>plan_mechanism = ckmSHA256RSAPKCS, plan_params = None, retryParams = None, prepare = identityMessage\<rparr>"
    "planRSAPKCS1v15 sha (supports slot2) = Inr \<lparr>plan_mechanism = ckmRSAPKCS, plan_params = None, retryParams = None, prepare = sha256DigestInfo sha\<rparr>"
    "planRSAPSS sha (supports slot1) = Inr \<lparr>plan_mechanism = ckmSHA256RSAPKCSPSS, plan_params = Some pss_block, retryParams = None, prepare = identityMessage\<rparr>"
    "planRSAPSS sha (supports slot2) = Inr \<lparr>plan_mechanism = ckmRSAPKCSPSS, plan_params = Some pss_block, retryParams = None, prepare = sha256Digest sha\<rparr>"
    using assms(2-7) by (simp_all add: planRSAPKCS1v15_def planRSAPSS_def)
  note once = sign_op_once[of "planRSAPKCS1v15 sha", OF this(1)] sign_op_once[of "planRSAPKCS1v15 sha", OF this(2)]
    sign_op_once[of "planRSAPSS sha", OF this(3)] sign_op_once[of "planRSAPSS sha", OF this(4)]
  show ?thesis
    using assms(1) by (simp add: once signature_mechanisms_def identityMessage_def sha256DigestInfo_def sha256Digest_def)
qed

text \<open>A token that signs by returning what it would sign.\<close>

definition echo_token :: "unit token_module" where
  "echo_token = sample_token\<lparr>m_Sign := (\<lambda>s mech ps h x t. (Inr (if mech = ckmSHA256RSAPKCS then sha256DigestInfoPrefix @ rev x
     else if mech = ckmSHA256RSAPKCSPSS then rev x else x), t))\<rparr>"

theorem signing_plans_equivalent_witness:
  "sign_op (planRSAPKCS1v15 rev) emptyKeyURI ''m'' echo_token \<lparr>slot_id = 1, mechanisms = [ckmSHA256RSAPKCS, ckmSHA256RSAPKCSPSS],
      pool = newSessionPool 1 1, loggedIn = True\<rparr> 9 ()
   = sign_op (planRSAPKCS1v15 rev) emptyKeyURI ''m'' echo_token \<lparr>slot_id = 1, mechanisms = [ckmRSAPKCS, ckmRSAPKCSPSS],
      pool = newSessionPool 1 1, loggedIn = True\<rparr> 9 ()"
proof -
  have "signature_mechanisms rev echo_token" by (simp add: signature_mechanisms_def echo_token_def ckm_defs)
  from signing_plans_equivalent[OF this] show ?thesis by (simp add: supports_def ckm_defs)
qed

end
