(* ===== verification/Jobs_Cron.thy ===== *)
theory Jobs_Cron
  imports Prelude "HOL-Library.Word" "HOL-Library.Product_Lexorder"
begin

text \<open>
  When a cron job of \<^verbatim>\<open>tools/jobs/jobs.go\<close> runs next: \<open>validTrigger\<close>, \<open>daysInMonth\<close>, \<open>nextRun\<close> with
  its three nested loops, and \<open>nextDelay\<close>.

  The time zone of \<open>now\<close> is runtime data. The definitions take \<open>mk\<close>, which stands for
  \<open>time.Date(year, month, day, hour, minute, second, 0, loc)\<close> as an instant in nanoseconds; \<open>now\<close> is
  seen through \<open>After\<close>, \<open>Sub\<close> (its instant) and \<open>Year()\<close>. The locale \<open>calendar\<close> states what the
  properties need of \<open>mk\<close>, and it is interpreted for UTC and every other fixed offset.
\<close>

subsection \<open>Data\<close>

record CronTrigger =
  Year :: "64 word option"
  Month :: "64 word option"
  Day :: "64 word option"
  Hour :: "64 word"
  Minute :: "64 word"
  Second :: "64 word"

record go_time =
  instant :: int
  year_of :: int

type_synonym date = "int \<times> int \<times> int"
type_synonym zone = "int \<Rightarrow> int \<Rightarrow> int \<Rightarrow> int \<Rightarrow> int \<Rightarrow> int \<Rightarrow> int"

subsection \<open>Operations\<close>

definition validTrigger :: "CronTrigger \<Rightarrow> bool" where
  "validTrigger trg =
     (if (case Month trg of Some m \<Rightarrow> m < 1 \<or> 12 < m | None \<Rightarrow> False) then False
      else if (case Day trg of Some d \<Rightarrow> d < 1 \<or> 31 < d | None \<Rightarrow> False) then False
      else Hour trg \<le> 23 \<and> Minute trg \<le> 59 \<and> Second trg \<le> 59)"

definition leap_year :: "int \<Rightarrow> bool" where
  "leap_year y \<longleftrightarrow> 4 dvd y \<and> (\<not> 100 dvd y \<or> 400 dvd y)"

text \<open>\<open>time.Date(year, month+1, 0, ...)\<close> normalises to the last day of \<open>month\<close>.\<close>

definition daysInMonth :: "int \<Rightarrow> int \<Rightarrow> int" where
  "daysInMonth year month =
     (if month = 2 then (if leap_year year then 29 else 28)
      else if month \<in> {4, 6, 9, 11} then 30 else 31)"

text \<open>The loops, innermost first; \<open>None\<close> means the loop ended without a return.\<close>

function day_loop :: "(int \<Rightarrow> int) \<Rightarrow> int \<Rightarrow> int \<Rightarrow> int \<Rightarrow> int option" where
  "day_loop at now day endDay =
     (if day \<le> endDay then
        (if now < at day then Some (at day) else day_loop at now (day + 1) endDay)
      else None)"
  by pat_completeness auto
termination by (relation "measure (\<lambda>(at, now, day, endDay). nat (endDay + 1 - day))") auto

definition month_days :: "CronTrigger \<Rightarrow> int \<Rightarrow> int \<Rightarrow> (int \<times> int) option" where
  \<comment> \<open>\<open>startDay\<close> and \<open>endDay\<close>; \<open>None\<close> is the \<open>continue\<close>\<close>
  "month_days trg year month =
     (let endDay = daysInMonth year month in
      case Day trg of None \<Rightarrow> Some (1, endDay)
      | Some d \<Rightarrow> if endDay < sint d then None else Some (sint d, sint d))"

definition run_at :: "zone \<Rightarrow> CronTrigger \<Rightarrow> int \<Rightarrow> int \<Rightarrow> int \<Rightarrow> int" where
  "run_at mk trg year month day =
     mk year month day (sint (Hour trg)) (sint (Minute trg)) (sint (Second trg))"

function month_loop :: "zone \<Rightarrow> CronTrigger \<Rightarrow> int \<Rightarrow> int \<Rightarrow> int \<Rightarrow> int \<Rightarrow> int option" where
  "month_loop mk trg now year month endMonth =
     (if month \<le> endMonth then
        (case month_days trg year month of
           None \<Rightarrow> month_loop mk trg now year (month + 1) endMonth
         | Some (startDay, endDay) \<Rightarrow>
             (case day_loop (run_at mk trg year month) now startDay endDay of
                Some t \<Rightarrow> Some t
              | None \<Rightarrow> month_loop mk trg now year (month + 1) endMonth))
      else None)"
  by pat_completeness auto
termination
  by (relation "measure (\<lambda>(mk, trg, now, year, month, endMonth). nat (endMonth + 1 - month))") auto

definition month_range :: "CronTrigger \<Rightarrow> int \<times> int" where
  "month_range trg = (case Month trg of None \<Rightarrow> (1, 12) | Some m \<Rightarrow> (sint m, sint m))"

function year_loop :: "zone \<Rightarrow> CronTrigger \<Rightarrow> int \<Rightarrow> int \<Rightarrow> int \<Rightarrow> int option" where
  "year_loop mk trg now year endYear =
     (if year \<le> endYear then
        (case month_loop mk trg now year (fst (month_range trg)) (snd (month_range trg)) of
           Some t \<Rightarrow> Some t
         | None \<Rightarrow> year_loop mk trg now (year + 1) endYear)
      else None)"
  by pat_completeness auto
termination
  by (relation "measure (\<lambda>(mk, trg, now, year, endYear). nat (endYear + 1 - year))") auto

definition year_range :: "CronTrigger \<Rightarrow> go_time \<Rightarrow> int \<times> int" where
  "year_range trg now = (case Year trg of None \<Rightarrow> (year_of now, year_of now + 400)
     | Some y \<Rightarrow> (sint y, sint y))"

definition nextRun :: "zone \<Rightarrow> CronTrigger \<Rightarrow> go_time \<Rightarrow> int option" where
  "nextRun mk trg now =
     (if \<not> validTrigger trg then None
      else year_loop mk trg (instant now) (fst (year_range trg now)) (snd (year_range trg now)))"

text \<open>\<open>Time.Sub\<close> saturates at the ends of \<open>time.Duration\<close>, a signed 64-bit count of nanoseconds.\<close>

definition time_Sub :: "int \<Rightarrow> int \<Rightarrow> int" where
  "time_Sub t u = max (- (2 ^ 63)) (min (2 ^ 63 - 1) (t - u))"

definition nextDelay :: "zone \<Rightarrow> CronTrigger \<Rightarrow> go_time \<Rightarrow> int option" where
  "nextDelay mk trg now = (case nextRun mk trg now of None \<Rightarrow> None
     | Some t \<Rightarrow> Some (time_Sub t (instant now)))"

declare day_loop.simps [simp del] month_loop.simps [simp del] year_loop.simps [simp del]

subsection \<open>The loops search the matching dates in calendar order\<close>

definition date_exists :: "int \<Rightarrow> int \<Rightarrow> int \<Rightarrow> bool" where
  "date_exists y m d \<longleftrightarrow> 1 \<le> m \<and> m \<le> 12 \<and> 1 \<le> d \<and> d \<le> daysInMonth y m"

definition matches :: "CronTrigger \<Rightarrow> int \<Rightarrow> int \<Rightarrow> int \<Rightarrow> bool" where
  "matches trg y m d \<longleftrightarrow> date_exists y m d
     \<and> (\<forall>y'. Year trg = Some y' \<longrightarrow> y = sint y')
     \<and> (\<forall>m'. Month trg = Some m' \<longrightarrow> m = sint m') \<and> (\<forall>d'. Day trg = Some d' \<longrightarrow> d = sint d')"

definition month_dates :: "CronTrigger \<Rightarrow> int \<Rightarrow> int \<Rightarrow> date list" where
  "month_dates trg y m =
     (case month_days trg y m of None \<Rightarrow> [] | Some (a, b) \<Rightarrow> map (\<lambda>d. (y, m, d)) [a..b])"

definition dates :: "CronTrigger \<Rightarrow> int \<Rightarrow> int \<Rightarrow> date list" where
  "dates trg a b = concat (map (\<lambda>y. concat (map (month_dates trg y)
     [fst (month_range trg)..snd (month_range trg)])) [a..b])"

abbreviation first_after :: "(date \<Rightarrow> int) \<Rightarrow> int \<Rightarrow> date list \<Rightarrow> int option" where
  "first_after at now ds \<equiv> find (\<lambda>t. now < t) (map at ds)"

definition run_date :: "zone \<Rightarrow> CronTrigger \<Rightarrow> date \<Rightarrow> int" where
  "run_date mk trg = (\<lambda>(y, m, d). run_at mk trg y m d)"

lemma find_append_cases:
  "find P (xs @ ys) = (case find P xs of None \<Rightarrow> find P ys | Some x \<Rightarrow> Some x)"
  by (induction xs) auto

lemma find_sorted_least:
  assumes "sorted xs" "find P xs = Some x"
  shows "x \<in> set xs" "P x" "y \<in> set xs \<Longrightarrow> P y \<Longrightarrow> x \<le> y"
  using assms by (induction xs) (auto split: if_splits)

lemma day_loop_spec: "day_loop at now d e = find (\<lambda>t. now < t) (map at [d..e])"
proof (induction at now d e rule: day_loop.induct)
  case (1 at now d e)
  then show ?case
    by (subst day_loop.simps) (auto simp: upto_rec1)
qed

lemma month_dates_skip: "month_days trg y m = None \<Longrightarrow> month_dates trg y m = []"
  by (simp add: month_dates_def)

lemma month_dates_run:
  "month_days trg y m = Some (a, b)
     \<Longrightarrow> map (run_date mk trg) (month_dates trg y m) = map (run_at mk trg y m) [a..b]"
  by (simp add: month_dates_def run_date_def)

lemma month_loop_spec:
  "month_loop mk trg now y m e
     = first_after (run_date mk trg) now (concat (map (month_dates trg y) [m..e]))"
proof (induction mk trg now y m e rule: month_loop.induct)
  case (1 mk trg now y m e)
  then show ?case
    by (subst month_loop.simps)
      (auto simp: upto_rec1 day_loop_spec month_dates_skip month_dates_run find_append_cases
        split: option.splits)
qed

lemma year_loop_spec: "year_loop mk trg now a b = first_after (run_date mk trg) now (dates trg a b)"
proof (induction mk trg now a b rule: year_loop.induct)
  case (1 mk trg now a b)
  then show ?case
    by (subst year_loop.simps)
      (auto simp: upto_rec1 month_loop_spec dates_def find_append_cases split: option.splits)
qed

lemma sint_small: "x \<le> 59 \<Longrightarrow> sint (x :: 64 word) = uint x"
proof -
  assume "x \<le> 59"
  then have "uint x \<le> 59" by (simp add: word_le_def)
  moreover have "- (2 ^ 63) \<le> uint x" by (rule order_trans[OF _ uint_ge_0]) simp
  ultimately have "signed_take_bit 63 (uint x) = uint x"
    by (intro signed_take_bit_int_eq_self) simp_all
  then show ?thesis by (simp add: sint_uint)
qed

lemma daysInMonth_bounds: "28 \<le> daysInMonth y m" "daysInMonth y m \<le> 31"
  by (auto simp: daysInMonth_def)

lemma validTrigger_month:
  assumes "validTrigger trg" "Month trg = Some m"
  shows "1 \<le> sint m \<and> sint m \<le> 12"
proof -
  have "\<not> m < 1" "\<not> 12 < m" using assms by (auto simp: validTrigger_def split: if_splits)
  then have b: "1 \<le> m" "m \<le> 12" by (simp_all only: not_less)
  then have "m \<le> 59" by (simp add: word_le_def)
  then show ?thesis using b by (simp add: sint_small word_le_def)
qed

lemma validTrigger_day:
  assumes "validTrigger trg" "Day trg = Some d"
  shows "1 \<le> sint d \<and> sint d \<le> 31"
proof -
  have "\<not> d < 1" "\<not> 31 < d" using assms by (auto simp: validTrigger_def split: if_splits)
  then have b: "1 \<le> d" "d \<le> 31" by (simp_all only: not_less)
  then have "d \<le> 59" by (simp add: word_le_def)
  then show ?thesis using b by (simp add: sint_small word_le_def)
qed

lemma set_month_dates:
  assumes "validTrigger trg"
  shows "set (month_dates trg y m)
     = {(y, m, d) |d. 1 \<le> d \<and> d \<le> daysInMonth y m \<and> (\<forall>d'. Day trg = Some d' \<longrightarrow> d = sint d')}"
  using validTrigger_day[OF assms]
  by (auto simp: month_dates_def month_days_def Let_def split: option.splits)

lemma set_dates:
  assumes "validTrigger trg"
  shows "set (dates trg (fst (year_range trg now)) (snd (year_range trg now)))
     = {(y, m, d) |y m d. matches trg y m d
          \<and> fst (year_range trg now) \<le> y \<and> y \<le> snd (year_range trg now)}"
  using validTrigger_month[OF assms]
  by (auto simp: dates_def set_month_dates[OF assms] matches_def date_exists_def month_range_def
      year_range_def split: option.splits)

text \<open>The list of dates is in calendar order.\<close>

lemma sorted_wrt_concat:
  assumes "\<And>xs. xs \<in> set xss \<Longrightarrow> sorted_wrt R xs"
    and "sorted_wrt (\<lambda>xs ys. \<forall>x\<in>set xs. \<forall>y\<in>set ys. R x y) xss"
  shows "sorted_wrt R (concat xss)"
  using assms by (induction xss) (auto simp: sorted_wrt_append)

lemma sorted_wrt_upto:
  assumes "\<And>x y. x < y \<Longrightarrow> R x y"
  shows "sorted_wrt R [a..b :: int]"
proof (induction a b rule: upto.induct)
  case (1 i j)
  then show ?case using assms by (cases "i \<le> j") (auto simp: upto_rec1)
qed

lemma month_dates_in_order: "sorted_wrt (<) (month_dates trg y m)"
  by (auto simp: month_dates_def sorted_wrt_map less_prod_def split: option.splits
      intro!: sorted_wrt_upto)

lemma month_dates_member: "x \<in> set (month_dates trg y m) \<Longrightarrow> fst x = y \<and> fst (snd x) = m"
  by (auto simp: month_dates_def split: option.splits)

lemma year_dates_in_order: "sorted_wrt (<) (concat (map (month_dates trg y) [p..q]))"
  by (rule sorted_wrt_concat)
    (auto simp: sorted_wrt_map month_dates_in_order less_prod_def dest!: month_dates_member
      intro!: sorted_wrt_upto)

lemma dates_in_order: "sorted_wrt (<) (dates trg a b)"
  unfolding dates_def
  by (rule sorted_wrt_concat)
    (auto simp: sorted_wrt_map year_dates_in_order less_prod_def dest!: month_dates_member
      intro!: sorted_wrt_upto)

lemma nextRun_search:
  "validTrigger trg \<Longrightarrow> nextRun mk trg now = first_after (run_date mk trg) (instant now)
     (dates trg (fst (year_range trg now)) (snd (year_range trg now)))"
  by (simp add: nextRun_def year_loop_spec)

subsection \<open>What the search needs of the calendar\<close>

text \<open>
  \<open>time.Date\<close> counts 64-bit seconds, which bounds the years it can represent; the laws are stated for
  those years only. \<open>clock_ok\<close> is the range of clock readings.
\<close>

definition supported :: "int \<Rightarrow> bool" where
  "supported y \<longleftrightarrow> \<bar>y\<bar> \<le> 292277022399"

definition clock_ok :: "int \<Rightarrow> int \<Rightarrow> int \<Rightarrow> bool" where
  "clock_ok h mi s \<longleftrightarrow> h \<in> {0..23} \<and> mi \<in> {0..59} \<and> s \<in> {0..59}"

definition civil :: "zone \<Rightarrow> date \<Rightarrow> int \<Rightarrow> int \<Rightarrow> int \<Rightarrow> int \<Rightarrow> go_time" where
  \<comment> \<open>the \<open>time.Time\<close> whose civil reading in the zone is the given one, \<open>ns\<close> nanoseconds past the second\<close>
  "civil mk = (\<lambda>(y, m, d) h mi s ns. \<lparr>instant = mk y m d h mi s + ns, year_of = y\<rparr>)"

locale calendar =
  fixes mk :: zone
  assumes mono: "date_exists y m d \<Longrightarrow> date_exists y' m' d' \<Longrightarrow> supported y \<Longrightarrow> supported y'
      \<Longrightarrow> clock_ok h mi s \<Longrightarrow> (y, m, d) < (y', m', d') \<Longrightarrow> mk y m d h mi s \<le> mk y' m' d' h mi s"
    and next_year: "date_exists y m d \<Longrightarrow> date_exists y' m' d' \<Longrightarrow> supported y \<Longrightarrow> supported y'
      \<Longrightarrow> clock_ok h mi s \<Longrightarrow> clock_ok h' mi' s' \<Longrightarrow> ns \<in> {0..<10 ^ 9} \<Longrightarrow> y < y'
      \<Longrightarrow> mk y m d h mi s + ns < mk y' m' d' h' mi' s'"
begin

lemma trigger_clock:
  "validTrigger trg \<Longrightarrow> clock_ok (sint (Hour trg)) (sint (Minute trg)) (sint (Second trg))"
proof -
  assume "validTrigger trg"
  then have h: "Hour trg \<le> 23" and mi: "Minute trg \<le> 59" and s: "Second trg \<le> 59"
    by (auto simp: validTrigger_def split: if_splits)
  from h have "Hour trg \<le> 59" by (simp add: word_le_def)
  then show ?thesis using h mi s by (simp add: clock_ok_def sint_small word_le_def)
qed

lemma run_dates_sorted:
  assumes "validTrigger trg" "supported (fst (year_range trg now))" "supported (snd (year_range trg now))"
  shows "sorted (map (run_date mk trg)
     (dates trg (fst (year_range trg now)) (snd (year_range trg now))))" (is "sorted (map _ ?ds)")
proof -
  have "sorted_wrt (\<lambda>x y. run_date mk trg x \<le> run_date mk trg y) ?ds"
  proof (rule sorted_wrt_mono_rel[OF _ dates_in_order])
    fix x x' assume "x \<in> set ?ds" "x' \<in> set ?ds" "x < x'"
    then show "run_date mk trg x \<le> run_date mk trg x'"
      using assms(2,3) mono[OF _ _ _ _ trigger_clock[OF assms(1)]]
      by (auto simp: set_dates[OF assms(1)] matches_def run_date_def run_at_def supported_def)
  qed
  then show ?thesis by (simp add: sorted_wrt_map)
qed

lemma nextRun_SomeD:
  assumes "nextRun mk trg now = Some t" "supported (fst (year_range trg now))"
    "supported (snd (year_range trg now))"
  shows "instant now < t
    \<and> (\<exists>y m d. matches trg y m d \<and> t = run_at mk trg y m d)
    \<and> (\<forall>y m d. matches trg y m d \<longrightarrow> fst (year_range trg now) \<le> y \<longrightarrow> y \<le> snd (year_range trg now)
         \<longrightarrow> instant now < run_at mk trg y m d \<longrightarrow> t \<le> run_at mk trg y m d)"
proof -
  have v: "validTrigger trg" using assms(1) by (auto simp: nextRun_def split: if_splits)
  note f = find_sorted_least[OF run_dates_sorted[OF v assms(2,3)] assms(1)[unfolded nextRun_search[OF v]]]
  have 1: "instant now < t" by (rule f(2))
  have 2: "\<exists>y m d. matches trg y m d \<and> t = run_at mk trg y m d"
    using f(1) by (auto simp: set_dates[OF v] run_date_def)
  have 3: "t \<le> run_at mk trg y m d" if "matches trg y m d" "fst (year_range trg now) \<le> y"
    "y \<le> snd (year_range trg now)" "instant now < run_at mk trg y m d" for y m d
  proof (rule f(3)[OF _ that(4)])
    show "run_at mk trg y m d \<in> set (map (run_date mk trg)
      (dates trg (fst (year_range trg now)) (snd (year_range trg now))))"
      using that(1-3) by (force simp: set_dates[OF v] run_date_def)
  qed
  show ?thesis using 1 2 3 by blast
qed

lemma nextRun_None_iff:
  assumes "validTrigger trg"
  shows "nextRun mk trg now = None \<longleftrightarrow>
    (\<forall>y m d. matches trg y m d \<longrightarrow> fst (year_range trg now) \<le> y \<longrightarrow> y \<le> snd (year_range trg now)
       \<longrightarrow> run_at mk trg y m d \<le> instant now)"
  by (force simp: nextRun_search[OF assms] find_None_iff set_dates[OF assms] run_date_def not_less)

lemma recurring_found:
  assumes "validTrigger trg" "Year trg = None" "matches trg y m d"
    and "date_exists y0 m0 d0" "clock_ok h mi s" "ns \<in> {0..<10 ^ 9}"
    and "y0 < y" "y \<le> y0 + 400" "supported y0" "supported y"
  shows "\<exists>t. nextRun mk trg (civil mk (y0, m0, d0) h mi s ns) = Some t"
proof -
  have "instant (civil mk (y0, m0, d0) h mi s ns) < run_at mk trg y m d"
    using assms next_year[OF assms(4) _ _ _ assms(5) trigger_clock[OF assms(1)]]
    by (auto simp: civil_def run_at_def matches_def)
  moreover have "fst (year_range trg (civil mk (y0, m0, d0) h mi s ns)) \<le> y"
    "y \<le> snd (year_range trg (civil mk (y0, m0, d0) h mi s ns))"
    using assms(2,7,8) by (simp_all add: year_range_def civil_def)
  ultimately have "nextRun mk trg (civil mk (y0, m0, d0) h mi s ns) \<noteq> None"
    using assms(3) nextRun_None_iff[OF assms(1)] by (meson not_le)
  then show ?thesis by blast
qed

end

subsection \<open>Fixed offsets from UTC\<close>

definition year_start :: "int \<Rightarrow> int" where
  "year_start y = 365 * (y - 1) + (y - 1) div 4 - (y - 1) div 100 + (y - 1) div 400"

definition month_start :: "int \<Rightarrow> int \<Rightarrow> int" where
  "month_start y m = sum_list (map (daysInMonth y) [1..m - 1])"

definition day_number :: "int \<Rightarrow> int \<Rightarrow> int \<Rightarrow> int" where
  "day_number y m d = year_start y + month_start y m + d - 1"

definition fixed_zone :: "int \<Rightarrow> zone" where
  \<comment> \<open>\<open>time.FixedZone\<close> with the offset in seconds east of UTC; 719162 days from 0001-01-01 to 1970-01-01\<close>
  "fixed_zone off y m d h mi s =
     ((day_number y m d - 719162) * 86400 + h * 3600 + mi * 60 + s - off) * 10 ^ 9"

lemma pred_div: "0 < k \<Longrightarrow> (y :: int) div k - (y - 1) div k = (if k dvd y then 1 else 0)"
proof -
  assume k: "0 < k"
  have e: "y = k * (y div k) + y mod k" by simp
  show ?thesis
  proof (cases "k dvd y")
    case True
    then obtain q where "y = k * q" ..
    moreover have "(k * q - 1) div k = q - 1"
      using k by (intro int_div_pos_eq[of _ _ _ "k - 1"]) (auto simp: algebra_simps)
    ultimately show ?thesis using k by simp
  next
    case False
    then have "y mod k \<noteq> 0" by (simp add: dvd_eq_mod_eq_0)
    then have "0 < y mod k" using k pos_mod_sign[OF k, of y] by linarith
    moreover have "y mod k < k" using k by (rule pos_mod_bound)
    ultimately have "(y - 1) div k = y div k"
      using e by (intro int_div_pos_eq[of _ _ _ "y mod k - 1"]) linarith+
    then show ?thesis using False by simp
  qed
qed

lemma month_start_step: "1 \<le> m \<Longrightarrow> month_start y (m + 1) = month_start y m + daysInMonth y m"
  by (simp add: month_start_def upto_rec2)

lemma month_start_13: "month_start y 13 = (if leap_year y then 366 else 365)"
  by (simp add: month_start_def upto_rec1 daysInMonth_def)

lemma year_start_step: "year_start (y + 1) = year_start y + (if leap_year y then 366 else 365)"
proof -
  have d: "400 dvd y \<longrightarrow> 100 dvd y" "100 dvd y \<longrightarrow> 4 dvd y" by presburger+
  have "year_start (y + 1) = year_start y + 365 + (y div 4 - (y - 1) div 4)
      - (y div 100 - (y - 1) div 100) + (y div 400 - (y - 1) div 400)"
    by (simp add: year_start_def)
  then have "year_start (y + 1) = year_start y + 365 + (if 4 dvd y then 1 else 0)
      - (if 100 dvd y then 1 else 0) + (if 400 dvd y then 1 else 0)"
    by (simp only: pred_div zero_less_numeral)
  then show ?thesis using d unfolding leap_year_def
    by (cases "4 dvd y"; cases "100 dvd y"; cases "400 dvd y") (simp_all)
qed

lemma month_start_mono:
  assumes "1 \<le> m"
  shows "m < m' \<Longrightarrow> month_start y m + daysInMonth y m \<le> month_start y m'"
proof (induction m' rule: int_gr_induct)
  case base then show ?case using assms by (simp add: month_start_step)
next
  case (step i) then show ?case
    using assms daysInMonth_bounds[of y i] by (simp add: month_start_step)
qed

lemma year_start_mono: "y < y' \<Longrightarrow> year_start y + month_start y 13 \<le> year_start y'"
proof (induction y' rule: int_gr_induct)
  case base then show ?case by (simp add: year_start_step month_start_13)
next
  case (step i) then show ?case by (simp add: year_start_step split: if_splits)
qed

lemma day_number_mono:
  assumes "date_exists y m d" "date_exists y' m' d'" "(y, m, d) < (y', m', d')"
  shows "day_number y m d < day_number y' m' d'"
proof -
  have s: "month_start y m + d \<le> month_start y 13" if "date_exists y m d" for y m d
    using that month_start_mono[of m 13 y] by (auto simp: date_exists_def)
  have n: "0 \<le> month_start y' m'"
    by (auto simp: month_start_def daysInMonth_def intro!: sum_list_nonneg)
  consider "y < y'" | "y = y'" "m < m'" | "y = y'" "m = m'" "d < d'" using assms(3) by (fastforce simp: less_prod_def le_less)
  then show ?thesis
  proof cases
    case 1 then show ?thesis
      using year_start_mono[of y y'] s[OF assms(1)] n assms(2) by (simp add: day_number_def date_exists_def)
  next
    case 2 then show ?thesis
      using month_start_mono[of m m' y] assms(1,2) by (simp add: day_number_def date_exists_def)
  next
    case 3 then show ?thesis by (simp add: day_number_def)
  qed
qed

interpretation fixed: calendar "fixed_zone off" for off
proof
  fix y m d y' m' d' h mi s
  assume "date_exists y m d" "date_exists y' m' d'" "(y, m, d) < (y', m', d')"
  then have "day_number y m d < day_number y' m' d'" by (rule day_number_mono)
  then show "fixed_zone off y m d h mi s \<le> fixed_zone off y' m' d' h mi s"
    by (simp add: fixed_zone_def)
next
  fix y m d y' m' d' h mi s h' mi' s' ns :: int
  assume a: "date_exists y m d" "date_exists y' m' d'" "y < y'"
    and c: "clock_ok h mi s" "clock_ok h' mi' s'" "ns \<in> {0..<10 ^ 9}"
  then have "day_number y m d < day_number y' m' d'" by (intro day_number_mono) simp_all
  then show "fixed_zone off y m d h mi s + ns < fixed_zone off y' m' d' h' mi' s'"
    using c by (simp add: fixed_zone_def clock_ok_def)
qed

lemma time_Sub_pos: "0 < time_Sub t u \<longleftrightarrow> u < t"
  by (auto simp: time_Sub_def)

lemma leap_year_within_400: "\<exists>y'. y < y' \<and> y' \<le> y + 400 \<and> leap_year y'"
proof (intro exI conjI)
  have "4 dvd (400 :: int) * (y div 400 + 1)" by (rule dvd_mult2) simp
  then show "leap_year (400 * (y div 400 + 1))" by (simp add: leap_year_def)
  have "y = 400 * (y div 400) + y mod 400" "0 \<le> y mod 400" "y mod 400 < 400" by simp_all
  then show "y < 400 * (y div 400 + 1)" "400 * (y div 400 + 1) \<le> y + 400" by (auto simp: algebra_simps)
qed

lemma matches_leap:
  "Year trg = None \<Longrightarrow> leap_year y \<Longrightarrow> leap_year y' \<Longrightarrow> matches trg y m d = matches trg y' m d"
  by (simp add: matches_def date_exists_def daysInMonth_def)

subsection \<open>Properties\<close>

text \<open>
  C7: In every fixed zone, a next run is strictly after \<open>now\<close>, is a date matching the trigger at the
  trigger's clock time, and no matching date of the searched years that lies after \<open>now\<close> comes before
  it.\<close>
theorem nextRun_least:
  assumes "nextRun (fixed_zone off) trg now = Some t"
    and "supported (fst (year_range trg now))" "supported (snd (year_range trg now))"
  shows "instant now < t
    \<and> (\<exists>y m d. matches trg y m d \<and> t = run_at (fixed_zone off) trg y m d)
    \<and> (\<forall>y m d. matches trg y m d \<longrightarrow> fst (year_range trg now) \<le> y \<longrightarrow> y \<le> snd (year_range trg now)
         \<longrightarrow> instant now < run_at (fixed_zone off) trg y m d \<longrightarrow> t \<le> run_at (fixed_zone off) trg y m d)"
  by (rule fixed.nextRun_SomeD[OF assms])

theorem nextRun_least_witness:
  "\<exists>y m d. matches \<lparr>Year = Some 2026, Month = None, Day = Some 31, Hour = 9, Minute = 0, Second = 0\<rparr> y m d
     \<and> 1774947600 * 10 ^ 9 = run_at (fixed_zone 0)
         \<lparr>Year = Some 2026, Month = None, Day = Some 31, Hour = 9, Minute = 0, Second = 0\<rparr> y m d"
proof -
  have "nextRun (fixed_zone 0)
      \<lparr>Year = Some 2026, Month = None, Day = Some 31, Hour = 9, Minute = 0, Second = 0\<rparr>
      \<lparr>instant = 1770000000 * 10 ^ 9, year_of = 2026\<rparr> = Some (1774947600 * 10 ^ 9)"
    by code_simp
  from nextRun_least[OF this] show ?thesis by (simp add: supported_def year_range_def)
qed

text \<open>
  A recurring trigger (no fixed year) whose month and day exist in a leap year is always scheduled,
  with a positive delay: the 400 years searched contain a leap year after every \<open>now\<close>.\<close>
theorem recurring_scheduled:
  assumes "validTrigger trg" "Year trg = None" "\<exists>m' d'. matches trg 2000 m' d'"
    and "date_exists y m d" "clock_ok h mi s" "ns \<in> {0..<10 ^ 9}" "supported y" "supported (y + 400)"
  shows "\<exists>delay. nextDelay (fixed_zone off) trg (civil (fixed_zone off) (y, m, d) h mi s ns) = Some delay
    \<and> 0 < delay"
proof -
  let ?now = "civil (fixed_zone off) (y, m, d) h mi s ns"
  obtain y' where y': "y < y'" "y' \<le> y + 400" "leap_year y'" using leap_year_within_400 by blast
  obtain m' d' where "matches trg 2000 m' d'" using assms(3) by blast
  then have "matches trg y' m' d'"
    using matches_leap[OF assms(2), of 2000 y'] y'(3) by (simp add: leap_year_def)
  moreover have "supported y'" using assms(7,8) y' by (auto simp: supported_def)
  ultimately obtain t where t: "nextRun (fixed_zone off) trg ?now = Some t"
    using fixed.recurring_found[OF assms(1,2) _ assms(4-6) y'(1,2) assms(7)] by blast
  moreover have "supported (fst (year_range trg ?now))" "supported (snd (year_range trg ?now))"
    using assms(2,7,8) by (simp_all add: year_range_def civil_def)
  ultimately show ?thesis
    using fixed.nextRun_SomeD[OF t] by (auto simp: nextDelay_def time_Sub_pos)
qed

theorem recurring_scheduled_witness:
  "\<exists>delay. nextDelay (fixed_zone 3600)
     \<lparr>Year = None, Month = Some 2, Day = Some 29, Hour = 9, Minute = 30, Second = 0\<rparr>
     (civil (fixed_zone 3600) (2096, 2, 29) 9 30 0 1) = Some delay \<and> 0 < delay"
proof (rule recurring_scheduled)
  show "\<exists>m' d'. matches \<lparr>Year = None, Month = Some 2, Day = Some 29, Hour = 9, Minute = 30, Second = 0\<rparr>
    2000 m' d'"
    by (intro exI[of _ 2] exI[of _ 29]) (simp add: matches_def date_exists_def daysInMonth_def leap_year_def)
qed (simp_all add: validTrigger_def date_exists_def daysInMonth_def leap_year_def clock_ok_def supported_def)

end
