(* ===== verification/Jobs.thy ===== *)
theory Jobs
  imports Go_Strings Jobs_Cron "HOL-Library.Multiset"
begin

text \<open>
  The job scheduler of \<^verbatim>\<open>tools/jobs/jobs.go\<close>. A \<open>world\<close> holds what the package keeps in memory: the scheduler
  instances and the registry of them, the heap of \<open>jobControl\<close> objects, which stop channels are closed,
  and the goroutines started with \<open>wg.Go\<close>. A goroutine advances by an \<open>event\<close>, one case of its \<open>select\<close>;
  an event is refused (\<open>None\<close>) when its case is not ready. \<open>stop\<close> blocks in \<open>wg.Wait\<close>, so it takes the events
  that happen while it waits, and it returns only when they leave no goroutine of the instance.

  Registration and the calls on one job hold \<open>mux\<close> and are atomic; the lifecycle calls hold
  \<open>lifecycleMu\<close>. \<open>startJobs\<close> is the composition of its lock-free part \<open>startJobs_begin\<close> and the rest, so that
  a registration between the two can be written down.
\<close>

subsection \<open>State\<close>

datatype jobs_error =
  ErrNilJobFunc | ErrInvalidInterval | ErrEmptyJobID | ErrDuplicateJobID | ErrJobNotFound | ErrJobStopped
| ErrInvalidCronTrigger | ErrCronTriggerExpired

type_synonym job_fn = "nat option"

record jobControl =
  ctl_id :: string
  ctl_closed :: bool
  paused :: bool
  stopped :: bool
  once :: bool

record intervalJob =
  ij_id :: string
  ij_fn :: job_fn
  ij_interval :: int
  ij_timeout :: "int option"
  ij_control :: nat

record cronJob =
  cj_id :: string
  cj_fn :: job_fn
  cj_trigger :: CronTrigger
  cj_interval :: int
  cj_control :: nat

record jobs =
  started :: bool
  stopCh :: "nat option"
  intervalJobs :: "intervalJob list"
  cronJobs :: "cronJob list"
  controls :: "(string \<times> nat) list"

datatype job_work = IntervalWork intervalJob | CronWork cronJob

text \<open>
  Where a goroutine is: before the immediate run of an interval job, before the computation of the
  next delay of a cron job, in the select on the trigger's timer, in the select on the ticker.
\<close>

datatype phase = First | Arm | Wait | Loop

record routine =
  owner :: nat
  work :: job_work
  gchan :: nat
  phase_of :: phase

record world =
  instances :: "nat \<Rightarrow> jobs"
  next_instance :: nat
  registry :: "nat list"
  control_heap :: "nat \<Rightarrow> jobControl"
  next_control :: nat
  closed_chans :: "nat list"
  next_chan :: nat
  routines :: "routine list"
  runs :: "(nat \<times> job_fn) list"
  jobIDCounter :: "64 word"
  checkJobsStop :: bool
  modeTest :: bool

datatype 'a outcome = Returns 'a | Blocks | Panics

datatype event = Begin nat | Armed nat go_time | Timer nat | Tick nat | Timeout nat | CtlStop nat | StopCh nat

subsection \<open>Controls\<close>

definition canRun :: "jobControl \<Rightarrow> bool" where
  "canRun c \<longleftrightarrow> \<not> stopped c \<and> \<not> paused c"

definition control_stop :: "jobControl \<Rightarrow> jobControl" where
  "control_stop c = c\<lparr>stopped := True, ctl_closed := (if once c then ctl_closed c else True), once := True\<rparr>"

definition set_control :: "nat \<Rightarrow> (jobControl \<Rightarrow> jobControl) \<Rightarrow> world \<Rightarrow> world" where
  "set_control a f w = w\<lparr>control_heap := (control_heap w)(a := f (control_heap w a))\<rparr>"

definition set_instance :: "nat \<Rightarrow> (jobs \<Rightarrow> jobs) \<Rightarrow> world \<Rightarrow> world" where
  "set_instance j f w = w\<lparr>instances := (instances w)(j := f (instances w j))\<rparr>"

definition empty_jobs :: jobs where
  "empty_jobs = \<lparr>started = False, stopCh = None, intervalJobs = [], cronJobs = [], controls = []\<rparr>"

definition register :: "nat \<Rightarrow> world \<Rightarrow> world" where
  "register j w = w\<lparr>registry := (if j \<in> set (registry w) then registry w else registry w @ [j])\<rparr>"

definition unregister :: "nat \<Rightarrow> world \<Rightarrow> world" where
  "unregister j w = w\<lparr>registry := removeAll j (registry w)\<rparr>"

definition newJobs :: "world \<Rightarrow> world" where
  "newJobs w = (let j = next_instance w in
     register j (set_instance j (\<lambda>_. empty_jobs) (w\<lparr>next_instance := j + 1\<rparr>)))"

text \<open>\<open>init\<close> creates \<open>globalJobs\<close>, the instance at address 0.\<close>

abbreviation (input) globalJobs :: nat where "globalJobs \<equiv> 0"

definition jobs_init :: "bool \<Rightarrow> world" where
  "jobs_init test = newJobs \<lparr>instances = (\<lambda>_. empty_jobs), next_instance = 0, registry = [],
     control_heap = (\<lambda>_. \<lparr>ctl_id = [], ctl_closed = False, paused = False, stopped = False, once = False\<rparr>),
     next_control = 0, closed_chans = [], next_chan = 0, routines = [], runs = [], jobIDCounter = 0,
     checkJobsStop = False, modeTest = test\<rparr>"

subsection \<open>Goroutines\<close>

definition startIntervalJob :: "nat \<Rightarrow> intervalJob \<Rightarrow> nat \<Rightarrow> world \<Rightarrow> world" where
  "startIntervalJob j ij ch w = w\<lparr>routines := routines w
     @ [\<lparr>owner = j, work = IntervalWork ij, gchan = ch, phase_of = First\<rparr>]\<rparr>"

definition startCronJob :: "nat \<Rightarrow> cronJob \<Rightarrow> nat \<Rightarrow> world \<Rightarrow> world" where
  "startCronJob j cj ch w = w\<lparr>routines := routines w
     @ [\<lparr>owner = j, work = CronWork cj, gchan = ch, phase_of = Arm\<rparr>]\<rparr>"

definition work_control :: "job_work \<Rightarrow> nat" where
  "work_control k = (case k of IntervalWork ij \<Rightarrow> ij_control ij | CronWork cj \<Rightarrow> cj_control cj)"

definition work_fn :: "job_work \<Rightarrow> job_fn" where
  "work_fn k = (case k of IntervalWork ij \<Rightarrow> ij_fn ij | CronWork cj \<Rightarrow> cj_fn cj)"

definition run_if_allowed :: "job_work \<Rightarrow> world \<Rightarrow> world" where
  "run_if_allowed k w = (if canRun (control_heap w (work_control k))
     then w\<lparr>runs := runs w @ [(work_control k, work_fn k)]\<rparr> else w)"

definition go_to :: "nat \<Rightarrow> phase \<Rightarrow> world \<Rightarrow> world" where
  "go_to i p w = w\<lparr>routines := (routines w)[i := (routines w ! i)\<lparr>phase_of := p\<rparr>]\<rparr>"

definition leave :: "nat \<Rightarrow> world \<Rightarrow> world" where
  "leave i w = w\<lparr>routines := take i (routines w) @ drop (Suc i) (routines w)\<rparr>"

definition after_timer :: "job_work \<Rightarrow> phase" where
  "after_timer k = (case k of CronWork cj \<Rightarrow> (if cj_interval cj \<le> 0 then Arm else Loop) | IntervalWork _ \<Rightarrow> Loop)"

definition arm_delay :: "zone \<Rightarrow> job_work \<Rightarrow> go_time \<Rightarrow> int option" where
  "arm_delay mk k now = (case k of CronWork cj \<Rightarrow> nextDelay mk (cj_trigger cj) now | IntervalWork _ \<Rightarrow> None)"

definition has_timeout :: "job_work \<Rightarrow> bool" where
  "has_timeout k = (case k of IntervalWork ij \<Rightarrow> (case ij_timeout ij of Some t \<Rightarrow> 0 < t | None \<Rightarrow> False) | CronWork _ \<Rightarrow> False)"

fun event_routine :: "event \<Rightarrow> nat" where
  "event_routine (Begin i) = i" | "event_routine (Armed i _) = i" | "event_routine (Timer i) = i"
| "event_routine (Tick i) = i" | "event_routine (Timeout i) = i" | "event_routine (CtlStop i) = i"
| "event_routine (StopCh i) = i"

fun routine_event :: "zone \<Rightarrow> event \<Rightarrow> routine \<Rightarrow> world \<Rightarrow> world option" where
  "routine_event mk (Begin i) r w =
     (if phase_of r = First then Some (go_to i Loop (run_if_allowed (work r) w)) else None)"
| "routine_event mk (Armed i now) r w =
     (if phase_of r = Arm then Some (case arm_delay mk (work r) now of None \<Rightarrow> leave i w | Some _ \<Rightarrow> go_to i Wait w)
      else None)"
| "routine_event mk (Timer i) r w =
     (if phase_of r = Wait then Some (go_to i (after_timer (work r)) (run_if_allowed (work r) w)) else None)"
| "routine_event mk (Tick i) r w =
     (if phase_of r = Loop then Some (run_if_allowed (work r) w) else None)"
| "routine_event mk (Timeout i) r w =
     (if phase_of r = Loop \<and> has_timeout (work r) then Some (leave i w) else None)"
| "routine_event mk (CtlStop i) r w =
     (if phase_of r \<in> {Wait, Loop} \<and> ctl_closed (control_heap w (work_control (work r)))
      then Some (leave i w) else None)"
| "routine_event mk (StopCh i) r w =
     (if phase_of r \<in> {Wait, Loop} \<and> gchan r \<in> set (closed_chans w) then Some (leave i w) else None)"

definition happen :: "zone \<Rightarrow> event \<Rightarrow> world \<Rightarrow> world option" where
  "happen mk e w = (if event_routine e < length (routines w)
     then routine_event mk e (routines w ! event_routine e) w else None)"

fun happen_all :: "zone \<Rightarrow> event list \<Rightarrow> world \<Rightarrow> world option" where
  "happen_all mk [] w = Some w"
| "happen_all mk (e # es) w = (case happen mk e w of None \<Rightarrow> None | Some w' \<Rightarrow> happen_all mk es w')"

subsection \<open>Registration\<close>

definition nextJobID :: "world \<Rightarrow> string \<times> world" where
  "nextJobID w = (let n = jobIDCounter w + 1 in (''job-'' @ decimal (unat n), w\<lparr>jobIDCounter := n\<rparr>))"

definition validateJobID :: "string \<Rightarrow> jobs_error option" where
  "validateJobID jid = (if jid = [] then Some ErrEmptyJobID else None)"

definition validateIntervalJob :: "job_fn \<Rightarrow> int \<Rightarrow> jobs_error option" where
  "validateIntervalJob fn interval = (if fn = None then Some ErrNilJobFunc
     else if interval \<le> 0 then Some ErrInvalidInterval else None)"

definition validateCronJob :: "zone \<Rightarrow> go_time \<Rightarrow> job_fn \<Rightarrow> CronTrigger \<Rightarrow> jobs_error option" where
  "validateCronJob mk now fn trg = (if fn = None then Some ErrNilJobFunc
     else if \<not> validTrigger trg then Some ErrInvalidCronTrigger
     else if nextRun mk trg now = None then Some ErrCronTriggerExpired else None)"

definition addControlLocked :: "nat \<Rightarrow> string \<Rightarrow> world \<Rightarrow> jobs_error + nat \<times> world" where
  "addControlLocked j jid w =
     (case map_of (controls (instances w j)) jid of
        Some _ \<Rightarrow> Inl ErrDuplicateJobID
      | None \<Rightarrow> (let a = next_control w in
          Inr (a, set_instance j (\<lambda>J. J\<lparr>controls := controls J @ [(jid, a)]\<rparr>)
            (set_control a (\<lambda>_. \<lparr>ctl_id = jid, ctl_closed = False, paused = False, stopped = False, once = False\<rparr>)
              (w\<lparr>next_control := a + 1\<rparr>)))))"

definition registerIntervalJob ::
    "nat \<Rightarrow> string \<Rightarrow> job_fn \<Rightarrow> int \<Rightarrow> int option \<Rightarrow> world \<Rightarrow> jobs_error option \<times> world" where
  "registerIntervalJob j jid fn interval timeout w =
     (case addControlLocked j jid w of Inl e \<Rightarrow> (Some e, w)
      | Inr (a, w1) \<Rightarrow>
          (let ij = \<lparr>ij_id = jid, ij_fn = fn, ij_interval = interval, ij_timeout = timeout, ij_control = a\<rparr>;
               w2 = set_instance j (\<lambda>J. J\<lparr>intervalJobs := intervalJobs J @ [ij]\<rparr>) w1
           in if started (instances w2 j) then
                (case stopCh (instances w2 j) of Some ch \<Rightarrow> (None, startIntervalJob j ij ch w2) | None \<Rightarrow> (None, w2))
              else (None, w2)))"

definition registerCronJob ::
    "nat \<Rightarrow> string \<Rightarrow> job_fn \<Rightarrow> CronTrigger \<Rightarrow> int \<Rightarrow> world \<Rightarrow> jobs_error option \<times> world" where
  "registerCronJob j jid fn trg interval w =
     (case addControlLocked j jid w of Inl e \<Rightarrow> (Some e, w)
      | Inr (a, w1) \<Rightarrow>
          (let cj = \<lparr>cj_id = jid, cj_fn = fn, cj_trigger = trg, cj_interval = interval, cj_control = a\<rparr>;
               w2 = set_instance j (\<lambda>J. J\<lparr>cronJobs := cronJobs J @ [cj]\<rparr>) w1
           in if started (instances w2 j) then
                (case stopCh (instances w2 j) of Some ch \<Rightarrow> (None, startCronJob j cj ch w2) | None \<Rightarrow> (None, w2))
              else (None, w2)))"

definition job :: "nat \<Rightarrow> job_fn \<Rightarrow> int \<Rightarrow> int option \<Rightarrow> world \<Rightarrow> (jobs_error + string) \<times> world" where
  "job j fn interval timeout w =
     (case validateIntervalJob fn interval of Some e \<Rightarrow> (Inl e, w)
      | None \<Rightarrow> (let (jid, w1) = nextJobID w in
          case registerIntervalJob j jid fn interval timeout w1 of
            (Some e, w2) \<Rightarrow> (Inl e, w2) | (None, w2) \<Rightarrow> (Inr jid, w2)))"

definition jobWithID ::
    "nat \<Rightarrow> string \<Rightarrow> job_fn \<Rightarrow> int \<Rightarrow> int option \<Rightarrow> world \<Rightarrow> jobs_error option \<times> world" where
  "jobWithID j jid fn interval timeout w =
     (case validateJobID jid of Some e \<Rightarrow> (Some e, w)
      | None \<Rightarrow> (case validateIntervalJob fn interval of Some e \<Rightarrow> (Some e, w)
                 | None \<Rightarrow> registerIntervalJob j jid fn interval timeout w))"

definition jobs_cronJob ::
    "zone \<Rightarrow> go_time \<Rightarrow> nat \<Rightarrow> job_fn \<Rightarrow> CronTrigger \<Rightarrow> int \<Rightarrow> world \<Rightarrow> (jobs_error + string) \<times> world" where
  "jobs_cronJob mk now j fn trg interval w =
     (case validateCronJob mk now fn trg of Some e \<Rightarrow> (Inl e, w)
      | None \<Rightarrow> (let (jid, w1) = nextJobID w in
          case registerCronJob j jid fn trg interval w1 of
            (Some e, w2) \<Rightarrow> (Inl e, w2) | (None, w2) \<Rightarrow> (Inr jid, w2)))"

definition cronJobWithID ::
    "zone \<Rightarrow> go_time \<Rightarrow> nat \<Rightarrow> string \<Rightarrow> job_fn \<Rightarrow> CronTrigger \<Rightarrow> int \<Rightarrow> world \<Rightarrow> jobs_error option \<times> world" where
  "cronJobWithID mk now j jid fn trg interval w =
     (case validateJobID jid of Some e \<Rightarrow> (Some e, w)
      | None \<Rightarrow> (case validateCronJob mk now fn trg of Some e \<Rightarrow> (Some e, w)
                 | None \<Rightarrow> registerCronJob j jid fn trg interval w))"

subsection \<open>Lifecycle\<close>

definition startJobs_begin :: "nat \<Rightarrow> world \<Rightarrow> (nat \<times> world) option" where
  \<comment> \<open>lines 310--317: \<open>None\<close> is an early return, otherwise the new stop channel\<close>
  "startJobs_begin j w =
     (if modeTest w then None
      else if started (instances w j) then None
      else (let ch = next_chan w in
        Some (ch, set_instance j (\<lambda>J. J\<lparr>started := True, stopCh := Some ch\<rparr>) (w\<lparr>next_chan := ch + 1\<rparr>))))"

definition startJobs_finish :: "nat \<Rightarrow> nat \<Rightarrow> world \<Rightarrow> world" where
  "startJobs_finish j ch w =
     (fold (\<lambda>cj. startCronJob j cj ch) (cronJobs (instances w j))
        (fold (\<lambda>ij. startIntervalJob j ij ch) (intervalJobs (instances w j)) w))
      \<lparr>checkJobsStop := True\<rparr>"

definition startJobs :: "nat \<Rightarrow> world \<Rightarrow> world" where
  "startJobs j w = (case startJobs_begin j w of None \<Rightarrow> w | Some (ch, w') \<Rightarrow> startJobs_finish j ch w')"

text \<open>\<open>wg.Wait\<close>: the events \<open>es\<close> happen while the caller waits.\<close>

definition wg_Wait :: "zone \<Rightarrow> event list \<Rightarrow> nat \<Rightarrow> world \<Rightarrow> world outcome" where
  "wg_Wait mk es j w = (case happen_all mk es w of None \<Rightarrow> Blocks
     | Some w' \<Rightarrow> (if list_ex (\<lambda>r. owner r = j) (routines w') then Blocks else Returns w'))"

definition jobs_stop :: "zone \<Rightarrow> event list \<Rightarrow> nat \<Rightarrow> world \<Rightarrow> world outcome" where
  "jobs_stop mk es j w =
     (if \<not> started (instances w j) then Returns w
      else let w1 = set_instance j (\<lambda>J. J\<lparr>started := False\<rparr>) w in
        (case stopCh (instances w j) of None \<Rightarrow> wg_Wait mk es j w1
         | Some ch \<Rightarrow> (if ch \<in> set (closed_chans w) then Panics
             else wg_Wait mk es j (w1\<lparr>closed_chans := ch # closed_chans w1\<rparr>))))"

definition clear_jobs :: "nat \<Rightarrow> world \<Rightarrow> world" where
  \<comment> \<open>the part of \<open>stopAndClear\<close> under \<open>mux\<close>\<close>
  "clear_jobs j w =
     set_instance j (\<lambda>J. J\<lparr>intervalJobs := [], cronJobs := [], controls := []\<rparr>)
       (fold (\<lambda>(jid, a). set_control a control_stop) (controls (instances w j)) w)"

definition stopAndClear :: "zone \<Rightarrow> event list \<Rightarrow> nat \<Rightarrow> world \<Rightarrow> world outcome" where
  "stopAndClear mk es j w = (case jobs_stop mk es j w of Returns w' \<Rightarrow> Returns (clear_jobs j w') | b \<Rightarrow> b)"

definition destroy :: "zone \<Rightarrow> event list \<Rightarrow> nat \<Rightarrow> world \<Rightarrow> world outcome" where
  "destroy mk es j w = (case stopAndClear mk es j w of Returns w' \<Rightarrow> Returns (unregister j w') | b \<Rightarrow> b)"

text \<open>
  The registry is a Go map, so \<open>stopAllJobs\<close> and \<open>applyToRegisteredJobs\<close> visit the instances in an order of
  the runtime's choosing, the list \<open>order\<close>. \<open>es j\<close> is what happens while instance \<open>j\<close> is being stopped.
\<close>

fun stop_each :: "zone \<Rightarrow> (nat \<Rightarrow> event list) \<Rightarrow> bool \<Rightarrow> nat list \<Rightarrow> world \<Rightarrow> world outcome" where
  "stop_each mk es clear [] w = Returns w"
| "stop_each mk es clear (j # js) w =
     (case (if clear then stopAndClear mk (es j) j w else jobs_stop mk (es j) j w) of
        Returns w' \<Rightarrow> stop_each mk es clear js w' | b \<Rightarrow> b)"

definition stopAllJobs :: "zone \<Rightarrow> (nat \<Rightarrow> event list) \<Rightarrow> bool \<Rightarrow> nat list \<Rightarrow> world \<Rightarrow> world outcome" where
  "stopAllJobs mk es clear order w =
     (case stop_each mk es clear order w of Returns w' \<Rightarrow> Returns (w'\<lparr>checkJobsStop := False\<rparr>) | b \<Rightarrow> b)"

definition StartJobs :: "world \<Rightarrow> world" where
  "StartJobs w = startJobs globalJobs w"

definition RestartJobs :: "zone \<Rightarrow> (nat \<Rightarrow> event list) \<Rightarrow> nat list \<Rightarrow> world \<Rightarrow> world outcome" where
  "RestartJobs mk es order w =
     (case stopAllJobs mk es False order w of Returns w' \<Rightarrow> Returns (startJobs globalJobs w') | b \<Rightarrow> b)"

definition StopAllJobs :: "zone \<Rightarrow> (nat \<Rightarrow> event list) \<Rightarrow> bool \<Rightarrow> nat list \<Rightarrow> world \<Rightarrow> world outcome" where
  "StopAllJobs mk es clear order w = stopAllJobs mk es clear order w"

definition CheckStatusJobs :: "world \<Rightarrow> bool" where
  "CheckStatusJobs w = checkJobsStop w"

subsection \<open>Single jobs\<close>

definition get_control :: "nat \<Rightarrow> string \<Rightarrow> world \<Rightarrow> nat option" where
  "get_control j jid w = map_of (controls (instances w j)) jid"

definition set_paused :: "bool \<Rightarrow> nat \<Rightarrow> string \<Rightarrow> world \<Rightarrow> jobs_error option \<times> world" where
  "set_paused p j jid w =
     (case validateJobID jid of Some e \<Rightarrow> (Some e, w)
      | None \<Rightarrow> (case get_control j jid w of None \<Rightarrow> (Some ErrJobNotFound, w)
          | Some a \<Rightarrow> (if stopped (control_heap w a) then (Some ErrJobStopped, w)
              else (None, set_control a (\<lambda>c. c\<lparr>paused := p\<rparr>) w))))"

definition pauseJob :: "nat \<Rightarrow> string \<Rightarrow> world \<Rightarrow> jobs_error option \<times> world" where
  "pauseJob = set_paused True"

definition resumeJob :: "nat \<Rightarrow> string \<Rightarrow> world \<Rightarrow> jobs_error option \<times> world" where
  "resumeJob = set_paused False"

definition removeIntervalJob :: "intervalJob list \<Rightarrow> string \<Rightarrow> intervalJob list" where
  "removeIntervalJob items jid = filter (\<lambda>item. ij_id item \<noteq> jid) items"

definition removeCronJob :: "cronJob list \<Rightarrow> string \<Rightarrow> cronJob list" where
  "removeCronJob items jid = filter (\<lambda>item. cj_id item \<noteq> jid) items"

definition stopJob :: "nat \<Rightarrow> string \<Rightarrow> world \<Rightarrow> jobs_error option \<times> world" where
  "stopJob j jid w =
     (case validateJobID jid of Some e \<Rightarrow> (Some e, w)
      | None \<Rightarrow> (case map_of (controls (instances w j)) jid of None \<Rightarrow> (Some ErrJobNotFound, w)
          | Some a \<Rightarrow> (None, set_control a control_stop
              (set_instance j (\<lambda>J. J\<lparr>controls := filter (\<lambda>(k, _). k \<noteq> jid) (controls J),
                 intervalJobs := removeIntervalJob (intervalJobs J) jid,
                 cronJobs := removeCronJob (cronJobs J) jid\<rparr>) w))))"

fun apply_each :: "(nat \<Rightarrow> world \<Rightarrow> jobs_error option \<times> world) \<Rightarrow> nat list \<Rightarrow> bool \<Rightarrow> jobs_error \<Rightarrow> world
    \<Rightarrow> jobs_error option \<times> world" where
  "apply_each fn [] applied firstErr w = (if applied then None else Some firstErr, w)"
| "apply_each fn (j # js) applied firstErr w =
     (case fn j w of
        (None, w') \<Rightarrow> apply_each fn js True firstErr w'
      | (Some e, w') \<Rightarrow> apply_each fn js applied
          (if e \<noteq> ErrJobNotFound \<and> firstErr = ErrJobNotFound then e else firstErr) w')"

definition applyToRegisteredJobs ::
    "(nat \<Rightarrow> world \<Rightarrow> jobs_error option \<times> world) \<Rightarrow> nat list \<Rightarrow> world \<Rightarrow> jobs_error option \<times> world" where
  "applyToRegisteredJobs fn order w = apply_each fn order False ErrJobNotFound w"

definition PauseJob :: "string \<Rightarrow> nat list \<Rightarrow> world \<Rightarrow> jobs_error option \<times> world" where
  "PauseJob jid = applyToRegisteredJobs (\<lambda>j. pauseJob j jid)"

definition ResumeJob :: "string \<Rightarrow> nat list \<Rightarrow> world \<Rightarrow> jobs_error option \<times> world" where
  "ResumeJob jid = applyToRegisteredJobs (\<lambda>j. resumeJob j jid)"

definition StopJob :: "string \<Rightarrow> nat list \<Rightarrow> world \<Rightarrow> jobs_error option \<times> world" where
  "StopJob jid = applyToRegisteredJobs (\<lambda>j. stopJob j jid)"

subsection \<open>The scheduler as a labelled transition system\<close>

datatype call =
  CEvent event
| CJob nat job_fn int "int option" | CJobWithID nat string job_fn int "int option"
| CCronJob go_time nat job_fn CronTrigger int | CCronJobWithID go_time nat string job_fn CronTrigger int
| CStartJobs nat | CRestartJobs "nat \<Rightarrow> event list" "nat list"
| CStopAllJobs "nat \<Rightarrow> event list" bool "nat list" | CDestroy "event list" nat | CNewJobs
| CPauseJob string "nat list" | CResumeJob string "nat list" | CStopJob string "nat list"

fun exec :: "zone \<Rightarrow> call \<Rightarrow> world \<Rightarrow> world outcome" where
  "exec mk (CEvent e) w = (case happen mk e w of None \<Rightarrow> Blocks | Some w' \<Rightarrow> Returns w')"
| "exec mk (CJob j fn iv t) w = Returns (snd (job j fn iv t w))"
| "exec mk (CJobWithID j jid fn iv t) w = Returns (snd (jobWithID j jid fn iv t w))"
| "exec mk (CCronJob now j fn trg iv) w = Returns (snd (jobs_cronJob mk now j fn trg iv w))"
| "exec mk (CCronJobWithID now j jid fn trg iv) w = Returns (snd (cronJobWithID mk now j jid fn trg iv w))"
| "exec mk (CStartJobs j) w = Returns (startJobs j w)"
| "exec mk (CRestartJobs es order) w = RestartJobs mk es order w"
| "exec mk (CStopAllJobs es clear order) w = StopAllJobs mk es clear order w"
| "exec mk (CDestroy es j) w = destroy mk es j w"
| "exec mk CNewJobs w = Returns (newJobs w)"
| "exec mk (CPauseJob jid order) w = Returns (snd (PauseJob jid order w))"
| "exec mk (CResumeJob jid order) w = Returns (snd (ResumeJob jid order w))"
| "exec mk (CStopJob jid order) w = Returns (snd (StopJob jid order w))"

fun allowed :: "world \<Rightarrow> call \<Rightarrow> bool" where
  "allowed w (CJob j _ _ _) = (j < next_instance w)"
| "allowed w (CJobWithID j _ _ _ _) = (j < next_instance w)"
| "allowed w (CCronJob _ j _ _ _) = (j < next_instance w)"
| "allowed w (CCronJobWithID _ j _ _ _ _) = (j < next_instance w)"
| "allowed w (CStartJobs j) = (j < next_instance w)"
| "allowed w (CDestroy _ j) = (j < next_instance w)"
| "allowed w (CRestartJobs _ order) = (distinct order \<and> set order = set (registry w))"
| "allowed w (CStopAllJobs _ _ order) = (distinct order \<and> set order = set (registry w))"
| "allowed w (CPauseJob _ order) = (distinct order \<and> set order = set (registry w))"
| "allowed w (CResumeJob _ order) = (distinct order \<and> set order = set (registry w))"
| "allowed w (CStopJob _ order) = (distinct order \<and> set order = set (registry w))"
| "allowed w _ = True"

inductive jobs_step :: "zone \<Rightarrow> call \<Rightarrow> world \<Rightarrow> world \<Rightarrow> bool" for mk :: zone where
  jobs_call: "allowed w c \<Longrightarrow> exec mk c w = Returns w' \<Longrightarrow> jobs_step mk c w w'"

inductive_cases jobs_stepE: "jobs_step mk c w w'"

lemmas world_ops [opdefs] = set_control_def set_instance_def

subsection \<open>Invariant\<close>

definition job_defs :: "jobs \<Rightarrow> (string \<times> nat) list" where
  "job_defs J = map (\<lambda>ij. (ij_id ij, ij_control ij)) (intervalJobs J)
     @ map (\<lambda>cj. (cj_id cj, cj_control cj)) (cronJobs J)"

definition routine_control :: "routine \<Rightarrow> nat" where
  "routine_control r = work_control (work r)"

text \<open>The definitions of an instance and its \<open>controls\<close> map name the same jobs, by distinct ids.\<close>

definition jobs_wf :: "jobs \<Rightarrow> bool" where
  "jobs_wf J \<longleftrightarrow> distinct (map fst (controls J)) \<and> distinct (map fst (job_defs J))
     \<and> set (job_defs J) = set (controls J)"

definition control_inv :: "world \<Rightarrow> bool" where
  "control_inv w \<longleftrightarrow> (\<forall>j. jobs_wf (instances w j))
     \<and> (\<forall>j k a. (k, a) \<in> set (controls (instances w j)) \<longrightarrow>
          a < next_control w \<and> ctl_id (control_heap w a) = k \<and> \<not> stopped (control_heap w a))
     \<and> (\<forall>j j' k k' a. (k, a) \<in> set (controls (instances w j)) \<longrightarrow> (k', a) \<in> set (controls (instances w j')) \<longrightarrow> j = j')
     \<and> (\<forall>a<next_control w. stopped (control_heap w a) = ctl_closed (control_heap w a)
          \<and> stopped (control_heap w a) = once (control_heap w a))"

definition chan_inv :: "world \<Rightarrow> bool" where
  "chan_inv w \<longleftrightarrow> (\<forall>j ch. stopCh (instances w j) = Some ch \<longrightarrow> ch < next_chan w)
     \<and> (\<forall>ch\<in>set (closed_chans w). ch < next_chan w)
     \<and> (\<forall>j. started (instances w j) \<longrightarrow> (\<exists>ch. stopCh (instances w j) = Some ch \<and> ch \<notin> set (closed_chans w)))
     \<and> (\<forall>j j' ch. stopCh (instances w j) = Some ch \<longrightarrow> stopCh (instances w j') = Some ch \<longrightarrow> j = j')"

text \<open>
  \<open>s\<close> is the instance a \<open>stop\<close> is waiting for, if any: its goroutines may outlive \<open>started\<close>, but their stop
  channel is closed.
\<close>

definition routine_inv :: "nat option \<Rightarrow> world \<Rightarrow> bool" where
  "routine_inv s w \<longleftrightarrow> distinct (map routine_control (routines w))
     \<and> (\<forall>r\<in>set (routines w). stopCh (instances w (owner r)) = Some (gchan r)
          \<and> (if s = Some (owner r) then gchan r \<in> set (closed_chans w) else started (instances w (owner r))))
     \<and> (\<forall>r\<in>set (routines w). routine_control r < next_control w
          \<and> ((\<exists>k. (k, routine_control r) \<in> set (controls (instances w (owner r))))
             \<or> stopped (control_heap w (routine_control r))))"

definition registry_inv :: "world \<Rightarrow> bool" where
  "registry_inv w \<longleftrightarrow> distinct (registry w) \<and> set (registry w) \<subseteq> {..<next_instance w} \<and> 0 < next_instance w
     \<and> (\<forall>j\<ge>next_instance w. instances w j = empty_jobs)"

definition jobs_inv_at :: "nat option \<Rightarrow> world \<Rightarrow> bool" where
  "jobs_inv_at s w \<longleftrightarrow> control_inv w \<and> chan_inv w \<and> routine_inv s w \<and> registry_inv w"

abbreviation jobs_inv :: "world \<Rightarrow> bool" where "jobs_inv \<equiv> jobs_inv_at None"

lemmas inv_defs = jobs_inv_at_def control_inv_def chan_inv_def routine_inv_def registry_inv_def

lemma jobs_init_inv: "jobs_inv (jobs_init test)"
  by (simp add: inv_defs jobs_init_def newJobs_def register_def opdefs jobs_wf_def job_defs_def
      empty_jobs_def Let_def)

lemma control_inv_cong:
  "instances w' = instances w \<Longrightarrow> control_heap w' = control_heap w \<Longrightarrow> next_control w' = next_control w
     \<Longrightarrow> control_inv w' = control_inv w"
  by (simp only: control_inv_def)

lemma control_inv_same:
  assumes "\<And>j. controls (instances w' j) = controls (instances w j)"
    "\<And>j. job_defs (instances w' j) = job_defs (instances w j)"
    "control_heap w' = control_heap w" "next_control w' = next_control w"
  shows "control_inv w' = control_inv w"
  by (simp only: control_inv_def jobs_wf_def assms)

lemma routine_live:
  assumes "routine_inv s w" "r \<in> set (routines w)" "\<not> stopped (control_heap w (routine_control r))"
  obtains k where "(k, routine_control r) \<in> set (controls (instances w (owner r)))"
  using assms unfolding routine_inv_def by blast

lemma chan_inv_cong:
  "instances w' = instances w \<Longrightarrow> closed_chans w' = closed_chans w \<Longrightarrow> next_chan w' = next_chan w
     \<Longrightarrow> chan_inv w' = chan_inv w"
  by (simp only: chan_inv_def)

lemma registry_inv_cong:
  "instances w' = instances w \<Longrightarrow> registry w' = registry w \<Longrightarrow> next_instance w' = next_instance w
     \<Longrightarrow> registry_inv w' = registry_inv w"
  by (simp only: registry_inv_def)

lemmas inv_cong = control_inv_cong chan_inv_cong registry_inv_cong

paragraph \<open>Events of goroutines.\<close>

text \<open>A world that differs only in its goroutines and its history, with no goroutine added.\<close>

definition same_store :: "world \<Rightarrow> world \<Rightarrow> bool" where
  "same_store w w' \<longleftrightarrow> instances w' = instances w \<and> next_instance w' = next_instance w
     \<and> registry w' = registry w \<and> control_heap w' = control_heap w \<and> next_control w' = next_control w
     \<and> closed_chans w' = closed_chans w \<and> next_chan w' = next_chan w \<and> modeTest w' = modeTest w
     \<and> jobIDCounter w' = jobIDCounter w \<and> checkJobsStop w' = checkJobsStop w"

definition fewer_routines :: "world \<Rightarrow> world \<Rightarrow> bool" where
  "fewer_routines w w' \<longleftrightarrow>
     (distinct (map routine_control (routines w)) \<longrightarrow> distinct (map routine_control (routines w')))
     \<and> (\<forall>r\<in>set (routines w'). \<exists>r0\<in>set (routines w). owner r = owner r0 \<and> work r = work r0 \<and> gchan r = gchan r0)"

lemma routine_inv_fewer:
  assumes "same_store w w'" "fewer_routines w w'" "routine_inv s w"
  shows "routine_inv s w'"
  unfolding routine_inv_def
proof (intro conjI ballI)
  show "distinct (map routine_control (routines w'))"
    using assms(2,3) by (simp add: fewer_routines_def routine_inv_def)
next
  fix r assume "r \<in> set (routines w')"
  then obtain r0 where "r0 \<in> set (routines w)" "owner r = owner r0" "work r = work r0" "gchan r = gchan r0"
    using assms(2) by (auto simp: fewer_routines_def)
  with assms(1,3) show "stopCh (instances w' (owner r)) = Some (gchan r)"
    "if s = Some (owner r) then gchan r \<in> set (closed_chans w') else started (instances w' (owner r))"
    "routine_control r < next_control w'"
    "(\<exists>k. (k, routine_control r) \<in> set (controls (instances w' (owner r))))
      \<or> stopped (control_heap w' (routine_control r))"
    by (simp_all add: routine_inv_def same_store_def routine_control_def)
qed

lemma jobs_inv_fewer:
  assumes "same_store w w'" "fewer_routines w w'" "jobs_inv_at s w"
  shows "jobs_inv_at s w'"
proof -
  have "control_inv w'" "chan_inv w'" "registry_inv w'"
    using assms(1,3) inv_cong[of w' w] by (auto simp: same_store_def jobs_inv_at_def)
  then show ?thesis
    using routine_inv_fewer[OF assms(1,2)] assms(3) by (simp add: jobs_inv_at_def)
qed

lemma distinct_leave:
  assumes "distinct (map f xs)"
  shows "distinct (map f (take i xs @ drop (Suc i) xs))"
proof -
  have "set (map f (take i xs)) \<inter> set (map f (drop (Suc i) xs)) \<subseteq> set (map f (take i xs)) \<inter> set (map f (drop i xs))"
    using set_drop_subset_set_drop[of i "Suc i" xs] by auto
  also have "\<dots> = {}"
    using assms by (metis append_take_drop_id distinct_append map_append)
  finally have "set (map f (take i xs)) \<inter> set (map f (drop (Suc i) xs)) = {}" by simp
  moreover have "distinct (map f (take i xs))" "distinct (map f (drop (Suc i) xs))"
    using assms by (metis distinct_take take_map, metis distinct_drop drop_map)
  ultimately show ?thesis by simp
qed

lemma run_if_allowed_fields [simp]:
  "instances (run_if_allowed k w) = instances w" "routines (run_if_allowed k w) = routines w"
  "control_heap (run_if_allowed k w) = control_heap w" "same_store w (run_if_allowed k w)"
  by (simp_all add: run_if_allowed_def same_store_def)

lemma go_to_fewer:
  "i < length (routines w) \<Longrightarrow> same_store w (go_to i p w) \<and> fewer_routines w (go_to i p w)"
proof -
  have "map routine_control ((routines w)[i := (routines w ! i)\<lparr>phase_of := p\<rparr>])
      = map routine_control ((routines w)[i := routines w ! i])"
    by (simp only: map_update) (simp add: routine_control_def)
  moreover assume "i < length (routines w)"
  ultimately show ?thesis
    by (auto simp: go_to_def same_store_def fewer_routines_def dest!: set_update_subset_insert[THEN subsetD])
qed

lemma leave_fewer: "same_store w (leave i w) \<and> fewer_routines w (leave i w)"
  using distinct_leave[of routine_control "routines w" i]
  by (auto simp: leave_def same_store_def fewer_routines_def dest: in_set_takeD in_set_dropD)

lemma fewer_refl: "same_store w w \<and> fewer_routines w w"
  by (auto simp: same_store_def fewer_routines_def)

lemma fewer_run:
  "same_store (run_if_allowed k w) w' \<and> fewer_routines (run_if_allowed k w) w'
     \<Longrightarrow> same_store w w' \<and> fewer_routines w w'"
  by (simp add: same_store_def fewer_routines_def run_if_allowed_def split: if_splits)

lemma run_fewer: "same_store w (run_if_allowed k w) \<and> fewer_routines w (run_if_allowed k w)"
  by (rule fewer_run[OF fewer_refl])

lemma run_go_to_fewer:
  "i < length (routines w) \<Longrightarrow> same_store w (go_to i p (run_if_allowed k w))
     \<and> fewer_routines w (go_to i p (run_if_allowed k w))"
  by (rule fewer_run, rule go_to_fewer) simp

lemma happen_fewer:
  assumes "happen mk e w = Some w'"
  shows "same_store w w' \<and> fewer_routines w w'"
proof -
  have i: "event_routine e < length (routines w)"
    and r: "routine_event mk e (routines w ! event_routine e) w = Some w'"
    using assms by (auto simp: happen_def split: if_splits)
  from r i show ?thesis
    by (cases e) (auto simp: leave_fewer go_to_fewer run_fewer run_go_to_fewer split: if_splits option.splits)
qed

lemma happen_inv: "happen mk e w = Some w' \<Longrightarrow> jobs_inv_at s w \<Longrightarrow> jobs_inv_at s w'"
  using happen_fewer jobs_inv_fewer by blast

lemma happen_all_inv: "happen_all mk es w = Some w' \<Longrightarrow> jobs_inv_at s w \<Longrightarrow> jobs_inv_at s w'"
  by (induction es arbitrary: w) (auto intro: happen_inv split: option.splits)

paragraph \<open>Registration.\<close>

definition adds_job :: "nat \<Rightarrow> string \<Rightarrow> world \<Rightarrow> world \<Rightarrow> bool" where
  \<comment> \<open>\<open>w'\<close> is \<open>w\<close> with one more job \<open>jid\<close> in instance \<open>j\<close>, running when the instance is started\<close>
  "adds_job j jid w w' \<longleftrightarrow> (let J = instances w j; J' = instances w' j; a = next_control w in
     jid \<notin> fst ` set (controls J)
     \<and> instances w' = (instances w)(j := J') \<and> started J' = started J \<and> stopCh J' = stopCh J
     \<and> controls J' = controls J @ [(jid, a)] \<and> mset (job_defs J') = add_mset (jid, a) (mset (job_defs J))
     \<and> control_heap w' = (control_heap w)(a :=
          \<lparr>ctl_id = jid, ctl_closed = False, paused = False, stopped = False, once = False\<rparr>)
     \<and> next_control w' = a + 1 \<and> closed_chans w' = closed_chans w \<and> next_chan w' = next_chan w
     \<and> registry w' = registry w \<and> next_instance w' = next_instance w \<and> runs w' = runs w
     \<and> (if started J then \<exists>r. routines w' = routines w @ [r] \<and> owner r = j \<and> routine_control r = a
          \<and> stopCh J = Some (gchan r) else routines w' = routines w))"

lemma adds_job_wf:
  assumes "adds_job j jid w w'" "jobs_wf (instances w j)"
  shows "jobs_wf (instances w' j)"
proof -
  let ?J = "instances w j" and ?J' = "instances w' j"
  have m: "mset (job_defs ?J') = add_mset (jid, next_control w) (mset (job_defs ?J))"
    and c: "controls ?J' = controls ?J @ [(jid, next_control w)]" and n: "jid \<notin> fst ` set (controls ?J)"
    using assms(1) by (auto simp: adds_job_def Let_def)
  have s: "set (job_defs ?J') = insert (jid, next_control w) (set (job_defs ?J))"
    using m by (metis set_mset_add_mset_insert set_mset_mset)
  have "mset (map fst (job_defs ?J')) = mset (jid # map fst (job_defs ?J))"
    using m by simp
  then have "distinct (map fst (job_defs ?J'))"
    using assms(2) n by (metis distinct.simps(2) jobs_wf_def list.set_map mset_eq_imp_distinct_iff)
  then show ?thesis using s c n assms(2) by (auto simp: jobs_wf_def)
qed

lemma adds_job_inv:
  assumes a: "adds_job j jid w w'" and "j < next_instance w" and inv: "jobs_inv w"
  shows "jobs_inv w'"
proof -
  have I: "instances w' = (instances w)(j := instances w' j)" and
    J: "started (instances w' j) = started (instances w j)" "stopCh (instances w' j) = stopCh (instances w j)"
      "controls (instances w' j) = controls (instances w j) @ [(jid, next_control w)]" and
    F: "control_heap w' = (control_heap w)(next_control w :=
          \<lparr>ctl_id = jid, ctl_closed = False, paused = False, stopped = False, once = False\<rparr>)"
      "next_control w' = next_control w + 1" "closed_chans w' = closed_chans w" "next_chan w' = next_chan w"
      "registry w' = registry w" "next_instance w' = next_instance w" and
    R: "if started (instances w j) then \<exists>r. routines w' = routines w @ [r] \<and> owner r = j
          \<and> routine_control r = next_control w \<and> stopCh (instances w j) = Some (gchan r)
        else routines w' = routines w"
    using a by (auto simp: adds_job_def Let_def)
  have ci: "control_inv w" and hi: "chan_inv w" and ri: "routine_inv None w" and gi: "registry_inv w"
    using inv by (simp_all add: jobs_inv_at_def)
  have Ii: "i \<noteq> j \<Longrightarrow> instances w' i = instances w i" for i using I by (metis fun_upd_other)
  have c: "controls (instances w' i) = controls (instances w i) @ (if i = j then [(jid, next_control w)] else [])"
    and st: "started (instances w' i) = started (instances w i)"
    and sc: "stopCh (instances w' i) = stopCh (instances w i)" for i
    by (cases "i = j"; simp add: J Ii)+
  have wf: "jobs_wf (instances w' i)" for i
    using adds_job_wf[OF a] ci by (cases "i = j") (simp_all add: control_inv_def Ii)
  have fresh: "(k, next_control w) \<notin> set (controls (instances w i))" for i k
    using ci by (auto simp: control_inv_def)
  have "control_inv w'"
    using ci wf fresh unfolding control_inv_def c F
    by (auto simp: less_Suc_eq split: if_splits)
  moreover have "chan_inv w'" using hi by (simp add: chan_inv_def st sc F)
  moreover have "registry_inv w'" using gi assms(2) by (auto simp: registry_inv_def F Ii)
  moreover have "routine_inv None w'"
  proof -
    have old: "stopCh (instances w' (owner r)) = Some (gchan r) \<and> started (instances w' (owner r))
        \<and> routine_control r < next_control w
        \<and> ((\<exists>k. (k, routine_control r) \<in> set (controls (instances w' (owner r))))
           \<or> stopped (control_heap w' (routine_control r)))" if "r \<in> set (routines w)" for r
      using ri that by (auto simp: routine_inv_def st sc c F)
    have d: "distinct (map routine_control (routines w))" using ri by (simp add: routine_inv_def)
    show ?thesis
    proof (cases "started (instances w j)")
      case True
      then obtain r where "routines w' = routines w @ [r]" "owner r = j" "routine_control r = next_control w"
        "stopCh (instances w j) = Some (gchan r)" using R by auto
      then show ?thesis using old d True by (fastforce simp: routine_inv_def st sc c F)
    next
      case False
      then show ?thesis using old d R by (fastforce simp: routine_inv_def F)
    qed
  qed
  ultimately show ?thesis by (simp add: jobs_inv_at_def)
qed

lemma registerIntervalJob_cases:
  assumes "registerIntervalJob j jid fn iv t w = (e, w')" "jobs_inv w"
  shows "e = Some ErrDuplicateJobID \<and> w' = w \<and> jid \<in> fst ` set (controls (instances w j))
    \<or> e = None \<and> adds_job j jid w w'"
proof (cases "map_of (controls (instances w j)) jid")
  case None
  then have n: "jid \<notin> fst ` set (controls (instances w j))" by (simp add: map_of_eq_None_iff)
  have "started (instances w j) \<Longrightarrow> \<exists>ch. stopCh (instances w j) = Some ch"
    using assms(2) by (auto simp: inv_defs)
  then show ?thesis
    using assms(1) None n
    by (cases "started (instances w j)")
      (auto simp: registerIntervalJob_def addControlLocked_def opdefs Let_def adds_job_def job_defs_def
        startIntervalJob_def routine_control_def work_control_def)
next
  case (Some b)
  then show ?thesis using assms(1) map_of_SomeD[OF Some]
    by (force simp: registerIntervalJob_def addControlLocked_def)
qed

lemma registerCronJob_cases:
  assumes "registerCronJob j jid fn trg iv w = (e, w')" "jobs_inv w"
  shows "e = Some ErrDuplicateJobID \<and> w' = w \<and> jid \<in> fst ` set (controls (instances w j))
    \<or> e = None \<and> adds_job j jid w w'"
proof (cases "map_of (controls (instances w j)) jid")
  case None
  then have n: "jid \<notin> fst ` set (controls (instances w j))" by (simp add: map_of_eq_None_iff)
  have "started (instances w j) \<Longrightarrow> \<exists>ch. stopCh (instances w j) = Some ch"
    using assms(2) by (auto simp: inv_defs)
  then show ?thesis
    using assms(1) None n
    by (cases "started (instances w j)")
      (auto simp: registerCronJob_def addControlLocked_def opdefs Let_def adds_job_def job_defs_def
        startCronJob_def routine_control_def work_control_def)
next
  case (Some b)
  then show ?thesis using assms(1) map_of_SomeD[OF Some]
    by (force simp: registerCronJob_def addControlLocked_def)
qed

lemma registration_inv:
  assumes "jobs_inv w" "j < next_instance w"
  shows "jobs_inv (snd (registerIntervalJob j jid fn iv t w))"
    and "jobs_inv (snd (registerCronJob j jid fn trg iv w))"
  using assms registerIntervalJob_cases[OF prod.collapse[symmetric] assms(1)]
    registerCronJob_cases[OF prod.collapse[symmetric] assms(1)] adds_job_inv[OF _ assms(2,1)]
  by metis+

lemma counter_inv: "jobs_inv_at s (w\<lparr>jobIDCounter := n\<rparr>) = jobs_inv_at s w"
  by (simp add: inv_defs)

lemma job_inv:
  assumes "jobs_inv w" "j < next_instance w"
  shows "jobs_inv (snd (job j fn iv t w))" "jobs_inv (snd (jobWithID j jid fn iv t w))"
    "jobs_inv (snd (jobs_cronJob mk now j fn trg iv w))" "jobs_inv (snd (cronJobWithID mk now j jid fn trg iv w))"
proof -
  have i: "jobs_inv (snd (registerIntervalJob j x fn iv t (w\<lparr>jobIDCounter := n\<rparr>)))"
    "jobs_inv (snd (registerCronJob j x fn trg iv (w\<lparr>jobIDCounter := n\<rparr>)))" for x n
    using assms by (auto intro!: registration_inv simp: counter_inv)
  show "jobs_inv (snd (job j fn iv t w))"
    using assms(1) i(1)[of "''job-'' @ decimal (unat (jobIDCounter w + 1))" "jobIDCounter w + 1"]
    by (auto simp: job_def nextJobID_def Let_def split: option.splits prod.splits)
  show "jobs_inv (snd (jobs_cronJob mk now j fn trg iv w))"
    using assms(1) i(2)[of "''job-'' @ decimal (unat (jobIDCounter w + 1))" "jobIDCounter w + 1"]
    by (auto simp: jobs_cronJob_def nextJobID_def Let_def split: option.splits prod.splits)
qed (use assms in \<open>auto simp: jobWithID_def cronJobWithID_def split: option.splits intro: registration_inv\<close>)

paragraph \<open>Starting.\<close>

definition launched :: "nat \<Rightarrow> nat \<Rightarrow> jobs \<Rightarrow> routine list" where
  "launched j ch J =
     map (\<lambda>ij. \<lparr>owner = j, work = IntervalWork ij, gchan = ch, phase_of = First\<rparr>) (intervalJobs J)
   @ map (\<lambda>cj. \<lparr>owner = j, work = CronWork cj, gchan = ch, phase_of = Arm\<rparr>) (cronJobs J)"

lemma launched_controls: "map routine_control (launched j ch J) = map snd (job_defs J)"
  by (simp add: launched_def job_defs_def routine_control_def work_control_def comp_def)

lemma launched_owner: "r \<in> set (launched j ch J) \<Longrightarrow> owner r = j \<and> gchan r = ch"
  by (auto simp: launched_def)

lemma fold_startIntervalJob:
  "fold (\<lambda>ij. startIntervalJob j ij ch) js w = w\<lparr>routines := routines w
     @ map (\<lambda>ij. \<lparr>owner = j, work = IntervalWork ij, gchan = ch, phase_of = First\<rparr>) js\<rparr>"
  by (induction js arbitrary: w) (simp_all add: startIntervalJob_def)

lemma fold_startCronJob:
  "fold (\<lambda>cj. startCronJob j cj ch) js w = w\<lparr>routines := routines w
     @ map (\<lambda>cj. \<lparr>owner = j, work = CronWork cj, gchan = ch, phase_of = Arm\<rparr>) js\<rparr>"
  by (induction js arbitrary: w) (simp_all add: startCronJob_def)

lemma startJobs_finish_eq:
  "startJobs_finish j ch w = w\<lparr>routines := routines w @ launched j ch (instances w j), checkJobsStop := True\<rparr>"
  by (simp add: startJobs_finish_def fold_startIntervalJob fold_startCronJob launched_def)

lemma startJobs_eq:
  "startJobs j w = (if modeTest w \<or> started (instances w j) then w
     else w\<lparr>instances := (instances w)(j := (instances w j)\<lparr>started := True, stopCh := Some (next_chan w)\<rparr>),
            next_chan := next_chan w + 1,
            routines := routines w @ launched j (next_chan w) (instances w j), checkJobsStop := True\<rparr>)"
  by (simp add: startJobs_def startJobs_begin_def startJobs_finish_eq opdefs Let_def launched_def)

lemma job_defs_upd [simp]:
  "job_defs (J\<lparr>started := b\<rparr>) = job_defs J" "job_defs (J\<lparr>stopCh := c\<rparr>) = job_defs J"
  "job_defs (J\<lparr>controls := k\<rparr>) = job_defs J"
  by (simp_all add: job_defs_def)

lemma jobs_wf_upd [simp]:
  "jobs_wf (J\<lparr>started := b\<rparr>) = jobs_wf J" "jobs_wf (J\<lparr>stopCh := c\<rparr>) = jobs_wf J"
  by (simp_all add: jobs_wf_def)

lemma distinct_addresses:
  assumes "control_inv w"
  shows "distinct (map snd (job_defs (instances w j)))"
proof -
  have wf: "jobs_wf (instances w j)" and
    k: "\<And>k a. (k, a) \<in> set (controls (instances w j)) \<Longrightarrow> ctl_id (control_heap w a) = k"
    using assms by (auto simp: control_inv_def)
  show ?thesis
    using wf by (auto simp: jobs_wf_def distinct_map inj_on_def) (metis k)
qed

lemma control_defs: "control_inv w \<Longrightarrow> set (job_defs (instances w j)) = set (controls (instances w j))"
  by (simp add: control_inv_def jobs_wf_def)

lemma control_unique:
  "control_inv w \<Longrightarrow> (k, a) \<in> set (controls (instances w j)) \<Longrightarrow> (k', a) \<in> set (controls (instances w j'))
     \<Longrightarrow> j = j'"
  by (simp only: control_inv_def)

lemma control_live:
  "control_inv w \<Longrightarrow> (k, a) \<in> set (controls (instances w j))
     \<Longrightarrow> a < next_control w \<and> ctl_id (control_heap w a) = k \<and> \<not> stopped (control_heap w a)"
  by (simp add: control_inv_def)

lemma startJobs_inv:
  assumes inv: "jobs_inv w" and "j < next_instance w"
  shows "jobs_inv (startJobs j w)"
proof (cases "modeTest w \<or> started (instances w j)")
  case True then show ?thesis using inv by (simp add: startJobs_eq)
next
  case False
  then have w': "startJobs j w =
      w\<lparr>instances := (instances w)(j := (instances w j)\<lparr>started := True, stopCh := Some (next_chan w)\<rparr>),
        next_chan := next_chan w + 1,
        routines := routines w @ launched j (next_chan w) (instances w j), checkJobsStop := True\<rparr>"
    by (simp add: startJobs_eq)
  have ci: "control_inv w" and hi: "chan_inv w" and ri: "routine_inv None w" and gi: "registry_inv w"
    using inv by (simp_all add: jobs_inv_at_def)
  have own: "owner r \<noteq> j" if "r \<in> set (routines w)" for r
    using ri False that by (auto simp: routine_inv_def)
  have ctl: "(\<exists>k. (k, a) \<in> set (controls (instances w j))) \<longleftrightarrow> a \<in> snd ` set (job_defs (instances w j))" for a
    using control_defs[OF ci, of j] by force
  have dis: "routine_control r \<notin> snd ` set (job_defs (instances w j))" if rin: "r \<in> set (routines w)" for r
  proof
    assume "routine_control r \<in> snd ` set (job_defs (instances w j))"
    then obtain k where k: "(k, routine_control r) \<in> set (controls (instances w j))" using ctl by blast
    then have "\<not> stopped (control_heap w (routine_control r))" using control_live[OF ci] by blast
    then obtain k' where "(k', routine_control r) \<in> set (controls (instances w (owner r)))"
      using routine_live[OF ri rin] by blast
    then show False using control_unique[OF ci k] own[OF rin] by blast
  qed
  have "control_inv (startJobs j w)" using ci control_inv_same[of "startJobs j w" w] by (simp add: w')
  moreover have "chan_inv (startJobs j w)" using hi by (force simp: chan_inv_def w' less_Suc_eq)
  moreover have "registry_inv (startJobs j w)" using gi assms(2) by (simp add: registry_inv_def w')
  moreover have "routine_inv None (startJobs j w)"
  proof -
    have new: "routine_control r \<in> snd ` set (job_defs (instances w j))"
      if "r \<in> set (launched j (next_chan w) (instances w j))" for r
      using that launched_controls[of j "next_chan w" "instances w j"] by (metis image_eqI list.set_map)
    have "distinct (map routine_control (routines (startJobs j w)))"
      using ri dis distinct_addresses[OF ci, of j] launched_controls[of j "next_chan w" "instances w j"]
      by (auto simp: w' routine_inv_def)
    moreover have "a < next_control w" if "a \<in> snd ` set (job_defs (instances w j))" for a
      using that control_live[OF ci] unfolding ctl[symmetric] by blast
    ultimately show ?thesis
      using ri own new by (auto simp: routine_inv_def w' ctl dest: launched_owner)
  qed
  ultimately show ?thesis by (simp add: jobs_inv_at_def)
qed

paragraph \<open>Stopping.\<close>

lemma wg_Wait_inv:
  assumes "wg_Wait mk es j w = Returns w'" "jobs_inv_at (Some j) w"
  shows "jobs_inv w'" "\<forall>r\<in>set (routines w'). owner r \<noteq> j"
proof -
  have "jobs_inv_at (Some j) w'" and n: "\<forall>r\<in>set (routines w'). owner r \<noteq> j"
    using assms by (auto simp: wg_Wait_def list_ex_iff intro: happen_all_inv split: option.splits if_splits)
  then show "jobs_inv w'" by (auto simp: jobs_inv_at_def routine_inv_def)
  show "\<forall>r\<in>set (routines w'). owner r \<noteq> j" by (rule n)
qed

definition stopping :: "nat \<Rightarrow> nat \<Rightarrow> world \<Rightarrow> world" where
  \<comment> \<open>the state in which \<open>stop\<close> waits\<close>
  "stopping j ch w = w\<lparr>instances := (instances w)(j := (instances w j)\<lparr>started := False\<rparr>),
     closed_chans := ch # closed_chans w\<rparr>"

lemma stopping_inv:
  assumes "jobs_inv w" "started (instances w j)" "stopCh (instances w j) = Some ch"
  shows "jobs_inv_at (Some j) (stopping j ch w)"
proof -
  have ci: "control_inv w" and hi: "chan_inv w" and ri: "routine_inv None w" and gi: "registry_inv w"
    using assms(1) by (simp_all add: jobs_inv_at_def)
  have lt: "j < next_instance w"
    using gi assms(2) by (auto simp: registry_inv_def empty_jobs_def not_less intro: ccontr)
  have "control_inv (stopping j ch w)"
    using ci control_inv_same[of "stopping j ch w" w] by (simp add: stopping_def)
  moreover have "chan_inv (stopping j ch w)"
    using hi assms(3) by (force simp: chan_inv_def stopping_def)
  moreover have "registry_inv (stopping j ch w)" using gi lt by (simp add: registry_inv_def stopping_def)
  moreover have "routine_inv (Some j) (stopping j ch w)"
    using ri assms(3) by (auto simp: routine_inv_def stopping_def)
  ultimately show ?thesis by (simp add: jobs_inv_at_def)
qed

lemma jobs_stop_eq:
  "jobs_inv w \<Longrightarrow> started (instances w j) \<Longrightarrow> stopCh (instances w j) = Some ch
     \<Longrightarrow> jobs_stop mk es j w = wg_Wait mk es j (stopping j ch w)"
  by (auto simp: jobs_stop_def opdefs stopping_def inv_defs)

lemma jobs_stop_cases:
  assumes "jobs_inv w"
  obtains "\<not> started (instances w j)" "jobs_stop mk es j w = Returns w"
  | ch where "started (instances w j)" "stopCh (instances w j) = Some ch"
      "jobs_stop mk es j w = wg_Wait mk es j (stopping j ch w)" "jobs_inv_at (Some j) (stopping j ch w)"
proof (cases "started (instances w j)")
  case False then show ?thesis using that(1) by (simp add: jobs_stop_def)
next
  case True
  then obtain ch where "stopCh (instances w j) = Some ch" using assms by (auto simp: inv_defs)
  then show ?thesis using that(2) True jobs_stop_eq[OF assms True] stopping_inv[OF assms True] by blast
qed

lemma jobs_stop_inv:
  assumes "jobs_stop mk es j w = Returns w'" "jobs_inv w"
  shows "jobs_inv w' \<and> (\<forall>r\<in>set (routines w'). owner r \<noteq> j)"
  using assms(2)
proof (cases rule: jobs_stop_cases[of w j mk es])
  case 1 then show ?thesis using assms by (auto simp: inv_defs)
next
  case (2 ch) then show ?thesis using assms(1) wg_Wait_inv[of mk es j "stopping j ch w" w'] by simp
qed

lemma jobs_stop_no_panic: "jobs_inv w \<Longrightarrow> jobs_stop mk es j w \<noteq> Panics"
  by (cases rule: jobs_stop_cases[of w j mk es]) (auto simp: wg_Wait_def split: option.splits)

lemma control_stop_idem [simp]: "control_stop (control_stop c) = control_stop c"
  by (simp add: control_stop_def)

lemma control_stop_fields [simp]:
  "stopped (control_stop c)" "ctl_id (control_stop c) = ctl_id c" "paused (control_stop c) = paused c"
  "once (control_stop c)" "ctl_closed (control_stop c) = (\<not> once c \<or> ctl_closed c)"
  by (simp_all add: control_stop_def)

lemma stop_controls_heap:
  "control_heap (fold (\<lambda>(k, a). set_control a control_stop) cs w) b =
     (if b \<in> snd ` set cs then control_stop (control_heap w b) else control_heap w b)"
  by (induction cs arbitrary: w) (auto simp: opdefs)

lemma fold_set_control_other:
  "f (fold (\<lambda>(k, a). set_control a control_stop) cs w) = f w"
  if "\<And>a w. f (set_control a control_stop w) = f w" for f :: "world \<Rightarrow> 'b"
  by (induction cs arbitrary: w) (auto simp: that)

lemmas fold_set_control_fields [simp] =
  fold_set_control_other[of instances] fold_set_control_other[of registry]
  fold_set_control_other[of next_instance] fold_set_control_other[of next_control]
  fold_set_control_other[of closed_chans] fold_set_control_other[of next_chan]
  fold_set_control_other[of routines] fold_set_control_other[of runs]

lemma set_control_fields [simp]:
  "instances (set_control a f w) = instances w" "registry (set_control a f w) = registry w"
  "next_instance (set_control a f w) = next_instance w" "next_control (set_control a f w) = next_control w"
  "closed_chans (set_control a f w) = closed_chans w" "next_chan (set_control a f w) = next_chan w"
  "routines (set_control a f w) = routines w" "runs (set_control a f w) = runs w"
  by (simp_all add: set_control_def)

text \<open>Removing jobs from one instance and stopping their controls, as \<open>stopAndClear\<close> and \<open>stopJob\<close> do.\<close>

definition drops_jobs :: "nat \<Rightarrow> (string \<Rightarrow> bool) \<Rightarrow> world \<Rightarrow> world \<Rightarrow> bool" where
  "drops_jobs j P w w' \<longleftrightarrow>
     (\<forall>i. i \<noteq> j \<longrightarrow> instances w' i = instances w i)
     \<and> started (instances w' j) = started (instances w j) \<and> stopCh (instances w' j) = stopCh (instances w j)
     \<and> controls (instances w' j) = filter (\<lambda>(k, a). \<not> P k) (controls (instances w j))
     \<and> job_defs (instances w' j) = filter (\<lambda>(k, a). \<not> P k) (job_defs (instances w j))
     \<and> (\<forall>a. control_heap w' a = (if \<exists>k. (k, a) \<in> set (controls (instances w j)) \<and> P k
           then control_stop (control_heap w a) else control_heap w a))
     \<and> next_control w' = next_control w \<and> closed_chans w' = closed_chans w \<and> next_chan w' = next_chan w
     \<and> registry w' = registry w \<and> next_instance w' = next_instance w \<and> runs w' = runs w
     \<and> routines w' = routines w"

lemma drops_jobs_control_inv:
  assumes d: "drops_jobs j P w w'" and ci: "control_inv w"
  shows "control_inv w'"
proof -
  have c: "set (controls (instances w' i)) \<subseteq> set (controls (instances w i))" for i
    using d by (cases "i = j") (auto simp: drops_jobs_def)
  have live: "control_heap w' a = control_heap w a" if "(k, a) \<in> set (controls (instances w' i))" for i k a
  proof -
    have "\<not> (\<exists>k'. (k', a) \<in> set (controls (instances w j)) \<and> P k')"
    proof
      assume "\<exists>k'. (k', a) \<in> set (controls (instances w j)) \<and> P k'"
      then obtain k' where k': "(k', a) \<in> set (controls (instances w j))" "P k'" by blast
      have "(k, a) \<in> set (controls (instances w i))" using c that by blast
      then have "i = j" "k = k'" using control_unique[OF ci _ k'(1)] control_live[OF ci] k'(1) by blast+
      then show False using that k'(2) d by (auto simp: drops_jobs_def)
    qed
    then show ?thesis using d by (auto simp: drops_jobs_def)
  qed
  have "jobs_wf (instances w' i)" for i
    using d ci by (cases "i = j") (auto simp: drops_jobs_def control_inv_def jobs_wf_def distinct_map_filter)
  moreover have "a < next_control w' \<and> ctl_id (control_heap w' a) = k \<and> \<not> stopped (control_heap w' a)"
    if "(k, a) \<in> set (controls (instances w' i))" for i k a
    using control_live[OF ci, of k a i] c that live[OF that] d by (auto simp: drops_jobs_def)
  moreover have "i = i'" if "(k, a) \<in> set (controls (instances w' i))" "(k', a) \<in> set (controls (instances w' i'))"
    for i i' k k' a
    using control_unique[OF ci] c that by blast
  moreover have "stopped (control_heap w' a) = ctl_closed (control_heap w' a)
      \<and> stopped (control_heap w' a) = once (control_heap w' a)" if "a < next_control w'" for a
    using d ci that by (auto simp: drops_jobs_def control_inv_def)
  ultimately show ?thesis unfolding control_inv_def by blast
qed

lemma drops_jobs_inv:
  assumes d: "drops_jobs j P w w'" and inv: "jobs_inv_at s w" and j: "j < next_instance w"
  shows "jobs_inv_at s w'"
proof -
  have ci: "control_inv w" and hi: "chan_inv w" and ri: "routine_inv s w" and gi: "registry_inv w"
    using inv by (simp_all add: jobs_inv_at_def)
  have st: "started (instances w' i) = started (instances w i)" "stopCh (instances w' i) = stopCh (instances w i)" for i
    using d by (cases "i = j"; simp add: drops_jobs_def)+
  have F: "next_control w' = next_control w" "closed_chans w' = closed_chans w" "next_chan w' = next_chan w"
    "registry w' = registry w" "next_instance w' = next_instance w" "routines w' = routines w"
    using d by (simp_all add: drops_jobs_def)
  have "chan_inv w'" using hi by (simp only: chan_inv_def st F)
  moreover have "registry_inv w'" using gi d j by (auto simp: registry_inv_def F drops_jobs_def)
  moreover have keep: "(\<exists>k. (k, a) \<in> set (controls (instances w' i))) \<or> stopped (control_heap w' a)"
    if "(\<exists>k. (k, a) \<in> set (controls (instances w i))) \<or> stopped (control_heap w a)" for i a
    using that d by (cases "i = j") (auto simp: drops_jobs_def)
  then have "routine_inv s w'" using ri unfolding routine_inv_def st F by blast
  ultimately show ?thesis using drops_jobs_control_inv[OF d ci] by (simp add: jobs_inv_at_def)
qed

lemma drops_jobs_fields:
  "drops_jobs j P w w' \<Longrightarrow> next_instance w' = next_instance w \<and> registry w' = registry w
     \<and> next_control w' = next_control w \<and> runs w' = runs w \<and> routines w' = routines w"
  by (simp add: drops_jobs_def)

lemma clear_jobs_drops: "drops_jobs j (\<lambda>_. True) w (clear_jobs j w)"
  by (auto simp: drops_jobs_def clear_jobs_def set_instance_def job_defs_def stop_controls_heap)
    (metis image_eqI snd_conv)+

lemma stopJob_cases:
  assumes "stopJob j jid w = (e, w')" "control_inv w"
  shows "e \<in> {Some ErrEmptyJobID, Some ErrJobNotFound} \<and> w' = w \<or>
    e = None \<and> drops_jobs j (\<lambda>k. k = jid) w w' \<and> jid \<in> fst ` set (controls (instances w j))"
proof (cases "jid \<noteq> [] \<and> map_of (controls (instances w j)) jid \<noteq> None")
  case True
  then obtain a where a: "map_of (controls (instances w j)) jid = Some a" by blast
  then have m: "(jid, a) \<in> set (controls (instances w j))" by (rule map_of_SomeD)
  have "distinct (map fst (controls (instances w j)))"
    using assms(2) by (simp add: control_inv_def jobs_wf_def)
  then have u: "(jid, b) \<in> set (controls (instances w j)) \<longleftrightarrow> b = a" for b
    using a m by (metis map_of_eq_Some_iff option.inject)
  have "job_defs (J\<lparr>controls := cs, intervalJobs := removeIntervalJob (intervalJobs J) jid,
      cronJobs := removeCronJob (cronJobs J) jid\<rparr>) = filter (\<lambda>(k, a). k \<noteq> jid) (job_defs J)" for J cs
    by (simp add: job_defs_def removeIntervalJob_def removeCronJob_def filter_map comp_def)
  then have "drops_jobs j (\<lambda>k. k = jid) w w' \<and> e = None"
    using assms(1) True a u by (auto simp: stopJob_def validateJobID_def drops_jobs_def opdefs)
  then show ?thesis using m by force
next
  case False
  then show ?thesis using assms(1) by (auto simp: stopJob_def validateJobID_def split: if_splits)
qed

lemma set_paused_inv: "jobs_inv_at s w \<Longrightarrow> jobs_inv_at s (set_control a (\<lambda>c. c\<lparr>paused := p\<rparr>) w)"
proof -
  let ?w = "set_control a (\<lambda>c. c\<lparr>paused := p\<rparr>) w"
  assume inv: "jobs_inv_at s w"
  have "ctl_id (control_heap ?w b) = ctl_id (control_heap w b)" "stopped (control_heap ?w b) = stopped (control_heap w b)"
    "ctl_closed (control_heap ?w b) = ctl_closed (control_heap w b)" "once (control_heap ?w b) = once (control_heap w b)" for b
    by (simp_all add: set_control_def)
  then have "control_inv ?w = control_inv w" "chan_inv ?w = chan_inv w" "registry_inv ?w = registry_inv w"
    "routine_inv s ?w = routine_inv s w"
    by (simp_all only: control_inv_def routine_inv_def chan_inv_def registry_inv_def set_control_fields)
  then show ?thesis using inv by (simp add: jobs_inv_at_def)
qed

lemma newJobs_inv: "jobs_inv w \<Longrightarrow> jobs_inv (newJobs w)"
proof -
  assume inv: "jobs_inv w"
  let ?w = "newJobs w"
  have e: "instances w (next_instance w) = empty_jobs" using inv by (simp add: inv_defs)
  then have i: "instances ?w = instances w" and f: "control_heap ?w = control_heap w" "next_control ?w = next_control w"
    "closed_chans ?w = closed_chans w" "next_chan ?w = next_chan w" "routines ?w = routines w"
    by (auto simp: newJobs_def register_def opdefs Let_def)
  have "control_inv ?w = control_inv w" "chan_inv ?w = chan_inv w" "routine_inv None ?w = routine_inv None w"
    by (simp_all only: control_inv_def routine_inv_def chan_inv_def i f)
  moreover have "registry_inv ?w"
    using inv by (auto simp: inv_defs newJobs_def register_def opdefs Let_def)
  ultimately show ?thesis using inv by (simp add: jobs_inv_at_def)
qed

lemma unregister_inv: "jobs_inv w \<Longrightarrow> jobs_inv (unregister j w)"
proof -
  assume inv: "jobs_inv w"
  let ?w = "unregister j w"
  have "control_inv ?w = control_inv w" "chan_inv ?w = chan_inv w" "routine_inv None ?w = routine_inv None w"
    by (simp_all add: control_inv_def routine_inv_def chan_inv_def unregister_def)
  moreover have "registry_inv ?w" using inv by (auto simp: inv_defs unregister_def distinct_removeAll)
  ultimately show ?thesis using inv by (simp add: jobs_inv_at_def)
qed

paragraph \<open>The calls over all registered instances.\<close>

lemma happen_all_same: "happen_all mk es w = Some w' \<Longrightarrow> same_store w w'"
proof (induction es arbitrary: w)
  case Nil then show ?case by (simp add: fewer_refl)
next
  case (Cons e es)
  then obtain w1 where "happen mk e w = Some w1" "happen_all mk es w1 = Some w'" by (auto split: option.splits)
  then show ?case using happen_fewer Cons.IH[of w1] by (auto simp: same_store_def)
qed

text \<open>What stopping an instance without clearing it leaves as it was.\<close>

definition keeps_defs :: "world \<Rightarrow> world \<Rightarrow> bool" where
  "keeps_defs w w' \<longleftrightarrow>
     (\<forall>i. intervalJobs (instances w' i) = intervalJobs (instances w i)
        \<and> cronJobs (instances w' i) = cronJobs (instances w i) \<and> controls (instances w' i) = controls (instances w i))
     \<and> control_heap w' = control_heap w \<and> next_control w' = next_control w \<and> registry w' = registry w
     \<and> next_instance w' = next_instance w \<and> modeTest w' = modeTest w"

lemma jobs_stop_keeps:
  assumes "jobs_stop mk es j w = Returns w'" "jobs_inv w"
  shows "keeps_defs w w' \<and> \<not> started (instances w' j)
    \<and> (\<forall>i. i \<noteq> j \<longrightarrow> instances w' i = instances w i)"
  using assms(2)
proof (cases rule: jobs_stop_cases[of w j mk es])
  case 1 then show ?thesis using assms(1) by (simp add: keeps_defs_def)
next
  case (2 ch)
  then have "same_store (stopping j ch w) w'"
    using assms(1) by (auto simp: wg_Wait_def intro: happen_all_same split: option.splits if_splits)
  then show ?thesis by (simp add: same_store_def keeps_defs_def stopping_def)
qed

lemma stopAndClear_inv:
  assumes "stopAndClear mk es j w = Returns w'" "jobs_inv w" "j < next_instance w"
  shows "jobs_inv w'"
proof -
  obtain w1 where w1: "jobs_stop mk es j w = Returns w1" "w' = clear_jobs j w1"
    using assms(1) by (auto simp: stopAndClear_def split: outcome.splits)
  moreover have "jobs_inv w1" using jobs_stop_inv[OF w1(1) assms(2)] by simp
  moreover have "j < next_instance w1" using jobs_stop_keeps[OF w1(1) assms(2)] assms(3) by (simp add: keeps_defs_def)
  ultimately show ?thesis using drops_jobs_inv[OF clear_jobs_drops] by simp
qed

lemma clear_jobs_fields [simp]:
  "registry (clear_jobs j w) = registry w" "next_instance (clear_jobs j w) = next_instance w"
  "routines (clear_jobs j w) = routines w" "modeTest (clear_jobs j w) = modeTest w"
  "started (instances (clear_jobs j w) i) = started (instances w i)"
  by (simp_all add: clear_jobs_def set_instance_def fold_set_control_other[of modeTest] set_control_def)

lemma stop_one_inv:
  assumes "(if clear then stopAndClear mk es j w else jobs_stop mk es j w) = Returns w'"
    and "jobs_inv w" "j < next_instance w"
  shows "jobs_inv w' \<and> registry w' = registry w \<and> next_instance w' = next_instance w \<and> modeTest w' = modeTest w
    \<and> \<not> started (instances w' j) \<and> (\<forall>i. i \<noteq> j \<longrightarrow> instances w' i = instances w i)"
proof -
  obtain w1 where w1: "jobs_stop mk es j w = Returns w1" "w' = (if clear then clear_jobs j w1 else w1)"
    using assms(1) by (auto simp: stopAndClear_def split: if_splits outcome.splits)
  have k: "keeps_defs w w1 \<and> \<not> started (instances w1 j) \<and> (\<forall>i. i \<noteq> j \<longrightarrow> instances w1 i = instances w i)"
    by (rule jobs_stop_keeps[OF w1(1) assms(2)])
  have "jobs_inv w'"
    using assms stopAndClear_inv jobs_stop_inv by (cases clear) auto
  then show ?thesis
    using k w1(2) clear_jobs_drops[of j w1] by (auto simp: keeps_defs_def drops_jobs_def)
qed

lemma stop_each_inv:
  assumes "stop_each mk es clear order w = Returns w'" "jobs_inv w" "set order \<subseteq> {..<next_instance w}"
  shows "jobs_inv w' \<and> registry w' = registry w \<and> next_instance w' = next_instance w \<and> modeTest w' = modeTest w
    \<and> (\<forall>j\<in>set order. \<not> started (instances w' j)) \<and> (\<forall>j. \<not> started (instances w j) \<longrightarrow> \<not> started (instances w' j))"
  using assms
proof (induction order arbitrary: w)
  case (Cons j js)
  then obtain w1 where w1: "(if clear then stopAndClear mk (es j) j w else jobs_stop mk (es j) j w) = Returns w1"
    and r: "stop_each mk es clear js w1 = Returns w'"
    by (auto split: outcome.splits)
  have i: "jobs_inv w1 \<and> registry w1 = registry w \<and> next_instance w1 = next_instance w \<and> modeTest w1 = modeTest w
      \<and> \<not> started (instances w1 j) \<and> (\<forall>i. i \<noteq> j \<longrightarrow> instances w1 i = instances w i)"
    using stop_one_inv[OF w1] Cons.prems(2,3) by simp
  moreover have "set js \<subseteq> {..<next_instance w1}" using i Cons.prems(3) by simp
  ultimately show ?case using Cons.IH[OF r] by (metis set_ConsD)
qed simp

lemma stop_each_no_panic:
  assumes "jobs_inv w" "set order \<subseteq> {..<next_instance w}"
  shows "stop_each mk es clear order w \<noteq> Panics"
  using assms
proof (induction order arbitrary: w)
  case (Cons j js)
  show ?case
  proof (cases "if clear then stopAndClear mk (es j) j w else jobs_stop mk (es j) j w")
    case (Returns w1)
    then show ?thesis using stop_one_inv[OF Returns] Cons by simp
  next
    case Panics
    then show ?thesis using jobs_stop_no_panic[OF Cons.prems(1)]
      by (auto simp: stopAndClear_def split: if_splits outcome.splits)
  qed simp
qed simp

lemma apply_each_inv:
  assumes "\<And>j w. jobs_inv w \<Longrightarrow> j < next_instance w
      \<Longrightarrow> jobs_inv (snd (f j w)) \<and> next_instance (snd (f j w)) = next_instance w"
    and "jobs_inv w" "set order \<subseteq> {..<next_instance w}"
  shows "jobs_inv (snd (apply_each f order b e w))"
  using assms(2,3)
proof (induction order arbitrary: b e w)
  case (Cons j js)
  then show ?case using assms(1)[of w j] by (auto split: prod.splits option.splits)
qed simp

lemma single_job_inv:
  assumes "jobs_inv w" "j < next_instance w"
  shows "jobs_inv (snd (set_paused p j jid w)) \<and> next_instance (snd (set_paused p j jid w)) = next_instance w"
    and "jobs_inv (snd (stopJob j jid w)) \<and> next_instance (snd (stopJob j jid w)) = next_instance w"
proof -
  show "jobs_inv (snd (set_paused p j jid w)) \<and> next_instance (snd (set_paused p j jid w)) = next_instance w"
    using assms by (auto simp: set_paused_def intro: set_paused_inv split: option.splits)
  have "control_inv w" using assms(1) by (simp add: jobs_inv_at_def)
  from stopJob_cases[OF prod.collapse[symmetric] this, of j jid]
  show "jobs_inv (snd (stopJob j jid w)) \<and> next_instance (snd (stopJob j jid w)) = next_instance w"
    using assms drops_jobs_inv[OF _ assms] drops_jobs_fields by auto
qed

lemma registry_in_range: "jobs_inv w \<Longrightarrow> set order = set (registry w) \<Longrightarrow> set order \<subseteq> {..<next_instance w}"
  by (simp add: jobs_inv_at_def registry_inv_def)

lemma check_inv: "jobs_inv_at s (w\<lparr>checkJobsStop := b\<rparr>) = jobs_inv_at s w"
  by (simp add: inv_defs)

lemma stopAllJobs_inv:
  assumes "stopAllJobs mk es clear order w = Returns w'" "jobs_inv w" "set order = set (registry w)"
  shows "jobs_inv w' \<and> registry w' = registry w \<and> next_instance w' = next_instance w \<and> modeTest w' = modeTest w
    \<and> (\<forall>j\<in>set (registry w). \<not> started (instances w' j))"
  using assms stop_each_inv[OF _ assms(2) registry_in_range[OF assms(2,3)]]
  by (auto simp: stopAllJobs_def check_inv split: outcome.splits)

lemma RestartJobs_inv:
  assumes "RestartJobs mk es order w = Returns w'" "jobs_inv w" "set order = set (registry w)"
  shows "jobs_inv w'"
proof -
  obtain w1 where w1: "stopAllJobs mk es False order w = Returns w1" "w' = startJobs globalJobs w1"
    using assms(1) by (auto simp: RestartJobs_def split: outcome.splits)
  then have "jobs_inv w1" using stopAllJobs_inv assms(2,3) by blast
  moreover from this have "0 < next_instance w1" by (simp add: jobs_inv_at_def registry_inv_def)
  ultimately show ?thesis using w1(2) startJobs_inv by simp
qed

lemma destroy_inv:
  assumes "destroy mk es j w = Returns w'" "jobs_inv w" "j < next_instance w"
  shows "jobs_inv w'"
  using assms stopAndClear_inv unregister_inv by (auto simp: destroy_def split: outcome.splits)

lemma single_job_calls_inv:
  assumes "jobs_inv w" "set order = set (registry w)"
  shows "jobs_inv (snd (PauseJob jid order w))" "jobs_inv (snd (ResumeJob jid order w))"
    "jobs_inv (snd (StopJob jid order w))"
  unfolding PauseJob_def ResumeJob_def StopJob_def applyToRegisteredJobs_def pauseJob_def resumeJob_def
  by (rule apply_each_inv[OF _ assms(1) registry_in_range[OF assms]], rule single_job_inv, assumption+)+

lemma routine_started: "jobs_inv w \<Longrightarrow> r \<in> set (routines w) \<Longrightarrow> started (instances w (owner r))"
  by (simp add: jobs_inv_at_def routine_inv_def)

lemma jobs_step_inv: "jobs_step mk c w w' \<Longrightarrow> jobs_inv w \<Longrightarrow> jobs_inv w'"
  by (elim jobs_stepE, cases c)
    (auto simp: StopAllJobs_def newJobs_inv
      intro: happen_inv job_inv startJobs_inv RestartJobs_inv destroy_inv single_job_calls_inv
        stopAllJobs_inv[THEN conjunct1] split: option.splits)

definition started_up :: "world \<Rightarrow> bool" where
  "started_up w \<longleftrightarrow> (\<exists>test. w = jobs_init test)"

definition jobs_moves :: "zone \<Rightarrow> world \<Rightarrow> world \<Rightarrow> bool" where
  "jobs_moves mk w w' \<longleftrightarrow> (\<exists>c. jobs_step mk c w w')"

interpretation sched: inv_system started_up "jobs_moves mk" jobs_inv for mk
  by unfold_locales (auto simp: started_up_def jobs_moves_def jobs_init_inv intro: jobs_step_inv)

lemma exec_no_panic: "jobs_inv w \<Longrightarrow> allowed w c \<Longrightarrow> exec mk c w \<noteq> Panics"
proof (cases c)
  case (CDestroy es j)
  assume "jobs_inv w"
  from jobs_stop_no_panic[OF this] CDestroy show ?thesis
    by (auto simp: destroy_def stopAndClear_def split: outcome.splits)
qed (auto simp: RestartJobs_def StopAllJobs_def stopAllJobs_def split: outcome.splits option.splits
      dest: stop_each_no_panic[OF _ registry_in_range])

subsection \<open>\<open>stop\<close> returns\<close>

text \<open>
  Once the stop channel is closed every goroutine has a way out: it reaches its \<open>select\<close> and takes the
  stop case. The rank counts how far the goroutines of \<open>j\<close> are from returning.
\<close>

definition routine_rank :: "nat \<Rightarrow> routine \<Rightarrow> nat" where
  "routine_rank j r = (if owner r = j then (if phase_of r \<in> {First, Arm} then 2 else 1) else 0)"

definition drain_rank :: "nat \<Rightarrow> world \<Rightarrow> nat" where
  "drain_rank j w = sum_list (map (routine_rank j) (routines w))"

definition drains :: "zone \<Rightarrow> world \<Rightarrow> world \<Rightarrow> bool" where
  "drains mk w w' \<longleftrightarrow> (\<exists>e. happen mk e w = Some w' \<and> (case e of Begin _ \<Rightarrow> True | Armed _ _ \<Rightarrow> True | StopCh _ \<Rightarrow> True | _ \<Rightarrow> False))"

lemma drain_rank_zero: "drain_rank j w = 0 \<longleftrightarrow> (\<forall>r\<in>set (routines w). owner r \<noteq> j)"
proof -
  have "routine_rank j r = 0 \<longleftrightarrow> owner r \<noteq> j" for r by (simp add: routine_rank_def)
  then show ?thesis by (simp add: drain_rank_def)
qed

lemma sum_list_split:
  assumes "i < length xs"
  shows "sum_list (map f xs) = sum_list (map f (take i xs)) + f (xs ! i) + sum_list (map f (drop (Suc i) xs :: 'a list)) + (0 :: nat)"
proof -
  have "sum_list (map f xs) = sum_list (map f (take i xs @ xs ! i # drop (Suc i) xs))"
    using id_take_nth_drop[OF assms] by simp
  then show ?thesis by simp
qed

lemma leave_rank: "i < length (routines w) \<Longrightarrow> drain_rank j (leave i w) + routine_rank j (routines w ! i) = drain_rank j w"
  using sum_list_split[of i "routines w" "routine_rank j"] by (simp add: drain_rank_def leave_def)

lemma go_to_rank:
  assumes "i < length (routines w)"
  shows "drain_rank j (go_to i p w) + routine_rank j (routines w ! i)
     = drain_rank j w + routine_rank j ((routines w ! i)\<lparr>phase_of := p\<rparr>)"
  using sum_list_split[of i "routines w" "routine_rank j"] assms
    sum_list_split[of i "(routines w)[i := (routines w ! i)\<lparr>phase_of := p\<rparr>]" "routine_rank j"]
  by (simp add: drain_rank_def go_to_def)

lemma run_rank [simp]: "drain_rank j (run_if_allowed k w) = drain_rank j w"
  by (simp add: drain_rank_def)

interpretation drain: ranked_system "drains mk" "jobs_inv_at (Some j)" "drain_rank j" for mk j
proof
  fix w w' assume "drains mk w w'" "jobs_inv_at (Some j) w"
  then show "jobs_inv_at (Some j) w'" by (auto simp: drains_def intro: happen_inv)
next
  fix w assume inv: "jobs_inv_at (Some j) w" and "0 < drain_rank j w"
  then obtain r where "r \<in> set (routines w)" "owner r = j" using drain_rank_zero[of j w] by auto
  then obtain i where i: "i < length (routines w)" "owner (routines w ! i) = j" by (auto simp: in_set_conv_nth)
  have cl: "gchan (routines w ! i) \<in> set (closed_chans w)"
    using inv i by (auto simp: jobs_inv_at_def routine_inv_def dest: nth_mem)
  let ?e = "case phase_of (routines w ! i) of First \<Rightarrow> Begin i | Arm \<Rightarrow> Armed i undefined | _ \<Rightarrow> StopCh i"
  obtain w' where w': "happen mk ?e w = Some w'"
    using i cl by (cases "phase_of (routines w ! i)") (auto simp: happen_def)
  moreover have "drain_rank j w' < drain_rank j w"
    using w' i cl leave_rank[OF i(1), of j] go_to_rank[OF i(1), of j Wait]
      go_to_rank[of i "run_if_allowed (work (routines w ! i)) w" j Loop]
    by (cases "phase_of (routines w ! i)")
      (auto simp: happen_def routine_rank_def split: option.splits if_splits)
  ultimately show "\<exists>w'. drains mk w w' \<and> drain_rank j w' < drain_rank j w"
    unfolding drains_def by (cases "phase_of (routines w ! i)") (auto intro!: exI[of _ w'])
next
  fix w w' assume "drains mk w w'" "jobs_inv_at (Some j) w"
  then obtain e where e: "happen mk e w = Some w'" "case e of Begin _ \<Rightarrow> True | Armed _ _ \<Rightarrow> True | StopCh _ \<Rightarrow> True | _ \<Rightarrow> False"
    by (auto simp: drains_def)
  let ?i = "event_routine e"
  have i: "?i < length (routines w)" using e(1) by (auto simp: happen_def split: if_splits)
  show "drain_rank j w' \<le> drain_rank j w"
    using e leave_rank[OF i, of j] go_to_rank[OF i, of j Wait]
      go_to_rank[of ?i "run_if_allowed (work (routines w ! ?i)) w" j Loop] i
    by (cases e) (auto simp: happen_def routine_rank_def split: option.splits if_splits)
qed

lemma drains_happen_all: "(drains mk)\<^sup>*\<^sup>* w w' \<Longrightarrow> \<exists>es. happen_all mk es w = Some w'"
proof (induction rule: converse_rtranclp_induct)
  case base then show ?case by (rule exI[of _ "[]"]) simp
next
  case (step w w1)
  then obtain e es where "happen mk e w = Some w1" "happen_all mk es w1 = Some w'" by (auto simp: drains_def)
  then show ?case by (intro exI[of _ "e # es"]) simp
qed

lemma jobs_stop_returns:
  assumes "jobs_inv w"
  shows "\<exists>es w'. jobs_stop mk es j w = Returns w'"
  using assms
proof (cases rule: jobs_stop_cases[of w j mk "[]"])
  case (2 ch)
  then obtain w' where "(drains mk)\<^sup>*\<^sup>* (stopping j ch w) w'" "drain_rank j w' = 0"
    using drain.rank_zero_reachable by blast
  then obtain es where es: "happen_all mk es (stopping j ch w) = Some w'" "\<not> list_ex (\<lambda>r. owner r = j) (routines w')"
    using drains_happen_all[of mk "stopping j ch w" w'] by (auto simp: drain_rank_zero list_ex_iff)
  then have "wg_Wait mk es j (stopping j ch w) = Returns w'" by (simp add: wg_Wait_def)
  then show ?thesis using jobs_stop_eq[OF assms 2(1,2)] by metis
qed auto

lemma stop_each_es_cong:
  "(\<And>j. j \<in> set order \<Longrightarrow> es j = es' j) \<Longrightarrow> stop_each mk es clear order w = stop_each mk es' clear order w"
  by (induction order arbitrary: w) (auto split: outcome.splits)

lemma stop_each_returns:
  assumes "jobs_inv w" "set order \<subseteq> {..<next_instance w}" "distinct order"
  shows "\<exists>es w'. stop_each mk es clear order w = Returns w'"
  using assms
proof (induction order arbitrary: w)
  case (Cons j js)
  obtain ej w1 where w1: "jobs_stop mk ej j w = Returns w1" using jobs_stop_returns[OF Cons.prems(1)] by blast
  define w2 where "w2 = (if clear then clear_jobs j w1 else w1)"
  have s: "(if clear then stopAndClear mk ej j w else jobs_stop mk ej j w) = Returns w2"
    using w1 by (simp add: stopAndClear_def w2_def)
  then have "jobs_inv w2 \<and> next_instance w2 = next_instance w"
    using stop_one_inv[OF s Cons.prems(1)] Cons.prems(2) by simp
  then obtain es w' where "stop_each mk es clear js w2 = Returns w'"
    using Cons.IH[of w2] Cons.prems(2,3) by auto
  then have "stop_each mk (es(j := ej)) clear js w2 = Returns w'"
    using Cons.prems(3) by (subst stop_each_es_cong[of js "es(j := ej)" es]) auto
  then show ?case using s
    by (intro exI[of _ "es(j := ej)"] exI[of _ w']) (cases clear; simp add: fun_upd_def)
qed simp

subsection \<open>Stopped and paused jobs stay silent\<close>

definition runs_of :: "nat \<Rightarrow> world \<Rightarrow> (nat \<times> job_fn) list" where
  "runs_of a w = filter (\<lambda>x. fst x = a) (runs w)"

text \<open>A step that cannot wake control \<open>a\<close>.\<close>

definition tame :: "nat \<Rightarrow> world \<Rightarrow> world \<Rightarrow> bool" where
  "tame a w w' \<longleftrightarrow> (a < next_control w \<longrightarrow> a < next_control w'
     \<and> ctl_id (control_heap w' a) = ctl_id (control_heap w a)
     \<and> (stopped (control_heap w a) \<longrightarrow> stopped (control_heap w' a))
     \<and> (paused (control_heap w a) \<longrightarrow> paused (control_heap w' a))
     \<and> (\<not> canRun (control_heap w a) \<longrightarrow> runs_of a w' = runs_of a w))"

lemma tame_refl [simp]: "tame a w w" by (simp add: tame_def)

lemma tame_trans: "tame a w w1 \<Longrightarrow> tame a w1 w2 \<Longrightarrow> tame a w w2"
  by (auto simp: tame_def canRun_def)

lemma tame_same:
  "control_heap w' = control_heap w \<Longrightarrow> next_control w' = next_control w \<Longrightarrow> runs w' = runs w \<Longrightarrow> tame a w w'"
  by (simp add: tame_def runs_of_def)

lemma run_if_allowed_tame: "tame a w (run_if_allowed k w)"
  by (auto simp: tame_def run_if_allowed_def runs_of_def)

lemma go_to_leave_tame: "tame a w (go_to i p w')" "tame a w (leave i w')" if "tame a w w'"
  using that by (auto simp: tame_def go_to_def leave_def runs_of_def)

lemma happen_tame: "happen mk e w = Some w' \<Longrightarrow> tame a w w'"
  by (cases e) (auto simp: happen_def intro!: run_if_allowed_tame go_to_leave_tame split: if_splits option.splits)

lemma happen_all_tame: "happen_all mk es w = Some w' \<Longrightarrow> tame a w w'"
  by (induction es arbitrary: w) (auto intro: tame_trans happen_tame split: option.splits)

lemma adds_job_tame: "adds_job j jid w w' \<Longrightarrow> tame a w w'"
  by (auto simp: adds_job_def Let_def tame_def runs_of_def)

lemma drops_jobs_tame: "drops_jobs j P w w' \<Longrightarrow> tame a w w'"
  by (auto simp: drops_jobs_def tame_def runs_of_def)

lemma jobs_stop_tame:
  assumes "jobs_stop mk es j w = Returns w'" "jobs_inv w"
  shows "tame a w w'"
  using assms(2)
proof (cases rule: jobs_stop_cases[of w j mk es])
  case (2 ch)
  then have "tame a (stopping j ch w) w'"
    using assms(1) by (auto simp: wg_Wait_def intro: happen_all_tame split: option.splits if_splits)
  then show ?thesis by (simp add: tame_def stopping_def runs_of_def)
qed (use assms(1) in simp)

lemma stop_each_tame:
  assumes "stop_each mk es clear order w = Returns w'" "jobs_inv w" "set order \<subseteq> {..<next_instance w}"
  shows "tame a w w'"
  using assms
proof (induction order arbitrary: w)
  case (Cons j js)
  then obtain w1 where s: "(if clear then stopAndClear mk (es j) j w else jobs_stop mk (es j) j w) = Returns w1"
    and r: "stop_each mk es clear js w1 = Returns w'"
    by (auto split: outcome.splits)
  from s have "tame a w w1"
    using jobs_stop_tame[OF _ Cons.prems(2)] tame_trans[OF _ drops_jobs_tame[OF clear_jobs_drops]]
    by (auto simp: stopAndClear_def split: if_splits outcome.splits)
  moreover have "tame a w1 w'" using Cons.IH[OF r] stop_one_inv[OF s Cons.prems(2)] Cons.prems(3) by auto
  ultimately show ?case by (rule tame_trans)
qed simp

lemma apply_each_tame:
  assumes "\<And>j w. jobs_inv w \<Longrightarrow> j < next_instance w \<Longrightarrow> jobs_inv (snd (f j w))
      \<and> next_instance (snd (f j w)) = next_instance w \<and> R w (snd (f j w))"
    and "\<And>w. R w w" "\<And>w w1 w2. R w w1 \<Longrightarrow> R w1 w2 \<Longrightarrow> R w w2"
    and "jobs_inv w" "set order \<subseteq> {..<next_instance w}"
  shows "R w (snd (apply_each f order b e w))"
  using assms(4,5)
proof (induction order arbitrary: b e w)
  case (Cons j js)
  obtain r w1 where f: "f j w = (r, w1)" by (cases "f j w")
  then have "jobs_inv w1" "next_instance w1 = next_instance w" "R w w1"
    using assms(1)[of w j] Cons.prems by auto
  moreover from this have "R w1 (snd (apply_each f js b' e' w1))" for b' e' using Cons by simp
  ultimately show ?case using f assms(3) by (cases r) auto
qed (simp add: assms(2))

lemma stopJob_tame: "jobs_inv w \<Longrightarrow> tame a w (snd (stopJob j jid w))"
  using stopJob_cases[OF prod.collapse[symmetric], of w j jid] drops_jobs_tame
  by (fastforce simp: jobs_inv_at_def)

lemma set_paused_tame:
  assumes "control_inv w" "p \<or> ctl_id (control_heap w a) \<noteq> jid"
  shows "tame a w (snd (set_paused p j jid w))"
proof -
  have "ctl_id (control_heap w b) = jid" if "get_control j jid w = Some b" for b
    using that control_live[OF assms(1) map_of_SomeD] by (auto simp: get_control_def)
  then show ?thesis
    using assms(2) by (auto simp: set_paused_def tame_def set_control_def runs_of_def split: option.splits)
qed

lemma registration_tame:
  assumes "jobs_inv w"
  shows "tame a w (snd (registerIntervalJob j jid fn iv t w))" "tame a w (snd (registerCronJob j jid fn trg iv w))"
  using registerIntervalJob_cases[OF prod.collapse[symmetric] assms]
    registerCronJob_cases[OF prod.collapse[symmetric] assms] adds_job_tame tame_refl
  by metis+

lemma counter_tame: "tame a (w\<lparr>jobIDCounter := n\<rparr>) w' = tame a w w'"
  by (simp add: tame_def runs_of_def)

lemma job_tame:
  assumes "jobs_inv w"
  shows "tame a w (snd (job j fn iv t w))" "tame a w (snd (jobWithID j jid fn iv t w))"
    "tame a w (snd (jobs_cronJob mk now j fn trg iv w))" "tame a w (snd (cronJobWithID mk now j jid fn trg iv w))"
proof -
  have i: "tame a w (snd (registerIntervalJob j x fn iv t (w\<lparr>jobIDCounter := n\<rparr>)))"
    "tame a w (snd (registerCronJob j x fn trg iv (w\<lparr>jobIDCounter := n\<rparr>)))" for x n
    using registration_tame[of "w\<lparr>jobIDCounter := n\<rparr>"] assms by (simp_all add: counter_inv counter_tame)
  show "tame a w (snd (job j fn iv t w))"
    using i(1)[of "''job-'' @ decimal (unat (jobIDCounter w + 1))" "jobIDCounter w + 1"]
    by (auto simp: job_def nextJobID_def Let_def split: option.splits prod.splits)
  show "tame a w (snd (jobs_cronJob mk now j fn trg iv w))"
    using i(2)[of "''job-'' @ decimal (unat (jobIDCounter w + 1))" "jobIDCounter w + 1"]
    by (auto simp: jobs_cronJob_def nextJobID_def Let_def split: option.splits prod.splits)
qed (use registration_tame[OF assms] in \<open>auto simp: jobWithID_def cronJobWithID_def split: option.splits\<close>)

lemma stopAllJobs_tame:
  assumes "stopAllJobs mk es clear order w = Returns w'" "jobs_inv w" "set order = set (registry w)"
  shows "tame a w w'"
proof -
  obtain w1 where "stop_each mk es clear order w = Returns w1" "w' = w1\<lparr>checkJobsStop := False\<rparr>"
    using assms(1) by (auto simp: stopAllJobs_def split: outcome.splits)
  then show ?thesis
    using stop_each_tame[OF _ assms(2) registry_in_range[OF assms(2,3)], of mk es clear w1 a]
    by (simp add: tame_def runs_of_def)
qed

lemma startJobs_tame: "tame a w (startJobs j w)"
  by (simp add: startJobs_eq tame_def runs_of_def)

lemma destroy_tame:
  assumes "destroy mk es j w = Returns w'" "jobs_inv w"
  shows "tame a w w'"
proof -
  obtain w1 where "jobs_stop mk es j w = Returns w1" "w' = unregister j (clear_jobs j w1)"
    using assms(1) by (auto simp: destroy_def stopAndClear_def split: outcome.splits)
  moreover from this have "tame a w (clear_jobs j w1)"
    using tame_trans[OF jobs_stop_tame[OF _ assms(2)] drops_jobs_tame[OF clear_jobs_drops]] by blast
  ultimately show ?thesis by (simp add: tame_def unregister_def runs_of_def)
qed

lemma pause_stop_calls_tame:
  assumes "jobs_inv w" "set order = set (registry w)"
  shows "tame a w (snd (PauseJob jid order w))" "tame a w (snd (StopJob jid order w))"
  unfolding PauseJob_def StopJob_def applyToRegisteredJobs_def pauseJob_def
  by (rule apply_each_tame[where R = "tame a", OF _ tame_refl tame_trans assms(1) registry_in_range[OF assms]];
      use single_job_inv stopJob_tame set_paused_tame in \<open>auto simp: jobs_inv_at_def\<close>)+

lemma resume_call_tame:
  assumes "jobs_inv w" "set order = set (registry w)" "a < next_control w" "ctl_id (control_heap w a) \<noteq> jid"
  shows "tame a w (snd (ResumeJob jid order w))"
proof -
  let ?R = "\<lambda>w w'. a < next_control w \<and> ctl_id (control_heap w a) \<noteq> jid \<longrightarrow> tame a w w'"
  have "?R w (snd (ResumeJob jid order w))"
    unfolding ResumeJob_def applyToRegisteredJobs_def resumeJob_def
  proof (rule apply_each_tame[where R = ?R, OF _ _ _ assms(1) registry_in_range[OF assms(1,2)]])
    fix w w1 w2 assume "?R w w1" "?R w1 w2"
    then show "?R w w2" by (metis tame_def tame_trans)
  qed (use single_job_inv set_paused_tame in \<open>auto simp: jobs_inv_at_def\<close>)
  then show ?thesis using assms(3,4) by blast
qed

definition still_stopped :: "nat \<Rightarrow> world \<Rightarrow> world \<Rightarrow> bool" where
  "still_stopped a w w' \<longleftrightarrow> (a < next_control w \<and> stopped (control_heap w a) \<longrightarrow>
     a < next_control w' \<and> stopped (control_heap w' a) \<and> runs_of a w' = runs_of a w)"

lemma tame_still_stopped: "tame a w w' \<Longrightarrow> still_stopped a w w'"
  by (auto simp: tame_def still_stopped_def canRun_def)

lemma resume_still_stopped:
  assumes "jobs_inv w" "set order = set (registry w)"
  shows "still_stopped a w (snd (ResumeJob jid order w))"
  unfolding ResumeJob_def applyToRegisteredJobs_def resumeJob_def
proof (rule apply_each_tame[where R = "still_stopped a", OF _ _ _ assms(1) registry_in_range[OF assms]])
  fix j w assume "jobs_inv w" "j < next_instance w"
  moreover have "still_stopped a w (snd (set_paused False j jid w))"
    by (auto simp: still_stopped_def set_paused_def set_control_def runs_of_def split: option.splits)
  ultimately show "jobs_inv (snd (set_paused False j jid w))
      \<and> next_instance (snd (set_paused False j jid w)) = next_instance w
      \<and> still_stopped a w (snd (set_paused False j jid w))"
    using single_job_inv(1) by blast
qed (auto simp: still_stopped_def)

text \<open>Only \<open>ResumeJob\<close> for the job's own id can wake a control.\<close>

lemma RestartJobs_tame:
  assumes "RestartJobs mk es order w = Returns w'" "jobs_inv w" "set order = set (registry w)"
  shows "tame a w w'"
  using assms tame_trans[OF stopAllJobs_tame startJobs_tame]
  by (auto simp: RestartJobs_def split: outcome.splits)

lemma jobs_step_tame:
  assumes "jobs_step mk c w w'" "jobs_inv w"
    "\<And>jid order. c = CResumeJob jid order \<Longrightarrow> a < next_control w \<and> ctl_id (control_heap w a) \<noteq> jid"
  shows "tame a w w'"
  using assms(1)
proof (rule jobs_stepE)
  assume al: "allowed w c" and ex: "exec mk c w = Returns w'"
  show ?thesis
  proof (cases c)
    case CNewJobs
    then show ?thesis using ex by (auto simp: newJobs_def register_def opdefs Let_def intro: tame_same)
  qed (use al ex assms(2,3) in \<open>auto simp: StopAllJobs_def intro: happen_tame job_tame startJobs_tame RestartJobs_tame
        destroy_tame pause_stop_calls_tame resume_call_tame stopAllJobs_tame split: option.splits\<close>)
qed

lemma jobs_step_still_stopped:
  assumes "jobs_step mk c w w'" "jobs_inv w"
  shows "still_stopped a w w'"
proof (cases "\<exists>jid order. c = CResumeJob jid order")
  case True
  then show ?thesis using assms by (auto elim!: jobs_stepE intro: resume_still_stopped)
next
  case False
  then show ?thesis using jobs_step_tame[OF assms] tame_still_stopped by blast
qed

inductive jobs_trace :: "zone \<Rightarrow> call list \<Rightarrow> world \<Rightarrow> world \<Rightarrow> bool" for mk :: zone where
  trace_Nil: "jobs_trace mk [] w w"
| trace_Cons: "jobs_step mk c w w1 \<Longrightarrow> jobs_trace mk cs w1 w' \<Longrightarrow> jobs_trace mk (c # cs) w w'"

lemma trace_paused:
  assumes "jobs_trace mk cs w w'" "jobs_inv w" "a < next_control w" "paused (control_heap w a)"
    and "\<forall>order. CResumeJob (ctl_id (control_heap w a)) order \<notin> set cs"
  shows "runs_of a w' = runs_of a w"
  using assms
proof (induction rule: jobs_trace.induct)
  case (trace_Cons c w w1 cs w')
  have "tame a w w1"
    using jobs_step_tame[OF trace_Cons.hyps(1) trace_Cons.prems(1)] trace_Cons.prems(2,4) by fastforce
  then show ?case
    using trace_Cons jobs_step_inv by (simp add: tame_def canRun_def)
qed simp

lemma moves_stopped:
  assumes "(jobs_moves mk)\<^sup>*\<^sup>* w w'" "jobs_inv w" "a < next_control w" "stopped (control_heap w a)"
  shows "runs_of a w' = runs_of a w \<and> a < next_control w' \<and> stopped (control_heap w' a) \<and> jobs_inv w'"
  using assms
proof (induction rule: rtranclp_induct)
  case (step w1 w2)
  then obtain c where "jobs_step mk c w1 w2" by (auto simp: jobs_moves_def)
  then show ?case using step jobs_step_still_stopped[of mk c w1 w2 a] jobs_step_inv by (simp add: still_stopped_def)
qed simp

paragraph \<open>What the calls over the registry do to a registered job.\<close>

lemma apply_each_applied: "fst (apply_each f order True e w) = None"
  by (induction order arbitrary: e w) (auto split: prod.splits option.splits)

lemma apply_each_hits:
  assumes "\<And>j w. jobs_inv w \<Longrightarrow> j < next_instance w
      \<Longrightarrow> jobs_inv (snd (f j w)) \<and> next_instance (snd (f j w)) = next_instance w
        \<and> (\<forall>i. i \<noteq> j \<longrightarrow> instances (snd (f j w)) i = instances w i) \<and> tame a w (snd (f j w))"
    and "\<And>w. jobs_inv w \<Longrightarrow> (jid, a) \<in> set (controls (instances w j))
      \<Longrightarrow> fst (f j w) = None \<and> (if p then paused else stopped) (control_heap (snd (f j w)) a)"
    and "jobs_inv w" "set order \<subseteq> {..<next_instance w}" "j \<in> set order" "(jid, a) \<in> set (controls (instances w j))"
  shows "fst (apply_each f order b e w) = None
    \<and> (if p then paused else stopped) (control_heap (snd (apply_each f order b e w)) a)"
  using assms(3-6)
proof (induction order arbitrary: b e w)
  case (Cons i js)
  obtain r w1 where f: "f i w = (r, w1)" by (cases "f i w")
  have w1: "jobs_inv w1" "next_instance w1 = next_instance w" "i' \<noteq> i \<Longrightarrow> instances w1 i' = instances w i'"
    "tame a w w1" for i'
    using assms(1)[of w i] Cons.prems f by auto
  show ?case
  proof (cases "i = j")
    case True
    then have hit: "r = None" "(if p then paused else stopped) (control_heap w1 a)"
      using assms(2)[of w] Cons.prems f by auto
    have "tame a w1 (snd (apply_each f js True e w1))"
      using apply_each_tame[where R = "tame a" and f = f, OF _ tame_refl tame_trans w1(1)] assms(1) w1(2) Cons.prems(2)
      by auto
    moreover have "a < next_control w1"
      using Cons.prems(1,4) w1(4) control_live by (auto simp: jobs_inv_at_def tame_def)
    ultimately show ?thesis using f hit apply_each_applied by (auto simp: tame_def split: if_splits)
  next
    case False
    then show ?thesis using Cons w1 f by (cases r) auto
  qed
qed simp

lemma set_paused_instances [simp]: "instances (snd (set_paused p j jid w)) = instances w"
  by (auto simp: set_paused_def split: option.splits)

lemma registered_control:
  assumes "jobs_inv w" "(jid, a) \<in> set (controls (instances w j))"
  shows "map_of (controls (instances w j)) jid = Some a" "\<not> stopped (control_heap w a)" "a < next_control w"
    "ctl_id (control_heap w a) = jid"
proof -
  have "control_inv w" using assms(1) by (simp add: jobs_inv_at_def)
  moreover from this have "distinct (map fst (controls (instances w j)))" by (simp add: control_inv_def jobs_wf_def)
  ultimately show "map_of (controls (instances w j)) jid = Some a" "\<not> stopped (control_heap w a)" "a < next_control w"
    "ctl_id (control_heap w a) = jid"
    using assms(2) control_live by auto
qed

lemma PauseJob_hits:
  assumes "jobs_inv w" "set order = set (registry w)" "j \<in> set order" "(jid, a) \<in> set (controls (instances w j))" "jid \<noteq> []"
  shows "fst (PauseJob jid order w) = None \<and> paused (control_heap (snd (PauseJob jid order w)) a)"
proof -
  have "fst (apply_each (\<lambda>j. set_paused True j jid) order False ErrJobNotFound w) = None
    \<and> (if True then paused else stopped) (control_heap (snd (apply_each (\<lambda>j. set_paused True j jid) order False ErrJobNotFound w)) a)"
  proof (rule apply_each_hits[OF _ _ assms(1) registry_in_range[OF assms(1,2)] assms(3,4)])
    fix i v assume "jobs_inv v" "i < next_instance v"
    then show "jobs_inv (snd (set_paused True i jid v)) \<and> next_instance (snd (set_paused True i jid v)) = next_instance v
        \<and> (\<forall>i'. i' \<noteq> i \<longrightarrow> instances (snd (set_paused True i jid v)) i' = instances v i') \<and> tame a v (snd (set_paused True i jid v))"
      using single_job_inv(1) set_paused_tame[of v True] by (simp add: jobs_inv_at_def)
  next
    fix v assume "jobs_inv v" "(jid, a) \<in> set (controls (instances v j))"
    then show "fst (set_paused True j jid v) = None \<and> (if True then paused else stopped) (control_heap (snd (set_paused True j jid v)) a)"
      using registered_control assms(5) by (simp add: set_paused_def validateJobID_def get_control_def set_control_def)
  qed
  then show ?thesis by (simp add: PauseJob_def applyToRegisteredJobs_def pauseJob_def)
qed

lemma StopJob_hits:
  assumes "jobs_inv w" "set order = set (registry w)" "j \<in> set order" "(jid, a) \<in> set (controls (instances w j))" "jid \<noteq> []"
  shows "fst (StopJob jid order w) = None \<and> stopped (control_heap (snd (StopJob jid order w)) a)"
proof -
  have "fst (apply_each (\<lambda>j. stopJob j jid) order False ErrJobNotFound w) = None
    \<and> (if False then paused else stopped) (control_heap (snd (apply_each (\<lambda>j. stopJob j jid) order False ErrJobNotFound w)) a)"
  proof (rule apply_each_hits[OF _ _ assms(1) registry_in_range[OF assms(1,2)] assms(3,4)])
    fix i v assume v: "jobs_inv v" "i < next_instance v"
    then have "control_inv v" by (simp add: jobs_inv_at_def)
    from stopJob_cases[OF prod.collapse[symmetric] this, of i jid]
    have "\<forall>i'. i' \<noteq> i \<longrightarrow> instances (snd (stopJob i jid v)) i' = instances v i'"
      by (auto simp: drops_jobs_def)
    then show "jobs_inv (snd (stopJob i jid v)) \<and> next_instance (snd (stopJob i jid v)) = next_instance v
        \<and> (\<forall>i'. i' \<noteq> i \<longrightarrow> instances (snd (stopJob i jid v)) i' = instances v i') \<and> tame a v (snd (stopJob i jid v))"
      using single_job_inv(2)[OF v] stopJob_tame[OF v(1)] by blast
  next
    fix v assume "jobs_inv v" "(jid, a) \<in> set (controls (instances v j))"
    then show "fst (stopJob j jid v) = None \<and> (if False then paused else stopped) (control_heap (snd (stopJob j jid v)) a)"
      using registered_control assms(5) by (simp add: stopJob_def validateJobID_def set_control_def set_instance_def)
  qed
  then show ?thesis by (simp add: StopJob_def applyToRegisteredJobs_def)
qed

lemma StopJob_runs:
  assumes "jobs_inv w" "set order = set (registry w)"
  shows "runs (snd (StopJob jid order w)) = runs w"
  unfolding StopJob_def applyToRegisteredJobs_def
proof (rule apply_each_tame[where R = "\<lambda>w w'. runs w' = runs w", OF _ _ _ assms(1) registry_in_range[OF assms]])
  fix j w assume w: "jobs_inv w" "j < next_instance w"
  have "runs (snd (stopJob j jid w)) = runs w"
    by (simp add: stopJob_def set_instance_def split: option.splits)
  then show "jobs_inv (snd (stopJob j jid w)) \<and> next_instance (snd (stopJob j jid w)) = next_instance w
      \<and> runs (snd (stopJob j jid w)) = runs w" using single_job_inv(2)[OF w] by simp
qed simp_all

paragraph \<open>What stopping everything leaves behind.\<close>

lemma stop_each_keeps:
  assumes "stop_each mk es False order w = Returns w'" "jobs_inv w" "set order \<subseteq> {..<next_instance w}"
  shows "keeps_defs w w'"
  using assms
proof (induction order arbitrary: w)
  case Nil then show ?case by (simp add: keeps_defs_def)
next
  case (Cons j js)
  then obtain w1 where s: "jobs_stop mk (es j) j w = Returns w1" and r: "stop_each mk es False js w1 = Returns w'"
    by (auto split: outcome.splits)
  have k: "keeps_defs w w1" using jobs_stop_keeps[OF s Cons.prems(2)] by simp
  moreover have "jobs_inv w1" using jobs_stop_inv[OF s Cons.prems(2)] by simp
  then have "keeps_defs w1 w'" using Cons.IH[OF r] Cons.prems(3) k by (simp add: keeps_defs_def)
  ultimately show ?case by (simp add: keeps_defs_def)
qed

lemma stop_each_empty:
  assumes "stop_each mk es True order w = Returns w'" "jobs_inv w" "set order \<subseteq> {..<next_instance w}"
    "job_defs (instances w j) = []" "controls (instances w j) = []"
  shows "job_defs (instances w' j) = [] \<and> controls (instances w' j) = []"
  using assms
proof (induction order arbitrary: w)
  case (Cons i js)
  then obtain w1 where s: "stopAndClear mk (es i) i w = Returns w1" and r: "stop_each mk es True js w1 = Returns w'"
    by (auto split: outcome.splits)
  have "jobs_inv w1" "next_instance w1 = next_instance w" "\<And>i'. i' \<noteq> i \<Longrightarrow> instances w1 i' = instances w i'"
    using stop_one_inv[of True, simplified, OF s Cons.prems(2)] Cons.prems(3) by auto
  moreover have "job_defs (instances w1 i) = []" "controls (instances w1 i) = []"
    using s clear_jobs_drops[of i] by (auto simp: stopAndClear_def drops_jobs_def split: outcome.splits)
  ultimately show ?case using Cons.IH[OF r] Cons.prems(3-5) by (cases "i = j") auto
qed simp

lemma stop_each_clears:
  assumes "stop_each mk es True order w = Returns w'" "jobs_inv w" "set order \<subseteq> {..<next_instance w}" "j \<in> set order"
  shows "job_defs (instances w' j) = [] \<and> controls (instances w' j) = []
    \<and> (\<forall>k a. (k, a) \<in> set (controls (instances w j)) \<longrightarrow> stopped (control_heap w' a))"
  using assms
proof (induction order arbitrary: w)
  case (Cons i js)
  then obtain w1 where s: "stopAndClear mk (es i) i w = Returns w1" and r: "stop_each mk es True js w1 = Returns w'"
    by (auto split: outcome.splits)
  have w1: "jobs_inv w1" "next_instance w1 = next_instance w" "\<And>i'. i' \<noteq> i \<Longrightarrow> instances w1 i' = instances w i'"
    using stop_one_inv[of True, simplified, OF s Cons.prems(2)] Cons.prems(3) by auto
  have js: "set js \<subseteq> {..<next_instance w1}" using Cons.prems(3) w1(2) by simp
  obtain w0 where w0: "jobs_stop mk (es i) i w = Returns w0" "w1 = clear_jobs i w0"
    using s by (auto simp: stopAndClear_def split: outcome.splits)
  have k: "keeps_defs w w0" using jobs_stop_keeps[OF w0(1) Cons.prems(2)] by simp
  have d: "drops_jobs i (\<lambda>_. True) w0 w1" using clear_jobs_drops w0(2) by simp
  show ?case
  proof (cases "j \<in> set js \<and> j \<noteq> i")
    case True
    then show ?thesis using Cons.IH[OF r w1(1) js] w1(3) by simp
  next
    case False
    then have ij: "i = j" using Cons.prems(4) by auto
    have e: "job_defs (instances w1 j) = []" "controls (instances w1 j) = []" using d ij by (simp_all add: drops_jobs_def)
    have "job_defs (instances w' j) = [] \<and> controls (instances w' j) = []"
      using stop_each_empty[OF r w1(1) js] e by simp
    moreover have "stopped (control_heap w' a)" if "(k, a) \<in> set (controls (instances w j))" for k a
    proof -
      have "(k, a) \<in> set (controls (instances w0 j))" using that k by (simp add: keeps_defs_def)
      then have "stopped (control_heap w1 a)" using d ij by (auto simp: drops_jobs_def)
      moreover have "a < next_control w1"
        using registered_control(3)[OF Cons.prems(2) that] k d by (simp add: keeps_defs_def drops_jobs_def)
      ultimately show ?thesis using stop_each_tame[OF r w1(1) js, of a] by (simp add: tame_def)
    qed
    ultimately show ?thesis by blast
  qed
qed simp

subsection \<open>Properties\<close>

text \<open>A concrete scheduler for the witnesses: one interval job, started.\<close>

definition one_job :: world where
  "one_job = StartJobs (snd (jobWithID globalJobs ''a'' (Some 7) 5 None (jobs_init False)))"

lemma one_job_reach: "reach started_up (jobs_moves mk) one_job"
proof -
  let ?w = "snd (jobWithID globalJobs ''a'' (Some 7) 5 None (jobs_init False))"
  have r: "reach started_up (jobs_moves mk) (jobs_init False)"
    by (rule reach_init) (auto simp: started_up_def)
  have "jobs_step mk (CJobWithID globalJobs ''a'' (Some 7) 5 None) (jobs_init False) ?w"
    by (rule jobs_call) (simp_all add: jobs_init_def newJobs_def register_def Let_def opdefs)
  then have r1: "reach started_up (jobs_moves mk) ?w"
    using reach_step[OF r] by (auto simp: jobs_moves_def)
  then have "0 < next_instance ?w" using sched.inv_reach[OF r1] by (simp add: jobs_inv_at_def registry_inv_def)
  then have "jobs_step mk (CStartJobs globalJobs) ?w one_job"
    by (intro jobs_call) (simp_all add: one_job_def StartJobs_def)
  then show ?thesis using reach_step[OF r1] by (auto simp: jobs_moves_def)
qed

lemma one_job_fields:
  "registry one_job = [0]" "controls (instances one_job 0) = [(''a'', 0)]" "modeTest one_job = False"
  "job_defs (instances one_job 0) = [(''a'', 0)]"
  by (simp_all add: one_job_def StartJobs_def startJobs_eq jobWithID_def validateJobID_def validateIntervalJob_def
      registerIntervalJob_def addControlLocked_def jobs_init_def newJobs_def register_def empty_jobs_def Let_def
      opdefs job_defs_def)









text \<open>
  \<open>PauseJob\<close> on the id of a registered job succeeds and the job does not run again until some
  \<open>ResumeJob\<close> call names its id, whatever else is called and whatever its timers do.\<close>
theorem PauseJob_silences:
  assumes "reach started_up (jobs_moves mk) w" "set order = set (registry w)" "j \<in> set order"
    "(jid, a) \<in> set (controls (instances w j))" "jid \<noteq> []"
    and "PauseJob jid order w = (r, w1)" "jobs_trace mk cs w1 w'" "\<forall>order'. CResumeJob jid order' \<notin> set cs"
  shows "r = None \<and> runs_of a w' = runs_of a w1"
proof -
  have inv: "jobs_inv w" by (rule sched.inv_reach[OF assms(1)])
  have h: "r = None" "paused (control_heap w1 a)" using PauseJob_hits[OF inv assms(2-5)] assms(6) by auto
  have "tame a w w1" "jobs_inv w1"
    using pause_stop_calls_tame(1)[OF inv assms(2), of a jid] single_job_calls_inv(1)[OF inv assms(2), of jid] assms(6) by auto
  moreover from this have "a < next_control w1" "ctl_id (control_heap w1 a) = jid"
    using registered_control(3,4)[OF inv assms(4)] by (auto simp: tame_def)
  ultimately show ?thesis using trace_paused[OF assms(7)] h assms(8) by simp
qed

theorem PauseJob_silences_witness:
  "fst (PauseJob ''a'' [0] one_job) = None
     \<and> runs_of 0 (StartJobs (snd (PauseJob ''a'' [0] one_job))) = runs_of 0 (snd (PauseJob ''a'' [0] one_job))"
proof -
  let ?w = "snd (PauseJob ''a'' [0] one_job)"
  have "jobs_inv ?w"
    using single_job_calls_inv(1)[OF sched.inv_reach[OF one_job_reach]] by (simp add: one_job_fields)
  then have "jobs_step (fixed_zone 0) (CStartJobs 0) ?w (StartJobs ?w)"
    by (intro jobs_call) (simp_all add: StartJobs_def jobs_inv_at_def registry_inv_def)
  then have "jobs_trace (fixed_zone 0) [CStartJobs 0] ?w (StartJobs ?w)" by (auto intro: jobs_trace.intros)
  from PauseJob_silences[OF one_job_reach _ _ _ _ prod.collapse[symmetric] this, of 0 0]
  show ?thesis by (simp add: one_job_fields)
qed

text \<open>
  The outcome of \<open>JobWithID\<close> and \<open>CronJobWithID\<close>: the first failing check decides the error and leaves
  the scheduler as it was; otherwise exactly one job with the id is added, with its goroutine running
  if and only if the instance is started.\<close>
theorem registration_outcome:
  assumes "reach started_up (jobs_moves mk) w"
  shows "(jobWithID j jid fn iv t w = (e, w') \<longrightarrow>
      e = (if jid = [] then Some ErrEmptyJobID else if fn = None then Some ErrNilJobFunc
           else if iv \<le> 0 then Some ErrInvalidInterval
           else if jid \<in> fst ` set (controls (instances w j)) then Some ErrDuplicateJobID else None)
      \<and> (if e = None then adds_job j jid w w' else w' = w))
    \<and> (cronJobWithID mk now j jid fn trg iv w = (e, w') \<longrightarrow>
      e = (if jid = [] then Some ErrEmptyJobID else if fn = None then Some ErrNilJobFunc
           else if \<not> validTrigger trg then Some ErrInvalidCronTrigger
           else if nextRun mk trg now = None then Some ErrCronTriggerExpired
           else if jid \<in> fst ` set (controls (instances w j)) then Some ErrDuplicateJobID else None)
      \<and> (if e = None then adds_job j jid w w' else w' = w))"
    (is "(?A \<longrightarrow> ?P) \<and> (?B \<longrightarrow> ?Q)")
proof -
  have inv: "jobs_inv w" by (rule sched.inv_reach[OF assms])
  have new: "jid \<notin> fst ` set (controls (instances w j))" if "adds_job j jid w w'"
    using that by (simp add: adds_job_def Let_def)
  have "?A \<longrightarrow> ?P"
    using registerIntervalJob_cases[OF _ inv, of j jid fn iv t e w'] new
    by (auto simp: jobWithID_def validateJobID_def validateIntervalJob_def)
  moreover have "?B \<longrightarrow> ?Q"
    using registerCronJob_cases[OF _ inv, of j jid fn trg iv e w'] new
    by (auto simp: cronJobWithID_def validateJobID_def validateCronJob_def)
  ultimately show ?thesis ..
qed

theorem registration_outcome_witness:
  "fst (jobWithID 0 ''a'' (Some 2) 10 None one_job) = Some ErrDuplicateJobID
     \<and> adds_job 0 ''b'' one_job (snd (jobWithID 0 ''b'' (Some 2) 10 None one_job))"
proof -
  note o = registration_outcome[OF one_job_reach, THEN conjunct1, rule_format, OF prod.collapse[symmetric]]
  show ?thesis using o[of 0 "''a''" "Some 2" 10 None] o[of 0 "''b''" "Some 2" 10 None]
    by (simp add: one_job_fields)
qed


end
