(* ===== verification/Portable_Abi.thy ===== *)
theory Portable_Abi
  imports Json "HOL-Library.Signed_Division"
begin

text \<open>
  The data of the portable ABI, \<^verbatim>\<open>share/portable\<close>: \<^verbatim>\<open>abi.go\<close>, \<^verbatim>\<open>errors.go\<close> and \<^verbatim>\<open>manifest.go\<close>. Every struct
  comes with the text \<open>json.Marshal\<close> writes for it, with the field order, the names and the \<open>omitempty\<close> options of its tags.
\<close>

subsection \<open>Errors, \<^verbatim>\<open>errors.go\<close>\<close>

type_synonym ErrorCode = string

definition ErrorInvalidJSON :: ErrorCode where "ErrorInvalidJSON = ''invalid_json''"
definition ErrorUnknownField :: ErrorCode where "ErrorUnknownField = ''unknown_field''"
definition ErrorDuplicateField :: ErrorCode where "ErrorDuplicateField = ''duplicate_field''"
definition ErrorRequestTooLarge :: ErrorCode where "ErrorRequestTooLarge = ''request_too_large''"
definition ErrorResponseTooLarge :: ErrorCode where "ErrorResponseTooLarge = ''response_too_large''"
definition ErrorInvalidABI :: ErrorCode where "ErrorInvalidABI = ''invalid_abi''"
definition ErrorInvalidRequest :: ErrorCode where "ErrorInvalidRequest = ''invalid_request''"
definition ErrorUnknownOperation :: ErrorCode where "ErrorUnknownOperation = ''unknown_operation''"
definition ErrorCapabilityUnavailable :: ErrorCode where "ErrorCapabilityUnavailable = ''capability_unavailable''"
definition ErrorExecutionStateRequired :: ErrorCode where "ErrorExecutionStateRequired = ''execution_state_required''"
definition ErrorDeadlineExceeded :: ErrorCode where "ErrorDeadlineExceeded = ''deadline_exceeded''"
definition ErrorCancellationRequested :: ErrorCode where "ErrorCancellationRequested = ''cancellation_requested''"
definition ErrorInvalidBase64 :: ErrorCode where "ErrorInvalidBase64 = ''invalid_base64''"
definition ErrorInvalidUTF8 :: ErrorCode where "ErrorInvalidUTF8 = ''invalid_utf8''"
definition ErrorInputTooLarge :: ErrorCode where "ErrorInputTooLarge = ''input_too_large''"
definition ErrorInvalidKey :: ErrorCode where "ErrorInvalidKey = ''invalid_key''"
definition ErrorInvalidNonce :: ErrorCode where "ErrorInvalidNonce = ''invalid_nonce''"
definition ErrorAuthenticationFailed :: ErrorCode where "ErrorAuthenticationFailed = ''authentication_failed''"
definition ErrorInternal :: ErrorCode where "ErrorInternal = ''internal''"

lemmas error_code_defs =
  ErrorInvalidJSON_def ErrorUnknownField_def ErrorDuplicateField_def ErrorRequestTooLarge_def ErrorResponseTooLarge_def
  ErrorInvalidABI_def ErrorInvalidRequest_def ErrorUnknownOperation_def ErrorCapabilityUnavailable_def
  ErrorExecutionStateRequired_def ErrorDeadlineExceeded_def ErrorCancellationRequested_def ErrorInvalidBase64_def
  ErrorInvalidUTF8_def ErrorInputTooLarge_def ErrorInvalidKey_def ErrorInvalidNonce_def ErrorAuthenticationFailed_def
  ErrorInternal_def

record ABIError =
  abi_Code :: ErrorCode
  abi_Message :: string
  abi_Retryable :: bool
  abi_Field :: string

definition ABIError_Error :: "ABIError option \<Rightarrow> string" where
  "ABIError_Error e = (case e of None \<Rightarrow> [] | Some e \<Rightarrow> abi_Code e @ '': '' @ abi_Message e)"

record ErrorDefinition =
  ed_Code :: ErrorCode
  ed_Message :: string
  ed_Retryable :: bool

definition errorCatalog :: "ErrorDefinition list" where
  "errorCatalog = map (\<lambda>(code, msg, retryable). \<lparr>ed_Code = code, ed_Message = msg, ed_Retryable = retryable\<rparr>)
    [(ErrorInvalidJSON, ''JSON is malformed or not canonical ABI input'', False),
     (ErrorUnknownField, ''JSON contains an unknown field'', False),
     (ErrorDuplicateField, ''JSON contains a duplicate object field'', False),
     (ErrorRequestTooLarge, ''request exceeds the configured byte limit'', False),
     (ErrorResponseTooLarge, ''response exceeds the configured byte limit'', False),
     (ErrorInvalidABI, ''request ABI version is unsupported'', False),
     (ErrorInvalidRequest, ''request does not satisfy the ABI contract'', False),
     (ErrorUnknownOperation, ''operation is unsupported'', False),
     (ErrorCapabilityUnavailable, ''required capability is unavailable'', False),
     (ErrorExecutionStateRequired, ''host did not provide checked execution state'', False),
     (ErrorDeadlineExceeded, ''request deadline has been exceeded'', True),
     (ErrorCancellationRequested, ''request cancellation was requested'', False),
     (ErrorInvalidBase64, ''value is not canonical standard padded Base64'', False),
     (ErrorInvalidUTF8, ''value is not valid UTF-8'', False),
     (ErrorInputTooLarge, ''operation input exceeds the configured byte limit'', False),
     (ErrorInvalidKey, ''cryptographic key has an invalid length'', False),
     (ErrorInvalidNonce, ''AES-GCM nonce must be exactly 12 bytes'', False),
     (ErrorAuthenticationFailed, ''AES-GCM authentication failed'', False),
     (ErrorInternal, ''portable operation failed without a safe public detail'', False)]"

definition newABIError :: "ErrorCode \<Rightarrow> string \<Rightarrow> ABIError" where
  "newABIError code field =
     (case find (\<lambda>d. ed_Code d = code) errorCatalog of
        Some d \<Rightarrow> \<lparr>abi_Code = ed_Code d, abi_Message = ed_Message d, abi_Retryable = ed_Retryable d, abi_Field = field\<rparr>
      | None \<Rightarrow> \<lparr>abi_Code = ErrorInternal, abi_Message = ''portable operation failed without a safe public detail'',
          abi_Retryable = False, abi_Field = []\<rparr>)"

definition errorDefinitions :: "ErrorDefinition list" where
  "errorDefinitions = errorCatalog"

definition ABIError_json :: "ABIError \<Rightarrow> string" where
  "ABIError_json e = json_object ([(''code'', json_quote (abi_Code e)), (''message'', json_quote (abi_Message e)),
     (''retryable'', json_bool (abi_Retryable e))] @ omit_when (abi_Field e = []) (''field'', json_quote (abi_Field e)))"

definition ErrorDefinition_json :: "ErrorDefinition \<Rightarrow> string" where
  "ErrorDefinition_json d = json_object [(''code'', json_quote (ed_Code d)), (''message'', json_quote (ed_Message d)),
     (''retryable'', json_bool (ed_Retryable d))]"

subsection \<open>Operations and limits, \<^verbatim>\<open>abi.go\<close>\<close>

definition PackageName :: string where "PackageName = ''pointerbyte:goforge''"
definition PackageVersion :: string where "PackageVersion = ''0.1.0''"
definition ABIVersion :: string where "ABIVersion = ''goforge.abi.v1''"
definition ManifestSchema :: string where "ManifestSchema = ''goforge.manifest.v1''"

type_synonym Operation = string

definition OperationNormalize :: Operation where "OperationNormalize = ''text.normalize''"
definition OperationValidate :: Operation where "OperationValidate = ''text.validate''"
definition OperationSHA256 :: Operation where "OperationSHA256 = ''crypto.sha256''"
definition OperationHMACSHA256 :: Operation where "OperationHMACSHA256 = ''crypto.hmac-sha256''"
definition OperationAESGCMEncrypt :: Operation where "OperationAESGCMEncrypt = ''crypto.aes-gcm.encrypt''"
definition OperationAESGCMDecrypt :: Operation where "OperationAESGCMDecrypt = ''crypto.aes-gcm.decrypt''"
definition OperationBase64Encode :: Operation where "OperationBase64Encode = ''encoding.base64.encode''"
definition OperationBase64Decode :: Operation where "OperationBase64Decode = ''encoding.base64.decode''"

lemmas operation_defs =
  OperationNormalize_def OperationValidate_def OperationSHA256_def OperationHMACSHA256_def OperationAESGCMEncrypt_def
  OperationAESGCMDecrypt_def OperationBase64Encode_def OperationBase64Decode_def

record Limits =
  MaxRequestBytes :: int
  MaxResponseBytes :: int
  MaxBinaryBytes :: int
  MaxStringBytes :: int
  MaxIDBytes :: int
  MaxCancellationTokenBytes :: int
  MaxRequiredCapabilities :: int
  MaxJSONDepth :: int

definition DefaultLimits :: Limits where
  "DefaultLimits = \<lparr>MaxRequestBytes = 2 ^ 20, MaxResponseBytes = 2 ^ 20, MaxBinaryBytes = 512 * 2 ^ 10, MaxStringBytes = 64 * 2 ^ 10,
     MaxIDBytes = 128, MaxCancellationTokenBytes = 256, MaxRequiredCapabilities = 32, MaxJSONDepth = 32\<rparr>"

definition Limits_json :: "Limits \<Rightarrow> string" where
  "Limits_json l = json_object [(''max_request_bytes'', json_int (MaxRequestBytes l)), (''max_response_bytes'', json_int (MaxResponseBytes l)),
     (''max_binary_bytes'', json_int (MaxBinaryBytes l)), (''max_string_bytes'', json_int (MaxStringBytes l)),
     (''max_id_bytes'', json_int (MaxIDBytes l)), (''max_cancellation_token_bytes'', json_int (MaxCancellationTokenBytes l)),
     (''max_required_capabilities'', json_int (MaxRequiredCapabilities l)), (''max_json_depth'', json_int (MaxJSONDepth l))]"

record EncodingDefinition =
  enc_JSON :: string
  enc_Binary :: string

record OperationDefinition =
  od_Name :: Operation
  od_Capability :: string

record CapabilityDefinition =
  cap_Name :: string
  cap_Version :: string
  cap_Host :: bool
  cap_Operations :: "Operation list"

record Manifest =
  man_Schema :: string
  man_Package :: string
  man_Version :: string
  man_ABI :: string
  man_Encoding :: EncodingDefinition
  man_Limits :: Limits
  man_Operations :: "OperationDefinition list"
  man_Capabilities :: "CapabilityDefinition list"
  man_Errors :: "ErrorDefinition list"

text \<open>A \<open>json.RawMessage\<close> is its bytes; Go's nil is the empty one, which \<open>len\<close> cannot tell apart.\<close>

record RequestMetadata =
  DeadlineUnixMilliseconds :: "int option"
  md_CancellationToken :: string
  RequiredCapabilities :: "string list"

record Request =
  req_ABI :: string
  req_ID :: string
  req_Operation :: Operation
  req_Metadata :: "RequestMetadata option"
  req_Payload :: string

record ExecutionState =
  ClockChecked :: bool
  NowUnixMilliseconds :: int
  CancellationChecked :: bool
  es_CancellationToken :: string
  CancellationRequested :: bool

record Response =
  resp_ABI :: string
  resp_ID :: string
  resp_OK :: bool
  resp_Result :: string
  resp_Error :: "ABIError option"

text \<open>The bytes of a \<open>json.RawMessage\<close> field are compacted.\<close>

definition Response_json :: "Response \<Rightarrow> string" where
  "Response_json r = json_object
     ([(''abi'', json_quote (resp_ABI r)), (''id'', json_quote (resp_ID r)), (''ok'', json_bool (resp_OK r))]
      @ omit_when (resp_Result r = []) (''result'', json_compact False (resp_Result r))
      @ (case resp_Error r of None \<Rightarrow> [] | Some e \<Rightarrow> [(''error'', ABIError_json e)]))"

subsection \<open>The manifest, \<^verbatim>\<open>manifest.go\<close>\<close>

definition OperationDefinition_json :: "OperationDefinition \<Rightarrow> string" where
  "OperationDefinition_json d = json_object [(''name'', json_quote (od_Name d)), (''capability'', json_quote (od_Capability d))]"

definition CapabilityDefinition_json :: "CapabilityDefinition \<Rightarrow> string" where
  "CapabilityDefinition_json d = json_object
     ([(''name'', json_quote (cap_Name d)), (''version'', json_quote (cap_Version d)), (''host'', json_bool (cap_Host d))]
      @ omit_when (cap_Operations d = []) (''operations'', json_array (map json_quote (cap_Operations d))))"

definition Manifest_json :: "Manifest \<Rightarrow> string" where
  "Manifest_json m = json_object
     [(''schema'', json_quote (man_Schema m)), (''package'', json_quote (man_Package m)), (''version'', json_quote (man_Version m)),
      (''abi'', json_quote (man_ABI m)),
      (''encoding'', json_object [(''json'', json_quote (enc_JSON (man_Encoding m))), (''binary'', json_quote (enc_Binary (man_Encoding m)))]),
      (''limits'', Limits_json (man_Limits m)), (''operations'', json_array (map OperationDefinition_json (man_Operations m))),
      (''capabilities'', json_array (map CapabilityDefinition_json (man_Capabilities m))),
      (''errors'', json_array (map ErrorDefinition_json (man_Errors m)))]"

definition manifest_operations :: "OperationDefinition list" where
  "manifest_operations = map (\<lambda>(name, capability). \<lparr>od_Name = name, od_Capability = capability\<rparr>)
    [(OperationNormalize, ''portable.normalize''),
     (OperationValidate, ''portable.validate''),
     (OperationSHA256, ''crypto.sha256''),
     (OperationHMACSHA256, ''crypto.hmac-sha256''),
     (OperationAESGCMEncrypt, ''crypto.aes-gcm''),
     (OperationAESGCMDecrypt, ''crypto.aes-gcm''),
     (OperationBase64Encode, ''encoding.base64''),
     (OperationBase64Decode, ''encoding.base64'')]"

definition manifest_capabilities :: "CapabilityDefinition list" where
  "manifest_capabilities = map (\<lambda>(name, host, operations).
      \<lparr>cap_Name = name, cap_Version = ''1'', cap_Host = host, cap_Operations = operations\<rparr>)
    [(''portable.normalize'', False, [OperationNormalize]),
     (''portable.validate'', False, [OperationValidate]),
     (''crypto.sha256'', False, [OperationSHA256]),
     (''crypto.hmac-sha256'', False, [OperationHMACSHA256]),
     (''crypto.aes-gcm'', False, [OperationAESGCMEncrypt, OperationAESGCMDecrypt]),
     (''encoding.base64'', False, [OperationBase64Encode, OperationBase64Decode]),
     (''control.deadline'', True, []),
     (''control.cancellation'', True, [])]"

definition manifestFor :: "Limits \<Rightarrow> Manifest" where
  "manifestFor limits = \<lparr>man_Schema = ManifestSchema, man_Package = PackageName, man_Version = PackageVersion, man_ABI = ABIVersion,
     man_Encoding = \<lparr>enc_JSON = ''RFC 8259; UTF-8; unique object fields; unknown fields rejected'',
       enc_Binary = ''RFC 4648 standard alphabet with required padding''\<rparr>,
     man_Limits = limits, man_Operations = manifest_operations, man_Capabilities = manifest_capabilities,
     man_Errors = errorDefinitions\<rparr>"

definition isKnownOperation :: "Operation \<Rightarrow> bool" where
  "isKnownOperation operation \<longleftrightarrow> operation \<in> {OperationNormalize, OperationValidate, OperationSHA256, OperationHMACSHA256,
     OperationAESGCMEncrypt, OperationAESGCMDecrypt, OperationBase64Encode, OperationBase64Decode}"

definition supportsCapability :: "string \<Rightarrow> bool" where
  "supportsCapability capability \<longleftrightarrow> capability \<in> {''portable.normalize'', ''portable.validate'', ''crypto.sha256'', ''crypto.hmac-sha256'',
     ''crypto.aes-gcm'', ''encoding.base64'', ''control.deadline'', ''control.cancellation''}"

lemma manifest_is_complete:
  "isKnownOperation x \<longleftrightarrow> x \<in> od_Name ` set manifest_operations"
  "supportsCapability c \<longleftrightarrow> c \<in> cap_Name ` set manifest_capabilities"
  by (auto simp: isKnownOperation_def supportsCapability_def manifest_operations_def manifest_capabilities_def)

lemma newABIError_Code: "code \<in> ed_Code ` set errorCatalog \<Longrightarrow> abi_Code (newABIError code field) = code \<and> abi_Field (newABIError code field) = field"
proof -
  assume "code \<in> ed_Code ` set errorCatalog"
  then obtain d where d: "find (\<lambda>d. ed_Code d = code) errorCatalog = Some d"
    by (cases "find (\<lambda>d. ed_Code d = code) errorCatalog") (auto simp: find_None_iff)
  then have "ed_Code d = code" by (auto simp: find_Some_iff)
  then show ?thesis using d by (simp add: newABIError_def)
qed

end
