(* ===== verification/Strict_Json.thy ===== *)
theory Strict_Json
  imports Portable_Abi
begin

text \<open>
  Strict decoding, \<^verbatim>\<open>share/portable/json.go\<close>. \<open>validateJSONStructure\<close> walks the token stream of \<open>json.Decoder\<close> and stops at
  the first violation; \<open>strictDecode\<close> then decodes into a struct that admits no unknown field. The walk is shown to accept
  exactly the texts whose tree has unique names and bounded depth.
\<close>

subsection \<open>The token walk\<close>

definition invalid_json :: ABIError where
  "invalid_json = newABIError ErrorInvalidJSON []"

text \<open>
  The closure \<open>scanValue\<close> and its two loops, on the text that is left. The first argument is fuel; a scalar is one token.
  \<open>seen\<close> are the names seen so far, \<open>first\<close> says that no member or element was read yet.
\<close>

fun scanValue :: "nat \<Rightarrow> int \<Rightarrow> int \<Rightarrow> string \<Rightarrow> ABIError + string"
  and scan_members :: "nat \<Rightarrow> int \<Rightarrow> int \<Rightarrow> bool \<Rightarrow> string list \<Rightarrow> string \<Rightarrow> ABIError + string"
  and scan_elements :: "nat \<Rightarrow> int \<Rightarrow> int \<Rightarrow> bool \<Rightarrow> string \<Rightarrow> ABIError + string" where
  "scanValue 0 maxDepth depth s = Inl invalid_json"
| "scanValue (Suc n) maxDepth depth s =
     (if depth > maxDepth then Inl invalid_json
      else (case skip_ws s of [] \<Rightarrow> Inl invalid_json | c # r \<Rightarrow>
        if c = CHR ''{'' then scan_members n maxDepth depth True [] r
        else if c = CHR ''['' then scan_elements n maxDepth depth True r
        else (case parse_value 1 0 (c # r) of None \<Rightarrow> Inl invalid_json | Some (v, q) \<Rightarrow> Inr q)))"
| "scan_members 0 maxDepth depth first seen s = Inl invalid_json"
| "scan_members (Suc n) maxDepth depth first seen s =
     (case skip_ws s of [] \<Rightarrow> Inl invalid_json | c # r \<Rightarrow>
        if c = CHR ''}'' then Inr r
        else (case (if first then c # r else if c = CHR '','' then skip_ws r else []) of [] \<Rightarrow> Inl invalid_json | c1 # r1 \<Rightarrow>
          if c1 \<noteq> dquote then Inl invalid_json
          else (case scan_string r1 of None \<Rightarrow> Inl invalid_json | Some (raw, q) \<Rightarrow>
            if unquote raw \<in> set seen then Inl (newABIError ErrorDuplicateField (unquote raw))
            else (case skip_ws q of [] \<Rightarrow> Inl invalid_json | c2 # q1 \<Rightarrow>
              if c2 \<noteq> CHR '':'' then Inl invalid_json
              else (case scanValue n maxDepth (depth + 1) q1 of Inl e \<Rightarrow> Inl e
                 | Inr z \<Rightarrow> scan_members n maxDepth depth False (unquote raw # seen) z)))))"
| "scan_elements 0 maxDepth depth first s = Inl invalid_json"
| "scan_elements (Suc n) maxDepth depth first s =
     (case skip_ws s of [] \<Rightarrow> Inl invalid_json | c # r \<Rightarrow>
        if c = CHR '']'' then Inr r
        else (case (if first then c # r else if c = CHR '','' then r else []) of [] \<Rightarrow> Inl invalid_json | c1 # r1 \<Rightarrow>
          (case scanValue n maxDepth (depth + 1) (c1 # r1) of Inl e \<Rightarrow> Inl e
             | Inr z \<Rightarrow> scan_elements n maxDepth depth False z)))"

declare scanValue.simps [simp del] scan_members.simps [simp del] scan_elements.simps [simp del]

definition validateJSONStructure :: "string \<Rightarrow> int \<Rightarrow> ABIError option" where
  "validateJSONStructure data maxDepth =
     (case scanValue (2 * length data + 2) maxDepth 1 data of Inl e \<Rightarrow> Some e
      | Inr q \<Rightarrow> if skip_ws q = [] then None else Some invalid_json)"

subsection \<open>Decoding\<close>

definition strictDecode :: "'r field list \<Rightarrow> string \<Rightarrow> 'r \<Rightarrow> int \<Rightarrow> ABIError + 'r" where
  "strictDecode fs data destination maxDepth =
     (if \<not> utf8_Valid data then Inl (newABIError ErrorInvalidUTF8 [])
      else (case validateJSONStructure data maxDepth of Some e \<Rightarrow> Inl e
      | None \<Rightarrow> (case parse_one (skip_ws data) of None \<Rightarrow> Inl invalid_json
      | Some (v, q) \<Rightarrow> (case decode_struct True fs v destination of
            (Some JUnknownField, _) \<Rightarrow> Inl (newABIError ErrorUnknownField [])
          | (Some _, _) \<Rightarrow> Inl invalid_json
          | (None, r) \<Rightarrow> if skip_ws q = [] then Inr r else Inl invalid_json))))"

definition strictDecodeObject :: "'r field list \<Rightarrow> string \<Rightarrow> 'r \<Rightarrow> int \<Rightarrow> ABIError + 'r" where
  "strictDecodeObject fs data destination maxDepth =
     (let trimmed = TrimSpace data in
      if length trimmed < 2 \<or> hd trimmed \<noteq> CHR ''{'' \<or> last trimmed \<noteq> CHR ''}'' then Inl (newABIError ErrorInvalidJSON ''payload'')
      else strictDecode fs trimmed destination maxDepth)"

text \<open>In a Go map the last member of a name wins.\<close>

definition member_text :: "(string \<times> string \<times> json) list \<Rightarrow> string \<Rightarrow> string option" where
  "member_text ms k = map_of (rev (map (\<lambda>(k, raw, v). (k, raw)) ms)) k"

definition missing_field :: "(string \<times> string \<times> json) list \<Rightarrow> string \<Rightarrow> bool" where
  "missing_field ms field = (case member_text ms field of None \<Rightarrow> True | Some raw \<Rightarrow> TrimSpace raw = ''null'')"

definition requireJSONFields :: "string \<Rightarrow> string list \<Rightarrow> ABIError option" where
  "requireJSONFields data names =
     (case (case json_parse data of Some (JObject ms) \<Rightarrow> Some ms | Some JNull \<Rightarrow> Some [] | _ \<Rightarrow> None) of
        None \<Rightarrow> Some (newABIError ErrorInvalidJSON ''payload'')
      | Some ms \<Rightarrow> map_option (\<lambda>field. newABIError ErrorInvalidRequest (''payload.'' @ field)) (find (missing_field ms) names))"


subsection \<open>Trees with unique names and bounded depth\<close>

fun clean :: "nat \<Rightarrow> json \<Rightarrow> bool" where
  "clean 0 v = False"
| "clean (Suc d) (JObject ms) = (distinct (map fst ms) \<and> list_all (\<lambda>(k, raw, v). clean d v) ms)"
| "clean (Suc d) (JArray vs) = list_all (clean d) vs"
| "clean (Suc d) v = True"

text \<open>What follows the opening bracket, or a value, in the parser.\<close>

definition tail_members :: "bool \<Rightarrow> nat \<Rightarrow> nat \<Rightarrow> string \<Rightarrow> ((string \<times> string \<times> json) list \<times> string) option" where
  "tail_members first n d t = (case t of [] \<Rightarrow> None | c # r \<Rightarrow>
     if c = CHR ''}'' then Some ([], r) else if first then parse_members n d t
     else if c = CHR '','' then parse_members n d (skip_ws r) else None)"

definition tail_elements :: "bool \<Rightarrow> nat \<Rightarrow> nat \<Rightarrow> string \<Rightarrow> (json list \<times> string) option" where
  "tail_elements first n d t = (case t of [] \<Rightarrow> None | c # r \<Rightarrow>
     if c = CHR '']'' then Some ([], r) else if first then parse_elements n d t
     else if c = CHR '','' then parse_elements n d (skip_ws r) else None)"

lemma parse_object: "parse_value (Suc n) (Suc d) (CHR ''{'' # r) =
   map_option (\<lambda>(ms, q). (JObject ms, q)) (tail_members True n d (skip_ws r))"
  by (auto simp: parse_value.simps tail_members_def split: list.splits)

lemma parse_array: "parse_value (Suc n) (Suc d) (CHR ''['' # r) =
   map_option (\<lambda>(vs, q). (JArray vs, q)) (tail_elements True n d (skip_ws r))"
  by (auto simp: parse_value.simps tail_elements_def split: list.splits)

lemma parse_scalar:
  assumes "c \<noteq> CHR ''{''" "c \<noteq> CHR ''[''"
  shows "parse_value (Suc n) d (c # r) = parse_value 1 0 (c # r)"
    "parse_value 1 0 (c # r) = Some (v, q) \<Longrightarrow> clean (Suc k) v"
  using assms by (auto simp: parse_value.simps One_nat_def split: if_splits)

lemma parse_members_tail: "parse_members (Suc n) d s =
   (case s of [] \<Rightarrow> None | c # r \<Rightarrow> if c \<noteq> dquote then None
      else (case scan_string r of None \<Rightarrow> None | Some (k, q) \<Rightarrow> (case skip_ws q of [] \<Rightarrow> None | c1 # q1 \<Rightarrow>
        if c1 \<noteq> CHR '':'' then None
        else (case parse_value n d (skip_ws q1) of None \<Rightarrow> None | Some (v, q2) \<Rightarrow>
          map_option (\<lambda>(ms, z). ((unquote k, take (length (skip_ws q1) - length q2) (skip_ws q1), v) # ms, z))
            (tail_members False n d (skip_ws q2))))))"
  by (auto simp: parse_members.simps tail_members_def Let_def split: list.splits option.splits)

lemma parse_elements_tail: "parse_elements (Suc n) d s =
   (case parse_value n d s of None \<Rightarrow> None | Some (v, q) \<Rightarrow> map_option (\<lambda>(vs, z). (v # vs, z)) (tail_elements False n d (skip_ws q)))"
  by (auto simp: parse_elements.simps tail_elements_def split: list.splits option.splits)

lemma skip_ws_idem: "skip_ws s = c # r \<Longrightarrow> skip_ws (c # r) = c # r"
  by (metis hd_dropWhile list.distinct(1) list.sel(1) skip_ws_def skip_ws_stop)
lemma scan_members_step:
  assumes a: "scan_members (Suc n) M depth first seen s = Inr q" "skip_ws s = c # r" "c \<noteq> CHR ''}''"
  obtains r1 raw q1 q2 z where "(if first then c # r else if c = CHR '','' then skip_ws r else []) = dquote # r1"
    "scan_string r1 = Some (raw, q1)" "unquote raw \<notin> set seen" "skip_ws q1 = CHR '':'' # q2"
    "scanValue n M (depth + 1) q2 = Inr z" "scan_members n M depth False (unquote raw # seen) z = Inr q"
proof -
  define t where "t = (if first then c # r else if c = CHR '','' then skip_ws r else [])"
  note b = a(1)[unfolded scan_members.simps a(2) list.case if_not_P[OF a(3)], folded t_def]
  obtain c1 r1 where t: "t = c1 # r1" using b by (cases t) simp_all
  have c1: "c1 = dquote" using b t by (cases "c1 = dquote") simp_all
  obtain raw q1 where k: "scan_string r1 = Some (raw, q1)" using b t c1 by (cases "scan_string r1") auto
  have new: "unquote raw \<notin> set seen" using b t c1 k by (cases "unquote raw \<in> set seen") simp_all
  obtain c2 q2 where q1: "skip_ws q1 = c2 # q2" using b t c1 k new by (cases "skip_ws q1") simp_all
  have c2: "c2 = CHR '':''" using b t c1 k new q1 by (cases "c2 = CHR '':''") simp_all
  obtain z where v: "scanValue n M (depth + 1) q2 = Inr z" using b t c1 k new q1 c2 by (cases "scanValue n M (depth + 1) q2") simp_all
  have "scan_members n M depth False (unquote raw # seen) z = Inr q" using b t c1 k new q1 c2 v by simp
  then show thesis using that[OF _ k new _ v] t_def t c1 q1 c2 by simp
qed

lemma scan_elements_step:
  assumes a: "scan_elements (Suc n) M depth first s = Inr q" "skip_ws s = c # r" "c \<noteq> CHR '']''"
  obtains t z where "(if first then c # r else if c = CHR '','' then r else []) = t" "t \<noteq> []"
    "scanValue n M (depth + 1) t = Inr z" "scan_elements n M depth False z = Inr q"
proof -
  define t where "t = (if first then c # r else if c = CHR '','' then r else [])"
  note b = a(1)[unfolded scan_elements.simps a(2) list.case if_not_P[OF a(3)], folded t_def]
  obtain c1 r1 where t: "t = c1 # r1" using b by (cases t) simp_all
  obtain z where v: "scanValue n M (depth + 1) t = Inr z" using b t by (cases "scanValue n M (depth + 1) t") simp_all
  have rest: "scan_elements n M depth False z = Inr q" using b t v by simp
  have "t \<noteq> []" using t by simp
  then show thesis by (rule that[OF t_def[symmetric] _ v rest])
qed

lemma scan_sound:
  "scanValue n M depth s = Inr q \<Longrightarrow> nat (M - depth + 1) \<le> D
    \<Longrightarrow> \<exists>v. parse_value n D (skip_ws s) = Some (v, q) \<and> clean (nat (M - depth + 1)) v"
  "scan_members n M depth first seen s = Inr q \<Longrightarrow> nat (M - depth) \<le> D
    \<Longrightarrow> \<exists>ms. tail_members first n D (skip_ws s) = Some (ms, q) \<and> distinct (map fst ms) \<and> fst ` set ms \<inter> set seen = {}
      \<and> list_all (\<lambda>(k, raw, v). clean (nat (M - depth)) v) ms"
  "scan_elements n M depth first s = Inr q \<Longrightarrow> nat (M - depth) \<le> D
    \<Longrightarrow> \<exists>vs. tail_elements first n D (skip_ws s) = Some (vs, q) \<and> list_all (clean (nat (M - depth))) vs"
proof (induction n arbitrary: depth s q D first seen)
  case (Suc n)
  {
    case 1
    then obtain c r where s: "skip_ws s = c # r" and d: "depth \<le> M"
      by (auto simp: scanValue.simps split: if_splits list.splits)
    then have dn: "nat (M - depth + 1) = Suc (nat (M - depth))" by simp
    then obtain D' where D: "D = Suc D'" "nat (M - depth) \<le> D'" using 1(2) by (cases D) auto
    consider (obj) "c = CHR ''{''" | (arr) "c = CHR ''[''" | (scalar) "c \<noteq> CHR ''{''" "c \<noteq> CHR ''[''" by blast
    then show ?case
    proof cases
      case obj
      then have "scan_members n M depth True [] r = Inr q" using 1(1) s d by (simp add: scanValue.simps)
      from Suc(2)[OF this D(2)] show ?thesis unfolding s D(1) dn obj by (auto simp: parse_object)
    next
      case arr
      then have "scan_elements n M depth True r = Inr q" using 1(1) s d by (simp add: scanValue.simps)
      from Suc(3)[OF this D(2)] show ?thesis unfolding s D(1) dn arr by (auto simp: parse_array)
    next
      case scalar
      then obtain v where "parse_value 1 0 (c # r) = Some (v, q)"
        using 1(1)[unfolded scanValue.simps s list.case if_not_P[OF scalar(1)] if_not_P[OF scalar(2)]] d
        by (cases "parse_value 1 0 (c # r)") auto
      then have "parse_value (Suc n) D (c # r) = Some (v, q)" using parse_scalar(1)[OF scalar, of n D r] by (rule trans[rotated])
      then show ?thesis unfolding s dn using parse_scalar(2)[OF scalar \<open>parse_value 1 0 (c # r) = Some (v, q)\<close>] by blast
    qed
  next
    case 2
    then obtain c r where s: "skip_ws s = c # r" by (auto simp: scan_members.simps split: list.splits)
    show ?case
    proof (cases "c = CHR ''}''")
      case True
      then show ?thesis using 2(1) s by (simp add: scan_members.simps tail_members_def)
    next
      case False
      obtain r1 raw q1 q2 z where t: "(if first then c # r else if c = CHR '','' then skip_ws r else []) = dquote # r1"
        and k: "scan_string r1 = Some (raw, q1)" "unquote raw \<notin> set seen" "skip_ws q1 = CHR '':'' # q2"
        and v: "scanValue n M (depth + 1) q2 = Inr z" and rest: "scan_members n M depth False (unquote raw # seen) z = Inr q"
        by (rule scan_members_step[OF 2(1) s False])
      have "nat (M - (depth + 1) + 1) = nat (M - depth)" by simp
      then obtain x where x: "parse_value n D (skip_ws q2) = Some (x, z)" "clean (nat (M - depth)) x"
        using Suc(1)[OF v, of D] 2(2) by auto
      obtain ms where ms: "tail_members False n D (skip_ws z) = Some (ms, q)" "distinct (map fst ms)"
        "fst ` set ms \<inter> set (unquote raw # seen) = {}" "list_all (\<lambda>(k, raw, v). clean (nat (M - depth)) v) ms"
        using Suc(2)[OF rest 2(2)] by blast
      let ?m = "(unquote raw, take (length (skip_ws q2) - length z) (skip_ws q2), x)"
      have "parse_members (Suc n) D (dquote # r1) = Some (?m # ms, q)" using k x ms by (simp add: parse_members_tail)
      then have "tail_members first (Suc n) D (skip_ws s) = Some (?m # ms, q)"
        using t s False by (auto simp: tail_members_def split: if_splits)
      then show ?thesis using ms k x by auto
    qed
  next
    case 3
    then obtain c r where s: "skip_ws s = c # r" by (auto simp: scan_elements.simps split: list.splits)
    show ?case
    proof (cases "c = CHR '']''")
      case True
      then show ?thesis using 3(1) s by (simp add: scan_elements.simps tail_elements_def)
    next
      case False
      obtain t z where t: "(if first then c # r else if c = CHR '','' then r else []) = t" "t \<noteq> []"
        and v: "scanValue n M (depth + 1) t = Inr z" and rest: "scan_elements n M depth False z = Inr q"
        by (rule scan_elements_step[OF 3(1) s False])
      have "nat (M - (depth + 1) + 1) = nat (M - depth)" by simp
      then obtain x where x: "parse_value n D (skip_ws t) = Some (x, z)" "clean (nat (M - depth)) x"
        using Suc(1)[OF v, of D] 3(2) by auto
      obtain vs where vs: "tail_elements False n D (skip_ws z) = Some (vs, q)" "list_all (clean (nat (M - depth))) vs"
        using Suc(3)[OF rest 3(2)] by blast
      have "parse_elements (Suc n) D (skip_ws t) = Some (x # vs, q)" using x vs by (simp add: parse_elements_tail)
      moreover have "skip_ws t = (if first then c # r else skip_ws r)" "first \<or> c = CHR '',''"
        using t skip_ws_idem[OF s] by (auto split: if_splits)
      ultimately have "tail_elements first (Suc n) D (skip_ws s) = Some (x # vs, q)"
        using s False by (auto simp: tail_elements_def)
      then show ?thesis using vs x by auto
    qed
  }
qed (simp_all add: scanValue.simps scan_members.simps scan_elements.simps)
lemma parse_members_step:
  assumes "parse_members (Suc n) D t = Some (ms, q)"
  obtains r1 raw q1 q2 x z ms' where "t = dquote # r1" "scan_string r1 = Some (raw, q1)" "skip_ws q1 = CHR '':'' # q2"
    "parse_value n D (skip_ws q2) = Some (x, z)" "tail_members False n D (skip_ws z) = Some (ms', q)"
    "ms = (unquote raw, take (length (skip_ws q2) - length z) (skip_ws q2), x) # ms'"
proof -
  note b = assms[unfolded parse_members_tail]
  obtain c r1 where t: "t = c # r1" using b by (cases t) simp_all
  have c: "c = dquote" using b t by (cases "c = dquote") simp_all
  obtain raw q1 where k: "scan_string r1 = Some (raw, q1)" using b t c by (cases "scan_string r1") auto
  obtain c2 q2 where q1: "skip_ws q1 = c2 # q2" using b t c k by (cases "skip_ws q1") simp_all
  have c2: "c2 = CHR '':''" using b t c k q1 by (cases "c2 = CHR '':''") simp_all
  obtain x z where v: "parse_value n D (skip_ws q2) = Some (x, z)" using b t c k q1 c2 by (cases "parse_value n D (skip_ws q2)") auto
  show thesis using b t c k q1 c2 v by (cases "tail_members False n D (skip_ws z)") (auto intro: that)
qed

lemma scan_complete:
  "parse_value n D (skip_ws s) = Some (v, q) \<Longrightarrow> clean (nat (M - depth + 1)) v \<Longrightarrow> scanValue (Suc n) M depth s = Inr q"
  "tail_members first n D (skip_ws s) = Some (ms, q) \<Longrightarrow> distinct (map fst ms) \<Longrightarrow> fst ` set ms \<inter> set seen = {}
    \<Longrightarrow> list_all (\<lambda>(k, raw, v). clean (nat (M - depth)) v) ms \<Longrightarrow> scan_members (Suc n) M depth first seen s = Inr q"
  "tail_elements first n D (skip_ws s) = Some (vs, q) \<Longrightarrow> list_all (clean (nat (M - depth))) vs
    \<Longrightarrow> scan_elements (Suc n) M depth first s = Inr q"
proof (induction n arbitrary: depth s q D first seen v ms vs)
  case 0
  {
    case 1
    then show ?case by (simp add: parse_value.simps)
  next
    case 2
    then show ?case by (auto simp: tail_members_def scan_members.simps parse_members.simps split: list.splits if_splits)
  next
    case 3
    then show ?case by (auto simp: tail_elements_def scan_elements.simps parse_elements.simps split: list.splits if_splits)
  }
next
  case (Suc n)
  {
    case 1
    then obtain c r where s: "skip_ws s = c # r" by (cases "skip_ws s") (auto simp: parse_value.simps)
    have d: "depth \<le> M" using 1(2) by (cases "depth \<le> M") auto
    then have dn: "nat (M - depth + 1) = Suc (nat (M - depth))" by simp
    consider (obj) "c = CHR ''{''" | (arr) "c = CHR ''[''" | (scalar) "c \<noteq> CHR ''{''" "c \<noteq> CHR ''[''" by blast
    then show ?case
    proof cases
      case obj
      then obtain D' where D: "D = Suc D'" using 1(1) s by (cases D) (auto simp: parse_value.simps)
      obtain ms where "v = JObject ms" "tail_members True n D' (skip_ws r) = Some (ms, q)"
        using 1(1) unfolding s obj D by (auto simp: parse_object)
      then show ?thesis using Suc(2)[of True D' r ms q "[]" depth] 1(2) s d obj unfolding dn by (simp add: scanValue.simps(2)[of "Suc n"])
    next
      case arr
      then obtain D' where D: "D = Suc D'" using 1(1) s by (cases D) (auto simp: parse_value.simps)
      obtain vs where "v = JArray vs" "tail_elements True n D' (skip_ws r) = Some (vs, q)"
        using 1(1) unfolding s arr D by (auto simp: parse_array)
      then show ?thesis using Suc(3)[of True D' r vs q depth] 1(2) s d arr unfolding dn by (simp add: scanValue.simps(2)[of "Suc n"])
    next
      case scalar
      have "parse_value 1 0 (c # r) = Some (v, q)" using 1(1) parse_scalar(1)[OF scalar, of n D r] unfolding s by (rule trans[OF sym, rotated])
      then show ?thesis using d scalar s by (simp add: scanValue.simps(2)[of "Suc n"])
    qed
  next
    case 2
    then obtain c r where s: "skip_ws s = c # r" by (cases "skip_ws s") (auto simp: tail_members_def)
    show ?case
    proof (cases "c = CHR ''}''")
      case True
      then show ?thesis using 2(1) s by (simp add: scan_members.simps(2)[of "Suc n"] tail_members_def)
    next
      case False
      obtain t where t: "parse_members (Suc n) D t = Some (ms, q)" "t = (if first then c # r else if c = CHR '','' then skip_ws r else [])"
        using 2(1) s False by (auto simp: tail_members_def split: if_splits)
      from t(1) obtain r1 raw q1 q2 x z ms' where h: "t = dquote # r1" "scan_string r1 = Some (raw, q1)" "skip_ws q1 = CHR '':'' # q2"
        "parse_value n D (skip_ws q2) = Some (x, z)" "tail_members False n D (skip_ws z) = Some (ms', q)"
        "ms = (unquote raw, take (length (skip_ws q2) - length z) (skip_ws q2), x) # ms'"
        by (rule parse_members_step)
      have "nat (M - (depth + 1) + 1) = nat (M - depth)" by simp
      then have "scanValue (Suc n) M (depth + 1) q2 = Inr z" using Suc(1)[OF h(4), of "depth + 1"] 2(4) h(6) by simp
      moreover have "scan_members (Suc n) M depth False (unquote raw # seen) z = Inr q"
        using Suc(2)[OF h(5)] 2(2-4) h(6) by simp
      ultimately show ?thesis using h(1-3) t(2) s False 2(3) h(6) by (simp add: scan_members.simps(2)[of "Suc n"])
    qed
  next
    case 3
    then obtain c r where s: "skip_ws s = c # r" by (cases "skip_ws s") (auto simp: tail_elements_def)
    show ?case
    proof (cases "c = CHR '']''")
      case True
      then show ?thesis using 3(1) s by (simp add: scan_elements.simps(2)[of "Suc n"] tail_elements_def)
    next
      case False
      obtain t where t: "parse_elements (Suc n) D (skip_ws t) = Some (vs, q)" "t = (if first then c # r else if c = CHR '','' then r else [])"
        using 3(1) s False skip_ws_idem[OF s] by (auto simp: tail_elements_def split: if_splits)
      then obtain x z vs' where h: "parse_value n D (skip_ws t) = Some (x, z)" "tail_elements False n D (skip_ws z) = Some (vs', q)"
        "vs = x # vs'" by (auto simp: parse_elements_tail split: option.splits)
      have "nat (M - (depth + 1) + 1) = nat (M - depth)" by simp
      then have "scanValue (Suc n) M (depth + 1) t = Inr z" using Suc(1)[OF h(1), of "depth + 1"] 3(2) h(3) by simp
      moreover have "scan_elements (Suc n) M depth False z = Inr q" using Suc(3)[OF h(2)] 3(2) h(3) by simp
      moreover obtain c1 r1 where "t = c1 # r1" using h(1) by (cases t; cases n) (auto simp: skip_ws_def parse_value.simps)
      ultimately show ?thesis using t(2) s False by (simp add: scan_elements.simps(2)[of "Suc n"])
    qed
  }
qed


lemma validate_None:
  assumes "json_parse s = Some v" "clean (nat M) v"
  shows "validateJSONStructure s M = None"
proof -
  obtain q where q: "parse_value (2 * length (skip_ws s) + 1) maxNestingDepth (skip_ws s) = Some (v, q)" "skip_ws q = []"
    using assms(1) by (auto simp: json_parse_def parse_one_def split: option.splits if_splits)
  have "parse_value (2 * length s + 1) maxNestingDepth (skip_ws s) = Some (v, q)"
    using q(1) parse_fuel(1)[of "skip_ws s" "2 * length s + 1" "2 * length (skip_ws s) + 1" maxNestingDepth] skip_ws_length[of s] by simp
  from scan_complete(1)[OF this, of M 1] assms(2) q(2) show ?thesis by (simp add: validateJSONStructure_def)
qed

lemma validate_sound:
  assumes "validateJSONStructure s M = None" "M \<le> int maxNestingDepth"
  shows "\<exists>v. json_parse s = Some v \<and> clean (nat M) v"
proof -
  obtain q where q: "scanValue (2 * length s + 2) M 1 s = Inr q" "skip_ws q = []"
    using assms(1) by (auto simp: validateJSONStructure_def split: sum.splits if_splits)
  have "nat (M - 1 + 1) \<le> maxNestingDepth" using assms(2) by linarith
  from scan_sound(1)[OF q(1) this] obtain v where
    v: "parse_value (2 * length s + 2) maxNestingDepth (skip_ws s) = Some (v, q)" "clean (nat M) v" by auto
  have "parse_one (skip_ws s) = Some (v, q)"
    using v(1) parse_fuel(1)[of "skip_ws s" "2 * length s + 2" "2 * length (skip_ws s) + 1" maxNestingDepth] skip_ws_length[of s]
    by (simp add: parse_one_def)
  then show ?thesis using q(2) v(2) by (auto simp: json_parse_def)
qed

lemma strictDecode_Inr:
  assumes "strictDecode fs data r M = Inr x"
  shows "utf8_Valid data" "validateJSONStructure data M = None" "\<exists>v. json_parse data = Some v \<and> decode_struct True fs v r = (None, x)"
  using assms by (auto simp: strictDecode_def json_parse_def split: if_splits option.splits prod.splits json_error.splits)

lemma strictDecode_intro:
  assumes "utf8_Valid data" "json_parse data = Some v" "clean (nat M) v" "decode_struct True fs v r = (None, x)"
  shows "strictDecode fs data r M = Inr x"
  using assms validate_None[OF assms(2,3)] by (auto simp: strictDecode_def json_parse_def split: option.splits if_splits)

subsection \<open>Properties\<close>

text \<open>
  C19: The token walk accepts exactly the texts that parse to a value in which no object has two members of the same name and
  whose nesting is within the limit (for limits up to the 10000 levels the second decoder allows).\<close>
theorem validateJSONStructure_iff:
  assumes "maxDepth \<le> 10000"
  shows "validateJSONStructure data maxDepth = None \<longleftrightarrow> (\<exists>v. json_parse data = Some v \<and> clean (nat maxDepth) v)"
  using assms validate_None validate_sound by (metis maxNestingDepth_def of_nat_numeral)

theorem validateJSONStructure_iff_witness:
  "validateJSONStructure ''[{}, 1]'' 2 = None \<and> validateJSONStructure ''[{}, 1]'' 1 \<noteq> None"
proof -
  have "json_parse ''[{}, 1]'' = Some (JArray [JObject [], JNumber ''1''])" by code_simp
  then show ?thesis using validateJSONStructure_iff[of 2 "''[{}, 1]''"] validateJSONStructure_iff[of 1 "''[{}, 1]''"]
    by (auto simp: numeral_2_eq_2)
qed

end
