(* ===== verification/Strict_Json_Termination.thy ===== *)
theory Strict_Json_Termination
  imports Strict_Json
begin

text \<open>
  The walk over the tokens ends: each of its steps takes a token off the text, so twice the length of the text bounds the
  steps, and the fuel of the model never decides what the walk returns.
\<close>

lemma scan_length:
  "scanValue n M depth s = Inr q \<Longrightarrow> length q < length s"
  "scan_members n M depth first seen s = Inr q \<Longrightarrow> length q < length s"
  "scan_elements n M depth first s = Inr q \<Longrightarrow> length q < length s"
proof (induction n arbitrary: depth s q first seen)
  case (Suc n)
  { case 1
    then obtain c r where s: "skip_ws s = c # r" by (auto simp: scanValue.simps split: if_splits list.splits)
    note len = skip_ws_Cons[OF s]
    have "length (c # r) \<le> length s" using len by simp
    have d: "\<not> depth > M" using 1 by (auto simp: scanValue.simps)
    show ?case
    proof (cases "c = CHR ''{'' \<or> c = CHR ''[''")
      case True
      then have "scan_members n M depth True [] r = Inr q \<or> scan_elements n M depth True r = Inr q"
        using 1 d s by (auto simp: scanValue.simps)
      then have "length q < length r" using Suc(2,3) by blast
      then show ?thesis using len by simp
    next
      case False
      then obtain v where "parse_value 1 0 (c # r) = Some (v, q)"
        using 1 d s by (auto simp: scanValue.simps split: option.splits)
      then have "length q < length (c # r)" by (rule parse_length(1))
      then show ?thesis using len by simp
    qed
  next
    case 2
    then obtain c r where s: "skip_ws s = c # r" by (auto simp: scan_members.simps split: list.splits)
    note len = skip_ws_Cons[OF s]
    show ?case
    proof (cases "c = CHR ''}''")
      case True
      then show ?thesis using 2 s len by (simp add: scan_members.simps)
    next
      case False
      obtain r1 raw q1 q2 z where h: "(if first then c # r else if c = CHR '','' then skip_ws r else []) = dquote # r1"
        "scan_string r1 = Some (raw, q1)" "skip_ws q1 = CHR '':'' # q2" "scanValue n M (depth + 1) q2 = Inr z"
        "scan_members n M depth False (unquote raw # seen) z = Inr q"
        by (rule scan_members_step[OF 2 s False])
      have "length r1 < length s" using h(1) len skip_ws_length[of r] by (auto split: if_splits)
      then show ?thesis using Suc(1)[OF h(4)] Suc(2)[OF h(5)] scan_string_length[OF h(2)] skip_ws_Cons[OF h(3)] by simp
    qed
  next
    case 3
    then obtain c r where s: "skip_ws s = c # r" by (auto simp: scan_elements.simps split: list.splits)
    note len = skip_ws_Cons[OF s]
    show ?case
    proof (cases "c = CHR '']''")
      case True
      then show ?thesis using 3 s len by (simp add: scan_elements.simps)
    next
      case False
      obtain t z where h: "(if first then c # r else if c = CHR '','' then r else []) = t" "scanValue n M (depth + 1) t = Inr z"
        "scan_elements n M depth False z = Inr q"
        by (rule scan_elements_step[OF 3 s False])
      have "length t \<le> length s" using h(1) len by (auto split: if_splits)
      then show ?thesis using Suc(1)[OF h(2)] Suc(3)[OF h(3)] by simp
    qed
  }
qed (simp_all add: scanValue.simps scan_members.simps scan_elements.simps)

text \<open>One step of each walk with two amounts of fuel, given that the calls it makes agree.\<close>

lemma members_step_cong:
  assumes "\<And>c r r1 raw q1 q2. skip_ws s = c # r \<Longrightarrow> (if first then c # r else if c = CHR '','' then skip_ws r else []) = dquote # r1
      \<Longrightarrow> scan_string r1 = Some (raw, q1) \<Longrightarrow> skip_ws q1 = CHR '':'' # q2 \<Longrightarrow>
      scanValue n M (depth + 1) q2 = scanValue m M (depth + 1) q2
      \<and> (\<forall>z. scanValue m M (depth + 1) q2 = Inr z \<longrightarrow>
          scan_members n M depth False (unquote raw # seen) z = scan_members m M depth False (unquote raw # seen) z)"
  shows "scan_members (Suc n) M depth first seen s = scan_members (Suc m) M depth first seen s"
proof (cases "skip_ws s")
  case Nil
  then show ?thesis by (simp add: scan_members.simps)
next
  case (Cons c r)
  define t where "t = (if first then c # r else if c = CHR '','' then skip_ws r else [])"
  show ?thesis
  proof (cases t)
    case Nil
    then show ?thesis using Cons by (simp add: scan_members.simps t_def[symmetric])
  next
    case t: (Cons c1 r1)
    show ?thesis
    proof (cases "c1 = dquote")
      case False
      then show ?thesis using Cons t by (simp add: scan_members.simps t_def[symmetric])
    next
      case c1: True
      show ?thesis
      proof (cases "scan_string r1")
        case None
        then show ?thesis using Cons t by (simp add: scan_members.simps t_def[symmetric])
      next
        case k: (Some x)
        obtain raw q1 where x: "x = (raw, q1)" by (cases x)
        show ?thesis
        proof (cases "\<exists>q2. skip_ws q1 = CHR '':'' # q2")
          case False
          then show ?thesis using Cons t k x by (cases "skip_ws q1") (simp_all add: scan_members.simps t_def[symmetric])
        next
          case True
          then obtain q2 where q2: "skip_ws q1 = CHR '':'' # q2" by blast
          note a = assms[OF Cons t_def[symmetric, unfolded t c1] k[unfolded x] q2]
          show ?thesis using Cons t k x q2 a
            by (cases "scanValue m M (depth + 1) q2") (simp_all add: scan_members.simps t_def[symmetric])
        qed
      qed
    qed
  qed
qed

lemma elements_step_cong:
  assumes "\<And>c r t. skip_ws s = c # r \<Longrightarrow> (if first then c # r else if c = CHR '','' then r else []) = t \<Longrightarrow>
      scanValue n M (depth + 1) t = scanValue m M (depth + 1) t
      \<and> (\<forall>z. scanValue m M (depth + 1) t = Inr z \<longrightarrow> scan_elements n M depth False z = scan_elements m M depth False z)"
  shows "scan_elements (Suc n) M depth first s = scan_elements (Suc m) M depth first s"
proof (cases "skip_ws s")
  case Nil
  then show ?thesis by (simp add: scan_elements.simps)
next
  case (Cons c r)
  define t where "t = (if first then c # r else if c = CHR '','' then r else [])"
  note a = assms[OF Cons t_def[symmetric]]
  show ?thesis
  proof (cases t)
    case Nil
    then show ?thesis using Cons by (simp add: scan_elements.simps t_def[symmetric])
  next
    case t: (Cons c1 r1)
    then show ?thesis using Cons a[unfolded t]
      by (cases "scanValue m M (depth + 1) (c1 # r1)") (simp_all add: scan_elements.simps t_def[symmetric])
  qed
qed

lemma scan_fuel:
  "2 * length s < n \<Longrightarrow> 2 * length s < m \<Longrightarrow> scanValue n M depth s = scanValue m M depth s"
  "2 * length s < n \<Longrightarrow> 2 * length s < m \<Longrightarrow> scan_members n M depth first seen s = scan_members m M depth first seen s"
  "2 * length s + 1 < n \<Longrightarrow> 2 * length s + 1 < m \<Longrightarrow> scan_elements n M depth first s = scan_elements m M depth first s"
proof (induction n arbitrary: m depth s first seen)
  case (Suc n)
  { case 1
    then obtain m' where m: "m = Suc m'" by (cases m) auto
    show ?case
    proof (cases "skip_ws s")
      case Nil
      then show ?thesis by (simp add: m scanValue.simps)
    next
      case (Cons c r)
      note len = skip_ws_Cons[OF Cons]
      have "scan_members n M depth True [] r = scan_members m' M depth True [] r" using Suc(2)[of r m'] len 1 m by simp
      moreover have "scan_elements n M depth True r = scan_elements m' M depth True r" using Suc(3)[of r m'] len 1 m by simp
      ultimately show ?thesis using Cons by (simp add: m scanValue.simps)
    qed
  next
    case 2
    then obtain m' where m: "m = Suc m'" by (cases m) auto
    have "scanValue n M (depth + 1) q2 = scanValue m' M (depth + 1) q2 \<and> (\<forall>z. scanValue m' M (depth + 1) q2 = Inr z \<longrightarrow>
        scan_members n M depth False (unquote raw # seen) z = scan_members m' M depth False (unquote raw # seen) z)"
      if h: "skip_ws s = c # r" "(if first then c # r else if c = CHR '','' then skip_ws r else []) = dquote # r1"
        "scan_string r1 = Some (raw, q1)" "skip_ws q1 = CHR '':'' # q2" for c r r1 raw q1 q2
    proof -
      have "length r1 < length s" using h(2) skip_ws_Cons[OF h(1)] skip_ws_length[of r] by (auto split: if_splits)
      then have "length q2 < length s" using scan_string_length[OF h(3)] skip_ws_Cons[OF h(4)] by simp
      then show ?thesis using Suc(1)[of q2 m'] Suc(2)[of _ m'] scan_length(1)[of m' M _ q2] 2 m by fastforce
    qed
    then show ?case unfolding m by (rule members_step_cong)
  next
    case 3
    then obtain m' where m: "m = Suc m'" by (cases m) auto
    have "scanValue n M (depth + 1) t = scanValue m' M (depth + 1) t
        \<and> (\<forall>z. scanValue m' M (depth + 1) t = Inr z \<longrightarrow> scan_elements n M depth False z = scan_elements m' M depth False z)"
      if h: "skip_ws s = c # r" "(if first then c # r else if c = CHR '','' then r else []) = t" for c r t
    proof -
      have "length t \<le> length s" using h(2) skip_ws_Cons[OF h(1)] by (auto split: if_splits)
      then show ?thesis using Suc(1)[of t m'] Suc(3)[of _ m'] scan_length(1)[of m' M _ t] 3 m by fastforce
    qed
    then show ?case unfolding m by (rule elements_step_cong)
  }
qed simp_all



end
