(* ===== verification/Portable_Operations.thy ===== *)
theory Portable_Operations
  imports Strict_Json Encrypt_Utilities
begin

text \<open>
  The operations of the portable ABI: \<^verbatim>\<open>share/portable/binary.go\<close>, \<^verbatim>\<open>text.go\<close>, \<^verbatim>\<open>crypto.go\<close> and \<^verbatim>\<open>operations.go\<close>. The
  primitives of the standard library come from the record \<open>crypto\<close>; wiping buffers with \<open>zeroBytes\<close> has no effect on
  results and is left out.
\<close>

unbundle bit_operations_syntax

subsection \<open>Binary fields, \<^verbatim>\<open>binary.go\<close>\<close>

text \<open>\<open>int\<close> has 64 bits; \<open>base64.Encoding.EncodedLen\<close> with padding.\<close>

definition wrap_int :: "int \<Rightarrow> int" where
  "wrap_int n = sint (of_int n :: 64 word)"

definition EncodedLen :: "int \<Rightarrow> int" where
  "EncodedLen n = wrap_int (wrap_int (n + 2) sdiv 3 * 4)"

text \<open>
  \<open>Strict()\<close> also demands that the unused bits of the last character are zero. So the strict decoder accepts the encodings of
  byte strings, with line breaks anywhere.
\<close>

definition strict_DecodeString :: "string \<Rightarrow> string option" where
  "strict_DecodeString s = (case std_DecodeString s of None \<Rightarrow> None
     | Some d \<Rightarrow> if filter (\<lambda>c. \<not> is_newline c) s = std_EncodeToString d then Some d else None)"

definition decodeBinary :: "string \<Rightarrow> string \<Rightarrow> int \<Rightarrow> ABIError + string" where
  "decodeBinary encoded field maxBytes =
     (if int (length encoded) > EncodedLen maxBytes then Inl (newABIError ErrorInputTooLarge field)
      else (case strict_DecodeString encoded of None \<Rightarrow> Inl (newABIError ErrorInvalidBase64 field)
        | Some decoded \<Rightarrow>
            if std_EncodeToString decoded \<noteq> encoded then Inl (newABIError ErrorInvalidBase64 field)
            else if int (length decoded) > maxBytes then Inl (newABIError ErrorInputTooLarge field)
            else Inr decoded))"

definition encodeBinary :: "string \<Rightarrow> string" where
  "encodeBinary value = std_EncodeToString value"

text \<open>The result structs, by operation, and their JSON.\<close>

datatype op_result =
    NormalizeResult string | ValidateResult bool "string list" | SHA256Result string | HMACSHA256Result string
  | AESGCMEncryptResult string | AESGCMDecryptResult string | Base64EncodeResult string | Base64DecodeResult string

fun result_json :: "op_result \<Rightarrow> string" where
  "result_json (NormalizeResult v) = json_object [(''value'', json_quote v)]"
| "result_json (ValidateResult valid violations) = json_object [(''valid'', json_bool valid),
     (''violations'', json_array (map (\<lambda>code. json_object [(''code'', json_quote code)]) violations))]"
| "result_json (SHA256Result d) = json_object [(''digest'', json_quote d)]"
| "result_json (HMACSHA256Result d) = json_object [(''mac'', json_quote d)]"
| "result_json (AESGCMEncryptResult c) = json_object [(''ciphertext'', json_quote c)]"
| "result_json (AESGCMDecryptResult p) = json_object [(''plaintext'', json_quote p)]"
| "result_json (Base64EncodeResult e) = json_object [(''encoded'', json_quote e)]"
| "result_json (Base64DecodeResult t) = json_object [(''text'', json_quote t)]"

text \<open>The two steps every operation starts with.\<close>

definition read_payload :: "'r field list \<Rightarrow> 'r \<Rightarrow> string list \<Rightarrow> Limits \<Rightarrow> string \<Rightarrow> ABIError + 'r" where
  "read_payload fs zero required limits payload =
     sum_bind (strictDecodeObject fs payload zero (MaxJSONDepth limits)) (\<lambda>input.
       case requireJSONFields payload required of Some e \<Rightarrow> Inl e | None \<Rightarrow> Inr input)"

definition base64Encode :: "Limits \<Rightarrow> string \<Rightarrow> ABIError + op_result" where
  "base64Encode limits payload =
     sum_bind (read_payload [string_field ''text'' (\<lambda>x _. x)] [] [''text''] limits payload) (\<lambda>t.
       if \<not> utf8_Valid t then Inl (newABIError ErrorInvalidUTF8 ''payload.text'')
       else if int (length t) > MaxStringBytes limits then Inl (newABIError ErrorInputTooLarge ''payload.text'')
       else Inr (Base64EncodeResult (encodeBinary t)))"

definition base64Decode :: "Limits \<Rightarrow> string \<Rightarrow> ABIError + op_result" where
  "base64Decode limits payload =
     sum_bind (read_payload [string_field ''encoded'' (\<lambda>x _. x)] [] [''encoded''] limits payload) (\<lambda>encoded.
     sum_bind (decodeBinary encoded ''payload.encoded'' (MaxStringBytes limits)) (\<lambda>decoded.
       if \<not> utf8_Valid decoded then Inl (newABIError ErrorInvalidUTF8 ''payload.encoded'')
       else Inr (Base64DecodeResult decoded)))"

subsection \<open>Text, \<^verbatim>\<open>text.go\<close>\<close>

record normalizePayload =
  np_Value :: string
  np_Trim :: bool
  np_CollapseWhitespace :: bool
  np_LowercaseASCII :: bool

definition normalize_fields :: "normalizePayload field list" where
  "normalize_fields = [string_field ''value'' (\<lambda>x. np_Value_update (\<lambda>_. x)), bool_field ''trim'' (\<lambda>x. np_Trim_update (\<lambda>_. x)),
     bool_field ''collapse_whitespace'' (\<lambda>x. np_CollapseWhitespace_update (\<lambda>_. x)),
     bool_field ''lowercase_ascii'' (\<lambda>x. np_LowercaseASCII_update (\<lambda>_. x))]"

fun collapse_runes :: "bool \<Rightarrow> nat list \<Rightarrow> string" where
  "collapse_runes inWhitespace [] = []"
| "collapse_runes inWhitespace (r # rs) =
     (if IsSpace r then (if inWhitespace then [] else [CHR '' '']) @ collapse_runes True rs
      else rune_bytes r @ collapse_runes False rs)"

definition collapseWhitespace :: "string \<Rightarrow> string" where
  "collapseWhitespace value = collapse_runes False (runes value)"

definition lower_rune :: "nat \<Rightarrow> nat" where
  "lower_rune r = (if 0x41 \<le> r \<and> r \<le> 0x5A then r + 0x20 else r)"

definition lowercaseASCII :: "string \<Rightarrow> string" where
  "lowercaseASCII value = concat (map (\<lambda>r. rune_bytes (lower_rune r)) (runes value))"

definition normalize :: "Limits \<Rightarrow> string \<Rightarrow> ABIError + op_result" where
  "normalize limits payload =
     sum_bind (read_payload normalize_fields \<lparr>np_Value = [], np_Trim = False, np_CollapseWhitespace = False, np_LowercaseASCII = False\<rparr>
         [''value''] limits payload) (\<lambda>input.
       if \<not> utf8_Valid (np_Value input) then Inl (newABIError ErrorInvalidUTF8 ''payload.value'')
       else if int (length (np_Value input)) > MaxStringBytes limits then Inl (newABIError ErrorInputTooLarge ''payload.value'')
       else
         (let v0 = np_Value input;
              v1 = (if np_Trim input then TrimSpace v0 else v0);
              v2 = (if np_CollapseWhitespace input then collapseWhitespace v1 else v1);
              v3 = (if np_LowercaseASCII input then lowercaseASCII v2 else v2)
          in Inr (NormalizeResult v3)))"

record validationRules =
  vr_Required :: bool
  vr_ASCII :: bool
  vr_ForbidControl :: bool
  vr_ForbidWhitespace :: bool
  vr_MinBytes :: int
  vr_MaxBytes :: int
  vr_MinRunes :: int
  vr_MaxRunes :: int
  vr_Prefix :: string
  vr_Suffix :: string

definition rule_fields :: "validationRules field list" where
  "rule_fields = [bool_field ''required'' (\<lambda>x. vr_Required_update (\<lambda>_. x)), bool_field ''ascii'' (\<lambda>x. vr_ASCII_update (\<lambda>_. x)),
     bool_field ''forbid_control'' (\<lambda>x. vr_ForbidControl_update (\<lambda>_. x)), bool_field ''forbid_whitespace'' (\<lambda>x. vr_ForbidWhitespace_update (\<lambda>_. x)),
     int_field ''min_bytes'' (\<lambda>x. vr_MinBytes_update (\<lambda>_. x)), int_field ''max_bytes'' (\<lambda>x. vr_MaxBytes_update (\<lambda>_. x)),
     int_field ''min_runes'' (\<lambda>x. vr_MinRunes_update (\<lambda>_. x)), int_field ''max_runes'' (\<lambda>x. vr_MaxRunes_update (\<lambda>_. x)),
     string_field ''prefix'' (\<lambda>x. vr_Prefix_update (\<lambda>_. x)), string_field ''suffix'' (\<lambda>x. vr_Suffix_update (\<lambda>_. x))]"

definition zero_rules :: validationRules where
  "zero_rules = \<lparr>vr_Required = False, vr_ASCII = False, vr_ForbidControl = False, vr_ForbidWhitespace = False, vr_MinBytes = 0,
     vr_MaxBytes = 0, vr_MinRunes = 0, vr_MaxRunes = 0, vr_Prefix = [], vr_Suffix = []\<rparr>"

text \<open>A field that is a struct of its own.\<close>

definition struct_field :: "string \<Rightarrow> 's field list \<Rightarrow> ('r \<Rightarrow> 's) \<Rightarrow> ('s \<Rightarrow> 'r \<Rightarrow> 'r) \<Rightarrow> 'r field" where
  "struct_field name fs get upd = (name, \<lambda>v raw r. case decode_struct True fs v (get r) of (e, x) \<Rightarrow> (e, upd x r))"

record validatePayload =
  vp_Value :: string
  vp_Rules :: validationRules

definition validate_fields :: "validatePayload field list" where
  "validate_fields = [string_field ''value'' (\<lambda>x. vp_Value_update (\<lambda>_. x)),
     struct_field ''rules'' rule_fields vp_Rules (\<lambda>x. vp_Rules_update (\<lambda>_. x))]"

definition validateRules :: "validationRules \<Rightarrow> int \<Rightarrow> ABIError option" where
  "validateRules rules maximum =
     (if vr_MinBytes rules < 0 \<or> vr_MaxBytes rules < 0 \<or> vr_MinRunes rules < 0 \<or> vr_MaxRunes rules < 0
        \<or> vr_MinBytes rules > maximum \<or> vr_MaxBytes rules > maximum \<or> vr_MinRunes rules > maximum \<or> vr_MaxRunes rules > maximum
        \<or> (vr_MaxBytes rules > 0 \<and> vr_MinBytes rules > vr_MaxBytes rules)
        \<or> (vr_MaxRunes rules > 0 \<and> vr_MinRunes rules > vr_MaxRunes rules)
      then Some (newABIError ErrorInvalidRequest ''payload.rules'') else None)"

definition isASCII :: "string \<Rightarrow> bool" where
  "isASCII value \<longleftrightarrow> list_all (\<lambda>c. byte c \<le> 0x7F) value"

definition containsControl :: "string \<Rightarrow> bool" where
  "containsControl value \<longleftrightarrow> list_ex IsControl (runes value)"

definition containsWhitespace :: "string \<Rightarrow> bool" where
  "containsWhitespace value \<longleftrightarrow> list_ex IsSpace (runes value)"

text \<open>The checks of \<open>validate\<close> in the order of the code.\<close>

definition rule_violations :: "validationRules \<Rightarrow> string \<Rightarrow> string list" where
  "rule_violations rules value =
     (let runeCount = int (length (runes value)); size = int (length value) in
      (if vr_Required rules \<and> value = [] then [''required''] else [])
    @ (if vr_MinBytes rules > 0 \<and> size < vr_MinBytes rules then [''min_bytes''] else [])
    @ (if vr_MaxBytes rules > 0 \<and> size > vr_MaxBytes rules then [''max_bytes''] else [])
    @ (if vr_MinRunes rules > 0 \<and> runeCount < vr_MinRunes rules then [''min_runes''] else [])
    @ (if vr_MaxRunes rules > 0 \<and> runeCount > vr_MaxRunes rules then [''max_runes''] else [])
    @ (if vr_ASCII rules \<and> \<not> isASCII value then [''ascii''] else [])
    @ (if vr_ForbidControl rules \<and> containsControl value then [''control''] else [])
    @ (if vr_ForbidWhitespace rules \<and> containsWhitespace value then [''whitespace''] else [])
    @ (if vr_Prefix rules \<noteq> [] \<and> \<not> HasPrefix value (vr_Prefix rules) then [''prefix''] else [])
    @ (if vr_Suffix rules \<noteq> [] \<and> \<not> HasSuffix value (vr_Suffix rules) then [''suffix''] else []))"

definition validate_text :: "Limits \<Rightarrow> string \<Rightarrow> ABIError + op_result" where
  "validate_text limits payload =
     sum_bind (read_payload validate_fields \<lparr>vp_Value = [], vp_Rules = zero_rules\<rparr> [''value'', ''rules''] limits payload) (\<lambda>input.
       (let value = vp_Value input; rules = vp_Rules input; maximum = MaxStringBytes limits in
        if \<not> utf8_Valid value \<or> \<not> utf8_Valid (vr_Prefix rules) \<or> \<not> utf8_Valid (vr_Suffix rules)
        then Inl (newABIError ErrorInvalidUTF8 ''payload'')
        else if int (length value) > maximum \<or> int (length (vr_Prefix rules)) > maximum \<or> int (length (vr_Suffix rules)) > maximum
        then Inl (newABIError ErrorInputTooLarge ''payload'')
        else (case validateRules rules maximum of Some e \<Rightarrow> Inl e
          | None \<Rightarrow> (let violations = rule_violations rules value in Inr (ValidateResult (violations = []) violations)))))"

subsection \<open>Cryptography, \<^verbatim>\<open>crypto.go\<close>\<close>

definition aesGCMNonceBytes :: int where "aesGCMNonceBytes = 12"
definition aesGCMTagBytes :: int where "aesGCMTagBytes = 16"
definition minimumHMACKeyBytes :: int where "minimumHMACKeyBytes = 16"

definition sha256_op :: "('t, 'm) crypto_scheme \<Rightarrow> Limits \<Rightarrow> string \<Rightarrow> ABIError + op_result" where
  "sha256_op C limits payload =
     sum_bind (read_payload [string_field ''data'' (\<lambda>x _. x)] [] [''data''] limits payload) (\<lambda>input.
     sum_bind (decodeBinary input ''payload.data'' (MaxBinaryBytes limits)) (\<lambda>data.
       Inr (SHA256Result (encodeBinary (sha256_Sum256 C data)))))"

record hmacSHA256Payload =
  hp_Key :: string
  hp_Data :: string

definition hmacSHA256 :: "('t, 'm) crypto_scheme \<Rightarrow> Limits \<Rightarrow> string \<Rightarrow> ABIError + op_result" where
  "hmacSHA256 C limits payload =
     sum_bind (read_payload [string_field ''key'' (\<lambda>x. hp_Key_update (\<lambda>_. x)), string_field ''data'' (\<lambda>x. hp_Data_update (\<lambda>_. x))]
         \<lparr>hp_Key = [], hp_Data = []\<rparr> [''key'', ''data''] limits payload) (\<lambda>input.
     sum_bind (decodeBinary (hp_Key input) ''payload.key'' (MaxBinaryBytes limits)) (\<lambda>key.
     if int (length key) < minimumHMACKeyBytes then Inl (newABIError ErrorInvalidKey ''payload.key'')
     else sum_bind (decodeBinary (hp_Data input) ''payload.data'' (MaxBinaryBytes limits)) (\<lambda>data.
       Inr (HMACSHA256Result (encodeBinary (hmac_SHA256 C key data))))))"

record aesGCMPayload =
  ap_Key :: string
  ap_Nonce :: string
  ap_AAD :: string
  ap_Value :: string

text \<open>The payload structs of encryption and decryption differ in the name of the last field only.\<close>

definition aes_fields :: "string \<Rightarrow> aesGCMPayload field list" where
  "aes_fields value_name = [string_field ''key'' (\<lambda>x. ap_Key_update (\<lambda>_. x)), string_field ''nonce'' (\<lambda>x. ap_Nonce_update (\<lambda>_. x)),
     string_field ''aad'' (\<lambda>x. ap_AAD_update (\<lambda>_. x)), string_field value_name (\<lambda>x. ap_Value_update (\<lambda>_. x))]"

definition zero_aes :: aesGCMPayload where
  "zero_aes = \<lparr>ap_Key = [], ap_Nonce = [], ap_AAD = [], ap_Value = []\<rparr>"

definition decodeAESInputs :: "Limits \<Rightarrow> string \<Rightarrow> string \<Rightarrow> string \<Rightarrow> string \<Rightarrow> bool \<Rightarrow> ABIError + string \<times> string \<times> string \<times> string" where
  "decodeAESInputs limits encodedKey encodedNonce encodedAAD encodedValue decrypt =
     sum_bind (decodeBinary encodedKey ''payload.key'' (MaxBinaryBytes limits)) (\<lambda>key.
     if length key \<noteq> 16 \<and> length key \<noteq> 24 \<and> length key \<noteq> 32 then Inl (newABIError ErrorInvalidKey ''payload.key'')
     else sum_bind (decodeBinary encodedNonce ''payload.nonce'' (MaxBinaryBytes limits)) (\<lambda>nonce.
     if int (length nonce) \<noteq> aesGCMNonceBytes then Inl (newABIError ErrorInvalidNonce ''payload.nonce'')
     else sum_bind (decodeBinary encodedAAD ''payload.aad'' (MaxBinaryBytes limits)) (\<lambda>aad.
     (let valueLimit = (if decrypt then MaxBinaryBytes limits else max 0 (MaxBinaryBytes limits - aesGCMTagBytes));
          field = (if decrypt then ''payload.ciphertext'' else ''payload.plaintext'') in
      sum_bind (decodeBinary encodedValue field valueLimit) (\<lambda>value.
        if decrypt \<and> int (length value) < aesGCMTagBytes then Inl (newABIError ErrorAuthenticationFailed field)
        else Inr (key, nonce, aad, value))))))"

definition newAESGCM :: "string \<Rightarrow> ABIError option" where
  "newAESGCM key = (if aes_NewCipher key \<noteq> None then Some (newABIError ErrorInvalidKey ''payload.key'') else None)"

definition aesGCMEncrypt :: "('t, 'm) crypto_scheme \<Rightarrow> Limits \<Rightarrow> string \<Rightarrow> ABIError + op_result" where
  "aesGCMEncrypt C limits payload =
     sum_bind (read_payload (aes_fields ''plaintext'') zero_aes [''key'', ''nonce'', ''aad'', ''plaintext''] limits payload) (\<lambda>input.
     sum_bind (decodeAESInputs limits (ap_Key input) (ap_Nonce input) (ap_AAD input) (ap_Value input) False) (\<lambda>(key, nonce, aad, plaintext).
     case newAESGCM key of Some e \<Rightarrow> Inl e
     | None \<Rightarrow> Inr (AESGCMEncryptResult (encodeBinary (gcm_Seal C key nonce plaintext aad)))))"

definition aesGCMDecrypt :: "('t, 'm) crypto_scheme \<Rightarrow> Limits \<Rightarrow> string \<Rightarrow> ABIError + op_result" where
  "aesGCMDecrypt C limits payload =
     sum_bind (read_payload (aes_fields ''ciphertext'') zero_aes [''key'', ''nonce'', ''aad'', ''ciphertext''] limits payload) (\<lambda>input.
     sum_bind (decodeAESInputs limits (ap_Key input) (ap_Nonce input) (ap_AAD input) (ap_Value input) True) (\<lambda>(key, nonce, aad, ciphertext).
     case newAESGCM key of Some e \<Rightarrow> Inl e
     | None \<Rightarrow> (case gcm_Open C key nonce ciphertext aad of
           Inl e \<Rightarrow> Inl (newABIError ErrorAuthenticationFailed ''payload.ciphertext'')
         | Inr plaintext \<Rightarrow> Inr (AESGCMDecryptResult (encodeBinary plaintext)))))"

subsection \<open>Choosing the operation, \<^verbatim>\<open>operations.go\<close>\<close>

definition execute :: "('t, 'm) crypto_scheme \<Rightarrow> Limits \<Rightarrow> Operation \<Rightarrow> string \<Rightarrow> ABIError + op_result" where
  "execute C limits operation payload =
     (if operation = OperationNormalize then normalize limits payload
      else if operation = OperationValidate then validate_text limits payload
      else if operation = OperationSHA256 then sha256_op C limits payload
      else if operation = OperationHMACSHA256 then hmacSHA256 C limits payload
      else if operation = OperationAESGCMEncrypt then aesGCMEncrypt C limits payload
      else if operation = OperationAESGCMDecrypt then aesGCMDecrypt C limits payload
      else if operation = OperationBase64Encode then base64Encode limits payload
      else if operation = OperationBase64Decode then base64Decode limits payload
      else Inl (newABIError ErrorUnknownOperation ''operation''))"

end
