(* ===== verification/Portable_Dispatcher.thy ===== *)
theory Portable_Dispatcher
  imports Portable_Operations
begin

text \<open>
  The dispatcher of the portable ABI, \<^verbatim>\<open>share/portable/dispatcher.go\<close>: it decodes a request, checks it against the limits and
  the state the host observed, runs the operation and writes a response of bounded size. A \<open>Dispatcher\<close> is its limits.
\<close>

subsection \<open>Construction\<close>

definition minimumResponseLimit :: int where "minimumResponseLimit = 512"
definition minimumBinaryLimit :: int where "minimumBinaryLimit = 32"

record Dispatcher =
  disp_limits :: Limits

definition NewDispatcher :: "Limits \<Rightarrow> ABIError + Dispatcher" where
  "NewDispatcher l =
     (if MaxRequestBytes l \<le> 0 \<or> MaxResponseBytes l < minimumResponseLimit \<or> MaxBinaryBytes l < minimumBinaryLimit
        \<or> MaxStringBytes l \<le> 0 \<or> MaxIDBytes l \<le> 0 \<or> MaxCancellationTokenBytes l \<le> 0 \<or> MaxRequiredCapabilities l \<le> 0
        \<or> MaxJSONDepth l \<le> 0 \<or> MaxBinaryBytes l > MaxRequestBytes l \<or> MaxStringBytes l > MaxRequestBytes l
      then Inl (newABIError ErrorInvalidRequest ''limits'') else Inr \<lparr>disp_limits = l\<rparr>)"

definition DefaultDispatcher :: "Dispatcher option" where
  "DefaultDispatcher = (case NewDispatcher DefaultLimits of Inl e \<Rightarrow> None | Inr d \<Rightarrow> Some d)"

definition dispatcher_Manifest :: "Dispatcher \<Rightarrow> Manifest" where
  "dispatcher_Manifest d = manifestFor (disp_limits d)"

definition ManifestJSON :: "Dispatcher \<Rightarrow> string" where
  "ManifestJSON d = Manifest_json (dispatcher_Manifest d)"

subsection \<open>Names and tokens\<close>

definition plain_text :: "string \<Rightarrow> int \<Rightarrow> bool" where
  "plain_text value maximum \<longleftrightarrow> value \<noteq> [] \<and> int (length value) \<le> maximum \<and> utf8_Valid value \<and> list_all (\<lambda>r. \<not> IsControl r) (runes value)"

definition validateIdentifier :: "string \<Rightarrow> int \<Rightarrow> ABIError option" where
  "validateIdentifier value maximum = (if plain_text value maximum then None else Some (newABIError ErrorInvalidRequest ''id''))"

definition validateToken :: "string \<Rightarrow> int \<Rightarrow> ABIError option" where
  "validateToken value maximum = (if plain_text value maximum then None
     else Some (newABIError ErrorInvalidRequest ''metadata.cancellation_token''))"

definition capability_rune :: "nat \<Rightarrow> bool" where
  "capability_rune r \<longleftrightarrow> (0x61 \<le> r \<and> r \<le> 0x7A) \<or> (0x30 \<le> r \<and> r \<le> 0x39) \<or> r = 0x2E \<or> r = 0x2D"

definition validateCapabilityName :: "string \<Rightarrow> ABIError option" where
  "validateCapabilityName value = (if value \<noteq> [] \<and> length value \<le> 128 \<and> list_all capability_rune (runes value) then None
     else Some (newABIError ErrorInvalidRequest ''metadata.required_capabilities''))"

definition safeResponseID :: "string \<Rightarrow> int \<Rightarrow> string" where
  "safeResponseID i maximum = (if validateIdentifier i maximum \<noteq> None then [] else i)"

definition errorResponse :: "string \<Rightarrow> ABIError \<Rightarrow> Response" where
  "errorResponse i e = \<lparr>resp_ABI = ABIVersion, resp_ID = i, resp_OK = False, resp_Result = [], resp_Error = Some e\<rparr>"

subsection \<open>Validation\<close>

fun validate_capabilities :: "string list \<Rightarrow> string list \<Rightarrow> ABIError option" where
  "validate_capabilities seen [] = None"
| "validate_capabilities seen (capability # rest) =
     (if validateCapabilityName capability \<noteq> None then Some (newABIError ErrorInvalidRequest ''metadata.required_capabilities'')
      else if capability \<in> set seen then Some (newABIError ErrorInvalidRequest ''metadata.required_capabilities'')
      else if \<not> supportsCapability capability then Some (newABIError ErrorCapabilityUnavailable ''metadata.required_capabilities'')
      else validate_capabilities (capability # seen) rest)"

definition validate_deadline :: "RequestMetadata \<Rightarrow> ExecutionState \<Rightarrow> ABIError option" where
  "validate_deadline metadata state =
     (case DeadlineUnixMilliseconds metadata of None \<Rightarrow> None
      | Some deadline \<Rightarrow>
          if deadline \<le> 0 then Some (newABIError ErrorInvalidRequest ''metadata.deadline_unix_ms'')
          else if \<not> ClockChecked state then Some (newABIError ErrorExecutionStateRequired ''metadata.deadline_unix_ms'')
          else if NowUnixMilliseconds state \<ge> deadline then Some (newABIError ErrorDeadlineExceeded ''metadata.deadline_unix_ms'')
          else None)"

definition validate_cancellation :: "Limits \<Rightarrow> RequestMetadata \<Rightarrow> ExecutionState \<Rightarrow> ABIError option" where
  "validate_cancellation limits metadata state =
     (let token = md_CancellationToken metadata in
      if token = [] then None
      else if validateToken token (MaxCancellationTokenBytes limits) \<noteq> None
      then Some (newABIError ErrorInvalidRequest ''metadata.cancellation_token'')
      else if \<not> CancellationChecked state \<or> es_CancellationToken state \<noteq> token
      then Some (newABIError ErrorExecutionStateRequired ''metadata.cancellation_token'')
      else if CancellationRequested state then Some (newABIError ErrorCancellationRequested ''metadata.cancellation_token'')
      else None)"

text \<open>The first error of two checks in order.\<close>

definition or_else :: "'e option \<Rightarrow> 'e option \<Rightarrow> 'e option" where
  "or_else a b = (case a of Some e \<Rightarrow> Some e | None \<Rightarrow> b)"

definition validateRequest :: "Dispatcher \<Rightarrow> Request \<Rightarrow> ExecutionState \<Rightarrow> ABIError option" where
  "validateRequest d request state =
     (let limits = disp_limits d in
      if req_ABI request \<noteq> ABIVersion then Some (newABIError ErrorInvalidABI ''abi'')
      else case validateIdentifier (req_ID request) (MaxIDBytes limits) of Some e \<Rightarrow> Some e
      | None \<Rightarrow>
        if \<not> isKnownOperation (req_Operation request) then Some (newABIError ErrorUnknownOperation ''operation'')
        else if length (req_Payload request) = 0 then Some (newABIError ErrorInvalidRequest ''payload'')
        else case req_Metadata request of None \<Rightarrow> None
        | Some metadata \<Rightarrow>
            if int (length (RequiredCapabilities metadata)) > MaxRequiredCapabilities limits
            then Some (newABIError ErrorInputTooLarge ''metadata.required_capabilities'')
            else or_else (validate_capabilities [] (RequiredCapabilities metadata))
                (or_else (validate_deadline metadata state) (validate_cancellation limits metadata state)))"

subsection \<open>Decoding a request\<close>

text \<open>
  While it is decoded, a request carries the backing array of the slice \<open>RequiredCapabilities\<close>: names that differ in case only
  write the same field, and a \<open>null\<close> element keeps what the array holds there.
\<close>

record metadata_buffer = RequestMetadata +
  backing :: "string list"

record request_buffer =
  rb_ABI :: string
  rb_ID :: string
  rb_Operation :: string
  rb_Metadata :: "metadata_buffer option"
  rb_Payload :: string

definition zero_metadata :: metadata_buffer where
  "zero_metadata = \<lparr>DeadlineUnixMilliseconds = None, md_CancellationToken = [], RequiredCapabilities = [], backing = []\<rparr>"

definition zero_request :: request_buffer where
  "zero_request = \<lparr>rb_ABI = [], rb_ID = [], rb_Operation = [], rb_Metadata = None, rb_Payload = []\<rparr>"

fun decode_strings :: "json list \<Rightarrow> string list \<Rightarrow> json_error option \<times> string list" where
  "decode_strings [] b = (None, b)"
| "decode_strings (v # vs) b =
     (let base = (case b of [] \<Rightarrow> [] | x # _ \<Rightarrow> x);
          (e1, x) = (case v of JString s \<Rightarrow> (None, s) | JNull \<Rightarrow> (None, base) | _ \<Rightarrow> (Some JType, base));
          (e2, xs) = decode_strings vs (tl b)
      in (if e1 = None then e2 else e1, x # xs))"

definition capabilities_field :: "metadata_buffer field" where
  "capabilities_field = (''required_capabilities'', \<lambda>v raw r. case v of
       JArray vs \<Rightarrow> (case decode_strings vs (backing r) of (e, b) \<Rightarrow>
         (e, r\<lparr>RequiredCapabilities := take (length vs) b, backing := (if vs = [] then [] else b)\<rparr>))
     | JNull \<Rightarrow> (None, r\<lparr>RequiredCapabilities := [], backing := []\<rparr>)
     | _ \<Rightarrow> (Some JType, r))"

definition deadline_field :: "metadata_buffer field" where
  "deadline_field = (''deadline_unix_ms'', \<lambda>v raw r. case v of
       JNumber t \<Rightarrow> (case Atoi t of Some n \<Rightarrow> (None, r\<lparr>DeadlineUnixMilliseconds := Some n\<rparr>) | None \<Rightarrow> (Some JType, r))
     | JNull \<Rightarrow> (None, r\<lparr>DeadlineUnixMilliseconds := None\<rparr>) | _ \<Rightarrow> (Some JType, r))"

definition metadata_fields :: "metadata_buffer field list" where
  "metadata_fields = [deadline_field, string_field ''cancellation_token'' (\<lambda>x. md_CancellationToken_update (\<lambda>_. x)), capabilities_field]"

definition metadata_field :: "request_buffer field" where
  "metadata_field = (''metadata'', \<lambda>v raw r. case v of
       JObject ms \<Rightarrow> (case decode_members True metadata_fields ms (case rb_Metadata r of None \<Rightarrow> zero_metadata | Some m \<Rightarrow> m) of
         (e, m) \<Rightarrow> (e, r\<lparr>rb_Metadata := Some m\<rparr>))
     | JNull \<Rightarrow> (None, r\<lparr>rb_Metadata := None\<rparr>) | _ \<Rightarrow> (Some JType, r))"

definition request_fields :: "request_buffer field list" where
  "request_fields = [string_field ''abi'' (\<lambda>x. rb_ABI_update (\<lambda>_. x)), string_field ''id'' (\<lambda>x. rb_ID_update (\<lambda>_. x)),
     string_field ''operation'' (\<lambda>x. rb_Operation_update (\<lambda>_. x)), metadata_field, raw_field ''payload'' (\<lambda>x. rb_Payload_update (\<lambda>_. x))]"

definition request_of :: "request_buffer \<Rightarrow> Request" where
  "request_of b = \<lparr>req_ABI = rb_ABI b, req_ID = rb_ID b, req_Operation = rb_Operation b,
     req_Metadata = map_option RequestMetadata.truncate (rb_Metadata b), req_Payload = rb_Payload b\<rparr>"

definition decode_request :: "Dispatcher \<Rightarrow> string \<Rightarrow> ABIError + Request" where
  "decode_request d encoded = map_sum (\<lambda>e. e) request_of (strictDecodeObject request_fields encoded zero_request (MaxJSONDepth (disp_limits d)))"

subsection \<open>Dispatch\<close>

definition Dispatch :: "('t, 'm) crypto_scheme \<Rightarrow> Dispatcher \<Rightarrow> Request \<Rightarrow> ExecutionState \<Rightarrow> Response" where
  "Dispatch C d request state =
     (let responseID = safeResponseID (req_ID request) (MaxIDBytes (disp_limits d)) in
      case validateRequest d request state of Some e \<Rightarrow> errorResponse responseID e
      | None \<Rightarrow> (case execute C (disp_limits d) (req_Operation request) (req_Payload request) of
            Inl e \<Rightarrow> errorResponse responseID e
          | Inr result \<Rightarrow> \<lparr>resp_ABI = ABIVersion, resp_ID = responseID, resp_OK = True, resp_Result = result_json result, resp_Error = None\<rparr>))"

text \<open>The text the code falls back to last; \<open>json.Marshal\<close> of a response does not fail.\<close>

definition last_resort :: string where
  "last_resort = json_object [(''abi'', json_quote ''goforge.abi.v1''), (''id'', json_quote []), (''ok'', json_bool False),
     (''error'', json_object [(''code'', json_quote ''internal''),
        (''message'', json_quote ''portable operation failed without a safe public detail''), (''retryable'', json_bool False)])]"

definition encodeResponse :: "Dispatcher \<Rightarrow> Response \<Rightarrow> string" where
  "encodeResponse d response =
     (let encoded = Response_json response; limit = MaxResponseBytes (disp_limits d) in
      if int (length encoded) \<le> limit then encoded
      else (let fallback = Response_json (errorResponse [] (newABIError ErrorResponseTooLarge [])) in
        if int (length fallback) > limit then last_resort else fallback))"

definition DispatchJSON :: "('t, 'm) crypto_scheme \<Rightarrow> Dispatcher \<Rightarrow> string \<Rightarrow> ExecutionState \<Rightarrow> string" where
  "DispatchJSON C d encoded state =
     (if int (length encoded) > MaxRequestBytes (disp_limits d)
      then encodeResponse d (errorResponse [] (newABIError ErrorRequestTooLarge []))
      else (case decode_request d encoded of Inl e \<Rightarrow> encodeResponse d (errorResponse [] e)
        | Inr request \<Rightarrow> encodeResponse d (Dispatch C d request state)))"

end
