(* ===== verification/Portable_Guarantees.thy ===== *)
theory Portable_Guarantees
  imports Portable_Dispatcher Encrypt_Local
begin

text \<open>
  What the portable ABI promises: responses of bounded size and of one shape, errors from the published catalogue, controls
  that fail closed, and an AES-GCM that undoes itself through the JSON interface.
\<close>

subsection \<open>Errors from the catalogue\<close>

text \<open>An error as the manifest lists it: code, message and the retry flag agree with one entry.\<close>

definition catalogued :: "ABIError \<Rightarrow> bool" where
  "catalogued e \<longleftrightarrow> (\<exists>d\<in>set errorCatalog. abi_Code e = ed_Code d \<and> abi_Message e = ed_Message d \<and> abi_Retryable e = ed_Retryable d)"

named_theorems cat_intros \<open>which results carry catalogued errors only\<close>

definition cat :: "ABIError + 'a \<Rightarrow> bool" where
  "cat r \<longleftrightarrow> (\<forall>e. r = Inl e \<longrightarrow> catalogued e)"

definition cat_opt :: "ABIError option \<Rightarrow> bool" where
  "cat_opt r \<longleftrightarrow> (\<forall>e. r = Some e \<longrightarrow> catalogued e)"

lemma catalogued_new [cat_intros]: "catalogued (newABIError code field)"
proof (cases "find (\<lambda>d. ed_Code d = code) errorCatalog")
  case None
  then show ?thesis by (simp add: newABIError_def catalogued_def errorCatalog_def)
next
  case (Some d)
  then have "d \<in> set errorCatalog" by (auto simp: find_Some_iff)
  then show ?thesis using Some by (auto simp: newABIError_def catalogued_def)
qed

lemma catalogued_invalid [cat_intros]: "catalogued invalid_json"
  by (simp add: invalid_json_def catalogued_new)

lemma cat_Inl [cat_intros]: "catalogued e \<Longrightarrow> cat (Inl e)" and cat_Inr [cat_intros]: "cat (Inr x)"
  by (simp_all add: cat_def)

lemma cat_opt_Some [cat_intros]: "catalogued e \<Longrightarrow> cat_opt (Some e)" and cat_opt_None [cat_intros]: "cat_opt None"
  by (simp_all add: cat_opt_def)

lemma cat_if [cat_intros]: "(c \<Longrightarrow> cat x) \<Longrightarrow> (\<not> c \<Longrightarrow> cat y) \<Longrightarrow> cat (if c then x else y)"
  and cat_opt_if [cat_intros]: "(c \<Longrightarrow> cat_opt a) \<Longrightarrow> (\<not> c \<Longrightarrow> cat_opt b) \<Longrightarrow> cat_opt (if c then a else b)"
  by simp_all

lemma cat_bind [cat_intros]: "cat r \<Longrightarrow> (\<And>x. cat (k x)) \<Longrightarrow> cat (sum_bind r k)"
  by (cases r) (simp_all add: cat_def)

lemma cat_case_error [cat_intros]: "cat_opt c \<Longrightarrow> cat y \<Longrightarrow> cat (case c of Some e \<Rightarrow> Inl e | None \<Rightarrow> y)"
  by (cases c) (simp_all add: cat_def cat_opt_def)

lemma cat_opt_case_error [cat_intros]: "cat_opt c \<Longrightarrow> cat_opt y \<Longrightarrow> cat_opt (case c of Some e \<Rightarrow> Some e | None \<Rightarrow> y)"
  by (cases c) (simp_all add: cat_opt_def)

lemma cat_case_list: "cat x \<Longrightarrow> (\<And>c r. cat (f c r)) \<Longrightarrow> cat (case xs of [] \<Rightarrow> x | c # r \<Rightarrow> f c r)"
  and cat_case_pair: "cat x \<Longrightarrow> (\<And>a b. cat (g a b)) \<Longrightarrow> cat (case z of None \<Rightarrow> x | Some (a, b) \<Rightarrow> g a b)"
  and cat_case_sum: "cat r \<Longrightarrow> (\<And>y. cat (h y)) \<Longrightarrow> cat (case r of Inl e \<Rightarrow> Inl e | Inr y \<Rightarrow> h y)"
  by (simp_all add: cat_def split: list.split option.split sum.split)

lemma cat_scan:
  "cat (scanValue n M depth s)" "cat (scan_members n M depth first seen s)" "cat (scan_elements n M depth first s)"
proof (induction n arbitrary: depth s first seen)
  case (Suc n)
  {
    case 1
    show ?case unfolding scanValue.simps by (intro cat_if cat_case_list cat_case_pair cat_intros Suc)
  next
    case 2
    show ?case unfolding scan_members.simps by (intro cat_if cat_case_list cat_case_pair cat_case_sum cat_intros Suc)
  next
    case 3
    show ?case unfolding scan_elements.simps by (intro cat_if cat_case_list cat_case_pair cat_case_sum cat_intros Suc)
  }
qed (simp_all add: scanValue.simps scan_members.simps scan_elements.simps cat_intros)

lemma cat_validate [cat_intros]: "cat_opt (validateJSONStructure s M)"
  using cat_scan(1) by (auto simp: validateJSONStructure_def cat_def cat_opt_def intro: cat_intros split: sum.splits)

lemma cat_strictDecode [cat_intros]: "cat (strictDecode fs s r M)"
proof -
  have "cat (case decode_struct True fs v r of (Some JUnknownField, _) \<Rightarrow> Inl (newABIError ErrorUnknownField [])
      | (Some _, _) \<Rightarrow> Inl invalid_json | (None, x) \<Rightarrow> if skip_ws q = [] then Inr x else Inl invalid_json)" for v q
    by (cases "decode_struct True fs v r"; cases "fst (decode_struct True fs v r)")
      (auto intro: cat_intros split: json_error.splits)
  then show ?thesis unfolding strictDecode_def
    by (intro cat_intros) (auto intro: cat_intros split: option.splits)
qed

lemma cat_read [cat_intros]: "cat (read_payload fs zero required l payload)"
proof -
  have "cat_opt (requireJSONFields payload required)"
    by (auto simp: requireJSONFields_def cat_opt_def intro: cat_intros split: option.splits json.splits)
  then show ?thesis unfolding read_payload_def strictDecodeObject_def Let_def by (intro cat_intros)
qed

lemma cat_decodeBinary [cat_intros]: "cat (decodeBinary s f n)"
  unfolding decodeBinary_def by (intro cat_intros) (auto intro: cat_intros split: option.splits)
lemma cat_decodeAESInputs [cat_intros]: "cat (decodeAESInputs l k n a v b)"
  unfolding decodeAESInputs_def Let_def by (intro cat_intros)

lemma cat_newAESGCM [cat_intros]: "cat_opt (newAESGCM k)" and cat_validateRules [cat_intros]: "cat_opt (validateRules r m)"
  unfolding newAESGCM_def validateRules_def by (intro cat_intros)+

lemma cat_case_tuple: "(\<And>a b c d. cat (f a b c d)) \<Longrightarrow> cat (case x of (a, b, c, d) \<Rightarrow> f a b c d)"
  by (simp split: prod.split)

lemma cat_case_any: "(\<And>e. cat (f e)) \<Longrightarrow> (\<And>x. cat (g x)) \<Longrightarrow> cat (case r of Inl e \<Rightarrow> f e | Inr x \<Rightarrow> g x)"
  by (simp split: sum.split)

lemma cat_execute [cat_intros]: "cat (execute C l operation payload)"
proof -
  have "cat (normalize l payload)" "cat (validate_text l payload)" "cat (base64Encode l payload)" "cat (base64Decode l payload)"
    unfolding normalize_def validate_text_def base64Encode_def base64Decode_def Let_def by (intro cat_intros)+
  moreover have "cat (sha256_op C l payload)" "cat (hmacSHA256 C l payload)"
    unfolding sha256_op_def hmacSHA256_def by (intro cat_intros)+
  moreover have "cat (aesGCMEncrypt C l payload)" "cat (aesGCMDecrypt C l payload)"
    unfolding aesGCMEncrypt_def aesGCMDecrypt_def by (intro cat_case_tuple cat_intros cat_case_any)+
  ultimately show ?thesis unfolding execute_def by (intro cat_intros)
qed

lemma cat_opt_or_else [cat_intros]: "cat_opt a \<Longrightarrow> cat_opt b \<Longrightarrow> cat_opt (or_else a b)"
  by (cases a) (simp_all add: or_else_def)

lemma cat_capabilities [cat_intros]: "cat_opt (validate_capabilities seen cs)"
  by (induction seen cs rule: validate_capabilities.induct) (auto intro!: cat_intros)

lemma cat_opt_case_some: "(\<And>x. cat_opt (f x)) \<Longrightarrow> cat_opt (case m of None \<Rightarrow> None | Some x \<Rightarrow> f x)"
  by (simp add: cat_opt_None split: option.split)

lemma cat_opt_checks [cat_intros]: "cat_opt (validate_deadline m state)" "cat_opt (validate_cancellation l m state)"
  "cat_opt (validateIdentifier i n)"
  unfolding validate_deadline_def validate_cancellation_def validateIdentifier_def Let_def
  by (intro cat_opt_case_some cat_intros)+

lemma cat_validateRequest: "cat_opt (validateRequest d request state)"
  unfolding validateRequest_def Let_def by (intro cat_if cat_opt_if cat_opt_case_error cat_opt_case_some cat_intros)

subsection \<open>Sizes\<close>

lemma short_texts: "length last_resort \<le> 512"
  by code_simp

lemma encodeResponse_bounded:
  assumes "minimumResponseLimit \<le> MaxResponseBytes (disp_limits d)"
  shows "int (length (encodeResponse d r)) \<le> MaxResponseBytes (disp_limits d)"
  using assms short_texts by (auto simp: encodeResponse_def Let_def minimumResponseLimit_def)

lemma NewDispatcher_Inr:
  assumes "NewDispatcher l = Inr d"
  shows "disp_limits d = l" "minimumResponseLimit \<le> MaxResponseBytes l" "minimumBinaryLimit \<le> MaxBinaryBytes l" "0 < MaxJSONDepth l"
  using assms by (auto simp: NewDispatcher_def split: if_splits)

lemma result_json_not_Nil: "result_json r \<noteq> []"
  by (cases r) (simp_all add: json_object_def)

subsection \<open>Payloads\<close>

lemma ascii_append [simp]: "ascii_only (a @ b) \<longleftrightarrow> ascii_only a \<and> ascii_only b" and ascii_Cons [simp]: "ascii_only (c # a) \<longleftrightarrow> byte c < 0x80 \<and> ascii_only a"
  and ascii_Nil [simp]: "ascii_only []"
  by (simp_all add: ascii_only_def)

lemma hex_digit_ascii: "n < 16 \<Longrightarrow> byte (hex_digit n) < 0x80"
  by (drule less_16_cases) (auto simp: hex_digit_def)

lemma json_quote_ascii: "ascii_only s \<Longrightarrow> ascii_only (json_quote s)"
proof -
  have "ascii_only (esc_ascii c)" if "byte c < 0x80" for c
    using that hex_digit_ascii[of "byte c div 16"] hex_digit_ascii[of "byte c mod 16"] by (auto simp: esc_ascii_def)
  then have "ascii_only (json_escape s)" if "ascii_only s" for s
    using that by (induction s) (auto simp: json_escape_def rune_pieces_ascii)
  then show "ascii_only s \<Longrightarrow> ?thesis" by (simp add: json_quote_def)
qed

lemma std_ascii: "ascii_only (std_EncodeToString s)"
  by (auto simp: ascii_only_def list_all_iff std_EncodeToString_def dest: b64_encode_ascii)

lemma std_length: "length (std_EncodeToString s) = (length s + 2) div 3 * 4"
  unfolding std_EncodeToString_def
proof (induction std_alphabet True s rule: b64_encode.induct)
  case (4 a b c rest)
  have "(length (a # b # c # rest) + 2) div 3 = (length rest + 2) div 3 + 1"
    using div_add_self2[of 3 "length rest + 2"] by simp
  then show ?case using 4 by simp
qed simp_all

lemma decodeBinary_std:
  assumes "int (length x) \<le> n" "n < 2 ^ 60"
  shows "decodeBinary (std_EncodeToString x) field n = Inr x"
proof -
  have w: "wrap_int k = k" if "0 \<le> k" "k < 2 ^ 63" for k using that by (simp add: wrap_int_def sint_sbintrunc' signed_take_bit_int_eq_self)
  have "0 < n + 2" using assms(1) by linarith
  moreover have "n + 2 \<ge> 0" "(n + 2) div 3 * 4 < 2 ^ 63" "(n + 2) div 3 * 4 \<ge> 0" "n + 2 < 2 ^ 63" using assms by simp_all
  moreover have "(n + 2) sdiv 3 = (n + 2) div 3" using \<open>0 < n + 2\<close> by (simp add: signed_divide_int_def)
  ultimately have "EncodedLen n = (n + 2) div 3 * 4" using w by (simp add: EncodedLen_def)
  moreover have "(int (length x) + 2) div 3 \<le> (n + 2) div 3" using assms(1) by (intro zdiv_mono1) simp_all
  moreover have "int (length (std_EncodeToString x)) = (int (length x) + 2) div 3 * 4" by (simp add: std_length zdiv_int)
  moreover have "filter (\<lambda>c. \<not> is_newline c) (std_EncodeToString x) = std_EncodeToString x"
    by (auto simp: filter_id_conv std_EncodeToString_def dest: encode_no_newline[OF alphabets(1)])
  ultimately show ?thesis using assms(1) by (simp add: decodeBinary_def strict_DecodeString_def std64.decode_encode)
qed

definition aes_payload :: "string \<Rightarrow> string \<Rightarrow> string \<Rightarrow> string \<Rightarrow> string \<Rightarrow> string" where
  "aes_payload name k n a v = json_object [(''key'', json_quote k), (''nonce'', json_quote n), (''aad'', json_quote a), (name, json_quote v)]"

lemma json_quote_not_null: "TrimSpace (json_quote s) \<noteq> ''null''"
proof -
  have "TrimSpace (json_quote s) = json_quote s" by (rule TrimSpace_graphic) (simp_all add: json_quote_def graphic_def)
  then show ?thesis by (simp add: json_quote_def)
qed

text \<open>A payload object whose members are ASCII strings is read as the members decode.\<close>

lemma string_object_ascii:
  assumes "list_all (\<lambda>(k, v). ascii_only k \<and> ascii_only v) kvs"
  shows "json_parse (string_object kvs) = Some (JObject (string_members kvs))" "utf8_Valid (string_object kvs)"
proof -
  show "json_parse (string_object kvs) = Some (JObject (string_members kvs))"
    using assms by (intro string_object_parse) (auto simp: list_all_iff utf8_Valid_ascii)
  have "ascii_only (json_fields (map (\<lambda>(k, v). (k, json_quote v)) kvs))"
    using assms by (induction kvs rule: induct_list012) (auto simp: json_quote_ascii)
  then show "utf8_Valid (string_object kvs)" by (intro utf8_Valid_ascii) (simp add: string_object_def json_object_def)
qed

lemma read_strings_payload:
  assumes "list_all (\<lambda>(k, v). ascii_only k \<and> ascii_only v) kvs" "distinct (map fst kvs)" "2 \<le> MaxJSONDepth l"
    and "decode_struct True fs (JObject (string_members kvs)) zero = (None, r)" "set required \<subseteq> set (map fst kvs)"
  shows "read_payload fs zero required l (string_object kvs) = Inr r"
proof -
  note p = string_object_ascii[OF assms(1)]
  obtain d where d: "nat (MaxJSONDepth l) = Suc (Suc d)" using assms(3) by (metis add_2_eq_Suc le_Suc_ex nat_2 nat_mono numeral_2_eq_2)
  have "list_all (\<lambda>(k, raw, v). clean (Suc d) v) (string_members kvs)" by (auto simp: string_members_def list_all_iff)
  moreover have "map fst (string_members kvs) = map fst kvs" by (simp add: string_members_def case_prod_beta comp_def)
  ultimately have c: "clean (nat (MaxJSONDepth l)) (JObject (string_members kvs))" using assms(2) by (simp add: d)
  have t: "TrimSpace (string_object kvs) = string_object kvs"
    by (rule TrimSpace_graphic) (simp_all add: string_object_def json_object_def graphic_def)
  have "strictDecodeObject fs (string_object kvs) zero (MaxJSONDepth l) = Inr r"
    unfolding strictDecodeObject_def Let_def t
    using strictDecode_intro[OF p(2,1) c assms(4)] by (simp add: string_object_def json_object_def)
  moreover have "requireJSONFields (string_object kvs) required = None"
  proof -
    have "\<not> missing_field (string_members kvs) k" if k: "k \<in> set (map fst kvs)" for k
    proof -
      obtain raw where "map_of (rev (map (\<lambda>(k, raw, v). (k, raw)) (string_members kvs))) k = Some raw"
        using k by (cases "map_of (rev (map (\<lambda>(k, raw, v). (k, raw)) (string_members kvs))) k")
          (force simp: map_of_eq_None_iff string_members_def)+
      moreover from map_of_SomeD[OF this] obtain v where "raw = json_quote v" by (auto simp: string_members_def)
      ultimately have "\<exists>v. member_text (string_members kvs) k = Some (json_quote v)" by (auto simp: member_text_def)
      then show ?thesis by (auto simp: missing_field_def json_quote_not_null)
    qed
    then have "find (missing_field (string_members kvs)) required = None" using assms(5) unfolding find_None_iff by blast
    then show ?thesis by (simp add: requireJSONFields_def p(1))
  qed
  ultimately show ?thesis by (simp add: read_payload_def)
qed

lemma aes_payload_strings: "aes_payload name k n a v = string_object [(''key'', k), (''nonce'', n), (''aad'', a), (name, v)]"
  by (simp add: aes_payload_def string_object_def)

lemma read_aes_payload:
  assumes "name = ''plaintext'' \<or> name = ''ciphertext''" "2 \<le> MaxJSONDepth l"
    and "ascii_only k" "ascii_only n" "ascii_only a" "ascii_only v"
  shows "read_payload (aes_fields name) zero_aes [''key'', ''nonce'', ''aad'', name] l (aes_payload name k n a v)
    = Inr \<lparr>ap_Key = k, ap_Nonce = n, ap_AAD = a, ap_Value = v\<rparr>"
  unfolding aes_payload_strings using assms
  by (intro read_strings_payload)
    (auto simp: string_members_def decode_struct_def aes_fields_def lookup_field_def string_field_def zero_aes_def)

text \<open>What the documentation of \<^verbatim>\<open>crypto/cipher\<close> says of the size of a GCM ciphertext: the tag is appended.\<close>

definition gcm_size_law :: "('t, 'm) crypto_scheme \<Rightarrow> bool" where
  "gcm_size_law C \<longleftrightarrow> (\<forall>key nonce plain aad. length (gcm_Seal C key nonce plain aad) = length plain + 16)"

subsection \<open>Properties\<close>

definition no_state :: ExecutionState where
  "no_state = \<lparr>ClockChecked = False, NowUnixMilliseconds = 0, CancellationChecked = False, es_CancellationToken = [], CancellationRequested = False\<rparr>"

text \<open>
  C20: Every answer of a dispatcher fits into its response limit, whatever the request, the payload and the error, including a
  duplicate field name that is itself too long to report.\<close>
theorem dispatch_bounded:
  assumes "NewDispatcher l = Inr d"
  shows "int (length (DispatchJSON C d encoded state)) \<le> MaxResponseBytes l"
  using encodeResponse_bounded[of d] NewDispatcher_Inr[OF assms] by (auto simp: DispatchJSON_def split: sum.split)

theorem dispatch_bounded_witness:
  "\<exists>d. NewDispatcher DefaultLimits = Inr d \<and> int (length (DispatchJSON toy_crypto d ''{}'' no_state)) \<le> 2 ^ 20"
proof -
  have "NewDispatcher DefaultLimits = Inr \<lparr>disp_limits = DefaultLimits\<rparr>"
    by (simp add: NewDispatcher_def DefaultLimits_def minimumResponseLimit_def minimumBinaryLimit_def)
  from dispatch_bounded[OF this, of toy_crypto "''{}''" no_state] this show ?thesis by (auto simp: DefaultLimits_def)
qed

text \<open>
  C21: The shape of a response: the ABI version, the request's id or none, and exactly one of a result and an error, where the
  error is an entry of the catalogue the manifest publishes.\<close>
theorem response_shape:
  "let r = Dispatch C d request state in
     resp_ABI r = ABIVersion \<and> resp_ID r \<in> {[], req_ID request}
     \<and> (case resp_Error r of None \<Rightarrow> resp_OK r \<and> resp_Result r \<noteq> []
        | Some e \<Rightarrow> \<not> resp_OK r \<and> resp_Result r = [] \<and> catalogued e)"
proof -
  have "catalogued e" if "validateRequest d request state = Some e" for e
    using that cat_validateRequest by (auto simp: cat_opt_def)
  moreover have "catalogued e" if "execute C (disp_limits d) (req_Operation request) (req_Payload request) = Inl e" for e
    using that cat_execute by (metis cat_def)
  ultimately show ?thesis
    by (auto simp: Dispatch_def Let_def errorResponse_def safeResponseID_def result_json_not_Nil split: option.split sum.split)
qed

text \<open>
  C22: Controls fail closed: if a request was executed, each capability it requires is supported and named once, and a deadline
  or a cancellation token it carries was checked by the host against the same token and did not forbid the call.\<close>
theorem controls_fail_closed:
  assumes "resp_OK (Dispatch C d request state)" "req_Metadata request = Some m"
  shows "distinct (RequiredCapabilities m) \<and> list_all supportsCapability (RequiredCapabilities m)
    \<and> (\<forall>deadline. DeadlineUnixMilliseconds m = Some deadline \<longrightarrow> ClockChecked state \<and> NowUnixMilliseconds state < deadline)
    \<and> (md_CancellationToken m \<noteq> [] \<longrightarrow> CancellationChecked state \<and> es_CancellationToken state = md_CancellationToken m
         \<and> \<not> CancellationRequested state)"
proof -
  have v: "validateRequest d request state = None"
    using assms(1) by (auto simp: Dispatch_def Let_def errorResponse_def split: option.splits)
  have caps: "validate_capabilities seen cs = None \<Longrightarrow> distinct cs \<and> set cs \<inter> set seen = {} \<and> list_all supportsCapability cs" for seen cs
    by (induction seen cs rule: validate_capabilities.induct) (auto split: if_splits)
  have "validate_capabilities [] (RequiredCapabilities m) = None" "validate_deadline m state = None"
    "validate_cancellation (disp_limits d) m state = None"
    using v assms(2) by (auto simp: validateRequest_def Let_def or_else_def split: if_splits option.splits)
  then show ?thesis using caps[of "[]"]
    by (auto simp: validate_deadline_def validate_cancellation_def Let_def split: if_splits)
qed

theorem controls_fail_closed_witness:
  "let m = \<lparr>DeadlineUnixMilliseconds = Some 2000, md_CancellationToken = ''call-7'', RequiredCapabilities = [''encoding.base64'']\<rparr>;
     request = \<lparr>req_ABI = ABIVersion, req_ID = ''7'', req_Operation = OperationBase64Encode, req_Metadata = Some m,
       req_Payload = string_object [(''text'', ''a'')]\<rparr>;
     state = \<lparr>ClockChecked = True, NowUnixMilliseconds = 1999, CancellationChecked = True, es_CancellationToken = ''call-7'',
       CancellationRequested = False\<rparr>
   in resp_OK (Dispatch toy_crypto \<lparr>disp_limits = DefaultLimits\<rparr> request state) \<and> \<not> CancellationRequested state"
proof -
  let ?m = "\<lparr>DeadlineUnixMilliseconds = Some 2000, md_CancellationToken = ''call-7'', RequiredCapabilities = [''encoding.base64'']\<rparr>"
  let ?r = "\<lparr>req_ABI = ABIVersion, req_ID = ''7'', req_Operation = OperationBase64Encode, req_Metadata = Some ?m,
    req_Payload = string_object [(''text'', ''a'')]\<rparr>"
  let ?s = "\<lparr>ClockChecked = True, NowUnixMilliseconds = 1999, CancellationChecked = True, es_CancellationToken = ''call-7'',
    CancellationRequested = False\<rparr>"
  have r: "runes ''7'' = [55]" "runes ''call-7'' = [99, 97, 108, 108, 45, 55]"
    "runes ''encoding.base64'' = [101, 110, 99, 111, 100, 105, 110, 103, 46, 98, 97, 115, 101, 54, 52]"
    by (simp_all add: runes_def rune_pieces_ascii)
  have u: "utf8_Valid ''a''" "utf8_Valid ''7''" "utf8_Valid ''call-7''" by (simp_all add: utf8_Valid_ascii)
  have "validateIdentifier ''7'' (MaxIDBytes DefaultLimits) = None"
    by (simp add: validateIdentifier_def plain_text_def r u IsControl_def DefaultLimits_def)
  moreover have "validate_capabilities [] [''encoding.base64''] = None"
    by (simp add: validateCapabilityName_def r capability_rune_def supportsCapability_def)
  moreover have "validate_deadline ?m ?s = None" by (simp add: validate_deadline_def)
  moreover have "validate_cancellation DefaultLimits ?m ?s = None"
    by (simp add: validate_cancellation_def validateToken_def plain_text_def r u IsControl_def DefaultLimits_def)
  moreover have "string_object [(''text'', ''a'')] \<noteq> []" by (simp add: string_object_def json_object_def)
  ultimately have v: "validateRequest \<lparr>disp_limits = DefaultLimits\<rparr> ?r ?s = None"
    by (simp add: validateRequest_def or_else_def isKnownOperation_def DefaultLimits_def)
  have "read_payload [string_field ''text'' (\<lambda>x _. x)] [] [''text''] DefaultLimits (string_object [(''text'', ''a'')]) = Inr ''a''"
    by (rule read_strings_payload)
      (simp_all add: string_members_def decode_struct_def lookup_field_def string_field_def DefaultLimits_def)
  then have "base64Encode DefaultLimits (string_object [(''text'', ''a'')]) = Inr (Base64EncodeResult (encodeBinary ''a''))"
    using u(1) by (simp add: base64Encode_def DefaultLimits_def)
  then have ok: "resp_OK (Dispatch toy_crypto \<lparr>disp_limits = DefaultLimits\<rparr> ?r ?s)"
    using v by (simp add: Dispatch_def execute_def operation_defs)
  from controls_fail_closed[OF ok, of ?m] ok show ?thesis by simp
qed

text \<open>
  AES-GCM through the JSON interface: every plaintext within the limits is encrypted, and the ciphertext that comes back,
  put into a decryption payload with the same key, nonce and additional data, gives the same plaintext; the limit for
  plaintexts leaves just the room for the tag.\<close>
theorem abi_AES_roundtrip:
  assumes "gcm_law C" "gcm_size_law C" "2 \<le> MaxJSONDepth l" "32 \<le> MaxBinaryBytes l" "MaxBinaryBytes l < 2 ^ 60"
    and "length key \<in> {16, 24, 32}" "length nonce = 12" "int (length aad) \<le> MaxBinaryBytes l"
    and "int (length plain) + 16 \<le> MaxBinaryBytes l"
  shows "\<exists>c. execute C l OperationAESGCMEncrypt (aes_payload ''plaintext'' (std_EncodeToString key) (std_EncodeToString nonce)
        (std_EncodeToString aad) (std_EncodeToString plain)) = Inr (AESGCMEncryptResult c)
    \<and> execute C l OperationAESGCMDecrypt (aes_payload ''ciphertext'' (std_EncodeToString key) (std_EncodeToString nonce)
        (std_EncodeToString aad) c) = Inr (AESGCMDecryptResult (std_EncodeToString plain))"
proof -
  let ?c = "gcm_Seal C key nonce plain aad"
  have sizes: "int (length key) \<le> MaxBinaryBytes l" "int (length nonce) \<le> MaxBinaryBytes l"
    "int (length plain) \<le> max 0 (MaxBinaryBytes l - 16)" "max 0 (MaxBinaryBytes l - 16) < 2 ^ 60"
    "int (length ?c) \<le> MaxBinaryBytes l" "16 \<le> length ?c"
    using assms by (auto simp: gcm_size_law_def)
  note dec = decodeBinary_std[OF sizes(1) assms(5)] decodeBinary_std[OF sizes(2) assms(5)] decodeBinary_std[OF assms(8,5)]
    decodeBinary_std[OF sizes(3,4)] decodeBinary_std[OF sizes(5) assms(5)]
  have e: "decodeAESInputs l (std_EncodeToString key) (std_EncodeToString nonce) (std_EncodeToString aad) (std_EncodeToString plain) False
      = Inr (key, nonce, aad, plain)"
    "decodeAESInputs l (std_EncodeToString key) (std_EncodeToString nonce) (std_EncodeToString aad) (std_EncodeToString ?c) True
      = Inr (key, nonce, aad, ?c)"
    using assms(6,7) sizes(6) by (auto simp: decodeAESInputs_def dec Let_def aesGCMNonceBytes_def aesGCMTagBytes_def)
  have g: "newAESGCM key = None" "gcm_Open C key nonce ?c aad = Inr plain"
    using assms(1,6,7) by (auto simp: newAESGCM_def aes_NewCipher_def gcm_law_def gcm_NonceSize_def)
  have "aesGCMEncrypt C l (aes_payload ''plaintext'' (std_EncodeToString key) (std_EncodeToString nonce)
        (std_EncodeToString aad) (std_EncodeToString plain)) = Inr (AESGCMEncryptResult (std_EncodeToString ?c))"
    unfolding aesGCMEncrypt_def
    by (subst read_aes_payload[OF _ assms(3)]) (simp_all add: std_ascii e g encodeBinary_def)
  moreover have "aesGCMDecrypt C l (aes_payload ''ciphertext'' (std_EncodeToString key) (std_EncodeToString nonce)
        (std_EncodeToString aad) (std_EncodeToString ?c)) = Inr (AESGCMDecryptResult (std_EncodeToString plain))"
    unfolding aesGCMDecrypt_def
    by (subst read_aes_payload[OF _ assms(3)]) (simp_all add: std_ascii e g encodeBinary_def)
  ultimately show ?thesis by (simp add: execute_def operation_defs)
qed

theorem abi_AES_roundtrip_witness:
  "\<exists>c. execute toy_crypto DefaultLimits OperationAESGCMEncrypt (aes_payload ''plaintext'' (std_EncodeToString (replicate 16 (CHR ''k'')))
      (std_EncodeToString (replicate 12 (CHR ''n''))) (std_EncodeToString ''ad'') (std_EncodeToString ''secret'')) = Inr (AESGCMEncryptResult c)
    \<and> execute toy_crypto DefaultLimits OperationAESGCMDecrypt (aes_payload ''ciphertext'' (std_EncodeToString (replicate 16 (CHR ''k'')))
      (std_EncodeToString (replicate 12 (CHR ''n''))) (std_EncodeToString ''ad'') c) = Inr (AESGCMDecryptResult (std_EncodeToString ''secret''))"
  by (rule abi_AES_roundtrip[OF toy_laws(2)]) (simp_all add: gcm_size_law_def toy_crypto_def DefaultLimits_def)

text \<open>
  C23: Names are compared without regard to case when a struct is filled, but with regard to case when duplicates are looked
  for. So a request with any first \<open>abi\<close> and a second \<open>ABI\<close> that names the right version is decoded as a request of that version.\<close>
theorem case_variant_accepted:
  assumes "ascii_only version" "ascii_only i" "ascii_only operation" "2 \<le> MaxJSONDepth (disp_limits d)"
  shows "decode_request d (json_object [(''abi'', json_quote version), (''ABI'', json_quote ABIVersion), (''id'', json_quote i),
      (''operation'', json_quote operation), (''payload'', json_object [])])
    = Inr \<lparr>req_ABI = ABIVersion, req_ID = i, req_Operation = operation, req_Metadata = None, req_Payload = json_object []\<rparr>"
    (is "decode_request d ?s = Inr ?r")
proof -
  let ?xs = "[(''abi'', json_quote version, JString version), (''ABI'', json_quote ABIVersion, JString ABIVersion),
    (''id'', json_quote i, JString i), (''operation'', json_quote operation, JString operation), (''payload'', json_object [], JObject [])]"
  let ?b = "\<lparr>rb_ABI = ABIVersion, rb_ID = i, rb_Operation = operation, rb_Metadata = None, rb_Payload = json_object []\<rparr>"
  have ascii: "ascii_only ''abi''" "ascii_only ''ABI''" "ascii_only ''id''" "ascii_only ''operation''" "ascii_only ''payload''"
    "ascii_only ABIVersion" by (simp_all add: ABIVersion_def)
  have "reads 1 9999 (json_object []) (JObject [])" using reads_object[of "[]" 0 9998] by simp
  then have "json_parse (json_object (map (\<lambda>(k, tx, v). (k, tx)) ?xs)) = Some (JObject ?xs)"
    using assms(1-3) ascii by (intro json_parse_object[where n = 1]) (auto intro: reads_quote utf8_Valid_ascii)
  then have p: "json_parse ?s = Some (JObject ?xs)" by simp
  have v: "utf8_Valid ?s" using assms(1-3) ascii by (intro utf8_Valid_ascii) (simp add: json_object_def json_quote_ascii)
  obtain k where k: "nat (MaxJSONDepth (disp_limits d)) = Suc (Suc k)"
    using assms(4) by (metis add_2_eq_Suc le_Suc_ex nat_2 nat_mono numeral_2_eq_2)
  have c: "clean (nat (MaxJSONDepth (disp_limits d))) (JObject ?xs)" by (simp add: k)
  have n: "foldName ''abi'' = foldName ''ABI''" by code_simp
  have f: "decode_struct True request_fields (JObject ?xs) zero_request = (None, ?b)"
    by (simp add: decode_struct_def request_fields_def lookup_field_def string_field_def raw_field_def metadata_field_def zero_request_def n)
  have t: "TrimSpace ?s = ?s" by (rule TrimSpace_graphic) (simp_all add: json_object_def graphic_def)
  have "strictDecodeObject request_fields ?s zero_request (MaxJSONDepth (disp_limits d)) = Inr ?b"
    unfolding strictDecodeObject_def Let_def t using strictDecode_intro[OF v p c f] by (simp add: json_object_def)
  then show ?thesis by (simp add: decode_request_def request_of_def)
qed

theorem case_variant_accepted_witness:
  "\<exists>d. NewDispatcher DefaultLimits = Inr d \<and> (\<exists>r. decode_request d (json_object [(''abi'', json_quote ''other''), (''ABI'', json_quote ABIVersion),
      (''id'', json_quote ''1''), (''operation'', json_quote ''text.normalize''), (''payload'', json_object [])]) = Inr r \<and> req_ABI r = ABIVersion)"
proof -
  have n: "NewDispatcher DefaultLimits = Inr \<lparr>disp_limits = DefaultLimits\<rparr>"
    by (simp add: NewDispatcher_def DefaultLimits_def minimumResponseLimit_def minimumBinaryLimit_def)
  show ?thesis
    using case_variant_accepted[of "''other''" "''1''" "''text.normalize''" "\<lparr>disp_limits = DefaultLimits\<rparr>"] n
    by (auto simp: DefaultLimits_def)
qed

end
