(* ===== verification/Spec2Isabelle.thy ===== *)
theory Spec2Isabelle
  imports Prelude Workers Go_Strings Base64 Utf8 Json Asn1 Pkcs11_Uri Pkcs11_Types Pkcs11_Session Pkcs11_Rules
    Encrypt_Utilities Encrypt_Local Kms_Strings Aws_Kms Aws_Guarantees Gcp_Kms Gcp_Guarantees Go_Errors Go_Os Pem_Atomic Pem_Guarantees Float64 Jwt Jwt_Guarantees Cookies Jwt_Middlewares Jwt_Interceptors Middleware_Guarantees Pkcs11_Keys Pkcs11_Repository Pkcs11_Guarantees Jobs_Cron Jobs Portable_Abi Strict_Json Strict_Json_Termination Portable_Operations Portable_Dispatcher Portable_Guarantees
begin

text \<open>
  Verification of forge-go, a Go toolkit for services.
\<close>

end
